(* ===== verification/Prelude.thy ===== *)
theory Prelude
  imports Complex_Main "HOL-Library.AList" "HOL-Library.Char_ord"
    "HOL-Library.List_Lexorder" "HOL-Library.Sublist"
begin

text \<open>
  Shared vocabulary of the development: the collections the component theories feed
  (\<open>py_simps\<close> for evaluation rules of the Python layer, \<open>inv_intros\<close> for
  preservation lemmas), the Python string operations the backend uses, dictionaries as
  association lists in insertion order, and the generic list lemmas the components share.
  Text is a \<^typ>\<open>string\<close>; case mapping is the ASCII one (\<open>str.lower\<close>,
  \<open>str.upper\<close> and \<open>str.casefold\<close> agree with Python on ASCII text, and leave
  every other byte alone).
\<close>

named_theorems py_simps \<open>evaluation rules of the Python layer\<close>
named_theorems inv_intros \<open>preservation of component invariants\<close>

type_synonym 'v dict = "(string \<times> 'v) list"

section \<open>Python strings\<close>

definition char_lower :: "char \<Rightarrow> char" where
  "char_lower c = (if of_char c \<ge> (65::nat) \<and> of_char c \<le> (90::nat)
     then char_of (of_char c + (32::nat)) else c)"

definition char_upper :: "char \<Rightarrow> char" where
  "char_upper c = (if of_char c \<ge> (97::nat) \<and> of_char c \<le> (122::nat)
     then char_of (of_char c - (32::nat)) else c)"

definition str_lower :: "string \<Rightarrow> string" where
  "str_lower s = map char_lower s"

definition str_upper :: "string \<Rightarrow> string" where
  "str_upper s = map char_upper s"

definition is_digit :: "char \<Rightarrow> bool" where
  "is_digit c \<longleftrightarrow> of_char c \<ge> (48::nat) \<and> of_char c \<le> (57::nat)"

definition digit_val :: "char \<Rightarrow> nat" where
  "digit_val c = of_char c - 48"

definition digit_char :: "nat \<Rightarrow> char" where
  "digit_char d = char_of (48 + d)"

definition is_space :: "char \<Rightarrow> bool" where
  "is_space c \<longleftrightarrow> (let n = (of_char c :: nat) in
     (9 \<le> n \<and> n \<le> 13) \<or> (28 \<le> n \<and> n \<le> 32) \<or> n = 133 \<or> n = 160)"

definition str_lstrip :: "string \<Rightarrow> string" where
  "str_lstrip s = dropWhile is_space s"

definition str_strip :: "string \<Rightarrow> string" where
  "str_strip s = rev (dropWhile is_space (rev (dropWhile is_space s)))"

text \<open>\<open>s.split(c)\<close> for a one-character separator: never the empty list.\<close>

fun split_on :: "char \<Rightarrow> string \<Rightarrow> string list" where
  "split_on c [] = [[]]"
| "split_on c (x # xs) =
     (if x = c then [] # split_on c xs
      else (case split_on c xs of [] \<Rightarrow> [[x]] | p # ps \<Rightarrow> (x # p) # ps))"

fun str_join :: "string \<Rightarrow> string list \<Rightarrow> string" where
  "str_join sep [] = []"
| "str_join sep [s] = s"
| "str_join sep (s # t # ts) = s @ sep @ str_join sep (t # ts)"

fun str_contains :: "string \<Rightarrow> string \<Rightarrow> bool" where
  "str_contains [] sub \<longleftrightarrow> sub = []"
| "str_contains (x # xs) sub \<longleftrightarrow> prefix sub (x # xs) \<or> str_contains xs sub"

lemma str_contains_sublist: "str_contains s sub \<longleftrightarrow> sublist sub s"
  by (induction s) (auto simp: sublist_Cons_right)

text \<open>Decimal text of numbers, as \<open>str(int)\<close> renders it.\<close>

fun show_nat :: "nat \<Rightarrow> string" where
  "show_nat n = (if n < 10 then [digit_char n] else show_nat (n div 10) @ [digit_char (n mod 10)])"

declare show_nat.simps [simp del]

definition show_int :: "int \<Rightarrow> string" where
  "show_int i = (if i < 0 then ''-'' @ show_nat (nat (- i)) else show_nat (nat i))"

definition read_digits :: "string \<Rightarrow> nat" where
  "read_digits s = foldl (\<lambda>n c. 10 * n + digit_val c) 0 s"

text \<open>\<open>f"{n:06d}"\<close> and its kin: pad with zeros on the left, never truncate.\<close>

definition zero_pad :: "nat \<Rightarrow> string \<Rightarrow> string" where
  "zero_pad w s = replicate (w - length s) (CHR ''0'') @ s"

lemma split_on_nonempty [simp]: "split_on c s \<noteq> []"
  by (cases s) (auto split: list.splits)

lemma join_split_on [simp]: "str_join [c] (split_on c s) = s"
proof (induction s)
  case (Cons x xs)
  obtain p ps where ps: "split_on c xs = p # ps" by (cases "split_on c xs") auto
  with Cons show ?case by (cases ps) auto
qed simp

lemma split_on_no_sep: "p \<in> set (split_on c s) \<Longrightarrow> c \<notin> set p"
  by (induction s arbitrary: p) (fastforce split: if_splits list.splits)+

lemma digit_char_inv [simp]: "d < 10 \<Longrightarrow> digit_val (digit_char d) = d"
  by (simp add: digit_val_def digit_char_def)

lemma is_digit_char [simp]: "d < 10 \<Longrightarrow> is_digit (digit_char d)"
  by (simp add: is_digit_def digit_char_def)

lemma read_digits_snoc [simp]: "read_digits (s @ [c]) = 10 * read_digits s + digit_val c"
  by (simp add: read_digits_def)

lemma show_nat_digits: "c \<in> set (show_nat n) \<Longrightarrow> is_digit c"
proof (induction n arbitrary: c rule: show_nat.induct)
  case (1 n)
  show ?case
  proof (cases "n < 10")
    case True
    with 1 show ?thesis by (simp add: show_nat.simps [of n])
  next
    case False
    with 1 show ?thesis by (auto simp: show_nat.simps [of n])
  qed
qed

lemma read_show_nat [simp]: "read_digits (show_nat n) = n"
proof (induction n rule: show_nat.induct)
  case (1 n)
  show ?case
  proof (cases "n < 10")
    case True
    then show ?thesis by (simp add: show_nat.simps [of n] read_digits_def)
  next
    case False
    with 1 show ?thesis by (simp add: show_nat.simps [of n])
  qed
qed

lemma show_nat_inj: "show_nat m = show_nat n \<Longrightarrow> m = n"
  using read_show_nat by metis

lemma read_digits_zeros [simp]: "read_digits (replicate k (CHR ''0'') @ s) = read_digits s"
  by (induction k) (auto simp: read_digits_def digit_val_def)

lemma zero_pad_inj: "zero_pad w (show_nat m) = zero_pad w (show_nat n) \<Longrightarrow> m = n"
  using read_digits_zeros read_show_nat unfolding zero_pad_def by metis

lemma length_zero_pad: "length (zero_pad w s) = max w (length s)"
  by (simp add: zero_pad_def)

lemma sep_inject: "c \<notin> set a \<Longrightarrow> c \<notin> set b \<Longrightarrow> a @ c # x = b @ c # y \<longleftrightarrow> a = b \<and> x = y"
proof (induction a arbitrary: b)
  case Nil
  thus ?case by (cases b) auto
next
  case (Cons d a)
  thus ?case by (cases b) auto
qed

lemma minus_notin_show_nat: "CHR ''-'' \<notin> set (show_nat n)"
  using show_nat_digits [of "CHR ''-''" n] by (auto simp: is_digit_def)

lemma show_int_inj: "show_int i = show_int j \<Longrightarrow> i = j"
proof -
  have "show_nat n \<noteq> ''-'' @ show_nat m" for m n using minus_notin_show_nat [of n] by auto
  moreover assume "show_int i = show_int j"
  ultimately show ?thesis
    unfolding show_int_def by (auto split: if_splits dest: show_nat_inj) metis+
qed

lemma colon_notin_show_int: "CHR '':'' \<notin> set (show_int i)"
  using show_nat_digits [of "CHR '':''"] by (auto simp: show_int_def is_digit_def)

section \<open>Dictionaries\<close>

abbreviation dict_get :: "'v dict \<Rightarrow> string \<Rightarrow> 'v option" where
  "dict_get d k \<equiv> map_of d k"

abbreviation dict_set :: "string \<Rightarrow> 'v \<Rightarrow> 'v dict \<Rightarrow> 'v dict" where
  "dict_set \<equiv> AList.update"

text \<open>\<open>{**a, **b}\<close>: the keys of \<open>a\<close> keep their place, the values of \<open>b\<close> win.\<close>

definition dict_merge :: "'v dict \<Rightarrow> 'v dict \<Rightarrow> 'v dict" where
  "dict_merge a b = fold (\<lambda>(k, v) d. dict_set k v d) b a"

lemma dict_get_set: "dict_get (dict_set k v d) k' = (if k' = k then Some v else dict_get d k')"
  by (simp add: update_conv')

lemma dict_merge_get:
  "distinct (map fst b) \<Longrightarrow>
   dict_get (dict_merge a b) k = (case dict_get b k of Some v \<Rightarrow> Some v | None \<Rightarrow> dict_get a k)"
proof (induction b arbitrary: a)
  case (Cons p b)
  obtain k' v' where p: "p = (k', v')" by (cases p)
  have notin: "k' \<notin> fst ` set b" using Cons.prems p by simp
  hence "map_of b k' = None" by (simp add: map_of_eq_None_iff)
  moreover have "dict_get (dict_merge (dict_set k' v' a) b) k
      = (case dict_get b k of Some v \<Rightarrow> Some v | None \<Rightarrow> dict_get (dict_set k' v' a) k)"
    using Cons by simp
  ultimately show ?case
    by (auto simp: dict_merge_def p dict_get_set split: option.splits)
qed (simp add: dict_merge_def)

section \<open>Lists\<close>

text \<open>\<open>xs[-n:]\<close>: the last \<open>n\<close> elements.\<close>

definition take_last :: "nat \<Rightarrow> 'a list \<Rightarrow> 'a list" where
  "take_last n xs = drop (length xs - n) xs"

lemma length_take_last [simp]: "length (take_last n xs) = min n (length xs)"
  by (simp add: take_last_def)

lemma set_take_last: "set (take_last n xs) \<subseteq> set xs"
  by (simp add: take_last_def set_drop_subset)

lemma take_last_append_suffix: "suffix (take_last n xs) xs"
  by (simp add: take_last_def suffix_drop)

text \<open>\<open>list(dict.fromkeys(xs))\<close>: first occurrences, in order.\<close>

fun dedup_aux :: "'a list \<Rightarrow> 'a list \<Rightarrow> 'a list" where
  "dedup_aux seen [] = rev seen"
| "dedup_aux seen (x # xs) = (if x \<in> set seen then dedup_aux seen xs else dedup_aux (x # seen) xs)"

definition dict_fromkeys :: "'a list \<Rightarrow> 'a list" where
  "dict_fromkeys xs = dedup_aux [] xs"

lemma set_dedup_aux: "set (dedup_aux seen xs) = set seen \<union> set xs"
  by (induction seen xs rule: dedup_aux.induct) auto

lemma distinct_dedup_aux: "distinct seen \<Longrightarrow> distinct (dedup_aux seen xs)"
  by (induction seen xs rule: dedup_aux.induct) auto

lemma set_dict_fromkeys [simp]: "set (dict_fromkeys xs) = set xs"
  by (simp add: dict_fromkeys_def set_dedup_aux)

lemma distinct_dict_fromkeys [simp]: "distinct (dict_fromkeys xs)"
  by (simp add: dict_fromkeys_def distinct_dedup_aux)

text \<open>Replacing the rows of a table that satisfy a test.\<close>

definition update_rows :: "('a \<Rightarrow> bool) \<Rightarrow> ('a \<Rightarrow> 'a) \<Rightarrow> 'a list \<Rightarrow> 'a list" where
  "update_rows p f xs = map (\<lambda>x. if p x then f x else x) xs"

lemma length_update_rows [simp]: "length (update_rows p f xs) = length xs"
  by (simp add: update_rows_def)

lemma set_update_rows: "set (update_rows p f xs) = {if p x then f x else x |x. x \<in> set xs}"
  by (auto simp: update_rows_def)

lemma map_update_rows: "(\<And>x. g (f x) = g x) \<Longrightarrow> map g (update_rows p f xs) = map g xs"
  by (auto simp: update_rows_def)

lemma update_rows_absent: "k \<notin> key ` set xs \<Longrightarrow> update_rows (\<lambda>x. key x = k) f xs = xs"
  by (induction xs) (auto simp: update_rows_def)

lemma update_rows_last:
  assumes "key a \<notin> key ` set xs" "key b = key a"
  shows "update_rows (\<lambda>x. key x = key b) (\<lambda>_. b) (xs @ [a]) = xs @ [b]"
  using assms update_rows_absent [of "key a" key xs "\<lambda>_. b"] by (simp add: update_rows_def)

lemma sum_update_row:
  fixes f :: "'x \<Rightarrow> int"
  assumes "distinct (map key xs)" "a \<in> set xs" "key a' = key a"
  shows "(\<Sum>x\<leftarrow>update_rows (\<lambda>x. key x = key a') (\<lambda>_. a') xs. f x) = (\<Sum>x\<leftarrow>xs. f x) + f a' - f a"
  using assms
proof (induction xs)
  case (Cons x xs)
  show ?case
  proof (cases "x = a")
    case True
    hence "key a' \<notin> key ` set xs" using Cons.prems by auto
    thus ?thesis using True Cons.prems(3) update_rows_absent [of "key a'" key xs "\<lambda>_. a'"]
      by (simp add: update_rows_def)
  next
    case False
    hence "key x \<noteq> key a" using Cons.prems by (auto simp: image_iff)
    thus ?thesis using Cons False by (simp add: update_rows_def)
  qed
qed simp

lemma find_Some_mem: "find p xs = Some x \<Longrightarrow> x \<in> set xs \<and> p x"
  by (induction xs) (auto split: if_splits)

lemma find_None_all: "find p xs = None \<longleftrightarrow> (\<forall>x\<in>set xs. \<not> p x)"
  by (induction xs) auto

lemma case_option_ex: "(case x of None \<Rightarrow> False | Some y \<Rightarrow> P y) \<longleftrightarrow> (\<exists>y. x = Some y \<and> P y)"
  by (cases x) auto

section \<open>Results\<close>

text \<open>A computation that may raise is a value of \<open>'e + 'a\<close>, \<open>Inl\<close> the exception.\<close>

definition bind_res :: "'e + 'a \<Rightarrow> ('a \<Rightarrow> 'e + 'b) \<Rightarrow> 'e + 'b" where
  "bind_res r f = (case r of Inl e \<Rightarrow> Inl e | Inr x \<Rightarrow> f x)"

lemma bind_res_simps [simp]: "bind_res (Inl e) f = Inl e" "bind_res (Inr x) f = f x"
  by (simp_all add: bind_res_def)

lemma bind_res_Inr: "bind_res r f = Inr y \<longleftrightarrow> (\<exists>x. r = Inr x \<and> f x = Inr y)"
  by (cases r) auto

lemma bind_res_split:
  "P (bind_res r f) \<longleftrightarrow> ((\<forall>e. r = Inl e \<longrightarrow> P (Inl e)) \<and> (\<forall>x. r = Inr x \<longrightarrow> P (f x)))"
  by (cases r) auto

lemma bind_res_split_asm:
  "P (bind_res r f) \<longleftrightarrow> \<not> ((\<exists>e. r = Inl e \<and> \<not> P (Inl e)) \<or> (\<exists>x. r = Inr x \<and> \<not> P (f x)))"
  by (cases r) auto

lemmas bind_res_splits = bind_res_split bind_res_split_asm

lemma bind_res_cong [fundef_cong]:
  "r = r' \<Longrightarrow> (\<And>x. r' = Inr x \<Longrightarrow> f x = g x) \<Longrightarrow> bind_res r f = bind_res r' g"
  by (cases r) auto

text \<open>A list comprehension whose element expression may raise.\<close>

fun map_res :: "('a \<Rightarrow> 'e + 'b) \<Rightarrow> 'a list \<Rightarrow> 'e + 'b list" where
  "map_res f [] = Inr []"
| "map_res f (x # xs) = bind_res (f x) (\<lambda>y. bind_res (map_res f xs) (\<lambda>ys. Inr (y # ys)))"

lemma map_res_cong [fundef_cong]:
  "xs = ys \<Longrightarrow> (\<And>y. y \<in> set ys \<Longrightarrow> f y = g y) \<Longrightarrow> map_res f xs = map_res g ys"
  by (induction xs arbitrary: ys) (auto simp: bind_res_def split: sum.splits)

lemma map_res_Inr: "map_res f xs = Inr ys \<longleftrightarrow> list_all2 (\<lambda>x y. f x = Inr y) xs ys"
proof (induction xs arbitrary: ys)
  case (Cons x xs)
  show ?case by (cases ys) (auto simp: bind_res_Inr Cons)
qed auto

lemma map_res_ex: "(\<exists>ys. map_res f xs = Inr ys) \<longleftrightarrow> (\<forall>x \<in> set xs. \<exists>y. f x = Inr y)"
  by (induction xs) (auto simp: bind_res_Inr)

text \<open>The column checks on optional values compute.\<close>

lemma pred_option_code [code]: "pred_option P None = True" "pred_option P (Some x) = P x"
  by simp_all

end
