(* ===== verification/Py_Float.thy ===== *)
theory Py_Float
  imports Prelude
begin

text \<open>
  Python's \<open>float\<close>: IEEE 754 binary64 as the condition evaluator
  (\<open>detection/conditions.py\<close>), the risk formula (\<open>risk/\<close>) and the correlation
  engine use it. A finite float is the rational it denotes; \<open>fl\<close> rounds a rational to
  the nearest binary64 value, ties to even, with gradual underflow, and \<open>to_float\<close> adds
  overflow to infinity. The sign of zero is not represented. The lemmas say that rounding is
  monotone, odd, the identity on the integers up to \<open>2^53\<close>, and so keeps every bound
  that is itself such an integer.
\<close>

section \<open>Rounding to nearest, ties to even\<close>

definition round_half_even :: "rat \<Rightarrow> int" where
  "round_half_even x =
     (let f = \<lfloor>x\<rfloor>; d = x - of_int f in
      if d < 1 / 2 then f else if 1 / 2 < d then f + 1 else if even f then f else f + 1)"

lemma round_half_even_bounds:
  "of_int (round_half_even x) - x \<le> 1 / 2" "x - of_int (round_half_even x) \<le> 1 / 2"
  by (auto simp: round_half_even_def Let_def; use floor_correct [of x] in linarith)+

lemma round_half_even_of_int [simp]: "round_half_even (of_int n) = n"
  by (simp add: round_half_even_def)

lemma round_half_even_numeral [simp]:
  "round_half_even (numeral n) = numeral n" "round_half_even 0 = 0" "round_half_even 1 = 1"
  using round_half_even_of_int [of "numeral n"] round_half_even_of_int [of 0]
    round_half_even_of_int [of 1] by simp_all

lemma round_half_even_floor: "\<lfloor>x\<rfloor> \<le> round_half_even x" "round_half_even x \<le> \<lfloor>x\<rfloor> + 1"
  by (auto simp: round_half_even_def Let_def)

lemma round_half_even_mono:
  assumes "x \<le> y"
  shows "round_half_even x \<le> round_half_even y"
proof (cases "\<lfloor>x\<rfloor> = \<lfloor>y\<rfloor>")
  case True
  with assms show ?thesis by (auto simp: round_half_even_def Let_def)
next
  case False
  moreover have "\<lfloor>x\<rfloor> \<le> \<lfloor>y\<rfloor>" using assms by (rule floor_mono)
  ultimately have "\<lfloor>x\<rfloor> + 1 \<le> \<lfloor>y\<rfloor>" by simp
  then show ?thesis using round_half_even_floor [of x] round_half_even_floor [of y] by linarith
qed

section \<open>The binade of a positive rational\<close>

fun bit_length :: "nat \<Rightarrow> nat" where
  "bit_length n = (if n = 0 then 0 else Suc (bit_length (n div 2)))"

declare bit_length.simps [simp del]

lemma bit_length_0 [simp]: "bit_length 0 = 0"
  by (simp add: bit_length.simps)

lemma bit_length_bounds: "0 < n \<Longrightarrow> 0 < bit_length n \<and> 2 ^ (bit_length n - 1) \<le> n \<and> n < 2 ^ bit_length n"
proof (induction n rule: bit_length.induct)
  case (1 n)
  show ?case
  proof (cases "n div 2 = 0")
    case True
    with 1 have "n = 1" by simp
    then show ?thesis by (simp add: bit_length.simps [of "Suc 0"])
  next
    case False
    with 1 have ih: "0 < bit_length (n div 2)" "2 ^ (bit_length (n div 2) - 1) \<le> n div 2"
      "n div 2 < 2 ^ bit_length (n div 2)" by auto
    from ih(1) obtain k where k: "bit_length (n div 2) = Suc k" by (cases "bit_length (n div 2)") auto
    have b: "bit_length n = Suc (Suc k)" using 1 k by (simp add: bit_length.simps [of n])
    show ?thesis using ih(2,3) unfolding b k by (auto simp: less_eq_div_iff_mult_less_eq)
  qed
qed

definition ilog2 :: "rat \<Rightarrow> int" where
  "ilog2 x = (if 1 \<le> x then int (bit_length (nat \<lfloor>x\<rfloor>)) - 1
              else - int (bit_length (nat (\<lceil>1 / x\<rceil> - 1))))"

lemma ilog2_bounds_ge1:
  assumes "1 \<le> x"
  shows "2 powi ilog2 x \<le> x \<and> x < 2 powi (ilog2 x + 1)"
proof -
  define n where "n = nat \<lfloor>x\<rfloor>"
  have fx: "\<lfloor>x\<rfloor> = int n" and n0: "0 < n" using assms unfolding n_def by auto
  note b = bit_length_bounds [OF n0]
  have "2 powi ilog2 x = (2::rat) ^ (bit_length n - 1)"
    using assms b by (simp add: ilog2_def n_def [symmetric] power_int_def of_nat_diff nat_diff_distrib)
  moreover have "(2::rat) ^ (bit_length n - 1) \<le> of_nat n" using b
    by (metis of_nat_le_iff of_nat_numeral of_nat_power)
  moreover have "of_nat n \<le> x" using fx by (metis of_int_floor_le of_int_of_nat_eq)
  moreover have "2 powi (ilog2 x + 1) = (2::rat) ^ bit_length n"
    using assms by (simp add: ilog2_def n_def [symmetric] power_int_def)
  moreover have "x < (2::rat) ^ bit_length n"
  proof -
    have "of_nat (Suc n) \<le> (2::rat) ^ bit_length n" using b
      by (metis Suc_leI of_nat_le_iff of_nat_numeral of_nat_power)
    moreover have "x < of_nat (Suc n)" using fx floor_correct [of x] by simp
    ultimately show ?thesis by linarith
  qed
  ultimately show ?thesis by (metis order_trans)
qed

lemma ilog2_bounds_lt1:
  assumes "0 < x" "x < 1"
  shows "2 powi ilog2 x \<le> x \<and> x < 2 powi (ilog2 x + 1)"
proof -
  define y where "y = 1 / x"
  define n where "n = nat (\<lceil>y\<rceil> - 1)"
  have y1: "1 < y" using assms unfolding y_def by simp
  hence c2: "2 \<le> \<lceil>y\<rceil>" by linarith
  have fy: "\<lceil>y\<rceil> = int n + 1" and n0: "0 < n" using c2 unfolding n_def by auto
  have ny: "of_nat n < y" "y \<le> of_nat n + 1" using fy ceiling_correct [of y] by auto
  note b = bit_length_bounds [OF n0]
  have il: "ilog2 x = - int (bit_length n)" using assms by (simp add: ilog2_def n_def y_def)
  have "y \<le> (2::rat) ^ bit_length n"
  proof -
    have "of_nat (Suc n) \<le> (2::rat) ^ bit_length n" using b
      by (metis Suc_leI of_nat_le_iff of_nat_numeral of_nat_power)
    with ny show ?thesis by simp
  qed
  hence "1 / (2::rat) ^ bit_length n \<le> x" using assms by (simp add: y_def field_simps)
  moreover have "2 powi ilog2 x = 1 / (2::rat) ^ bit_length n"
    by (simp add: il power_int_minus field_simps)
  moreover have "x < 2 powi (ilog2 x + 1)"
  proof -
    have "(2::rat) ^ (bit_length n - 1) \<le> of_nat n" using b
      by (metis of_nat_le_iff of_nat_numeral of_nat_power)
    with ny have "(2::rat) ^ (bit_length n - 1) < y" by linarith
    hence "x < 1 / (2::rat) ^ (bit_length n - 1)" using assms by (simp add: y_def field_simps)
    moreover have "2 powi (ilog2 x + 1) = 1 / (2::rat) ^ (bit_length n - 1)"
    proof -
      have "ilog2 x + 1 = - int (bit_length n - 1)" using b il by simp
      thus ?thesis by (simp add: power_int_minus field_simps)
    qed
    ultimately show ?thesis by simp
  qed
  ultimately show ?thesis by simp
qed

lemma ilog2_bounds: "0 < x \<Longrightarrow> 2 powi ilog2 x \<le> x \<and> x < 2 powi (ilog2 x + 1)"
  using ilog2_bounds_ge1 ilog2_bounds_lt1 by (cases "1 \<le> x") auto

lemma powi_two_le: "a \<le> b \<Longrightarrow> (2::rat) powi a \<le> 2 powi b"
  by (simp add: power_int_increasing)

section \<open>Rounding to binary64\<close>

text \<open>The exponent of the unit in the last place: 53 bits of significand, and no finer than
  the subnormal spacing.\<close>

definition ulp_exp :: "rat \<Rightarrow> int" where
  "ulp_exp x = max (ilog2 x - 52) (- 1074)"

definition fl_pos :: "rat \<Rightarrow> rat" where
  "fl_pos x = of_int (round_half_even (x / 2 powi ulp_exp x)) * 2 powi ulp_exp x"

definition fl :: "rat \<Rightarrow> rat" where
  "fl x = (if x = 0 then 0 else if 0 < x then fl_pos x else - fl_pos (- x))"

lemma ilog2_mono:
  assumes "0 < x" "x \<le> y"
  shows "ilog2 x \<le> ilog2 y"
proof (rule ccontr)
  assume "\<not> ?thesis"
  hence "(2::rat) powi (ilog2 y + 1) \<le> 2 powi ilog2 x" by (intro powi_two_le) simp
  with ilog2_bounds [of x] ilog2_bounds [of y] assms show False by linarith
qed

lemma ulp_exp_mono: "0 < x \<Longrightarrow> x \<le> y \<Longrightarrow> ulp_exp x \<le> ulp_exp y"
  using ilog2_mono [of x y] by (simp add: ulp_exp_def)

lemma fl_pos_grid:
  assumes "x / 2 powi ulp_exp x = of_int m"
  shows "fl_pos x = x"
proof -
  have "fl_pos x = of_int m * 2 powi ulp_exp x" unfolding fl_pos_def assms by simp
  also have "\<dots> = x" unfolding assms [symmetric] by simp
  finally show ?thesis .
qed

lemma powi_two_split:
  assumes "a \<le> b"
  shows "\<exists>m. (2::rat) powi b / 2 powi a = of_int m"
proof -
  have "(2::rat) powi b / 2 powi a = 2 powi (b - a)" by (simp add: power_int_diff)
  also have "\<dots> = of_int (2 ^ nat (b - a))" using assms by (simp add: power_int_def)
  finally show ?thesis by blast
qed

text \<open>A value below a power of two that lies on the grid stays below it.\<close>

lemma fl_pos_le_powi:
  assumes "0 < x" "x \<le> 2 powi k" "ulp_exp x \<le> k"
  shows "fl_pos x \<le> 2 powi k"
proof -
  obtain m where m: "(2::rat) powi k / 2 powi ulp_exp x = of_int m"
    using powi_two_split [OF assms(3)] by blast
  have "x / 2 powi ulp_exp x \<le> of_int m" unfolding m [symmetric] using assms
    by (simp add: divide_right_mono)
  hence "round_half_even (x / 2 powi ulp_exp x) \<le> m" using round_half_even_mono by fastforce
  hence "fl_pos x \<le> of_int m * 2 powi ulp_exp x" unfolding fl_pos_def
    by (simp add: mult_right_mono)
  also have "\<dots> = 2 powi k" unfolding m [symmetric] by simp
  finally show ?thesis .
qed

lemma powi_le_fl_pos:
  assumes "0 < x" "2 powi k \<le> x" "ulp_exp x \<le> k"
  shows "2 powi k \<le> fl_pos x"
proof -
  obtain m where m: "(2::rat) powi k / 2 powi ulp_exp x = of_int m"
    using powi_two_split [OF assms(3)] by blast
  have "of_int m \<le> x / 2 powi ulp_exp x" unfolding m [symmetric] using assms
    by (simp add: divide_right_mono)
  hence "m \<le> round_half_even (x / 2 powi ulp_exp x)" using round_half_even_mono by fastforce
  hence "of_int m * 2 powi ulp_exp x \<le> fl_pos x" unfolding fl_pos_def
    by (simp add: mult_right_mono)
  also have "of_int m * 2 powi ulp_exp x = (2 powi k :: rat)" unfolding m [symmetric] by simp
  finally show ?thesis .
qed

lemma fl_pos_mono:
  assumes "0 < x" "x \<le> y"
  shows "fl_pos x \<le> fl_pos y"
proof (cases "ulp_exp x = ulp_exp y")
  case True
  have "round_half_even (x / 2 powi ulp_exp y) \<le> round_half_even (y / 2 powi ulp_exp y)"
    using assms by (intro round_half_even_mono) (simp add: divide_right_mono)
  thus ?thesis unfolding fl_pos_def True by (simp add: mult_right_mono)
next
  case False
  with ulp_exp_mono [OF assms] have lt: "ulp_exp x < ulp_exp y" by simp
  hence il: "ilog2 x < ilog2 y" and uy: "ulp_exp y = ilog2 y - 52" by (auto simp: ulp_exp_def)
  have "fl_pos x \<le> 2 powi ilog2 y"
  proof (rule fl_pos_le_powi)
    show "x \<le> 2 powi ilog2 y"
      using ilog2_bounds [of x] powi_two_le [of "ilog2 x + 1" "ilog2 y"] il assms by linarith
    show "ulp_exp x \<le> ilog2 y" using lt uy by simp
  qed (use assms in simp)
  also have "\<dots> \<le> fl_pos y"
    using assms ilog2_bounds [of y] uy by (intro powi_le_fl_pos) auto
  finally show ?thesis .
qed

lemma fl_pos_nonneg: "0 < x \<Longrightarrow> 0 \<le> fl_pos x"
  using round_half_even_mono [of 0 "x / 2 powi ulp_exp x"] by (simp add: fl_pos_def)

lemma fl_0 [simp]: "fl 0 = 0" and fl_minus [simp]: "fl (- x) = - fl x"
  by (auto simp: fl_def)

theorem fl_mono: "x \<le> y \<Longrightarrow> fl x \<le> fl y"
  using fl_pos_mono [of x y] fl_pos_mono [of "- y" "- x"] fl_pos_nonneg [of y] fl_pos_nonneg [of "- x"]
  by (auto simp: fl_def not_less)

lemma fl_pos_int:
  assumes "0 < n" "n \<le> 2 ^ 53"
  shows "fl_pos (of_int n) = of_int n"
proof (cases "n = 2 ^ 53")
  case True
  have "ilog2 (of_int n) = 53"
  proof (rule antisym)
    have "(2::rat) powi ilog2 (of_int n) \<le> 2 powi 53"
      using ilog2_bounds [of "of_int n"] True by simp
    thus "ilog2 (of_int n) \<le> 53" using power_int_strict_increasing [of 53 "ilog2 (of_int n)" "2::rat"] by linarith
    have "(2::rat) powi 53 < 2 powi (ilog2 (of_int n) + 1)"
      using ilog2_bounds [of "of_int n"] True by simp
    thus "53 \<le> ilog2 (of_int n)" using powi_two_le [of "ilog2 (of_int n) + 1" 53] by linarith
  qed
  hence "ulp_exp (of_int n) = 1" by (simp add: ulp_exp_def)
  thus ?thesis using True by (intro fl_pos_grid [of _ "2 ^ 52"]) simp
next
  case False
  with assms have lt: "n < 2 ^ 53" by simp
  have "ilog2 (of_int n) \<le> 52"
  proof (rule ccontr)
    assume "\<not> ?thesis"
    hence "(2::rat) powi 53 \<le> 2 powi ilog2 (of_int n)" by (intro powi_two_le) simp
    with ilog2_bounds [of "of_int n"] assms have "(2::rat) ^ 53 \<le> of_int n" by simp
    thus False using lt by (metis (mono_tags) not_le of_int_le_iff of_int_numeral of_int_power)
  qed
  hence "ulp_exp (of_int n) \<le> 0" by (simp add: ulp_exp_def)
  then obtain m where "(2::rat) powi 0 / 2 powi ulp_exp (of_int n) = of_int m"
    using powi_two_split by blast
  hence "of_int n / 2 powi ulp_exp (of_int n) = (of_int (n * m) :: rat)" by (simp add: field_simps)
  thus ?thesis by (rule fl_pos_grid)
qed

theorem fl_int: "\<bar>n\<bar> \<le> 2 ^ 53 \<Longrightarrow> fl (of_int n) = of_int n"
  using fl_pos_int [of n] fl_pos_int [of "- n"] by (auto simp: fl_def abs_if split: if_splits)

lemma fl_le_int: "x \<le> of_int n \<Longrightarrow> \<bar>n\<bar> \<le> 2 ^ 53 \<Longrightarrow> fl x \<le> of_int n"
  using fl_mono [of x "of_int n"] fl_int [of n] by simp

lemma int_le_fl: "of_int n \<le> x \<Longrightarrow> \<bar>n\<bar> \<le> 2 ^ 53 \<Longrightarrow> of_int n \<le> fl x"
  using fl_mono [of "of_int n" x] fl_int [of n] by simp

lemma fl_nonneg: "0 \<le> x \<Longrightarrow> 0 \<le> fl x"
  using fl_mono [of 0 x] by simp

section \<open>Values and operations\<close>

datatype pyfloat = Fin rat | PInf | NInf | NaN

definition float_max :: rat where
  "float_max = (2 - 1 / 2 ^ 52) * 2 ^ 1023"

definition to_float :: "rat \<Rightarrow> pyfloat" where
  "to_float x = (let y = fl x in
     if float_max < y then PInf else if y < - float_max then NInf else Fin y)"

fun f_lt :: "pyfloat \<Rightarrow> pyfloat \<Rightarrow> bool" where
  "f_lt NaN _ = False"
| "f_lt _ NaN = False"
| "f_lt _ NInf = False"
| "f_lt NInf _ = True"
| "f_lt PInf _ = False"
| "f_lt _ PInf = True"
| "f_lt (Fin x) (Fin y) = (x < y)"

fun f_eq :: "pyfloat \<Rightarrow> pyfloat \<Rightarrow> bool" where
  "f_eq NaN _ = False"
| "f_eq _ NaN = False"
| "f_eq x y = (x = y)"

definition f_le :: "pyfloat \<Rightarrow> pyfloat \<Rightarrow> bool" where
  "f_le x y \<longleftrightarrow> f_lt x y \<or> f_eq x y"

text \<open>\<open>min(a, b)\<close> and \<open>max(a, b)\<close> keep the first argument unless the second is
  strictly better, which decides what they do with a NaN.\<close>

definition f_min :: "pyfloat \<Rightarrow> pyfloat \<Rightarrow> pyfloat" where
  "f_min a b = (if f_lt b a then b else a)"

definition f_max :: "pyfloat \<Rightarrow> pyfloat \<Rightarrow> pyfloat" where
  "f_max a b = (if f_lt a b then b else a)"

fun f_mul :: "pyfloat \<Rightarrow> pyfloat \<Rightarrow> pyfloat" where
  "f_mul (Fin x) (Fin y) = to_float (x * y)"
| "f_mul NaN _ = NaN"
| "f_mul _ NaN = NaN"
| "f_mul (Fin x) i = (if x = 0 then NaN else if (0 < x) = (i = PInf) then PInf else NInf)"
| "f_mul i (Fin x) = (if x = 0 then NaN else if (0 < x) = (i = PInf) then PInf else NInf)"
| "f_mul i j = (if i = j then PInf else NInf)"

text \<open>Division by a non-zero finite float, the only division the code performs.\<close>

fun f_div :: "pyfloat \<Rightarrow> rat \<Rightarrow> pyfloat" where
  "f_div (Fin x) d = to_float (x / d)"
| "f_div PInf d = (if 0 < d then PInf else NInf)"
| "f_div NInf d = (if 0 < d then NInf else PInf)"
| "f_div NaN d = NaN"

text \<open>\<open>round(x, n)\<close>: the decimal value of \<open>x\<close> correctly rounded, then read back.\<close>

definition round_dec :: "nat \<Rightarrow> rat \<Rightarrow> rat" where
  "round_dec n x = fl (of_int (round_half_even (x * 10 ^ n)) / 10 ^ n)"

text \<open>
  \<open>sum(xs)\<close> over finite floats, as CPython 3.12 computes it: Neumaier's compensated
  summation, the correction added once at the end.
\<close>

fun neumaier :: "rat \<Rightarrow> rat \<Rightarrow> rat list \<Rightarrow> rat" where
  "neumaier s c [] = (if c = 0 then s else fl (s + c))"
| "neumaier s c (x # xs) =
     (let t = fl (s + x);
          d = (if \<bar>x\<bar> \<le> \<bar>s\<bar> then fl (fl (s - t) + x) else fl (fl (x - t) + s))
      in neumaier t (fl (c + d)) xs)"

definition float_sum :: "rat list \<Rightarrow> rat" where
  "float_sum xs = (case xs of [] \<Rightarrow> 0 | x # rest \<Rightarrow> neumaier (fl x) 0 rest)"

lemma round_dec_mono: "x \<le> y \<Longrightarrow> round_dec n x \<le> round_dec n y"
  unfolding round_dec_def
  by (intro fl_mono divide_right_mono) (simp_all add: round_half_even_mono mult_right_mono)

lemma round_dec_int: "\<bar>k\<bar> \<le> 2 ^ 53 \<Longrightarrow> round_dec n (of_int k) = of_int k"
proof -
  assume "\<bar>k\<bar> \<le> 2 ^ 53"
  moreover have "round_half_even (of_int k * 10 ^ n) = k * 10 ^ n"
    using round_half_even_of_int [of "k * 10 ^ n"] by simp
  ultimately show ?thesis by (simp add: round_dec_def fl_int)
qed

lemma f_lt_irrefl [simp]: "\<not> f_lt x x"
  by (cases x) auto

section \<open>Reading a float from text\<close>

text \<open>\<open>float(s)\<close>: digits with single underscores between them, an optional fraction and
  exponent, or one of the names of infinity and NaN; \<open>None\<close> is \<open>ValueError\<close>.\<close>

function digitpart :: "string \<Rightarrow> string \<times> string" where
  "digitpart [] = ([], [])"
| "digitpart (c # cs) =
     (if \<not> is_digit c then ([], c # cs)
      else (case digitpart (case cs of u # d # r \<Rightarrow>
               if u = CHR ''_'' \<and> is_digit d then d # r else cs | _ \<Rightarrow> cs) of
              (ds, rest) \<Rightarrow> (c # ds, rest)))"
  by pat_completeness auto
termination
  by (relation "measure length") (auto split: list.splits)

definition read_sign :: "string \<Rightarrow> rat \<times> string" where
  "read_sign s = (case s of [] \<Rightarrow> (1, [])
     | c # cs \<Rightarrow> if c = CHR ''-'' then (- 1, cs) else if c = CHR ''+'' then (1, cs) else (1, s))"

definition read_exponent :: "string \<Rightarrow> int option" where
  "read_exponent s = (case s of [] \<Rightarrow> Some 0
     | c # cs \<Rightarrow> if c \<noteq> CHR ''e'' then None
        else (case read_sign cs of (sg, t) \<Rightarrow> (case digitpart t of (ds, r) \<Rightarrow>
               if ds = [] \<or> r \<noteq> [] then None
               else Some (if sg < 0 then - int (read_digits ds) else int (read_digits ds)))))"

definition read_number :: "string \<Rightarrow> rat option" where
  "read_number s = (case digitpart s of (ip, r) \<Rightarrow>
     let (fp, r') = (case r of c # cs \<Rightarrow> if c = CHR ''.'' then digitpart cs else ([], r) | [] \<Rightarrow> ([], []))
     in if ip = [] \<and> fp = [] then None
        else map_option (\<lambda>e. of_nat (read_digits (ip @ fp)) * 10 powi (e - int (length fp)))
               (read_exponent r'))"

definition float_of_str :: "string \<Rightarrow> pyfloat option" where
  "float_of_str s = (case read_sign (str_lower (str_strip s)) of (sg, t) \<Rightarrow>
     if t \<in> {''inf'', ''infinity''} then Some (if sg < 0 then NInf else PInf)
     else if t = ''nan'' then Some NaN
     else map_option (\<lambda>v. to_float (sg * v)) (read_number t))"

section \<open>Writing a float as text\<close>

text \<open>\<open>str(x)\<close>: the shortest decimal that reads back as \<open>x\<close>, the nearest of those;
  scientific notation below \<open>1e-4\<close> and from \<open>1e16\<close> on.\<close>

definition ilog10 :: "rat \<Rightarrow> int" where
  "ilog10 x = (if 1 \<le> x then int (length (show_nat (nat \<lfloor>x\<rfloor>))) - 1
               else - int (length (show_nat (nat (\<lceil>1 / x\<rceil> - 1)))))"

definition shortest_at :: "rat \<Rightarrow> nat \<Rightarrow> nat option" where
  "shortest_at x n = (let q = 10 powi (ilog10 x - int n + 1); lo = nat \<lfloor>x / q\<rfloor>;
      ok = (\<lambda>m. fl (of_nat m * q) = x) in
      if ok lo \<and> ok (lo + 1) then Some (if x - of_nat lo * q \<le> of_nat (lo + 1) * q - x then lo else lo + 1)
      else if ok lo then Some lo else if ok (lo + 1) then Some (lo + 1) else None)"

fun shortest_from :: "rat \<Rightarrow> nat \<Rightarrow> nat \<Rightarrow> nat \<times> nat" where
  "shortest_from x n 0 = (nat (round_half_even (x / 10 powi (ilog10 x - int n + 1))), n)"
| "shortest_from x n (Suc k) =
     (case shortest_at x n of Some m \<Rightarrow> (m, n) | None \<Rightarrow> shortest_from x (Suc n) k)"

fun strip_zeros :: "string \<Rightarrow> string" where
  "strip_zeros s = (if s \<noteq> [] \<and> last s = CHR ''0'' then strip_zeros (butlast s) else s)"

declare strip_zeros.simps [simp del]

definition show_pos :: "rat \<Rightarrow> string" where
  "show_pos x = (case shortest_from x 1 16 of (m, n) \<Rightarrow>
     let full = show_nat m; e = ilog10 x + int (length full) - int n; ds = strip_zeros full in
     if - 4 \<le> e \<and> e < 0 then ''0.'' @ replicate (nat (- e - 1)) (CHR ''0'') @ ds
     else if 0 \<le> e \<and> e < 16 then
       (let w = nat e + 1; ip = take w (ds @ replicate (w - length ds) (CHR ''0'')); fp = drop w ds
        in ip @ ''.'' @ (if fp = [] then ''0'' else fp))
     else take 1 ds @ (if length ds = 1 then [] else ''.'' @ drop 1 ds) @ ''e''
       @ (if e < 0 then ''-'' else ''+'') @ zero_pad 2 (show_nat (nat \<bar>e\<bar>)))"

fun show_float :: "pyfloat \<Rightarrow> string" where
  "show_float (Fin x) = (if x = 0 then ''0.0'' else if 0 < x then show_pos x else ''-'' @ show_pos (- x))"
| "show_float PInf = ''inf''"
| "show_float NInf = ''-inf''"
| "show_float NaN = ''nan''"

end
