(* ===== verification/Py_Value.thy ===== *)
theory Py_Value
  imports Py_Float
begin

text \<open>
  The values the backend passes around as \<open>Any\<close> and \<open>dict[str, Any]\<close>: what
  \<open>json.loads\<close> returns. Truthiness, \<open>==\<close>, \<open>str()\<close>, \<open>repr()\<close> and
  \<open>dict.get\<close> on them, as the code uses them. The main lemma is that the quoted form of a
  text, \<open>repr\<close>, is self-delimiting: what follows it can always be told from it. The keys of
  the suppression and correlation stores rest on that.
\<close>

datatype json =
    JNull
  | JBool bool
  | JInt int
  | JFloat pyfloat
  | JStr string
  | JList "json list"
  | JObj "(string \<times> json) list"

type_synonym document = "json dict"

section \<open>Truthiness and equality\<close>

fun py_truthy :: "json \<Rightarrow> bool" where
  "py_truthy JNull = False"
| "py_truthy (JBool b) = b"
| "py_truthy (JInt i) = (i \<noteq> 0)"
| "py_truthy (JFloat f) = (f \<noteq> Fin 0)"
| "py_truthy (JStr s) = (s \<noteq> [])"
| "py_truthy (JList xs) = (xs \<noteq> [])"
| "py_truthy (JObj kvs) = (kvs \<noteq> [])"

definition bool_int :: "bool \<Rightarrow> int" where
  "bool_int b = (if b then 1 else 0)"

lemma size_zip_left: "(x, y) \<in> set (zip xs ys) \<Longrightarrow> size (x::json) < Suc (size_list size xs)"
  by (meson le_imp_less_Suc set_zip_leftD size_list_estimation' order_refl)

lemma size_dict_value:
  assumes "(k, v) \<in> set kvs"
  shows "size (v::json) < Suc (size_list (size_prod (\<lambda>x. 0) size) kvs)"
proof -
  have "size_prod (\<lambda>x. 0) size (k, v) \<le> size_list (size_prod (\<lambda>x. 0) size) kvs"
    using assms by (rule size_list_estimation') simp
  thus ?thesis by simp
qed

text \<open>\<open>a == b\<close>: numbers, booleans included, compare by exact value; lists element by
  element; dictionaries by key, in any order.\<close>

function py_eq :: "json \<Rightarrow> json \<Rightarrow> bool" where
  "py_eq JNull b = (b = JNull)"
| "py_eq (JBool a) b = py_eq (JInt (bool_int a)) b"
| "py_eq (JInt i) b = (case b of JInt j \<Rightarrow> i = j | JBool c \<Rightarrow> i = bool_int c
     | JFloat (Fin y) \<Rightarrow> of_int i = y | _ \<Rightarrow> False)"
| "py_eq (JFloat f) b = (case b of JFloat g \<Rightarrow> f_eq f g | JInt j \<Rightarrow> f = Fin (of_int j)
     | JBool c \<Rightarrow> f = Fin (of_int (bool_int c)) | _ \<Rightarrow> False)"
| "py_eq (JStr s) b = (b = JStr s)"
| "py_eq (JList xs) b = (case b of JList ys \<Rightarrow>
     length xs = length ys \<and> list_all (\<lambda>(x, y). py_eq x y) (zip xs ys) | _ \<Rightarrow> False)"
| "py_eq (JObj kvs) b = (case b of JObj kws \<Rightarrow>
     length kvs = length kws \<and>
     list_all (\<lambda>(k, v). case map_of kws k of None \<Rightarrow> False | Some w \<Rightarrow> py_eq v w) kvs | _ \<Rightarrow> False)"
  by pat_completeness auto

termination
proof (relation "measures [\<lambda>(a, b). size a, \<lambda>(a, b). case a of JBool _ \<Rightarrow> 1 | _ \<Rightarrow> 0]", goal_cases)
  case (3 xs b ys x y z)
  thus ?case by (auto dest: size_zip_left)
next
  case (4 kvs b kws p k v w)
  thus ?case by (auto dest: size_dict_value)
qed auto

section \<open>Text of a value\<close>

definition hex_digit :: "nat \<Rightarrow> char" where
  "hex_digit n = (if n < 10 then char_of (48 + n) else char_of (87 + n))"

definition esc_char :: "char \<Rightarrow> char \<Rightarrow> string" where
  "esc_char q c =
     (if c = q \<or> c = CHR 0x5C then [CHR 0x5C, c]
      else if c = CHR 0x0A then [CHR 0x5C, CHR ''n'']
      else if c = CHR 0x0D then [CHR 0x5C, CHR ''r'']
      else if c = CHR 0x09 then [CHR 0x5C, CHR ''t'']
      else if of_char c < (32::nat) \<or> of_char c \<ge> (127::nat)
        then [CHR 0x5C, CHR ''x'', hex_digit (of_char c div 16), hex_digit (of_char c mod 16)]
      else [c])"

definition repr_quote :: "string \<Rightarrow> char" where
  "repr_quote s = (if CHR 0x27 \<in> set s \<and> CHR 0x22 \<notin> set s then CHR 0x22 else CHR 0x27)"

definition repr_str :: "string \<Rightarrow> string" where
  "repr_str s = (let q = repr_quote s in [q] @ concat (map (esc_char q) s) @ [q])"

fun py_repr :: "json \<Rightarrow> string" where
  "py_repr JNull = ''None''"
| "py_repr (JBool b) = (if b then ''True'' else ''False'')"
| "py_repr (JInt i) = show_int i"
| "py_repr (JFloat f) = show_float f"
| "py_repr (JStr s) = repr_str s"
| "py_repr (JList xs) = ''['' @ str_join '', '' (map py_repr xs) @ '']''"
| "py_repr (JObj kvs) = ''{'' @ str_join '', '' (map (\<lambda>(k, v). repr_str k @ '': '' @ py_repr v) kvs) @ ''}''"

definition py_str :: "json \<Rightarrow> string" where
  "py_str v = (case v of JStr s \<Rightarrow> s | _ \<Rightarrow> py_repr v)"

text \<open>\<open>d.get(k)\<close>, with \<open>None\<close> for a missing key, and \<open>str(d.get(k) or default)\<close>.\<close>

definition get :: "document \<Rightarrow> string \<Rightarrow> json" where
  "get d k = (case dict_get d k of None \<Rightarrow> JNull | Some v \<Rightarrow> v)"

definition str_or :: "json \<Rightarrow> string \<Rightarrow> string" where
  "str_or v dflt = (if py_truthy v then py_str v else dflt)"

text \<open>\<open>int(float)\<close> truncates towards zero.\<close>

definition trunc :: "rat \<Rightarrow> int" where
  "trunc x = (if x < 0 then - \<lfloor>- x\<rfloor> else \<lfloor>x\<rfloor>)"

text \<open>The text of an integer as \<open>int(str)\<close> reads it: surrounding blanks, a sign, digits with
  single underscores between them.\<close>

definition read_int :: "string \<Rightarrow> int option" where
  "read_int t = (let s = str_strip t;
      (neg, ds) = (case s of c # cs \<Rightarrow> if c = CHR ''-'' then (True, cs) else if c = CHR ''+'' then (False, cs)
        else (False, s) | [] \<Rightarrow> (False, []));
      ps = split_on (CHR ''_'') ds
    in if list_all (\<lambda>p. p \<noteq> [] \<and> list_all is_digit p) ps
       then Some ((if neg then -1 else 1) * int (read_digits (List.concat ps))) else None)"

lemma py_str_JStr [simp]: "py_str (JStr s) = s"
  by (simp add: py_str_def)

lemma get_simps [simp]:
  "get [] k = JNull" "get ((k', v) # d) k = (if k = k' then v else get d k)"
  by (auto simp: get_def)

section \<open>The quoted form is self-delimiting\<close>

lemma hex_digit_inj: "a < 16 \<Longrightarrow> b < 16 \<Longrightarrow> hex_digit a = hex_digit b \<longleftrightarrow> a = b"
  by (auto simp: hex_digit_def char_of_eq_iff take_bit_eq_mod split: if_splits)

lemma hex_pair_inj:
  assumes "hex_digit (of_char c div 16) = hex_digit (of_char d div 16)"
    and "hex_digit (of_char c mod 16) = hex_digit (of_char d mod 16)"
  shows "c = d"
proof -
  have "n < 256 \<Longrightarrow> n div 16 < 16" for n :: nat by arith
  hence b: "of_char c div 16 < (16::nat)" "of_char d div 16 < (16::nat)" by auto
  have "of_char c div 16 = (of_char d div 16 :: nat)"
    using assms(1) b by (subst (asm) hex_digit_inj) auto
  moreover have "of_char c mod 16 = (of_char d mod 16 :: nat)"
    using assms(2) by (subst (asm) hex_digit_inj) auto
  ultimately have "of_char c = (of_char d :: nat)" by (metis div_mult_mod_eq)
  thus ?thesis by simp
qed

definition quote_char :: "char \<Rightarrow> bool" where
  "quote_char q \<longleftrightarrow> q = CHR 0x22 \<or> q = CHR 0x27"

lemma esc_char_prefix_code:
  assumes "quote_char q" "esc_char q c @ u = esc_char q d @ w"
  shows "c = d \<and> u = w"
proof -
  have x: "CHR ''x'' \<noteq> q" "CHR ''n'' \<noteq> q" "CHR ''r'' \<noteq> q" "CHR ''t'' \<noteq> q" "CHR 0x5C \<noteq> q"
    using assms(1) by (auto simp: quote_char_def)
  show ?thesis using assms(2) x unfolding esc_char_def
    by (auto split: if_splits dest: hex_pair_inj)
qed

lemma esc_char_not_quote:
  assumes "quote_char q"
  shows "esc_char q c \<noteq> [] \<and> hd (esc_char q c) \<noteq> q"
  using assms by (auto simp: esc_char_def quote_char_def)

lemma esc_body_delimited:
  assumes "quote_char q"
  shows "concat (map (esc_char q) s) @ q # u = concat (map (esc_char q) t) @ q # w \<Longrightarrow> s = t \<and> u = w"
proof (induction s arbitrary: t)
  case Nil
  show ?case
  proof (cases t)
    case (Cons d t')
    with Nil have "q # u = esc_char q d @ concat (map (esc_char q) t') @ q # w" by simp
    hence False using esc_char_not_quote [OF assms, of d] by (cases "esc_char q d") auto
    thus ?thesis ..
  qed (use Nil in simp)
next
  case (Cons c s)
  show ?case
  proof (cases t)
    case Nil
    with Cons.prems have "q # w = esc_char q c @ concat (map (esc_char q) s) @ q # u" by simp
    hence False using esc_char_not_quote [OF assms, of c] by (cases "esc_char q c") auto
    thus ?thesis ..
  next
    case t: (Cons d t')
    with Cons.prems have "c = d \<and> concat (map (esc_char q) s) @ q # u = concat (map (esc_char q) t') @ q # w"
      using esc_char_prefix_code [OF assms] by simp
    with Cons.IH t show ?thesis by blast
  qed
qed

theorem repr_str_delimited:
  assumes "repr_str s @ u = repr_str t @ w"
  shows "s = t \<and> u = w"
proof -
  define q where "q = repr_quote t"
  have "repr_quote s = q" using assms by (simp add: repr_str_def Let_def q_def)
  hence "repr_str s = q # concat (map (esc_char q) s) @ [q]" by (simp add: repr_str_def Let_def)
  moreover have "repr_str t = q # concat (map (esc_char q) t) @ [q]"
    by (simp add: repr_str_def Let_def q_def)
  moreover have "quote_char q" by (simp add: repr_quote_def quote_char_def q_def)
  ultimately show ?thesis using assms esc_body_delimited [of q s u t w] by simp
qed

end
