(* ===== verification/Py_Net.thy ===== *)
theory Py_Net
  imports Py_Value "HOL-Library.Word"
begin

unbundle bit_operations_syntax

text \<open>
  The part of Python's \<open>ipaddress\<close> module that the condition evaluator, the playbook
  actions and the indicator canonicalizer call: \<open>ip_address\<close>, \<open>ip_network\<close> with
  \<open>strict=False\<close>, membership and \<open>str\<close>. Addresses are machine words of 32 and 128
  bits. \<open>None\<close> stands for the \<open>ValueError\<close> the callers catch. The lemmas give the
  text of an IPv4 address as unique (\<open>parse_v4\<close> and \<open>show_v4\<close> are inverse to each
  other) and membership as agreement on the leading bits.
\<close>

datatype ip = V4 "32 word" | V6 "128 word" "string option"

datatype network = Net4 "32 word" nat | Net6 "128 word" nat

section \<open>IPv4\<close>

definition parse_octet :: "string \<Rightarrow> nat option" where
  "parse_octet s =
     (if s = [] \<or> \<not> list_all is_digit s \<or> 3 < length s then None
      else if s \<noteq> ''0'' \<and> hd s = CHR ''0'' then None
      else if 255 < read_digits s then None else Some (read_digits s))"

definition v4_of_octets :: "nat \<Rightarrow> nat \<Rightarrow> nat \<Rightarrow> nat \<Rightarrow> 32 word" where
  "v4_of_octets a b c d = of_nat (((a * 256 + b) * 256 + c) * 256 + d)"

definition parse_v4 :: "string \<Rightarrow> 32 word option" where
  "parse_v4 s = (case map parse_octet (split_on (CHR ''.'') s) of
     [Some a, Some b, Some c, Some d] \<Rightarrow> Some (v4_of_octets a b c d) | _ \<Rightarrow> None)"

definition octet :: "nat \<Rightarrow> 32 word \<Rightarrow> nat" where
  "octet i w = unat w div 256 ^ i mod 256"

definition show_v4 :: "32 word \<Rightarrow> string" where
  "show_v4 w = str_join ''.'' (map (\<lambda>i. show_nat (octet i w)) [3, 2, 1, 0])"

section \<open>IPv6\<close>

definition hex_val :: "char \<Rightarrow> nat option" where
  "hex_val c = (let n = of_char (char_lower c) in
     if 48 \<le> n \<and> n \<le> 57 then Some (n - 48) else if 97 \<le> n \<and> n \<le> 102 then Some (n - 87) else None)"

definition parse_hextet :: "string \<Rightarrow> nat option" where
  "parse_hextet s = (if s = [] \<or> 4 < length s \<or> list_ex (\<lambda>c. hex_val c = None) s then None
     else Some (foldl (\<lambda>n c. 16 * n + the (hex_val c)) 0 s))"

fun all_some :: "'a option list \<Rightarrow> 'a list option" where
  "all_some [] = Some []"
| "all_some (None # xs) = None"
| "all_some (Some x # xs) = map_option (Cons x) (all_some xs)"

definition show_hex :: "nat \<Rightarrow> string" where
  "show_hex n = (let ds = map (\<lambda>i. hex_digit (n div 16 ^ i mod 16)) [3, 2, 1, 0];
      r = dropWhile (\<lambda>c. c = CHR ''0'') ds in if r = [] then ''0'' else r)"

text \<open>The parts of the colon-separated text, an embedded IPv4 tail expanded.\<close>

definition v6_parts :: "string \<Rightarrow> string list option" where
  "v6_parts s = (let parts = split_on (CHR '':'') s in
     if length parts < 3 then None
     else if CHR ''.'' \<in> set (last parts) then
       (case parse_v4 (last parts) of None \<Rightarrow> None
        | Some w \<Rightarrow> Some (butlast parts @ [show_hex (unat w div 65536), show_hex (unat w mod 65536)]))
     else Some parts)"

definition skip_indices :: "string list \<Rightarrow> nat list" where
  "skip_indices parts = filter (\<lambda>i. parts ! i = []) [1..<length parts - 1]"

definition hextets_value :: "string list \<Rightarrow> nat \<Rightarrow> string list \<Rightarrow> 128 word option" where
  "hextets_value hi skipped lo = (case (all_some (map parse_hextet hi), all_some (map parse_hextet lo)) of
     (Some hs, Some ls) \<Rightarrow> Some (of_nat (foldl (\<lambda>n h. 65536 * n + h) 0 (hs @ replicate skipped 0 @ ls)))
   | _ \<Rightarrow> None)"

definition parse_v6_parts :: "string list \<Rightarrow> 128 word option" where
  "parse_v6_parts parts =
     (if 9 < length parts then None
      else case skip_indices parts of
        [] \<Rightarrow> (if length parts \<noteq> 8 \<or> hd parts = [] \<or> last parts = [] then None
               else hextets_value parts 0 [])
      | [k] \<Rightarrow>
          (let hi = (if hd parts = [] then k - 1 else k);
               n = length parts - k - 1;
               lo = (if last parts = [] then n - 1 else n) in
           if hd parts = [] \<and> hi \<noteq> 0 then None
           else if last parts = [] \<and> lo \<noteq> 0 then None
           else if 8 < hi + lo + 1 then None
           else hextets_value (take hi parts) (8 - (hi + lo)) (drop (length parts - lo) parts))
      | _ \<Rightarrow> None)"

definition split_scope :: "string \<Rightarrow> (string \<times> string option) option" where
  "split_scope s = (case split_on (CHR ''%'') s of
     [a] \<Rightarrow> Some (a, None)
   | [a, z] \<Rightarrow> if z = [] then None else Some (a, Some z)
   | _ \<Rightarrow> None)"

definition parse_v6 :: "string \<Rightarrow> (128 word \<times> string option) option" where
  "parse_v6 s = (if CHR ''/'' \<in> set s then None else
     case split_scope s of None \<Rightarrow> None
     | Some (a, z) \<Rightarrow> (case v6_parts a of None \<Rightarrow> None
        | Some parts \<Rightarrow> map_option (\<lambda>w. (w, z)) (parse_v6_parts parts)))"

definition ip_address :: "string \<Rightarrow> ip option" where
  "ip_address s = (case parse_v4 s of Some w \<Rightarrow> Some (V4 w)
     | None \<Rightarrow> (case parse_v6 s of Some (w, z) \<Rightarrow> Some (V6 w z) | None \<Rightarrow> None))"

fun ip_version :: "ip \<Rightarrow> nat" where
  "ip_version (V4 _) = 4"
| "ip_version (V6 _ _) = 6"

text \<open>Compressed IPv6 text: the first longest run of at least two zero groups becomes
  \<open>::\<close>.\<close>

definition v6_groups :: "128 word \<Rightarrow> nat list" where
  "v6_groups w = map (\<lambda>i. unat w div 65536 ^ i mod 65536) [7, 6, 5, 4, 3, 2, 1, 0]"

definition zero_run :: "nat list \<Rightarrow> nat \<Rightarrow> nat" where
  "zero_run gs i = length (takeWhile (\<lambda>g. g = 0) (drop i gs))"

definition best_run :: "nat list \<Rightarrow> nat \<times> nat" where
  "best_run gs = foldl (\<lambda>(bi, bl) i. if zero_run gs i > bl then (i, zero_run gs i) else (bi, bl))
     (0, 0) [0..<length gs]"

definition show_v6 :: "128 word \<Rightarrow> string" where
  "show_v6 w = (let gs = v6_groups w; (i, l) = best_run gs in
     if l < 2 then str_join '':'' (map show_hex gs)
     else str_join '':'' (map show_hex (take i gs)) @ ''::'' @ str_join '':'' (map show_hex (drop (i + l) gs)))"

fun show_ip :: "ip \<Rightarrow> string" where
  "show_ip (V4 w) = show_v4 w"
| "show_ip (V6 w z) = show_v6 w @ (case z of None \<Rightarrow> [] | Some s \<Rightarrow> ''%'' @ s)"

section \<open>Networks\<close>

definition parse_prefix :: "nat \<Rightarrow> string \<Rightarrow> nat option" where
  "parse_prefix w s = (if s = [] \<or> \<not> list_all is_digit s \<or> w < read_digits s then None
     else Some (read_digits s))"

text \<open>A dotted netmask, or a dotted host mask, in place of the prefix length.\<close>

definition netmask4 :: "nat \<Rightarrow> 32 word" where
  "netmask4 p = NOT (mask (32 - p))"

definition prefix_of_mask :: "32 word \<Rightarrow> nat option" where
  "prefix_of_mask m = (case find (\<lambda>p. netmask4 p = m) [0..<33] of
     Some p \<Rightarrow> Some p | None \<Rightarrow> find (\<lambda>p. netmask4 p = NOT m) [0..<33])"

definition parse_mask4 :: "string \<Rightarrow> nat option" where
  "parse_mask4 s = (case parse_prefix 32 s of Some p \<Rightarrow> Some p
     | None \<Rightarrow> (case parse_v4 s of None \<Rightarrow> None | Some m \<Rightarrow> prefix_of_mask m))"

definition ip_network :: "string \<Rightarrow> network option" where
  "ip_network s =
     (let (a, p) = (case split_on (CHR ''/'') s of
                      [a] \<Rightarrow> (Some a, None) | [a, p] \<Rightarrow> (Some a, Some p) | _ \<Rightarrow> (None, None))
      in case a of None \<Rightarrow> None
         | Some addr \<Rightarrow>
           (case (parse_v4 addr, (case p of None \<Rightarrow> Some 32 | Some t \<Rightarrow> parse_mask4 t)) of
              (Some w, Some n) \<Rightarrow> Some (Net4 (w AND netmask4 n) n)
            | _ \<Rightarrow> (case (parse_v6 addr, (case p of None \<Rightarrow> Some 128 | Some t \<Rightarrow> parse_prefix 128 t)) of
                (Some (w, _), Some n) \<Rightarrow> Some (Net6 (w AND NOT (mask (128 - n))) n)
              | _ \<Rightarrow> None)))"

fun in_network :: "ip \<Rightarrow> network \<Rightarrow> bool" where
  "in_network (V4 w) (Net4 n p) \<longleftrightarrow> w AND netmask4 p = n"
| "in_network (V6 w _) (Net6 n p) \<longleftrightarrow> w AND NOT (mask (128 - p)) = n"
| "in_network _ _ \<longleftrightarrow> False"

section \<open>IPv4 text is canonical\<close>

lemma octet_less [simp]: "octet i w < 256"
  by (simp add: octet_def)

lemma v4_octets [simp]: "v4_of_octets (octet 3 w) (octet 2 w) (octet (Suc 0) w) (octet 0 w) = w"
proof -
  define n where "n = unat w"
  have "n < 256 * (256 * (256 * 256))" using unsigned_less [of w] by (simp add: n_def)
  hence "n div 256 div 256 div 256 < 256" by (simp add: less_mult_imp_div_less mult.assoc)
  hence "octet 3 w = n div 256 div 256 div 256" "octet 2 w = n div 256 div 256 mod 256"
    "octet 1 w = n div 256 mod 256" "octet 0 w = n mod 256"
    by (simp_all add: octet_def n_def div_mult2_eq [symmetric])
  hence "((octet 3 w * 256 + octet 2 w) * 256 + octet 1 w) * 256 + octet 0 w = n"
    by (simp only: div_mult_mod_eq)
  thus ?thesis by (simp add: v4_of_octets_def n_def)
qed

lemma split_on_append:
  "c \<notin> set p \<Longrightarrow> split_on c (p @ c # s) = p # split_on c s" "c \<notin> set p \<Longrightarrow> split_on c p = [p]"
  by (induction p) auto

lemma not_digit_dot [simp]: "\<not> is_digit (CHR ''.'')"
  by (simp add: is_digit_def)

lemma dot_notin_show_nat [simp]: "CHR ''.'' \<notin> set (show_nat n)"
  using show_nat_digits not_digit_dot by blast

lemma show_nat_nonempty [simp]: "show_nat n \<noteq> []"
  by (simp add: show_nat.simps [of n])

lemma digit_char_0: "digit_char 0 = CHR ''0''"
  by code_simp

lemma digit_char_eq_0: "d < 10 \<Longrightarrow> digit_char d = CHR ''0'' \<longleftrightarrow> d = 0"
  by (metis digit_char_0 digit_char_inv zero_less_numeral)

lemma read_digits_0: "read_digits ''0'' = 0"
  by (simp add: read_digits_def digit_val_def)

lemma show_nat_0: "show_nat 0 = ''0''"
  by (simp add: show_nat.simps [of 0] digit_char_0)

lemma show_nat_hd: "0 < n \<Longrightarrow> hd (show_nat n) \<noteq> CHR ''0''"
proof (induction n rule: show_nat.induct)
  case (1 n)
  show ?case
  proof (cases "n < 10")
    case True
    with 1(2) show ?thesis by (simp add: show_nat.simps [of n] digit_char_eq_0)
  next
    case False
    with 1 show ?thesis by (simp add: show_nat.simps [of n])
  qed
qed

lemma length_show_octet: "n < 256 \<Longrightarrow> length (show_nat n) \<le> 3"
proof -
  assume n: "n < 256"
  have "n div 10 div 10 < 10" using n by simp
  thus ?thesis
    by (simp add: show_nat.simps [of n] show_nat.simps [of "n div 10"] show_nat.simps [of "n div 10 div 10"])
qed

lemma parse_show_octet [simp]: "n < 256 \<Longrightarrow> parse_octet (show_nat n) = Some n"
  using show_nat_hd [of n] length_show_octet [of n] show_nat_digits [of _ n]
  by (cases "n = 0") (auto simp: parse_octet_def list_all_iff show_nat_0 read_digits_0)

theorem parse_show_v4 [simp]: "parse_v4 (show_v4 w) = Some w"
  by (simp add: parse_v4_def show_v4_def split_on_append)

lemma digit_val_inv: "is_digit c \<Longrightarrow> digit_char (digit_val c) = c"
  by (simp add: is_digit_def digit_char_def digit_val_def)

lemma digit_val_less: "is_digit c \<Longrightarrow> digit_val c < 10"
  by (auto simp: is_digit_def digit_val_def)

lemma read_digits_pos: "list_all is_digit s \<Longrightarrow> s \<noteq> [] \<Longrightarrow> hd s \<noteq> CHR ''0'' \<Longrightarrow> 0 < read_digits s"
proof (induction s rule: rev_induct)
  case (snoc c s)
  show ?case
  proof (cases "s = []")
    case True
    hence "digit_char (digit_val c) \<noteq> digit_char 0"
      using snoc.prems digit_val_inv [of c] by (simp add: digit_char_0)
    hence "digit_val c \<noteq> 0" by metis
    with True show ?thesis by (simp add: read_digits_def)
  next
    case False
    with snoc have "0 < read_digits s" by auto
    thus ?thesis by simp
  qed
qed simp

lemma show_read_digits:
  "list_all is_digit s \<Longrightarrow> s \<noteq> [] \<Longrightarrow> s = ''0'' \<or> hd s \<noteq> CHR ''0'' \<Longrightarrow> show_nat (read_digits s) = s"
proof (induction s rule: rev_induct)
  case (snoc c s)
  hence c: "digit_char (digit_val c) = c" "digit_val c < 10" by (auto simp: digit_val_inv digit_val_less)
  show ?case
  proof (cases "s = []")
    case True
    with c show ?thesis by (simp add: read_digits_def show_nat.simps [of "digit_val c"])
  next
    case False
    with snoc.prems have h: "hd s \<noteq> CHR ''0''" by (auto simp: append_eq_Cons_conv)
    hence "show_nat (read_digits s) = s" "0 < read_digits s"
      using snoc False read_digits_pos by auto
    with c show ?thesis by (simp add: show_nat.simps [of "10 * read_digits s + digit_val c"])
  qed
qed simp

lemma parse_octet_Some: "parse_octet s = Some n \<Longrightarrow> show_nat n = s \<and> n < 256"
  by (auto simp: parse_octet_def show_read_digits split: if_splits)

lemma octets_of_v4:
  assumes "a < 256" "b < 256" "c < 256" "d < 256"
  shows "map (\<lambda>i. octet i (v4_of_octets a b c d)) [3, 2, 1, 0] = [a, b, c, d]"
proof -
  define n1 n2 n3 where n: "n1 = a * 256 + b" "n2 = n1 * 256 + c" "n3 = n2 * 256 + d"
  have "n3 < 2 ^ 32" using assms by (simp add: n)
  hence u: "unat (v4_of_octets a b c d) = n3"
    unfolding v4_of_octets_def n [symmetric] by (subst unat_of_nat) simp
  have m: "n3 mod 256 = d" "n3 div 256 = n2" "n2 mod 256 = c" "n2 div 256 = n1" "n1 mod 256 = b" "n1 div 256 = a"
    using assms n by (auto simp only: mod_mult_self3 div_mult_self3 mod_less div_less add_0_right)
  have "n3 div (256 * 256) = n1" "n3 div (256 * (256 * 256)) = a" using m by (simp_all add: div_mult2_eq)
  thus ?thesis using assms m by (simp add: octet_def u)
qed

theorem show_parse_v4:
  assumes "parse_v4 s = Some w"
  shows "show_v4 w = s"
proof -
  from assms obtain a b c d where p: "map parse_octet (split_on (CHR ''.'') s) = [Some a, Some b, Some c, Some d]"
    and w: "w = v4_of_octets a b c d"
    by (auto simp: parse_v4_def split: list.splits option.splits)
  then obtain ta tb tc td where t: "split_on (CHR ''.'') s = [ta, tb, tc, td]"
    and o: "parse_octet ta = Some a" "parse_octet tb = Some b" "parse_octet tc = Some c" "parse_octet td = Some d"
    by (auto simp: map_eq_Cons_conv)
  note n = o [THEN parse_octet_Some]
  have "s = str_join ''.'' [ta, tb, tc, td]" using join_split_on [of "CHR ''.''" s] unfolding t by simp
  also have "\<dots> = str_join ''.'' (map show_nat [a, b, c, d])" using n by simp
  also have "\<dots> = str_join ''.'' (map show_nat (map (\<lambda>i. octet i w) [3, 2, 1, 0]))"
    unfolding w using octets_of_v4 [of a b c d] n by simp
  finally show ?thesis by (simp add: show_v4_def)
qed

lemma show_v4_no_colon: "CHR '':'' \<notin> set (show_v4 w)"
proof -
  have "CHR '':'' \<notin> set (show_nat n)" for n
    using show_nat_digits [of "CHR '':''" n] by (auto simp: is_digit_def)
  thus ?thesis by (simp add: show_v4_def)
qed

lemma ip_address_show_v4 [simp]: "ip_address (show_v4 w) = Some (V4 w)"
  by (simp add: ip_address_def)

section \<open>Membership is agreement on the prefix\<close>

lemma and_not_mask_eq_iff:
  fixes v w :: "'a::len word"
  shows "v AND NOT (mask k) = w AND NOT (mask k) \<longleftrightarrow> drop_bit k v = drop_bit k w"
proof -
  have "x AND NOT (mask k) = push_bit k (drop_bit k x)" for x :: "'a word"
    by (rule bit_word_eqI) (auto simp: bit_simps)
  moreover have "drop_bit k (push_bit k (drop_bit k x)) = drop_bit k x" for x :: "'a word"
    by (rule bit_word_eqI) (auto simp: bit_simps dest: bit_imp_le_length)
  ultimately show ?thesis by metis
qed

theorem in_network_v4:
  "ip_network s = Some (Net4 n p) \<Longrightarrow> \<exists>w. n = w AND netmask4 p \<and>
     (\<forall>v. in_network (V4 v) (Net4 n p) \<longleftrightarrow> drop_bit (32 - p) v = drop_bit (32 - p) w)"
  by (fastforce simp: ip_network_def netmask4_def and_not_mask_eq_iff
      split: list.splits option.splits prod.splits if_splits)

lemma in_network_v4_iff:
  assumes "ip_network s = Some net"
  shows "in_network (V4 v) net \<longleftrightarrow>
    (\<exists>w p. net = Net4 (w AND netmask4 p) p \<and> drop_bit (32 - p) v = drop_bit (32 - p) w)"
proof (cases net)
  case (Net4 n p)
  with assms in_network_v4 obtain w where w: "n = w AND netmask4 p"
    and v: "in_network (V4 v) net \<longleftrightarrow> drop_bit (32 - p) v = drop_bit (32 - p) w" by blast
  show ?thesis
  proof
    assume "in_network (V4 v) net"
    thus "\<exists>w p. net = Net4 (w AND netmask4 p) p \<and> drop_bit (32 - p) v = drop_bit (32 - p) w"
      using Net4 w v by blast
  next
    assume "\<exists>w p. net = Net4 (w AND netmask4 p) p \<and> drop_bit (32 - p) v = drop_bit (32 - p) w"
    then obtain w' where w': "w AND netmask4 p = w' AND netmask4 p" "drop_bit (32 - p) v = drop_bit (32 - p) w'"
      unfolding Net4 w network.inject by blast
    from w'(1) have "drop_bit (32 - p) w = drop_bit (32 - p) w'"
      unfolding netmask4_def and_not_mask_eq_iff .
    with w'(2) v show "in_network (V4 v) net" by (simp only:)
  qed
qed simp

end
