(* ===== verification/Conditions.thy ===== *)
theory Conditions
  imports Py_Net
begin

text \<open>
  The rule language of the detection engine (\<open>detection/schema.py\<close>) and its evaluator
  (\<open>detection/conditions.py\<close>): operators, conditions, boolean groups, rules with their
  windows and exceptions, the load-time validators, path resolution and the evaluation of a
  condition tree against an event. The regular-expression engine is the third-party
  \<open>regex\<close> package and is the parameter \<open>rx\<close>: pattern, case sensitivity and
  subject to an outcome. Everything that can raise returns a value of
  \<open>eval_error + bool\<close>. The refinement theorem relates the evaluator to a plain boolean
  reading of the tree; the other theorems fix the meaning of equality, of paths and of the
  operators, and the inputs on which evaluation raises.
\<close>

section \<open>The schema\<close>

datatype severity = INFORMATIONAL | LOW | MEDIUM | HIGH | CRITICAL

fun severity_value :: "severity \<Rightarrow> string" where
  "severity_value INFORMATIONAL = ''informational''"
| "severity_value LOW = ''low''"
| "severity_value MEDIUM = ''medium''"
| "severity_value HIGH = ''high''"
| "severity_value CRITICAL = ''critical''"

datatype rule_status = ENABLED | DISABLED | TESTING

datatype operator =
    EQUALS | NOT_EQUALS | CONTAINS | NOT_CONTAINS | STARTS_WITH | ENDS_WITH | MATCHES
  | IN_OP | NOT_IN | GT | GTE | LT | LTE | EXISTS | CIDR

record condition =
  field_path :: string
  op :: operator
  cvalue :: json
  case_sensitive :: bool

datatype condition_node =
    Leaf condition
  | Group (all_of: "condition_node list option") (any_of: "condition_node list option")
      (not_of: "condition_node option")

definition MAX_PATTERN_LENGTH :: nat where "MAX_PATTERN_LENGTH = 512"

text \<open>\<open>_validate_regex\<close>; \<open>compiles\<close> is the outcome of \<open>re.compile\<close>.\<close>

definition validate_regex :: "(string \<Rightarrow> bool) \<Rightarrow> json \<Rightarrow> bool" where
  "validate_regex compiles v = (case v of JStr p \<Rightarrow> length p \<le> MAX_PATTERN_LENGTH \<and> compiles p | _ \<Rightarrow> False)"

definition check_value_present :: "(string \<Rightarrow> bool) \<Rightarrow> condition \<Rightarrow> bool" where
  "check_value_present compiles c =
     (if op c = EXISTS then (case cvalue c of JBool _ \<Rightarrow> True | _ \<Rightarrow> False)
      else if cvalue c = JNull then False
      else if op c \<in> {IN_OP, NOT_IN} \<and> (case cvalue c of JList _ \<Rightarrow> False | _ \<Rightarrow> True) then False
      else if op c = MATCHES then validate_regex compiles (cvalue c)
      else True)"

definition condition_valid :: "(string \<Rightarrow> bool) \<Rightarrow> condition \<Rightarrow> bool" where
  "condition_valid compiles c \<longleftrightarrow>
     1 \<le> length (field_path c) \<and> length (field_path c) \<le> 200 \<and> check_value_present compiles c"

text \<open>\<open>_exactly_one\<close>: one branch is set, and a list branch is not empty.\<close>

fun exactly_one :: "condition_node list option \<Rightarrow> condition_node list option \<Rightarrow> condition_node option \<Rightarrow> bool" where
  "exactly_one (Some xs) None None \<longleftrightarrow> xs \<noteq> []"
| "exactly_one None (Some xs) None \<longleftrightarrow> xs \<noteq> []"
| "exactly_one None None (Some n) \<longleftrightarrow> True"
| "exactly_one _ _ _ \<longleftrightarrow> False"

fun node_valid :: "(string \<Rightarrow> bool) \<Rightarrow> condition_node \<Rightarrow> bool" where
  "node_valid compiles (Leaf c) = condition_valid compiles c"
| "node_valid compiles (Group a b n) \<longleftrightarrow>
     exactly_one a b n \<and>
     (case a of None \<Rightarrow> True | Some xs \<Rightarrow> list_all (node_valid compiles) xs) \<and>
     (case b of None \<Rightarrow> True | Some xs \<Rightarrow> list_all (node_valid compiles) xs) \<and>
     (case n of None \<Rightarrow> True | Some x \<Rightarrow> node_valid compiles x)"

section \<open>Durations, windows and rules\<close>

definition unit_seconds :: "char \<Rightarrow> nat option" where
  "unit_seconds u = map_of [(CHR ''s'', 1), (CHR ''m'', 60), (CHR ''h'', 3600), (CHR ''d'', 86400)] u"

lemma unit_seconds_code [code]: "unit_seconds u = (if u = CHR ''s'' then Some 1 else if u = CHR ''m'' then Some 60
    else if u = CHR ''h'' then Some 3600 else if u = CHR ''d'' then Some 86400 else None)"
  by (simp add: unit_seconds_def)


text \<open>\<open>int(value) * _DURATION_SECONDS[unit]\<close> for a text matching \<open>\d+[smhd]\<close>; the
  end-of-text anchor of \<open>re\<close> also accepts one trailing newline.\<close>

definition duration_seconds :: "string \<Rightarrow> nat option" where
  "duration_seconds s =
     (let t = (if s \<noteq> [] \<and> last s = CHR 0x0A then butlast s else s) in
      if t = [] then None
      else case unit_seconds (last t) of None \<Rightarrow> None
        | Some u \<Rightarrow> if butlast t \<noteq> [] \<and> list_all is_digit (butlast t)
                    then Some (read_digits (butlast t) * u) else None)"

record window_spec =
  duration :: string
  threshold :: int
  group_by :: "string list"
  distinct_field :: "string option"

record rule_exception =
  reason :: string
  exc_conditions :: condition_node
  expires_at :: "string option"

record detection_rule =
  rule_id :: string
  rname :: string
  severity :: severity
  confidence :: int
  risk_score :: int
  status :: rule_status
  version :: int
  conditions :: condition_node
  window :: "window_spec option"
  exceptions :: "rule_exception list"
  suppression :: "string option"
  suppress_by :: "string list"
  mitre_attack :: "string list"

definition rule_type :: "detection_rule \<Rightarrow> string" where
  "rule_type r = (if window r \<noteq> None then ''windowed'' else ''streaming'')"

definition suppression_fields :: "detection_rule \<Rightarrow> string list" where
  "suppression_fields r = (if suppress_by r \<noteq> [] then suppress_by r
     else case window r of Some w \<Rightarrow> group_by w | None \<Rightarrow> [])"

text \<open>\<open>None\<close> is the \<open>ValueError\<close> of a duration the field pattern excludes.\<close>

definition suppression_seconds :: "detection_rule \<Rightarrow> nat option" where
  "suppression_seconds r = (case suppression r of None \<Rightarrow> Some 0 | Some s \<Rightarrow> duration_seconds s)"

definition technique_ok :: "string \<Rightarrow> bool" where
  "technique_ok t \<longleftrightarrow> (case split_on (CHR ''.'') t of
     [a] \<Rightarrow> length a = 5 \<and> hd a = CHR ''T'' \<and> list_all is_digit (tl a)
   | [a, b] \<Rightarrow> length a = 5 \<and> hd a = CHR ''T'' \<and> list_all is_digit (tl a) \<and> length b = 3 \<and> list_all is_digit b
   | _ \<Rightarrow> False)"

section \<open>Path resolution\<close>

text \<open>One segment of the path against one node: a dictionary is indexed, a list fans out over
  the dictionaries it holds, anything else reaches nothing.\<close>

definition step_node :: "string \<Rightarrow> json \<Rightarrow> json list" where
  "step_node seg node = (case node of
     JObj d \<Rightarrow> (case dict_get d seg of Some v \<Rightarrow> [v] | None \<Rightarrow> [])
   | JList items \<Rightarrow> List.concat (map (\<lambda>item. case item of
       JObj d \<Rightarrow> (case dict_get d seg of Some v \<Rightarrow> [v] | None \<Rightarrow> []) | _ \<Rightarrow> []) items)
   | _ \<Rightarrow> [])"

fun resolve_segments :: "string list \<Rightarrow> json list \<Rightarrow> json list" where
  "resolve_segments [] current = current"
| "resolve_segments (seg # segs) current =
     (let following = List.concat (map (step_node seg) current) in
      if following = [] then [] else resolve_segments segs following)"

definition flatten_terminal :: "json list \<Rightarrow> json list" where
  "flatten_terminal nodes = List.concat (map (\<lambda>n. case n of JList xs \<Rightarrow> xs | _ \<Rightarrow> [n]) nodes)"

definition resolve_path :: "json \<Rightarrow> string \<Rightarrow> json list" where
  "resolve_path doc path = flatten_terminal (resolve_segments (split_on (CHR ''.'') path) [doc])"

section \<open>Comparisons\<close>

datatype eval_error =
    OverflowError      \<comment> \<open>\<open>float(int)\<close> beyond the range of a double\<close>
  | RegexError         \<comment> \<open>\<open>regex.error\<close> from a pattern the \<open>regex\<close> package refuses\<close>
  | ValueError string
  | UnsupportedQueryOperator string
  | AttributeError     \<comment> \<open>\<open>.get\<close> on a value that is not a dictionary\<close>
  | TypeError
  | KeyError string
  | ClientError string \<comment> \<open>raised by the OpenSearch client\<close>

datatype regex_outcome = Found | NotFound | TimedOut | BadPattern

type_synonym regex_engine = "string \<Rightarrow> bool \<Rightarrow> string \<Rightarrow> regex_outcome"

definition as_text :: "json \<Rightarrow> string option" where
  "as_text v = (case v of JStr s \<Rightarrow> Some s
     | JBool b \<Rightarrow> Some (if b then ''true'' else ''false'')
     | JInt i \<Rightarrow> Some (show_int i) | JFloat f \<Rightarrow> Some (show_float f) | _ \<Rightarrow> None)"

definition as_number :: "json \<Rightarrow> eval_error + pyfloat option" where
  "as_number v = (case v of
     JInt i \<Rightarrow> (case to_float (of_int i) of Fin x \<Rightarrow> Inr (Some (Fin x)) | _ \<Rightarrow> Inl OverflowError)
   | JFloat f \<Rightarrow> Inr (Some f)
   | JStr s \<Rightarrow> Inr (float_of_str (str_strip s))
   | _ \<Rightarrow> Inr None)"

definition equal_text :: "bool \<Rightarrow> json \<Rightarrow> json \<Rightarrow> bool" where
  "equal_text cs l r = (case (as_text l, as_text r) of
     (Some a, Some b) \<Rightarrow> if cs then a = b else str_lower a = str_lower b
   | _ \<Rightarrow> py_eq l r)"

definition equal :: "json \<Rightarrow> json \<Rightarrow> bool \<Rightarrow> eval_error + bool" where
  "equal l r cs = bind_res (as_number l) (\<lambda>ln. bind_res (as_number r) (\<lambda>rn.
     Inr (case (ln, rn) of (Some a, Some b) \<Rightarrow> f_eq a b | _ \<Rightarrow> equal_text cs l r)))"

definition text_pair :: "json \<Rightarrow> json \<Rightarrow> bool \<Rightarrow> (string \<times> string) option" where
  "text_pair l r cs = (case (as_text l, as_text r) of
     (Some a, Some b) \<Rightarrow> Some (if cs then (a, b) else (str_lower a, str_lower b)) | _ \<Rightarrow> None)"

definition compare :: "json \<Rightarrow> json \<Rightarrow> operator \<Rightarrow> eval_error + bool" where
  "compare l r oper = bind_res (as_number l) (\<lambda>ln. bind_res (as_number r) (\<lambda>rn.
     Inr (case (ln, rn) of
       (Some a, Some b) \<Rightarrow> (case oper of GT \<Rightarrow> f_lt b a | GTE \<Rightarrow> f_le b a | LT \<Rightarrow> f_lt a b | _ \<Rightarrow> f_le a b)
     | _ \<Rightarrow> False)))"

definition candidates :: "json \<Rightarrow> json list" where
  "candidates v = (case v of JList xs \<Rightarrow> xs | _ \<Rightarrow> [v])"

definition cidr_match :: "json \<Rightarrow> json \<Rightarrow> bool" where
  "cidr_match v networks = (case as_text v of None \<Rightarrow> False
     | Some t \<Rightarrow> (case ip_address (str_strip t) of None \<Rightarrow> False
        | Some a \<Rightarrow> list_ex (\<lambda>c. case as_text c of None \<Rightarrow> False
            | Some n \<Rightarrow> (case ip_network (str_strip n) of None \<Rightarrow> False | Some net \<Rightarrow> in_network a net))
            (candidates networks)))"

definition MAX_MATCH_LENGTH :: nat where "MAX_MATCH_LENGTH = 8192"

definition regex_match :: "regex_engine \<Rightarrow> json \<Rightarrow> string \<Rightarrow> bool \<Rightarrow> eval_error + bool" where
  "regex_match rx v pat cs = (case as_text v of None \<Rightarrow> Inr False
     | Some t \<Rightarrow> (case rx pat cs (take MAX_MATCH_LENGTH t) of
         Found \<Rightarrow> Inr True | NotFound \<Rightarrow> Inr False | TimedOut \<Rightarrow> Inr False | BadPattern \<Rightarrow> Inl RegexError))"

text \<open>\<open>any(...)\<close> and \<open>all(...)\<close> over a generator: evaluation stops at the first
  decisive element, and a raise before it propagates.\<close>

fun any_res :: "('a \<Rightarrow> 'e + bool) \<Rightarrow> 'a list \<Rightarrow> 'e + bool" where
  "any_res f [] = Inr False"
| "any_res f (x # xs) = bind_res (f x) (\<lambda>b. if b then Inr True else any_res f xs)"

fun all_res :: "('a \<Rightarrow> 'e + bool) \<Rightarrow> 'a list \<Rightarrow> 'e + bool" where
  "all_res f [] = Inr True"
| "all_res f (x # xs) = bind_res (f x) (\<lambda>b. if b then all_res f xs else Inr False)"

lemma any_res_cong [fundef_cong]:
  "xs = ys \<Longrightarrow> (\<And>y. y \<in> set ys \<Longrightarrow> f y = g y) \<Longrightarrow> any_res f xs = any_res g ys"
  by (induction xs arbitrary: ys) (auto simp: bind_res_def split: sum.splits)

lemma all_res_cong [fundef_cong]:
  "xs = ys \<Longrightarrow> (\<And>y. y \<in> set ys \<Longrightarrow> f y = g y) \<Longrightarrow> all_res f xs = all_res g ys"
  by (induction xs arbitrary: ys) (auto simp: bind_res_def split: sum.splits)

definition not_res :: "'e + bool \<Rightarrow> 'e + bool" where
  "not_res r = bind_res r (\<lambda>b. Inr (\<not> b))"

definition matches_value :: "regex_engine \<Rightarrow> condition \<Rightarrow> json \<Rightarrow> eval_error + bool" where
  "matches_value rx c v = (let e = cvalue c; cs = case_sensitive c; pair = text_pair v e cs in
     case op c of
       EQUALS \<Rightarrow> equal v e cs
     | NOT_EQUALS \<Rightarrow> not_res (equal v e cs)
     | CONTAINS \<Rightarrow> Inr (case pair of None \<Rightarrow> False | Some (a, b) \<Rightarrow> str_contains a b)
     | NOT_CONTAINS \<Rightarrow> Inr (\<not> (case pair of None \<Rightarrow> False | Some (a, b) \<Rightarrow> str_contains a b))
     | STARTS_WITH \<Rightarrow> Inr (case pair of None \<Rightarrow> False | Some (a, b) \<Rightarrow> prefix b a)
     | ENDS_WITH \<Rightarrow> Inr (case pair of None \<Rightarrow> False | Some (a, b) \<Rightarrow> suffix b a)
     | MATCHES \<Rightarrow> regex_match rx v (py_str e) cs
     | IN_OP \<Rightarrow> any_res (\<lambda>k. equal v k cs) (candidates e)
     | NOT_IN \<Rightarrow> not_res (any_res (\<lambda>k. equal v k cs) (candidates e))
     | CIDR \<Rightarrow> Inr (cidr_match v e)
     | EXISTS \<Rightarrow> Inr False
     | _ \<Rightarrow> compare v e (op c))"

definition evaluate_condition :: "regex_engine \<Rightarrow> condition \<Rightarrow> document \<Rightarrow> eval_error + bool" where
  "evaluate_condition rx c doc = (let values = resolve_path (JObj doc) (field_path c) in
     if op c = EXISTS then Inr (list_ex (\<lambda>v. v \<noteq> JNull) values = py_truthy (cvalue c))
     else any_res (matches_value rx c) (filter (\<lambda>v. v \<noteq> JNull) values))"

fun evaluate_node :: "regex_engine \<Rightarrow> condition_node \<Rightarrow> document \<Rightarrow> eval_error + bool" where
  "evaluate_node rx (Leaf c) doc = evaluate_condition rx c doc"
| "evaluate_node rx (Group a b n) doc =
     (case a of Some xs \<Rightarrow> all_res (\<lambda>x. evaluate_node rx x doc) xs
      | None \<Rightarrow> (case b of Some xs \<Rightarrow> any_res (\<lambda>x. evaluate_node rx x doc) xs
      | None \<Rightarrow> (case n of Some x \<Rightarrow> not_res (evaluate_node rx x doc)
      | None \<Rightarrow> Inl (ValueError ''condition group has no branch set''))))"

section \<open>The plain reading of a condition tree\<close>

text \<open>What a tree means, with no notion of raising or of evaluation order.\<close>

definition number_of :: "json \<Rightarrow> pyfloat option" where
  "number_of v = (case v of JInt i \<Rightarrow> Some (to_float (of_int i)) | JFloat f \<Rightarrow> Some f
     | JStr s \<Rightarrow> float_of_str (str_strip s) | _ \<Rightarrow> None)"

definition same_value :: "bool \<Rightarrow> json \<Rightarrow> json \<Rightarrow> bool" where
  "same_value cs l r \<longleftrightarrow> (case (number_of l, number_of r) of
     (Some a, Some b) \<Rightarrow> f_eq a b | _ \<Rightarrow> equal_text cs l r)"

definition related_text :: "(string \<Rightarrow> string \<Rightarrow> bool) \<Rightarrow> bool \<Rightarrow> json \<Rightarrow> json \<Rightarrow> bool" where
  "related_text R cs l r \<longleftrightarrow> (\<exists>a b. text_pair l r cs = Some (a, b) \<and> R a b)"

definition related_number :: "(pyfloat \<Rightarrow> pyfloat \<Rightarrow> bool) \<Rightarrow> json \<Rightarrow> json \<Rightarrow> bool" where
  "related_number R l r \<longleftrightarrow> (\<exists>a b. number_of l = Some a \<and> number_of r = Some b \<and> R a b)"

definition value_sat :: "regex_engine \<Rightarrow> condition \<Rightarrow> json \<Rightarrow> bool" where
  "value_sat rx c v \<longleftrightarrow> (let e = cvalue c; cs = case_sensitive c in case op c of
       EQUALS \<Rightarrow> same_value cs v e
     | NOT_EQUALS \<Rightarrow> \<not> same_value cs v e
     | CONTAINS \<Rightarrow> related_text (\<lambda>a b. sublist b a) cs v e
     | NOT_CONTAINS \<Rightarrow> \<not> related_text (\<lambda>a b. sublist b a) cs v e
     | STARTS_WITH \<Rightarrow> related_text (\<lambda>a b. prefix b a) cs v e
     | ENDS_WITH \<Rightarrow> related_text (\<lambda>a b. suffix b a) cs v e
     | MATCHES \<Rightarrow> (\<exists>t. as_text v = Some t \<and> rx (py_str e) cs (take MAX_MATCH_LENGTH t) = Found)
     | IN_OP \<Rightarrow> (\<exists>k \<in> set (candidates e). same_value cs v k)
     | NOT_IN \<Rightarrow> (\<forall>k \<in> set (candidates e). \<not> same_value cs v k)
     | GT \<Rightarrow> related_number (\<lambda>a b. f_lt b a) v e
     | GTE \<Rightarrow> related_number (\<lambda>a b. f_le b a) v e
     | LT \<Rightarrow> related_number f_lt v e
     | LTE \<Rightarrow> related_number f_le v e
     | CIDR \<Rightarrow> cidr_match v e
     | EXISTS \<Rightarrow> False)"

fun node_sat :: "regex_engine \<Rightarrow> condition_node \<Rightarrow> document \<Rightarrow> bool" where
  "node_sat rx (Leaf c) doc \<longleftrightarrow>
     (let present = {v \<in> set (resolve_path (JObj doc) (field_path c)). v \<noteq> JNull} in
      if op c = EXISTS then (present \<noteq> {}) = (cvalue c = JBool True)
      else (\<exists>v \<in> present. value_sat rx c v))"
| "node_sat rx (Group a b n) doc \<longleftrightarrow>
     (case a of Some xs \<Rightarrow> (\<forall>x \<in> set xs. node_sat rx x doc)
      | None \<Rightarrow> (case b of Some xs \<Rightarrow> (\<exists>x \<in> set xs. node_sat rx x doc)
      | None \<Rightarrow> (case n of Some x \<Rightarrow> \<not> node_sat rx x doc | None \<Rightarrow> False)))"

text \<open>Integers the evaluator can convert: those whose nearest double is finite.\<close>

definition int_ok :: "int \<Rightarrow> bool" where
  "int_ok i = (case to_float (of_int i) of Fin _ \<Rightarrow> True | _ \<Rightarrow> False)"

fun ints_ok :: "json \<Rightarrow> bool" where
  "ints_ok (JInt i) = int_ok i"
| "ints_ok (JList xs) = list_all ints_ok xs"
| "ints_ok (JObj kvs) = list_all (\<lambda>(k, v). ints_ok v) kvs"
| "ints_ok _ = True"

fun node_ints_ok :: "condition_node \<Rightarrow> bool" where
  "node_ints_ok (Leaf c) = ints_ok (cvalue c)"
| "node_ints_ok (Group a b n) \<longleftrightarrow>
     (case a of None \<Rightarrow> True | Some xs \<Rightarrow> list_all node_ints_ok xs) \<and>
     (case b of None \<Rightarrow> True | Some xs \<Rightarrow> list_all node_ints_ok xs) \<and>
     (case n of None \<Rightarrow> True | Some x \<Rightarrow> node_ints_ok x)"

section \<open>Evaluation computes the plain reading\<close>

lemma any_res_Inr: "(\<And>x. x \<in> set xs \<Longrightarrow> f x = Inr (g x)) \<Longrightarrow> any_res f xs = Inr (\<exists>x \<in> set xs. g x)"
  by (induction xs) auto

lemma all_res_Inr: "(\<And>x. x \<in> set xs \<Longrightarrow> f x = Inr (g x)) \<Longrightarrow> all_res f xs = Inr (\<forall>x \<in> set xs. g x)"
  by (induction xs) auto

lemma not_res_Inr [simp]: "not_res (Inr b) = Inr (\<not> b)"
  by (simp add: not_res_def)

lemma as_text_JStr [simp]: "as_text (JStr t) = Some t"
  by (simp add: as_text_def)

lemma as_number_ok: "ints_ok v \<Longrightarrow> as_number v = Inr (number_of v)"
  by (cases v) (auto simp: as_number_def number_of_def int_ok_def split: pyfloat.splits)

lemma equal_ok: "ints_ok l \<Longrightarrow> ints_ok r \<Longrightarrow> equal l r cs = Inr (same_value cs l r)"
  by (simp add: equal_def same_value_def as_number_ok)

lemma compare_ok:
  assumes "ints_ok l" "ints_ok r"
  shows "compare l r GT = Inr (related_number (\<lambda>a b. f_lt b a) l r)"
    "compare l r GTE = Inr (related_number (\<lambda>a b. f_le b a) l r)"
    "compare l r LT = Inr (related_number f_lt l r)"
    "compare l r LTE = Inr (related_number f_le l r)"
  using assms by (auto simp: compare_def related_number_def as_number_ok split: option.splits)

lemma text_pair_related:
  "(case text_pair l r cs of None \<Rightarrow> False | Some (a, b) \<Rightarrow> R a b) = related_text R cs l r"
  by (auto simp: related_text_def split: option.splits)

lemma related_contains: "related_text str_contains = related_text (\<lambda>a b. sublist b a)"
  by (intro ext) (simp add: related_text_def str_contains_sublist)

lemma candidates_ok: "ints_ok e \<Longrightarrow> k \<in> set (candidates e) \<Longrightarrow> ints_ok k"
  by (cases e) (auto simp: candidates_def list_all_iff)

lemma regex_match_ok:
  assumes "\<And>t. rx pat cs t \<noteq> BadPattern"
  shows "regex_match rx v pat cs =
    Inr (\<exists>t. as_text v = Some t \<and> rx pat cs (take MAX_MATCH_LENGTH t) = Found)"
  using assms by (auto simp: regex_match_def split: option.splits regex_outcome.splits)

lemma matches_value_ok:
  assumes "ints_ok v" "ints_ok (cvalue c)" and "op c = MATCHES \<longrightarrow> (\<forall>t. rx (py_str (cvalue c)) (case_sensitive c) t \<noteq> BadPattern)"
  shows "matches_value rx c v = Inr (value_sat rx c v)"
proof -
  have eq: "equal v k (case_sensitive c) = Inr (same_value (case_sensitive c) v k)"
    if "k \<in> set (candidates (cvalue c))" for k
    using that assms candidates_ok equal_ok by blast
  show ?thesis
    using assms
    by (cases "op c")
       (auto simp: matches_value_def value_sat_def Let_def equal_ok text_pair_related compare_ok
          related_contains regex_match_ok
          any_res_Inr [OF eq])
qed

lemma dict_get_ok: "ints_ok (JObj d) \<Longrightarrow> dict_get d k = Some v \<Longrightarrow> ints_ok v"
  by (auto simp: list_all_iff dest!: map_of_SomeD)

lemma step_node_ok:
  assumes "ints_ok n" "v \<in> set (step_node seg n)"
  shows "ints_ok v"
proof (cases n)
  case (JList items)
  with assms(2) obtain d where "JObj d \<in> set items" "dict_get d seg = Some v"
    by (auto simp: step_node_def split: json.splits option.splits)
  with assms(1) JList show ?thesis by (auto simp: list_all_iff intro: dict_get_ok)
next
  case (JObj d)
  with assms have "dict_get d seg = Some v" by (simp add: step_node_def split: option.splits)
  with assms JObj show ?thesis using dict_get_ok by blast
qed (use assms in \<open>simp_all add: step_node_def\<close>)

lemma resolve_segments_ok:
  "list_all ints_ok ns \<Longrightarrow> v \<in> set (resolve_segments segs ns) \<Longrightarrow> ints_ok v"
proof (induction segs arbitrary: ns)
  case (Cons seg segs)
  have "list_all ints_ok (List.concat (map (step_node seg) ns))"
    using Cons.prems(1) step_node_ok by (auto simp: list_all_iff)
  with Cons show ?case by (auto simp: Let_def split: if_splits)
qed (auto simp: list_all_iff)

lemma resolve_path_ok:
  assumes "ints_ok (JObj doc)" "v \<in> set (resolve_path (JObj doc) p)"
  shows "ints_ok v"
proof -
  from assms(2) obtain n where n: "n \<in> set (resolve_segments (split_on (CHR ''.'') p) [JObj doc])"
    and v: "v \<in> set (case n of JList xs \<Rightarrow> xs | _ \<Rightarrow> [n])"
    by (auto simp: resolve_path_def flatten_terminal_def)
  from resolve_segments_ok [OF _ n] assms(1) have "ints_ok n" by simp
  with v show ?thesis by (cases n) (auto simp: list_all_iff)
qed

lemma condition_ok:
  assumes "condition_valid compiles c" "ints_ok (cvalue c)" "ints_ok (JObj doc)"
    and "\<And>p cs t. compiles p \<Longrightarrow> rx p cs t \<noteq> BadPattern"
  shows "evaluate_condition rx c doc = Inr (node_sat rx (Leaf c) doc)"
proof (cases "op c = EXISTS")
  case True
  with assms(1) obtain b where "cvalue c = JBool b"
    by (auto simp: condition_valid_def check_value_present_def split: json.splits)
  with True show ?thesis by (auto simp: evaluate_condition_def Let_def list_ex_iff)
next
  case False
  have m: "op c = MATCHES \<longrightarrow> (\<forall>t. rx (py_str (cvalue c)) (case_sensitive c) t \<noteq> BadPattern)"
    using assms(1,4)
    by (auto simp: condition_valid_def check_value_present_def validate_regex_def split: json.splits if_splits)
  have h: "matches_value rx c v = Inr (value_sat rx c v)"
    if "v \<in> set (filter (\<lambda>v. v \<noteq> JNull) (resolve_path (JObj doc) (field_path c)))" for v
    using that by (intro matches_value_ok assms(2) m resolve_path_ok [OF assms(3)]) auto
  have "any_res (matches_value rx c) (filter (\<lambda>v. v \<noteq> JNull) (resolve_path (JObj doc) (field_path c)))
      = Inr (\<exists>v \<in> set (filter (\<lambda>v. v \<noteq> JNull) (resolve_path (JObj doc) (field_path c))). value_sat rx c v)"
    by (rule any_res_Inr) (rule h)
  with False show ?thesis by (auto simp: evaluate_condition_def Let_def)
qed

lemma evaluate_node_ok:
  assumes "\<And>p cs t. compiles p \<Longrightarrow> rx p cs t \<noteq> BadPattern" and "ints_ok (JObj doc)"
    and "node_valid compiles n" and "node_ints_ok n"
  shows "evaluate_node rx n doc = Inr (node_sat rx n doc)"
  using assms
proof (induction rx n doc rule: evaluate_node.induct)
  case (1 rx c doc)
  thus ?case using condition_ok by simp
next
  case (2 rx a b n doc)
  show ?case
  proof (cases a)
    case (Some xs)
    with 2 show ?thesis by (auto simp: list_all_iff intro!: all_res_Inr)
  next
    case a: None
    show ?thesis
    proof (cases b)
      case (Some xs)
      with 2 a show ?thesis by (auto simp: list_all_iff intro!: any_res_Inr)
    next
      case None
      with 2 a show ?thesis by (cases n) auto
    qed
  qed
qed

section \<open>Paths\<close>

text \<open>What a path reaches, one segment at a time.\<close>

inductive reaches :: "json \<Rightarrow> string list \<Rightarrow> json \<Rightarrow> bool" where
  here: "reaches n [] n"
| key: "dict_get d seg = Some m \<Longrightarrow> reaches m segs v \<Longrightarrow> reaches (JObj d) (seg # segs) v"
| fan: "JObj d \<in> set items \<Longrightarrow> dict_get d seg = Some m \<Longrightarrow> reaches m segs v
        \<Longrightarrow> reaches (JList items) (seg # segs) v"

inductive_simps reaches_Nil [simp]: "reaches n [] v"
inductive_cases reaches_ConsE: "reaches n (seg # segs) v"

lemma step_node_iff:
  "m \<in> set (step_node seg n) \<longleftrightarrow>
     (\<exists>d. n = JObj d \<and> dict_get d seg = Some m) \<or>
     (\<exists>items d. n = JList items \<and> JObj d \<in> set items \<and> dict_get d seg = Some m)"
  by (cases n) (force simp: step_node_def split: json.splits option.splits)+

lemma reaches_Cons: "reaches n (seg # segs) v \<longleftrightarrow> (\<exists>m \<in> set (step_node seg n). reaches m segs v)"
  by (auto simp: step_node_iff Bex_def elim!: reaches_ConsE intro: reaches.intros)

lemma resolve_segments_reaches:
  "v \<in> set (resolve_segments segs ns) \<longleftrightarrow> (\<exists>n \<in> set ns. reaches n segs v)"
proof (induction segs arbitrary: ns)
  case (Cons seg segs)
  let ?next = "List.concat (map (step_node seg) ns)"
  show ?case
  proof (cases "?next = []")
    case True
    thus ?thesis by (auto simp: reaches_Cons)
  next
    case False
    with Cons [of ?next] show ?thesis by (auto simp: Let_def reaches_Cons)
  qed
qed simp

section \<open>Numbers that texts read as\<close>

lemma digitpart_digits: "list_all is_digit ds \<Longrightarrow> digitpart ds = (ds, [])"
proof (induction ds)
  case (Cons c ds)
  have "(case ds of u # d # r \<Rightarrow> if u = CHR ''_'' \<and> is_digit d then d # r else ds | _ \<Rightarrow> ds) = ds"
    using Cons.prems by (auto simp: is_digit_def split: list.splits)
  with Cons show ?case by simp
qed simp

lemma lower_digits: "list_all is_digit ds \<Longrightarrow> str_lower ds = ds"
  by (induction ds) (auto simp: str_lower_def char_lower_def is_digit_def)

lemma digit_not_space: "is_digit c \<Longrightarrow> \<not> is_space c"
  by (auto simp: is_digit_def is_space_def Let_def)

lemma strip_id: "s \<noteq> [] \<Longrightarrow> \<not> is_space (hd s) \<Longrightarrow> \<not> is_space (last s) \<Longrightarrow> str_strip s = s"
proof -
  assume s: "s \<noteq> []" "\<not> is_space (hd s)" "\<not> is_space (last s)"
  hence "dropWhile is_space s = s" by (cases s) auto
  moreover have "dropWhile is_space (rev s) = rev s" using s by (cases s rule: rev_cases) auto
  ultimately show ?thesis by (simp add: str_strip_def)
qed

lemma digit_misc [simp]: "\<not> is_space (CHR ''0'')" "is_digit (CHR ''0'')" "\<not> is_digit (CHR ''e'')"
  by (simp_all add: is_space_def is_digit_def)

lemma fl_zero_exp: "to_float (0 * x) = Fin 0"
  by (simp add: to_float_def float_max_def)

lemma zero_exponent_number:
  assumes "list_all is_digit ds" "ds \<noteq> []"
  shows "number_of (JStr (''0e'' @ ds)) = Some (Fin 0)"
proof -
  have last: "is_digit (last ds)" and hd: "is_digit (hd ds)" using assms by (auto simp: list_all_iff)
  hence strip: "str_strip (''0e'' @ ds) = ''0e'' @ ds"
    using assms by (intro strip_id) (auto simp: digit_not_space)
  have lower: "str_lower (''0e'' @ ds) = ''0e'' @ ds"
    using lower_digits [OF assms(1)] by (simp add: str_lower_def char_lower_def)
  have sign: "read_sign ds = (1, ds)"
    using hd assms(2) by (cases ds) (auto simp: read_sign_def is_digit_def)
  have "digitpart (''0e'' @ ds) = (''0'', CHR ''e'' # ds)" by (cases ds) auto
  moreover have "read_exponent (CHR ''e'' # ds) = Some (int (read_digits ds))"
    using assms by (simp add: read_exponent_def sign digitpart_digits)
  moreover have "read_digits ''0'' = 0" by (simp add: read_digits_def digit_val_def)
  ultimately have "read_number (''0e'' @ ds) = Some 0" by (simp add: read_number_def)
  thus ?thesis using strip lower
    by (simp add: number_of_def float_of_str_def read_sign_def to_float_def float_max_def)
qed

lemma huge_int_overflows:
  assumes "2 ^ 1024 \<le> i"
  shows "as_number (JInt i) = Inl OverflowError"
proof -
  let ?b = "2 powi 1024 :: rat"
  have "ilog2 ?b \<le> 1024"
    using ilog2_bounds [of ?b] power_int_strict_increasing [of 1024 "ilog2 ?b" "2::rat"] by force
  hence "ulp_exp ?b \<le> 1024" by (simp add: ulp_exp_def)
  hence "?b \<le> fl_pos ?b" by (intro powi_le_fl_pos) auto
  hence "?b \<le> fl ?b" by (simp add: fl_def)
  moreover have "?b \<le> of_int i"
  proof -
    have "(of_int (2 ^ 1024) :: rat) \<le> of_int i" using assms by (simp only: of_int_le_iff)
    thus ?thesis by (simp add: power_int_def)
  qed
  ultimately have "?b \<le> fl (of_int i)" using fl_mono order_trans by blast
  moreover have "float_max < ?b" by (simp add: float_max_def power_int_def)
  ultimately have "to_float (of_int i) = PInf" by (simp add: to_float_def)
  thus ?thesis by (simp add: as_number_def)
qed

section \<open>Properties\<close>


definition example_node :: condition_node where
  "example_node = Group (Some
     [Leaf \<lparr>field_path = ''user.name'', op = EQUALS, cvalue = JStr ''Alice'', case_sensitive = False\<rparr>,
      Group None None (Some (Leaf \<lparr>field_path = ''src'', op = CIDR, cvalue = JStr ''10.0.0.0/8'', case_sensitive = False\<rparr>))])
     None None"

definition example_doc :: document where
  "example_doc = [(''user'', JObj [(''name'', JStr ''ALICE'')]), (''src'', JStr ''192.168.1.1'')]"


text \<open>The values a dotted path resolves to are exactly the values reachable by indexing
  dictionaries segment by segment and fanning out over the dictionaries of a list, a list at the
  end of the path standing for its elements.\<close>

theorem resolve_path_reaches:
  "v \<in> set (resolve_path doc path) \<longleftrightarrow>
     (\<exists>n. reaches doc (split_on (CHR ''.'') path) n \<and>
        (case n of JList xs \<Rightarrow> v \<in> set xs | _ \<Rightarrow> v = n))"
proof -
  have "v \<in> set (case n of JList xs \<Rightarrow> xs | _ \<Rightarrow> [n]) \<longleftrightarrow> (case n of JList xs \<Rightarrow> v \<in> set xs | _ \<Rightarrow> v = n)" for n
    by (cases n) auto
  thus ?thesis
    by (simp add: resolve_path_def flatten_terminal_def resolve_segments_reaches Bex_def)
qed

text \<open>Equality of texts is numeric whenever both read as numbers, so any two texts of the form
  zero, \<open>e\<close>, digits compare equal, case-sensitively too: different file hashes of that
  shape satisfy each other's \<open>equals\<close> conditions.\<close>

theorem equal_zero_exponent_texts:
  assumes "list_all is_digit a" "a \<noteq> []" "list_all is_digit b" "b \<noteq> []"
  shows "equal (JStr (''0e'' @ a)) (JStr (''0e'' @ b)) cs = Inr True"
  using equal_ok [of "JStr (''0e'' @ a)" "JStr (''0e'' @ b)" cs] assms
  by (simp add: same_value_def zero_exponent_number [simplified])

theorem equal_zero_exponent_texts_witness:
  "equal (JStr ''0e462097431906509019562988736854'') (JStr ''0e830400451993494058024219903391'') True = Inr True
   \<and> ''0e462097431906509019562988736854'' \<noteq> ''0e830400451993494058024219903391''"
  using equal_zero_exponent_texts [of "''462097431906509019562988736854''" "''830400451993494058024219903391''" True]
  by (simp add: is_digit_def)

text \<open>A negative operator holds as soon as one resolved value fails the positive test. On a
  field that reaches several values a condition and its negation can hold together, so
  \<open>not_equals\<close> does not mean that no resolved value matched.\<close>

theorem not_equals_is_not_negation:
  assumes "resolve_path (JObj doc) (field_path c) = [v, w]" "v \<noteq> JNull" "w \<noteq> JNull"
    and "op c = EQUALS" and "ints_ok v" "ints_ok w" "ints_ok (cvalue c)"
    and "same_value (case_sensitive c) v (cvalue c)" "\<not> same_value (case_sensitive c) w (cvalue c)"
  shows "evaluate_condition rx c doc = Inr True \<and>
         evaluate_condition rx (c\<lparr>op := NOT_EQUALS\<rparr>) doc = Inr True"
  using assms by (simp add: evaluate_condition_def matches_value_def equal_ok)

theorem not_equals_is_not_negation_witness:
  "evaluate_condition (\<lambda>p cs t. NotFound)
     \<lparr>field_path = ''mitre'', op = EQUALS, cvalue = JStr ''T1'', case_sensitive = True\<rparr>
     [(''mitre'', JList [JStr ''T1'', JStr ''T2''])] = Inr True \<and>
   evaluate_condition (\<lambda>p cs t. NotFound)
     \<lparr>field_path = ''mitre'', op = NOT_EQUALS, cvalue = JStr ''T1'', case_sensitive = True\<rparr>
     [(''mitre'', JList [JStr ''T1'', JStr ''T2''])] = Inr True"
proof -
  let ?c = "\<lparr>field_path = ''mitre'', op = EQUALS, cvalue = JStr ''T1'', case_sensitive = True\<rparr>"
  have "resolve_path (JObj [(''mitre'', JList [JStr ''T1'', JStr ''T2''])]) ''mitre'' = [JStr ''T1'', JStr ''T2'']"
    by (simp add: resolve_path_def flatten_terminal_def step_node_def)
  moreover have "str_lower ''T1'' = ''t1''" "str_lower ''T2'' = ''t2''" by code_simp+
  hence "number_of (JStr ''T1'') = None" "number_of (JStr ''T2'') = None"
    by (simp_all add: number_of_def float_of_str_def str_strip_def is_space_def read_sign_def
        read_number_def is_digit_def)
  hence "same_value True (JStr ''T1'') (JStr ''T1'')" "\<not> same_value True (JStr ''T2'') (JStr ''T1'')"
    by (simp_all add: same_value_def equal_text_def)
  ultimately show ?thesis
    using not_equals_is_not_negation [of _ ?c "JStr ''T1''" "JStr ''T2''" "\<lambda>p cs t. NotFound"] by simp
qed

text \<open>A condition can raise: an event field that carries an integer of at least \<open>2^1024\<close>
  makes every \<open>equals\<close> test of that field end in \<open>OverflowError\<close>, whatever the
  rule compares it with.\<close>

theorem huge_integer_raises:
  assumes "2 ^ 1024 \<le> i" and "op c = EQUALS"
    and "resolve_path (JObj doc) (field_path c) = [JInt i]"
  shows "evaluate_condition rx c doc = Inl OverflowError"
  using assms by (simp add: evaluate_condition_def matches_value_def equal_def huge_int_overflows)

theorem huge_integer_raises_witness:
  "evaluate_condition (\<lambda>p cs t. NotFound)
     \<lparr>field_path = ''port'', op = EQUALS, cvalue = JInt 22, case_sensitive = False\<rparr>
     [(''port'', JInt (2 ^ 1024))] = Inl OverflowError"
  by (rule huge_integer_raises [where i = "2 ^ 1024"])
     (simp_all add: resolve_path_def flatten_terminal_def step_node_def)

text \<open>A \<open>cidr\<close> condition on an IPv4 address holds exactly when the address agrees
  with one of the listed IPv4 networks on its leading prefix bits.\<close>

theorem cidr_match_prefix:
  assumes "ip_address (str_strip t) = Some (V4 v)"
  shows "cidr_match (JStr t) networks \<longleftrightarrow>
    (\<exists>c \<in> set (candidates networks). \<exists>n w p. as_text c = Some n \<and>
       ip_network (str_strip n) = Some (Net4 (w AND netmask4 p) p) \<and> drop_bit (32 - p) v = drop_bit (32 - p) w)"
proof -
  have key: "(\<exists>net. ip_network m = Some net \<and> in_network (V4 v) net) \<longleftrightarrow>
      (\<exists>w p. ip_network m = Some (Net4 (w AND netmask4 p) p) \<and> drop_bit (32 - p) v = drop_bit (32 - p) w)" for m
    using in_network_v4_iff [of m _ v] by (cases "ip_network m") auto
  have "cidr_match (JStr t) networks \<longleftrightarrow> (\<exists>c \<in> set (candidates networks). \<exists>n.
      as_text c = Some n \<and> (\<exists>net. ip_network (str_strip n) = Some net \<and> in_network (V4 v) net))"
    using assms by (simp add: cidr_match_def list_ex_iff case_option_ex)
  thus ?thesis unfolding key by blast
qed

theorem cidr_match_prefix_witness:
  "ip_address (str_strip ''10.1.2.3'') = Some (V4 (v4_of_octets 10 1 2 3)) \<and>
   (cidr_match (JStr ''10.1.2.3'') (JStr ''10.0.0.0/8'') \<longleftrightarrow>
    (\<exists>c \<in> set (candidates (JStr ''10.0.0.0/8'')). \<exists>n w p. as_text c = Some n \<and>
       ip_network (str_strip n) = Some (Net4 (w AND netmask4 p) p) \<and>
       drop_bit (32 - p) (v4_of_octets 10 1 2 3) = drop_bit (32 - p) w))"
proof -
  have a: "ip_address (str_strip ''10.1.2.3'') = Some (V4 (v4_of_octets 10 1 2 3))" 
    by (simp add: str_strip_def is_space_def ip_address_def parse_v4_def parse_octet_def is_digit_def
        read_digits_def digit_val_def)
  show ?thesis using a cidr_match_prefix [OF a] by blast
qed

text \<open>A duration of \<open>n\<close> units written as the schema expects reads back as \<open>n\<close>
  times the unit's seconds.\<close>

theorem duration_seconds_roundtrip:
  assumes "unit_seconds u = Some k"
  shows "duration_seconds (show_nat n @ [u]) = Some (n * k)"
proof -
  have "u \<noteq> CHR 0x0A" using assms by (auto simp: unit_seconds_def split: if_splits)
  moreover have "list_all is_digit (show_nat n)" using show_nat_digits by (simp add: list_all_iff)
  ultimately show ?thesis using assms by (simp add: duration_seconds_def)
qed

theorem duration_seconds_roundtrip_witness: "duration_seconds (show_nat 15 @ ''m'') = Some (15 * 60)"
  by (rule duration_seconds_roundtrip) (simp add: unit_seconds_def)

end
