(* ===== verification/Detection.thy ===== *)
theory Detection
  imports Conditions
begin

text \<open>
  The streaming detection engine (\<open>detection/engine.py\<close>): suppression stores, rule
  exceptions, the entity a detection is about, the detection itself and the engine's loop over
  its rules. What the code reads from outside (the clocks, \<open>datetime.fromisoformat\<close>, the
  \<open>regex\<close> package, \<open>uuid4\<close>) is the record \<open>env\<close>; one call of the engine
  reads one instant. The contract of a suppression store is the locale
  \<open>suppression_store\<close>, interpreted on the in-memory store; the Redis store meets it whenever
  \<open>SET NX EX\<close> does. Metrics and log lines are not modelled.
\<close>

section \<open>Environment\<close>

datatype iso_time = Naive int | Aware int  \<comment> \<open>microseconds; a naive time as if it were UTC\<close>

record env =
  rx :: regex_engine
  fromiso :: "string \<Rightarrow> iso_time option"
  utcnow :: int  \<comment> \<open>\<open>datetime.now(UTC)\<close>, microseconds since the epoch\<close>
  isoformat :: "int \<Rightarrow> string"
  monotonic :: rat
  uuid4 :: "nat \<Rightarrow> string"

section \<open>Suppression stores\<close>

record mem_store =
  until :: "rat dict"

definition CLEANUP_THRESHOLD :: nat where "CLEANUP_THRESHOLD = 10000"

definition mem_claim :: "mem_store \<Rightarrow> rat \<Rightarrow> string \<Rightarrow> nat \<Rightarrow> bool \<times> mem_store" where
  "mem_claim s now key ttl =
     (if (case dict_get (until s) key of Some expiry \<Rightarrow> expiry > now | None \<Rightarrow> False) then (False, s)
      else let u = dict_set key (fl (now + of_nat ttl)) (until s);
               u' = (if length u > CLEANUP_THRESHOLD then filter (\<lambda>(k, v). v > now) u else u)
           in (True, s\<lparr>until := u'\<rparr>))"

definition mem_held :: "mem_store \<Rightarrow> rat \<Rightarrow> string \<Rightarrow> bool" where
  "mem_held s now key = (case dict_get (until s) key of Some expiry \<Rightarrow> expiry > now | None \<Rightarrow> False)"

text \<open>A store keeps one entry per key.\<close>

definition mem_wf :: "mem_store \<Rightarrow> bool" where
  "mem_wf s \<longleftrightarrow> distinct (map fst (until s))"

text \<open>\<open>RedisSuppressionStore\<close>: one \<open>SET NX EX\<close> on the prefixed key.\<close>

definition redis_claim ::
  "('r \<Rightarrow> rat \<Rightarrow> string \<Rightarrow> nat \<Rightarrow> bool \<times> 'r) \<Rightarrow> string \<Rightarrow> 'r \<Rightarrow> rat \<Rightarrow> string \<Rightarrow> nat \<Rightarrow> bool \<times> 'r" where
  "redis_claim set_nx_ex pre r now key ttl = set_nx_ex r now (pre @ key) ttl"

section \<open>Exceptions, entities and keys\<close>

definition exception_is_active :: "env \<Rightarrow> rule_exception \<Rightarrow> int \<Rightarrow> bool" where
  "exception_is_active e ex now = (case expires_at ex of None \<Rightarrow> True
     | Some s \<Rightarrow> (case fromiso e s of None \<Rightarrow> False
        | Some (Naive t) \<Rightarrow> t > now | Some (Aware t) \<Rightarrow> t > now))"

fun first_exception :: "env \<Rightarrow> rule_exception list \<Rightarrow> document \<Rightarrow> int \<Rightarrow> eval_error + rule_exception option" where
  "first_exception e [] doc now = Inr None"
| "first_exception e (ex # exs) doc now =
     (if \<not> exception_is_active e ex now then first_exception e exs doc now
      else bind_res (evaluate_node (rx e) (exc_conditions ex) doc)
             (\<lambda>b. if b then Inr (Some ex) else first_exception e exs doc now))"

definition matching_exception :: "env \<Rightarrow> detection_rule \<Rightarrow> document \<Rightarrow> eval_error + rule_exception option" where
  "matching_exception e r doc = first_exception e (exceptions r) doc (utcnow e)"

definition entity_key :: "detection_rule \<Rightarrow> document \<Rightarrow> document" where
  "entity_key r doc = fold (\<lambda>path d. dict_set path
     (case resolve_path (JObj doc) path of v # _ \<Rightarrow> v | [] \<Rightarrow> JNull) d) (suppression_fields r) []"

definition sorted_keys :: "'v dict \<Rightarrow> string list" where
  "sorted_keys d = sort (map fst d)"

definition key_part :: "document \<Rightarrow> string \<Rightarrow> string" where
  "key_part entity path = path @ ''='' @ py_repr (get entity path)"

definition suppression_key :: "detection_rule \<Rightarrow> string \<Rightarrow> document \<Rightarrow> string" where
  "suppression_key r tenant entity =
     tenant @ '':'' @ rule_id r @ '':v'' @ show_int (version r) @ '':''
       @ str_join ''|'' (map (key_part entity) (sorted_keys entity))"

section \<open>Detections\<close>

record rule_match =
  detection_id :: string
  m_tenant :: string
  m_rule_id :: string
  m_rule_name :: string
  m_rule_type :: string
  m_severity :: string
  m_confidence :: int
  m_risk_score :: int
  m_mitre :: "string list"
  m_event_ids :: "json list"
  m_entity :: document
  matched_at :: string
  dry_run :: bool
  m_evidence :: document

definition entity_summary :: "document \<Rightarrow> string" where
  "entity_summary entity = str_join ''|'' (map (\<lambda>k. k @ ''='' @ py_str (get entity k)) (sorted_keys entity))"

definition to_document :: "rule_match \<Rightarrow> document" where
  "to_document m =
    [(''detection_id'', JStr (detection_id m)), (''tenant_id'', JStr (m_tenant m)),
     (''rule_id'', JStr (m_rule_id m)), (''rule_name'', JStr (m_rule_name m)),
     (''rule_type'', JStr (m_rule_type m)), (''severity'', JStr (m_severity m)),
     (''confidence'', JInt (m_confidence m)), (''risk_score'', JInt (m_risk_score m)),
     (''mitre_attack'', JList (map JStr (m_mitre m))), (''event_ids'', JList (m_event_ids m)),
     (''entity'', JObj (m_entity m)), (''entity_summary'', JStr (entity_summary (m_entity m))),
     (''matched_at'', JStr (matched_at m)), (''dry_run'', JBool (dry_run m)),
     (''evidence'', JObj (m_evidence m))]"

definition build_match ::
  "env \<Rightarrow> nat \<Rightarrow> detection_rule \<Rightarrow> string \<Rightarrow> json list \<Rightarrow> document \<Rightarrow> document \<Rightarrow> rule_match" where
  "build_match e n r tenant ids entity evidence = \<lparr>detection_id = uuid4 e n, m_tenant = tenant,
     m_rule_id = rule_id r, m_rule_name = rname r, m_rule_type = rule_type r,
     m_severity = severity_value (severity r), m_confidence = confidence r, m_risk_score = risk_score r,
     m_mitre = mitre_attack r, m_event_ids = ids, m_entity = entity, matched_at = isoformat e (utcnow e),
     dry_run = (status r = TESTING), m_evidence = evidence\<rparr>"

definition EVIDENCE_FIELDS :: "string list" where
  "EVIDENCE_FIELDS = [''timestamp'', ''source_type'', ''class'', ''hostname'', ''source_ip'',
     ''destination_ip'', ''user'', ''process'', ''authentication'']"

definition excerpt :: "string list \<Rightarrow> document \<Rightarrow> document" where
  "excerpt names doc = List.map_filter (\<lambda>k. map_option (Pair k) (dict_get doc k)) names"

definition evidence :: "document \<Rightarrow> document" where
  "evidence doc = excerpt EVIDENCE_FIELDS doc"

section \<open>The engine\<close>

record engine =
  rules :: "detection_rule list"
  store :: mem_store
  issued :: nat  \<comment> \<open>how many \<open>uuid4\<close> values were drawn\<close>

definition replace_rules :: "detection_rule list \<Rightarrow> engine \<Rightarrow> engine" where
  "replace_rules rs g = g\<lparr>rules := filter (\<lambda>r. rule_type r = ''streaming'' \<and> status r \<noteq> DISABLED) rs\<rparr>"

definition new_engine :: "detection_rule list \<Rightarrow> engine" where
  "new_engine rs = replace_rules rs \<lparr>rules = [], store = \<lparr>until = []\<rparr>, issued = 0\<rparr>"

definition emit :: "env \<Rightarrow> engine \<Rightarrow> detection_rule \<Rightarrow> document \<Rightarrow> string \<Rightarrow> string \<Rightarrow> document \<Rightarrow> rule_match option \<times> engine" where
  "emit e g r doc tenant event entity =
     (Some (build_match e (issued g) r tenant (if event \<noteq> [] then [JStr event] else []) entity (evidence doc)),
      g\<lparr>issued := Suc (issued g)\<rparr>)"

definition evaluate_one ::
  "env \<Rightarrow> engine \<Rightarrow> detection_rule \<Rightarrow> document \<Rightarrow> string \<Rightarrow> string \<Rightarrow> eval_error + rule_match option \<times> engine" where
  "evaluate_one e g r doc tenant event =
     bind_res (evaluate_node (rx e) (conditions r) doc) (\<lambda>hit.
       if \<not> hit then Inr (None, g)
       else bind_res (matching_exception e r doc) (\<lambda>ex.
         if ex \<noteq> None then Inr (None, g)
         else let entity = entity_key r doc in
           case suppression_seconds r of
             None \<Rightarrow> Inl (ValueError ''invalid suppression duration'')
           | Some secs \<Rightarrow>
               if 0 < secs then
                 (case mem_claim (store g) (monotonic e) (suppression_key r tenant entity) secs of
                    (granted, st) \<Rightarrow>
                      if granted then Inr (emit e (g\<lparr>store := st\<rparr>) r doc tenant event entity)
                      else Inr (None, g\<lparr>store := st\<rparr>))
               else Inr (emit e g r doc tenant event entity)))"

fun evaluate_rules ::
  "env \<Rightarrow> detection_rule list \<Rightarrow> engine \<Rightarrow> document \<Rightarrow> string \<Rightarrow> string \<Rightarrow> rule_match list \<times> engine" where
  "evaluate_rules e [] g doc tenant event = ([], g)"
| "evaluate_rules e (r # rs) g doc tenant event =
     (case evaluate_one e g r doc tenant event of
        Inl _ \<Rightarrow> evaluate_rules e rs g doc tenant event
      | Inr (m, g') \<Rightarrow> (case evaluate_rules e rs g' doc tenant event of
          (ms, g'') \<Rightarrow> ((case m of None \<Rightarrow> ms | Some x \<Rightarrow> x # ms), g'')))"

definition evaluate :: "env \<Rightarrow> engine \<Rightarrow> document \<Rightarrow> rule_match list \<times> engine" where
  "evaluate e g doc = evaluate_rules e (rules g) g doc
     (str_or (get doc ''tenant_id'') []) (str_or (get doc ''event_id'') [])"

text \<open>A run of the engine over a sequence of events, each with the environment it was read in.\<close>

fun run_engine :: "(env \<times> document) list \<Rightarrow> engine \<Rightarrow> rule_match list \<times> engine" where
  "run_engine [] g = ([], g)"
| "run_engine ((e, doc) # rest) g =
     (case evaluate e g doc of (ms, g') \<Rightarrow> (case run_engine rest g' of (ns, g'') \<Rightarrow> (ms @ ns, g'')))"

section \<open>The contract of a suppression store\<close>

locale suppression_store =
  fixes claim :: "'s \<Rightarrow> rat \<Rightarrow> string \<Rightarrow> nat \<Rightarrow> bool \<times> 's"
    and held :: "'s \<Rightarrow> rat \<Rightarrow> string \<Rightarrow> bool"
    and wf :: "'s \<Rightarrow> bool"
  assumes claim_granted: "fst (claim s t k ttl) \<longleftrightarrow> \<not> held s t k"
    and claim_holds: "wf s \<Longrightarrow> fst (claim s t k ttl) \<Longrightarrow> t \<le> t' \<Longrightarrow>
      held (snd (claim s t k ttl)) t' k \<longleftrightarrow> t' < fl (t + of_nat ttl)"
    and claim_frame: "wf s \<Longrightarrow> t \<le> t' \<Longrightarrow> k' \<noteq> k \<Longrightarrow> held (snd (claim s t k ttl)) t' k' = held s t' k'"
    and claim_refused: "\<not> fst (claim s t k ttl) \<Longrightarrow> snd (claim s t k ttl) = s"
    and claim_wf: "wf s \<Longrightarrow> wf (snd (claim s t k ttl))"
    and held_antimono: "held s t' k \<Longrightarrow> t \<le> t' \<Longrightarrow> held s t k"
begin

lemma claim_keeps_held:
  assumes "wf s" "held s t' k" "t \<le> t'"
  shows "held (snd (claim s t k' ttl)) t' k"
proof (cases "k' = k")
  case True
  have "held s t k" using assms held_antimono by blast
  hence "\<not> fst (claim s t k ttl)" by (simp add: claim_granted)
  with True assms show ?thesis by (simp add: claim_refused)
qed (use assms claim_frame in auto)

lemma second_claim_refused:
  assumes "wf s" "fst (claim s t k ttl)" "t \<le> t'" "t' < fl (t + of_nat ttl)"
  shows "\<not> fst (claim (snd (claim s t k ttl)) t' k ttl')"
  using assms claim_holds claim_granted by auto

end

lemma mem_wf_claim: "mem_wf s \<Longrightarrow> mem_wf (snd (mem_claim s t k ttl))"
  by (auto simp: mem_wf_def mem_claim_def Let_def distinct_update intro: distinct_map_filter)

lemma map_of_filter_value:
  "distinct (map fst u) \<Longrightarrow> map_of (filter (\<lambda>(k, v). P v) u) k =
     (case map_of u k of Some v \<Rightarrow> if P v then Some v else None | None \<Rightarrow> None)"
proof (induction u)
  case (Cons x u)
  obtain k' v' where x: "x = (k', v')" by (cases x)
  have "map_of u k' = None" using Cons.prems x by (simp add: map_of_eq_None_iff)
  with Cons x show ?case by (auto split: option.splits)
qed simp

lemma mem_claim_held:
  assumes "mem_wf s" "fst (mem_claim s t k ttl)" "t \<le> t'"
  shows "mem_held (snd (mem_claim s t k ttl)) t' k' =
    (if k' = k then t' < fl (t + of_nat ttl) else mem_held s t' k')"
proof -
  let ?u = "dict_set k (fl (t + of_nat ttl)) (until s)"
  have d: "distinct (map fst ?u)" using assms(1) by (simp add: mem_wf_def distinct_update)
  have "until (snd (mem_claim s t k ttl)) = (if length ?u > CLEANUP_THRESHOLD then filter (\<lambda>(k, v). v > t) ?u else ?u)"
    using assms(2) by (auto simp: mem_claim_def Let_def)
  moreover have "(case map_of (filter (\<lambda>(k, v). v > t) ?u) k' of Some v \<Rightarrow> v > t' | None \<Rightarrow> False)
      = (case map_of ?u k' of Some v \<Rightarrow> v > t' | None \<Rightarrow> False)"
    using assms(3) by (auto simp: map_of_filter_value [OF d] split: option.splits)
  ultimately show ?thesis by (auto simp: mem_held_def dict_get_set)
qed

interpretation mem: suppression_store mem_claim mem_held mem_wf
proof
  fix s :: mem_store and t :: rat and k :: string and ttl :: nat
  show "fst (mem_claim s t k ttl) \<longleftrightarrow> \<not> mem_held s t k" by (simp add: mem_claim_def mem_held_def Let_def)
  show "\<not> fst (mem_claim s t k ttl) \<Longrightarrow> snd (mem_claim s t k ttl) = s"
    by (auto simp: mem_claim_def Let_def split: if_splits)
  show "mem_wf s \<Longrightarrow> mem_wf (snd (mem_claim s t k ttl))" by (rule mem_wf_claim)
next
  fix s :: mem_store and t t' :: rat and k :: string and ttl :: nat
  assume "mem_wf s" "fst (mem_claim s t k ttl)" "t \<le> t'"
  thus "mem_held (snd (mem_claim s t k ttl)) t' k \<longleftrightarrow> t' < fl (t + of_nat ttl)"
    by (simp add: mem_claim_held)
next
  fix s :: mem_store and t t' :: rat and k k' :: string and ttl :: nat
  assume a: "mem_wf s" "t \<le> t'" "k' \<noteq> k"
  show "mem_held (snd (mem_claim s t k ttl)) t' k' = mem_held s t' k'"
  proof (cases "fst (mem_claim s t k ttl)")
    case False
    hence "snd (mem_claim s t k ttl) = s" by (auto simp: mem_claim_def Let_def split: if_splits)
    thus ?thesis by simp
  qed (use a mem_claim_held in simp)
next
  fix s :: mem_store and t t' :: rat and k :: string
  assume "mem_held s t' k" "t \<le> t'"
  thus "mem_held s t k" by (auto simp: mem_held_def split: option.splits)
qed

lemma redis_claim_store:
  assumes "suppression_store set_nx_ex held wf"
  shows "suppression_store (redis_claim set_nx_ex pre) (\<lambda>s t k. held s t (pre @ k)) wf"
proof -
  from assms show ?thesis unfolding suppression_store_def redis_claim_def by simp
qed

section \<open>How evaluation uses the store\<close>

lemmas evaluate_one_defs = evaluate_one_def emit_def Let_def bind_res_def

lemma evaluate_one_store:
  assumes "evaluate_one e g r doc tenant event = Inr (m, g')"
  shows "store g' = store g \<or> (\<exists>k ttl. store g' = snd (mem_claim (store g) (monotonic e) k ttl))"
  using assms
  by (auto simp: evaluate_one_defs split: sum.splits if_splits option.splits prod.splits; metis snd_conv)

lemma evaluate_one_held:
  assumes "mem_wf (store g)" "mem_held (store g) t k" "monotonic e \<le> t"
    and "evaluate_one e g r doc tenant event = Inr (m, g')"
  shows "mem_wf (store g') \<and> mem_held (store g') t k"
  using evaluate_one_store [OF assms(4)] assms(1-3) mem_wf_claim mem.claim_keeps_held by metis

lemma evaluate_rules_held:
  "mem_wf (store g) \<Longrightarrow> mem_held (store g) t k \<Longrightarrow> monotonic e \<le> t \<Longrightarrow>
   mem_wf (store (snd (evaluate_rules e rs g doc tenant event))) \<and>
   mem_held (store (snd (evaluate_rules e rs g doc tenant event))) t k"
proof (induction rs arbitrary: g)
  case (Cons r rs)
  show ?case
  proof (cases "evaluate_one e g r doc tenant event")
    case (Inl err)
    with Cons show ?thesis by simp
  next
    case (Inr p)
    obtain m g' where p: "p = (m, g')" by (cases p)
    with Inr Cons.prems evaluate_one_held have "mem_wf (store g')" "mem_held (store g') t k" by metis+
    with Cons.IH [of g'] Cons.prems Inr p show ?thesis by (auto split: prod.splits)
  qed
qed simp

lemma run_engine_snd: "snd (run_engine ((e, d) # trace) g) = snd (run_engine trace (snd (evaluate e g d)))"
  by (simp split: prod.splits)

lemma run_engine_held:
  "mem_wf (store g) \<Longrightarrow> mem_held (store g) t k \<Longrightarrow> (\<forall>(e, d) \<in> set trace. monotonic e \<le> t) \<Longrightarrow>
   mem_wf (store (snd (run_engine trace g))) \<and> mem_held (store (snd (run_engine trace g))) t k"
proof (induction trace arbitrary: g)
  case (Cons x trace)
  obtain e d where x: "x = (e, d)" by (cases x)
  let ?g = "snd (evaluate e g d)"
  have "mem_wf (store ?g) \<and> mem_held (store ?g) t k"
    unfolding evaluate_def using Cons.prems x by (intro evaluate_rules_held) auto
  with Cons.IH [of ?g] Cons.prems x show ?case by (simp add: run_engine_snd del: run_engine.simps)
qed simp

lemma evaluate_one_match:
  assumes "evaluate_one e g r doc tenant event = Inr (Some m, g')"
  shows "evaluate_node (rx e) (conditions r) doc = Inr True \<and> matching_exception e r doc = Inr None \<and>
    m = build_match e (issued g) r tenant (if event \<noteq> [] then [JStr event] else []) (entity_key r doc) (evidence doc)"
  using assms by (auto simp: evaluate_one_defs split: sum.splits if_splits option.splits prod.splits)

lemma evaluate_one_claims:
  assumes "evaluate_one e g r doc tenant event = Inr (Some m, g')" "suppression_seconds r = Some secs" "0 < secs"
  shows "fst (mem_claim (store g) (monotonic e) (suppression_key r tenant (entity_key r doc)) secs) \<and>
    store g' = snd (mem_claim (store g) (monotonic e) (suppression_key r tenant (entity_key r doc)) secs)"
  using assms by (auto simp: evaluate_one_defs split: sum.splits if_splits option.splits prod.splits)

lemma evaluate_rules_sound:
  "m \<in> set (fst (evaluate_rules e rs g doc tenant event)) \<Longrightarrow>
   \<exists>r \<in> set rs. \<exists>n. evaluate_node (rx e) (conditions r) doc = Inr True \<and> matching_exception e r doc = Inr None \<and>
    m = build_match e n r tenant (if event \<noteq> [] then [JStr event] else []) (entity_key r doc) (evidence doc)"
proof (induction rs arbitrary: g)
  case (Cons r rs)
  show ?case
  proof (cases "evaluate_one e g r doc tenant event")
    case (Inl err)
    with Cons show ?thesis by auto
  next
    case (Inr p)
    obtain x g' where p: "p = (x, g')" by (cases p)
    show ?thesis
    proof (cases "x = Some m")
      case True
      with Inr p evaluate_one_match show ?thesis by (metis list.set_intros(1))
    next
      case False
      with Inr p Cons.prems have "m \<in> set (fst (evaluate_rules e rs g' doc tenant event))"
        by (auto split: prod.splits option.splits)
      with Cons.IH show ?thesis by (metis list.set_intros(2))
    qed
  qed
qed simp

lemma evaluate_rules_complete:
  assumes "r \<in> set rs" "suppression_seconds r = Some 0" "evaluate_node (rx e) (conditions r) doc = Inr True"
    and "matching_exception e r doc = Inr None"
  shows "\<exists>n. build_match e n r tenant (if event \<noteq> [] then [JStr event] else []) (entity_key r doc) (evidence doc)
    \<in> set (fst (evaluate_rules e rs g doc tenant event))"
  using assms(1)
proof (induction rs arbitrary: g)
  case (Cons r' rs)
  show ?case
  proof (cases "r' = r")
    case True
    thus ?thesis using assms(2-4) by (auto simp: evaluate_one_defs split: prod.splits)
  next
    case False
    with Cons have r: "r \<in> set rs" by simp
    show ?thesis
    proof (cases "evaluate_one e g r' doc tenant event")
      case (Inl err)
      with Cons.IH [OF r, of g] show ?thesis by simp
    next
      case (Inr p)
      obtain x g' where "p = (x, g')" by (cases p)
      with Inr Cons.IH [OF r, of g'] show ?thesis by (cases x) (auto split: prod.splits)
    qed
  qed
qed simp

lemma raising_rule_skipped:
  assumes "\<And>g. \<exists>err. evaluate_one e g r doc tenant event = Inl err"
  shows "evaluate_rules e (as @ r # bs) g doc tenant event = evaluate_rules e (as @ bs) g doc tenant event"
proof (induction as arbitrary: g)
  case Nil
  obtain err where "evaluate_one e g r doc tenant event = Inl err" using assms by blast
  thus ?case by simp
qed (auto split: sum.splits)

lemma first_exception_filter:
  "first_exception e exs doc now = first_exception e (filter (\<lambda>ex. exception_is_active e ex now) exs) doc now"
  by (induction exs) (auto simp: bind_res_def split: sum.splits)

section \<open>Keys of entities\<close>

lemma join_parts_inject:
  assumes "\<forall>p \<in> set ps. \<exists>s t. get a p = JStr s \<and> get b p = JStr t"
    and "str_join ''|'' (map (key_part a) ps) = str_join ''|'' (map (key_part b) ps)"
  shows "\<forall>p \<in> set ps. get a p = get b p"
  using assms
proof (induction ps)
  case (Cons p ps)
  from Cons.prems(1) obtain s t where st: "get a p = JStr s" "get b p = JStr t" by auto
  obtain u w where uw: "str_join ''|'' (map (key_part a) (p # ps)) = key_part a p @ u"
    "str_join ''|'' (map (key_part b) (p # ps)) = key_part b p @ w"
    and rest: "u = w \<longrightarrow> str_join ''|'' (map (key_part a) ps) = str_join ''|'' (map (key_part b) ps)"
    by (cases ps) auto
  have "repr_str s @ u = repr_str t @ w" using Cons.prems(2) st unfolding uw by (simp add: key_part_def)
  hence "s = t" "u = w" using repr_str_delimited by blast+
  with Cons st rest show ?case by simp
qed simp

section \<open>Properties\<close>

text \<open>C2: everything the streaming engine emits for an event comes from a rule of the set it was
  given that is a streaming rule and not disabled, whose conditions hold on the event and for
  which no active exception matches; the emitted detection is a dry run exactly when the rule is
  in testing, and carries the rule's own identity, severity and scores.\<close>

theorem streaming_detections_sound:
  assumes "m \<in> set (fst (evaluate e (replace_rules rs g) doc))"
  shows "\<exists>r \<in> set rs. rule_type r = ''streaming'' \<and> status r \<noteq> DISABLED \<and>
    evaluate_node (rx e) (conditions r) doc = Inr True \<and> matching_exception e r doc = Inr None \<and>
    (dry_run m \<longleftrightarrow> status r = TESTING) \<and> m_rule_id m = rule_id r \<and>
    m_severity m = severity_value (severity r) \<and> m_confidence m = confidence r \<and>
    m_risk_score m = risk_score r \<and> m_tenant m = str_or (get doc ''tenant_id'') []"
  using evaluate_rules_sound [OF assms [unfolded evaluate_def]]
  by (auto simp: replace_rules_def build_match_def)

definition example_rule :: detection_rule where
  "example_rule = \<lparr>rule_id = ''AUTH-001'', rname = ''Root logon'', severity = HIGH, confidence = 80,
     risk_score = 70, status = ENABLED, version = 1,
     conditions = Leaf \<lparr>field_path = ''user'', op = EXISTS, cvalue = JBool True, case_sensitive = False\<rparr>,
     window = None, exceptions = [], suppression = Some ''5m'', suppress_by = [''user''], mitre_attack = []\<rparr>"

definition example_env :: "rat \<Rightarrow> env" where
  "example_env t = \<lparr>rx = (\<lambda>p cs s. NotFound), fromiso = (\<lambda>s. None), utcnow = 0, isoformat = show_int,
     monotonic = t, uuid4 = (\<lambda>n. show_nat n)\<rparr>"

definition example_event :: document where
  "example_event = [(''tenant_id'', JStr ''t1''), (''event_id'', JStr ''e1''), (''user'', JStr ''root'')]"

lemmas example_defs = example_rule_def example_env_def example_event_def

lemma example_node_true: "evaluate_node x (conditions example_rule) example_event = Inr True"
  by (simp add: example_defs evaluate_condition_def resolve_path_def flatten_terminal_def step_node_def)

lemma example_exception: "matching_exception v example_rule example_event = Inr None"
  by (simp add: matching_exception_def example_rule_def)

lemma example_seconds: "suppression_seconds example_rule = Some 300"
  by (simp add: suppression_seconds_def example_rule_def duration_seconds_def unit_seconds_def is_digit_def
      read_digits_def digit_val_def)

lemma example_first: "\<exists>m g. evaluate_one (example_env 0) (new_engine [example_rule]) example_rule
    example_event ''t1'' ''e1'' = Inr (Some m, g)"
  by (simp add: evaluate_one_defs example_node_true example_exception example_seconds new_engine_def
      replace_rules_def mem_claim_def split: prod.splits)

text \<open>C4: once a rule with suppression has fired for an entity, it stays silent for that entity:
  whatever events the engine processes in between, no later evaluation of the rule for the same
  tenant and entity, before the suppression time has run out, produces a detection.\<close>

theorem suppressed_rule_stays_silent:
  assumes "mem_wf (store g)" and "evaluate_one e1 g r d1 tenant ev1 = Inr (Some m, g1)"
    and "suppression_seconds r = Some secs" and "0 < secs"
    and "\<forall>(e, d) \<in> set trace. monotonic e \<le> monotonic e2"
    and "monotonic e1 \<le> monotonic e2" and "monotonic e2 < fl (monotonic e1 + of_nat secs)"
    and "entity_key r d2 = entity_key r d1"
  shows "evaluate_one e2 (snd (run_engine trace g1)) r d2 tenant ev2 \<noteq> Inr (Some m', g2)"
proof
  let ?k = "suppression_key r tenant (entity_key r d1)" and ?g = "snd (run_engine trace g1)"
  from evaluate_one_claims [OF assms(2-4)] have c: "fst (mem_claim (store g) (monotonic e1) ?k secs)"
    and s: "store g1 = snd (mem_claim (store g) (monotonic e1) ?k secs)" by auto
  have "mem_wf (store g1) \<and> mem_held (store g1) (monotonic e2) ?k"
    using mem.claim_holds [OF assms(1) c assms(6)] assms(7) mem_wf_claim [OF assms(1)] by (simp add: s)
  hence "mem_held (store ?g) (monotonic e2) ?k" using run_engine_held assms(5) by blast
  moreover assume "evaluate_one e2 ?g r d2 tenant ev2 = Inr (Some m', g2)"
  hence "fst (mem_claim (store ?g) (monotonic e2) ?k secs)"
    using evaluate_one_claims [OF _ assms(3,4)] assms(8) by metis
  ultimately show False by (simp add: mem.claim_granted)
qed

theorem suppressed_rule_stays_silent_witness:
  "\<exists>m g1. evaluate_one (example_env 0) (new_engine [example_rule]) example_rule example_event ''t1'' ''e1'' = Inr (Some m, g1)
    \<and> (\<forall>m' g2. evaluate_one (example_env 299) (snd (run_engine [(example_env 10, example_event)] g1))
         example_rule example_event ''t1'' ''e2'' \<noteq> Inr (Some m', g2))"
proof -
  obtain m g1 where a: "evaluate_one (example_env 0) (new_engine [example_rule]) example_rule example_event ''t1'' ''e1''
      = Inr (Some m, g1)" using example_first by blast
  have wf: "mem_wf (store (new_engine [example_rule]))" by (simp add: mem_wf_def new_engine_def replace_rules_def)
  have f: "fl (300::rat) = 300" using fl_int [of 300] by simp
  show ?thesis using a
    suppressed_rule_stays_silent [OF wf a example_seconds, of "[(example_env 10, example_event)]" "example_env 299" example_event "''e2''"]
    by (auto simp: example_env_def f)
qed

theorem streaming_detections_sound_witness:
  "\<exists>m. m \<in> set (fst (evaluate (example_env 0) (replace_rules [example_rule] (new_engine [])) example_event))
     \<and> m_rule_id m = ''AUTH-001'' \<and> \<not> dry_run m"
proof -
  have eng: "replace_rules [example_rule] (new_engine []) = new_engine [example_rule]"
    by (simp add: replace_rules_def new_engine_def)
  have r: "rules (new_engine [example_rule]) = [example_rule]"
    by (simp add: new_engine_def replace_rules_def rule_type_def example_rule_def)
  have t: "str_or (get example_event ''tenant_id'') [] = ''t1''" "str_or (get example_event ''event_id'') [] = ''e1''"
    by (simp_all add: str_or_def example_event_def)
  obtain m where m: "m \<in> set (fst (evaluate (example_env 0) (replace_rules [example_rule] (new_engine [])) example_event))"
    using example_first by (auto simp: evaluate_def eng r t)
  from m streaming_detections_sound [OF m] show ?thesis by (auto simp: example_rule_def)
qed

text \<open>C3: an enabled streaming rule without suppression whose conditions hold, and which no
  active exception covers, always produces its detection, whatever the other rules do.\<close>

theorem streaming_detections_complete:
  assumes "r \<in> set rs" and "rule_type r = ''streaming''" and "status r \<noteq> DISABLED"
    and "suppression_seconds r = Some 0"
    and "evaluate_node (rx e) (conditions r) doc = Inr True" and "matching_exception e r doc = Inr None"
  shows "\<exists>m \<in> set (fst (evaluate e (replace_rules rs g) doc)). m_rule_id m = rule_id r \<and> m_entity m = entity_key r doc"
proof -
  have "r \<in> set (rules (replace_rules rs g))" using assms by (simp add: replace_rules_def)
  from evaluate_rules_complete [OF this assms(4-6)] obtain n where
    n: "build_match e n r (str_or (get doc ''tenant_id'') []) (if str_or (get doc ''event_id'') [] \<noteq> [] then
      [JStr (str_or (get doc ''event_id'') [])] else []) (entity_key r doc) (evidence doc)
      \<in> set (fst (evaluate e (replace_rules rs g) doc))" unfolding evaluate_def by blast
  show ?thesis by (rule bexI [OF _ n]) (simp add: build_match_def)
qed

theorem streaming_detections_complete_witness:
  "\<exists>m \<in> set (fst (evaluate (example_env 0) (replace_rules [example_rule\<lparr>suppression := None\<rparr>] (new_engine [])) example_event)).
     m_rule_id m = ''AUTH-001'' \<and> m_entity m = entity_key (example_rule\<lparr>suppression := None\<rparr>) example_event"
  using streaming_detections_complete [of "example_rule\<lparr>suppression := None\<rparr>" "[example_rule\<lparr>suppression := None\<rparr>]"
      "example_env 0" example_event "new_engine []"] example_node_true
  by (simp add: rule_type_def suppression_seconds_def example_rule_def matching_exception_def)

text \<open>A rule whose conditions raise changes nothing for the other rules: the detections and
  the engine state are those of the rule set without it.\<close>

theorem broken_rule_isolated:
  assumes "evaluate_node (rx e) (conditions r) doc = Inl err"
  shows "evaluate_rules e (as @ r # bs) g doc tenant event = evaluate_rules e (as @ bs) g doc tenant event"
  by (rule raising_rule_skipped) (simp add: evaluate_one_def assms)

theorem broken_rule_isolated_witness:
  "evaluate_rules (example_env 0) [example_rule\<lparr>conditions := Group None None None\<rparr>, example_rule]
      (new_engine []) example_event ''t1'' ''e1''
    = evaluate_rules (example_env 0) [example_rule] (new_engine []) example_event ''t1'' ''e1''"
  using broken_rule_isolated [of "example_env 0" "example_rule\<lparr>conditions := Group None None None\<rparr>" example_event
      "ValueError ''condition group has no branch set''" "[]" "[example_rule]"] by simp

text \<open>Suppression slots never collide: two keys are equal only for the same tenant, rule,
  rule version and, for entities made of texts over the same paths, the same values. No value an
  attacker chooses can make one entity occupy another entity's slot.\<close>

theorem suppression_key_injective:
  assumes "suppression_key r t1 a = suppression_key r' t2 b"
    and "CHR '':'' \<notin> set t1" "CHR '':'' \<notin> set t2" "CHR '':'' \<notin> set (rule_id r)" "CHR '':'' \<notin> set (rule_id r')"
    and "sorted_keys a = sorted_keys b"
    and "\<forall>p \<in> set (sorted_keys a). \<exists>s t. get a p = JStr s \<and> get b p = JStr t"
  shows "t1 = t2 \<and> rule_id r = rule_id r' \<and> version r = version r' \<and> (\<forall>p \<in> set (sorted_keys a). get a p = get b p)"
proof -
  let ?pa = "str_join ''|'' (map (key_part a) (sorted_keys a))" and ?pb = "str_join ''|'' (map (key_part b) (sorted_keys b))"
  from assms(1-5) have t: "t1 = t2" "rule_id r = rule_id r'"
    and v: "show_int (version r) @ CHR '':'' # ?pa = show_int (version r') @ CHR '':'' # ?pb"
    by (auto simp: suppression_key_def sep_inject)
  from v have "show_int (version r) = show_int (version r')" "?pa = ?pb"
    by (auto simp: sep_inject colon_notin_show_int)
  with t show ?thesis using join_parts_inject [OF assms(7)] assms(6) show_int_inj by metis
qed

theorem suppression_key_injective_witness:
  "suppression_key example_rule ''t1'' [(''user'', JStr ''a'')] \<noteq>
   suppression_key example_rule ''t1'' [(''user'', JStr ''a|user=b'')]"
  using suppression_key_injective [of example_rule "''t1''" "[(''user'', JStr ''a'')]" example_rule "''t1''"
      "[(''user'', JStr ''a|user=b'')]"]
  by (auto simp: example_rule_def sorted_keys_def)

text \<open>An exception whose expiry has passed, or cannot be read as a time, never suppresses a
  detection: only active exceptions decide the outcome of the search for a matching exception.\<close>

theorem only_active_exceptions_count:
  "matching_exception e r doc =
     first_exception e (filter (\<lambda>ex. exception_is_active e ex (utcnow e)) (exceptions r)) doc (utcnow e)"
  unfolding matching_exception_def by (rule first_exception_filter)

end
