(* ===== verification/Database.thy ===== *)
theory Database
  imports Detection
begin

text \<open>
  The relational side of the backend: the tables the services share, the checks PostgreSQL makes
  on a row before it accepts it, and the audit log.

  A service function works inside one transaction. It is modelled as a function from the state of
  the database to \<open>service_error + result \<times> state\<close>: an exception leaves the block of the
  session without a commit, and the session rolls back, so there is no state to return. Rows are
  written at \<open>flush\<close>; since nothing between an \<open>add\<close> and the next \<open>flush\<close>
  catches an exception, the checks are made where the row is added. Tables that belong to one
  component extend the record in that component's theory.

  Times are microseconds since the epoch. A \<open>uuid.UUID\<close> is the text of its value.
\<close>

datatype service_error =
    IntegrityError string   \<comment> \<open>a constraint of the table refuses the row\<close>
  | DataError string        \<comment> \<open>a value does not fit the column's type\<close>
  | NotFoundError string    \<comment> \<open>the \<open>LookupError\<close> subclasses: no such row in this tenant\<close>
  | InvalidTransition string string string  \<comment> \<open>current, target and the statuses allowed\<close>
  | IndexError
  | AssertionError
  | InvalidState string     \<comment> \<open>\<open>InvalidApprovalState\<close>\<close>
  | SelfApprovalError string
  | DuplicateError string   \<comment> \<open>\<open>DuplicatePlaybook\<close>, \<open>DuplicateEmail\<close>\<close>
  | UnknownAction string
  | InsufficientPrivilege string
  | MultipleResultsFound    \<comment> \<open>\<open>scalar_one_or_none\<close> with more than one row\<close>
  | ActionTargetNotFound string
  | ApprovalRequired string
  | RuleLoadError string
  | ValidationError string  \<comment> \<open>a request or a stored document the schema refuses\<close>
  | InvalidHuntQuery string
  | UnknownPivot string
  | ExportRateLimited
  | BundleError string      \<comment> \<open>\<open>ImportError_\<close>\<close>
  | EgressBlocked string
  | InvalidCredentialsError
  | AccountLockedError int
  | MfaRequiredError
  | MfaInvalidError
  | OrganizationSlugTakenError string
  | RuntimeError string
  | HttpError nat string    \<comment> \<open>\<open>HTTPException\<close>: the status code and the detail\<close>
  | Raised eval_error       \<comment> \<open>a conversion of a document's value fails\<close>

text \<open>What the code asks of the outside world: the clock, the identifiers and, added to those,
  the server's clocks and the driver's test for the text of an address.\<close>

record dbenv = env +
  pg_now :: int                 \<comment> \<open>\<open>now()\<close>: the start of the transaction\<close>
  pg_clock :: "nat \<Rightarrow> int"      \<comment> \<open>\<open>clock_timestamp()\<close> of the n-th row written\<close>
  inet_ok :: "json \<Rightarrow> bool"   \<comment> \<open>whether the driver takes the value for an \<open>INET\<close> column\<close>

section \<open>Rows\<close>

record organization =
  org_id :: string
  org_name :: string
  org_slug :: string
  org_active :: bool

record user_row =
  usr_id :: string
  usr_tenant :: string
  usr_email :: string
  usr_password_hash :: string
  usr_full_name :: string
  usr_active :: bool
  usr_mfa_enabled :: bool
  usr_mfa_secret :: "string option"
  usr_failed_logins :: nat
  usr_locked_until :: "int option"
  usr_last_login :: "int option"

record asset =
  ast_id :: string
  ast_tenant :: string
  ast_type :: string
  ast_hostname :: "string option"
  ast_ip :: "string option"
  ast_environment :: "string option"
  ast_owner :: "string option"
  ast_tags :: "string list"
  ast_criticality :: string
  ast_active :: bool
  ast_isolated :: bool
  ast_isolated_at :: "int option"
  ast_created_at :: int

record ioc =
  ioc_id :: string
  ioc_tenant :: "string option"  \<comment> \<open>\<open>NULL\<close>: an indicator shared by a feed\<close>
  ioc_kind :: string
  ioc_value :: string
  ioc_classification :: string
  ioc_confidence :: int
  ioc_source :: string
  ioc_description :: "string option"
  ioc_tags :: "string list"
  ioc_first_seen :: int
  ioc_last_seen :: int
  ioc_expires_at :: "int option"
  ioc_created_by :: "string option"

record ioc_change =
  hi_ioc :: string
  hi_tenant :: "string option"
  hi_field :: string
  hi_old :: "string option"
  hi_new :: "string option"
  hi_by :: "string option"
  hi_at :: int

record audit_log =
  aud_tenant :: string
  aud_actor :: "string option"
  aud_ip :: "string option"
  aud_user_agent :: "string option"
  aud_action :: string
  aud_object_type :: string
  aud_object_id :: "string option"
  aud_before :: "document option"
  aud_after :: "document option"
  aud_result :: string
  aud_at :: int

text \<open>\<open>drawn\<close> counts the calls of \<open>uuid.uuid4\<close>: every identifier is the next one
  the generator gives.\<close>

record core_db =
  organizations :: "organization list"
  users :: "user_row list"
  assets :: "asset list"
  iocs :: "ioc list"
  ioc_history :: "ioc_change list"
  audit_logs :: "audit_log list"
  drawn :: nat

section \<open>Column types and constraints\<close>

text \<open>PostgreSQL stores no NUL in a text; \<open>varchar(n)\<close> bounds its length; \<open>jsonb\<close>
  has no NUL in a text and no number that is not finite; \<open>integer\<close> has 32 bits.\<close>

definition text_ok :: "string \<Rightarrow> bool" where
  "text_ok s \<longleftrightarrow> CHR 0x00 \<notin> set s"

definition varchar :: "nat \<Rightarrow> string \<Rightarrow> bool" where
  "varchar n s \<longleftrightarrow> length s \<le> n \<and> text_ok s"

fun jsonb_ok :: "json \<Rightarrow> bool" where
  "jsonb_ok (JStr s) = text_ok s"
| "jsonb_ok (JFloat f) = (case f of Fin x \<Rightarrow> True | _ \<Rightarrow> False)"
| "jsonb_ok (JList xs) = list_all jsonb_ok xs"
| "jsonb_ok (JObj kvs) = list_all (\<lambda>(k, v). text_ok k \<and> jsonb_ok v) kvs"
| "jsonb_ok _ = True"

definition int4 :: "int \<Rightarrow> bool" where
  "int4 i \<longleftrightarrow> - (2 ^ 31) \<le> i \<and> i < 2 ^ 31"

text \<open>The first constraint that fails decides the error.\<close>

fun require :: "(bool \<times> service_error) list \<Rightarrow> service_error + unit" where
  "require [] = Inr ()"
| "require ((ok, err) # cs) = (if ok then require cs else Inl err)"

lemma require_Inr [simp]: "require cs = Inr u \<longleftrightarrow> list_all fst cs"
  by (induction cs rule: require.induct) auto

declare require.simps [simp del]

lemma require_ok: "list_all fst cs \<Longrightarrow> require cs = Inr ()"
  by simp

definition is_org :: "'a core_db_scheme \<Rightarrow> string \<Rightarrow> bool" where
  "is_org db t \<longleftrightarrow> t \<in> org_id ` set (organizations db)"

definition is_user :: "'a core_db_scheme \<Rightarrow> string \<Rightarrow> bool" where
  "is_user db u \<longleftrightarrow> u \<in> usr_id ` set (users db)"

definition fk_org :: "'a core_db_scheme \<Rightarrow> string \<Rightarrow> bool \<times> service_error" where
  "fk_org db t = (is_org db t, IntegrityError ''foreign key: organizations'')"

definition fk_user :: "'a core_db_scheme \<Rightarrow> string option \<Rightarrow> bool \<times> service_error" where
  "fk_user db u = (pred_option (is_user db) u, IntegrityError ''foreign key: users'')"

text \<open>Equality of an address with an \<open>INET\<close> column.\<close>

definition same_inet :: "string \<Rightarrow> string option \<Rightarrow> bool" where
  "same_inet s a \<longleftrightarrow> (case a of None \<Rightarrow> False | Some t \<Rightarrow> s = t \<or> (ip_address s \<noteq> None \<and> ip_address s = ip_address t))"

section \<open>Identifiers and the calendar\<close>

definition fresh_id :: "'b dbenv_scheme \<Rightarrow> 'a core_db_scheme \<Rightarrow> string" where
  "fresh_id e db = uuid4 e (drawn db)"

definition drew :: "'a core_db_scheme \<Rightarrow> 'a core_db_scheme" where
  "drew db = db\<lparr>drawn := Suc (drawn db)\<rparr>"

text \<open>The year of a moment in UTC, counted in 400-year cycles that start on 1 March.\<close>

definition year_of :: "int \<Rightarrow> int" where
  "year_of t = (let z = t div 86400000000 + 719468; era = z div 146097; doe = z mod 146097;
      yoe = (doe - doe div 1460 + doe div 36524 - doe div 146096) div 365;
      doy = doe - (365 * yoe + yoe div 4 - yoe div 100)
    in yoe + era * 400 + (if doy \<ge> 306 then 1 else 0))"

text \<open>\<open>f"{prefix}-{year}-{n:06d}"\<close>.\<close>

definition display_text :: "string \<Rightarrow> int \<Rightarrow> nat \<Rightarrow> string" where
  "display_text pre year n = pre @ ''-'' @ show_int year @ ''-'' @ zero_pad 6 (show_nat n)"

text \<open>The counter of a tenant and a year: \<open>INSERT \<dots> ON CONFLICT DO NOTHING\<close>, then the locked
  row is incremented.\<close>

type_synonym sequences = "((string \<times> int) \<times> nat) list"

definition ensure_counter :: "string \<Rightarrow> int \<Rightarrow> sequences \<Rightarrow> sequences" where
  "ensure_counter t y s = (case map_of s (t, y) of None \<Rightarrow> s @ [((t, y), 0)] | Some n \<Rightarrow> s)"

definition last_number :: "string \<Rightarrow> int \<Rightarrow> sequences \<Rightarrow> nat" where
  "last_number t y s = (case map_of s (t, y) of None \<Rightarrow> 0 | Some n \<Rightarrow> n)"

definition next_number :: "string \<Rightarrow> int \<Rightarrow> sequences \<Rightarrow> nat \<times> sequences" where
  "next_number t y s = (let s' = ensure_counter t y s; n = Suc (last_number t y s')
     in (n, AList.update (t, y) n s'))"

lemma last_number_ensure [simp]: "last_number t' y' (ensure_counter t y s) = last_number t' y' s"
  by (auto simp: last_number_def ensure_counter_def map_add_def split: option.splits)

lemma next_number_fst: "fst (next_number t y s) = Suc (last_number t y s)"
  by (simp add: next_number_def Let_def)

lemma next_number_snd:
  "last_number t' y' (snd (next_number t y s)) = (if (t', y') = (t, y) then Suc (last_number t y s) else last_number t' y' s)"
proof -
  have "last_number t' y' (AList.update (t, y) n (ensure_counter t y s))
      = (if (t', y') = (t, y) then n else last_number t' y' (ensure_counter t y s))" for n
    unfolding last_number_def by (simp add: update_conv')
  thus ?thesis by (simp add: next_number_def Let_def)
qed

lemma display_text_inj:
  assumes "display_text pre y n = display_text pre y' n'"
  shows "y = y' \<and> n = n'"
proof -
  have d: "CHR ''-'' \<notin> set (zero_pad 6 (show_nat k))" for k
    using minus_notin_show_nat [of k] by (auto simp: zero_pad_def)
  have "rev (zero_pad 6 (show_nat n)) @ CHR ''-'' # rev (show_int y)
      = rev (zero_pad 6 (show_nat n')) @ CHR ''-'' # rev (show_int y')"
    using arg_cong [OF assms, of rev] by (simp add: display_text_def)
  hence "zero_pad 6 (show_nat n) = zero_pad 6 (show_nat n')" "show_int y = show_int y'"
    using d by (auto simp: sep_inject)
  thus ?thesis using zero_pad_inj show_int_inj by blast
qed

text \<open>The display identifiers of a tenant are numbered when they are the numbers 1 to the counter's
  value of every year, each once.\<close>

definition numbered :: "string \<Rightarrow> string \<Rightarrow> string list \<Rightarrow> sequences \<Rightarrow> bool" where
  "numbered pre t ids s \<longleftrightarrow> distinct ids \<and> set ids = {display_text pre y k |y k. 0 < k \<and> k \<le> last_number t y s}"

lemma numbered_other: "numbered pre t ids s \<Longrightarrow> t \<noteq> u \<Longrightarrow> numbered pre t ids (snd (next_number u y s))"
  by (simp add: numbered_def next_number_snd)

lemma numbered_next:
  assumes "numbered pre t ids s"
  shows "numbered pre t (ids @ [display_text pre y (Suc (last_number t y s))]) (snd (next_number t y s))"
proof -
  let ?new = "display_text pre y (Suc (last_number t y s))"
  let ?old = "{display_text pre y' k |y' k. 0 < k \<and> k \<le> last_number t y' s}"
  have "?new \<notin> ?old" using display_text_inj by fastforce
  moreover have "{display_text pre y' k |y' k. 0 < k \<and> k \<le> last_number t y' (snd (next_number t y s))} = insert ?new ?old"
    by (auto simp: next_number_snd le_Suc_eq split: if_splits)
  ultimately show ?thesis using assms by (simp add: numbered_def)
qed

lemma numbered_empty: "numbered pre t [] []"
  by (auto simp: numbered_def last_number_def)

section \<open>The audit log\<close>

definition record_audit_event ::
  "'b dbenv_scheme \<Rightarrow> string \<Rightarrow> string \<Rightarrow> string \<Rightarrow> string \<Rightarrow> string option \<Rightarrow> string option \<Rightarrow> string option \<Rightarrow>
   string option \<Rightarrow> document option \<Rightarrow> document option \<Rightarrow> 'a core_db_scheme \<Rightarrow> service_error + 'a core_db_scheme" where
  "record_audit_event e tenant action object_type outcome actor ip user_agent object_id prior after db =
     bind_res (require [fk_org db tenant, fk_user db actor,
         (pred_option (\<lambda>a. inet_ok e (JStr a)) ip, DataError ''actor_ip''),
         (pred_option text_ok user_agent, DataError ''user_agent''),
         (text_ok action \<and> text_ok object_type \<and> pred_option text_ok object_id, DataError ''audit text''),
         (pred_option (\<lambda>d. jsonb_ok (JObj d)) prior \<and> pred_option (\<lambda>d. jsonb_ok (JObj d)) after, DataError ''audit state''),
         (outcome \<in> {''success'', ''failure''}, IntegrityError ''ck_audit_logs_result'')])
       (\<lambda>_. Inr (drew db\<lparr>audit_logs := audit_logs db @ [\<lparr>aud_tenant = tenant, aud_actor = actor, aud_ip = ip,
          aud_user_agent = user_agent, aud_action = action, aud_object_type = object_type, aud_object_id = object_id,
          aud_before = prior, aud_after = after, aud_result = outcome, aud_at = pg_now e\<rparr>]\<rparr>))"

text \<open>What every successful call leaves behind: one more entry, and every other table as it was.\<close>

lemma record_audit_event_Inr:
  assumes "record_audit_event e t act ot r u ip ua oid b a db = Inr db'"
  shows "\<exists>x. db' = db\<lparr>drawn := Suc (drawn db), audit_logs := audit_logs db @ [x]\<rparr>
     \<and> aud_tenant x = t \<and> aud_actor x = u \<and> aud_action x = act \<and> aud_object_type x = ot \<and> aud_object_id x = oid
     \<and> aud_before x = b \<and> aud_after x = a \<and> aud_result x = r \<and> is_org db t"
  using assms by (auto simp: record_audit_event_def bind_res_Inr drew_def fk_org_def)

lemma record_audit_event_ok:
  assumes "is_org db t" "pred_option (is_user db) u" "pred_option (\<lambda>a. inet_ok e (JStr a)) ip" "pred_option text_ok ua"
    "text_ok act" "text_ok ot" "pred_option text_ok oid" "pred_option (\<lambda>d. jsonb_ok (JObj d)) b" "pred_option (\<lambda>d. jsonb_ok (JObj d)) a"
    "r = ''success'' \<or> r = ''failure''"
  shows "\<exists>db'. record_audit_event e t act ot r u ip ua oid b a db = Inr db'"
proof -
  have "require [fk_org db t, fk_user db u, (pred_option (\<lambda>a. inet_ok e (JStr a)) ip, DataError ''actor_ip''),
         (pred_option text_ok ua, DataError ''user_agent''),
         (text_ok act \<and> text_ok ot \<and> pred_option text_ok oid, DataError ''audit text''),
         (pred_option (\<lambda>d. jsonb_ok (JObj d)) b \<and> pred_option (\<lambda>d. jsonb_ok (JObj d)) a, DataError ''audit state''),
         (r \<in> {''success'', ''failure''}, IntegrityError ''ck_audit_logs_result'')] = Inr ()"
    by (rule require_ok) (use assms in \<open>auto simp: fk_org_def fk_user_def\<close>)
  thus ?thesis by (simp only: record_audit_event_def bind_res_simps) blast
qed

text \<open>\<open>None\<close> or a text as a JSON value.\<close>

definition opt_str :: "string option \<Rightarrow> json" where
  "opt_str s = (case s of None \<Rightarrow> JNull | Some t \<Rightarrow> JStr t)"

text \<open>\<open>ORDER BY \<dots> LIMIT n OFFSET m\<close>; rows that compare equal keep the order of the table.\<close>

definition page :: "nat \<Rightarrow> nat \<Rightarrow> 'a list \<Rightarrow> 'a list" where
  "page limit offset xs = take limit (drop offset xs)"

text \<open>\<open>SELECT \<dots> GROUP BY\<close> with a count, as a dictionary.\<close>

definition counts :: "string list \<Rightarrow> nat dict" where
  "counts ks = map (\<lambda>k. (k, count_list ks k)) (dict_fromkeys ks)"

lemma counts_get: "dict_get (counts ks) k = (if k \<in> set ks then Some (count_list ks k) else None)"
  unfolding counts_def by (auto simp: map_of_map_restrict)

end
