(* ===== verification/Lifecycle.thy ===== *)
theory Lifecycle
  imports Database
begin

text \<open>
  A lifecycle given as data: the table \<open>TRANSITIONS\<close> that alerts and incidents each have,
  the refusal of a move the table does not list, and the history a record accumulates. The locale
  states what a table must satisfy; its lemmas are proved once and used by both components.
\<close>

type_synonym transition_table = "string list dict"

definition allowed :: "transition_table \<Rightarrow> string \<Rightarrow> string list" where
  "allowed tbl s = (case dict_get tbl s of None \<Rightarrow> [] | Some ts \<Rightarrow> ts)"

definition statuses :: "transition_table \<Rightarrow> string list" where
  "statuses tbl = map fst tbl"

text \<open>\<open>InvalidTransition(current, target)\<close> with the message's list of what is allowed.\<close>

definition refused_transition :: "transition_table \<Rightarrow> string \<Rightarrow> string \<Rightarrow> service_error" where
  "refused_transition tbl current target = InvalidTransition current target
     (let a = str_join '', '' (sort (allowed tbl current)) in if a = [] then ''nothing'' else a)"

text \<open>A history is the list of moves, the status before (none for the first) and after.\<close>

type_synonym moves = "(string option \<times> string) list"

fun path_ok :: "transition_table \<Rightarrow> string \<Rightarrow> moves \<Rightarrow> string \<Rightarrow> bool" where
  "path_ok tbl s [] t \<longleftrightarrow> s = t"
| "path_ok tbl s ((f, u) # ms) t \<longleftrightarrow> f = Some s \<and> u \<in> set (allowed tbl s) \<and> path_ok tbl u ms t"

definition history_ok :: "transition_table \<Rightarrow> string \<Rightarrow> moves \<Rightarrow> string \<Rightarrow> bool" where
  "history_ok tbl initial ms t \<longleftrightarrow>
     (case ms of [] \<Rightarrow> False | (f, u) # ms' \<Rightarrow> f = None \<and> u = initial \<and> path_ok tbl initial ms' t)"

lemma path_ok_snoc:
  "path_ok tbl s ms t \<Longrightarrow> u \<in> set (allowed tbl t) \<Longrightarrow> path_ok tbl s (ms @ [(Some t, u)]) u"
  by (induction tbl s ms t rule: path_ok.induct) auto

lemma history_ok_first: "history_ok tbl i [(None, i)] i"
  by (simp add: history_ok_def)

lemma history_ok_snoc:
  "history_ok tbl i ms t \<Longrightarrow> u \<in> set (allowed tbl t) \<Longrightarrow> history_ok tbl i (ms @ [(Some t, u)]) u"
  by (cases ms) (auto simp: history_ok_def path_ok_snoc)

text \<open>The statuses a record can reach.\<close>

inductive reaches :: "transition_table \<Rightarrow> string \<Rightarrow> string \<Rightarrow> bool" for tbl where
  here: "reaches tbl s s"
| step: "reaches tbl s t \<Longrightarrow> u \<in> set (allowed tbl t) \<Longrightarrow> reaches tbl s u"

lemma reaches_front: "reaches tbl t u \<Longrightarrow> t \<in> set (allowed tbl s) \<Longrightarrow> reaches tbl s u"
  by (induction rule: reaches.induct) (auto intro: reaches.intros)

lemma path_ok_reaches: "path_ok tbl s ms t \<Longrightarrow> reaches tbl s t"
  by (induction tbl s ms t rule: path_ok.induct) (auto intro: reaches.here reaches_front)

text \<open>What a table promises: it knows the first status, every status it leads to, and no move to
  where the record already is.\<close>

locale lifecycle =
  fixes tbl :: transition_table and initial :: string
  assumes initial_known: "initial \<in> set (statuses tbl)"
    and targets_known: "t \<in> set (allowed tbl s) \<Longrightarrow> t \<in> set (statuses tbl)"
    and no_self_move: "s \<notin> set (allowed tbl s)"
    and never_stuck: "s \<in> set (statuses tbl) \<Longrightarrow> allowed tbl s \<noteq> []"
begin

lemma reaches_known: "reaches tbl s t \<Longrightarrow> s \<in> set (statuses tbl) \<Longrightarrow> t \<in> set (statuses tbl)"
  by (induction rule: reaches.induct) (auto intro: targets_known)

lemma history_status_known: "history_ok tbl initial ms t \<Longrightarrow> t \<in> set (statuses tbl)"
  using reaches_known [OF path_ok_reaches initial_known]
  by (auto simp: history_ok_def split: list.splits)

lemma path_moves: "path_ok tbl s ms t \<Longrightarrow> (f, u) \<in> set ms \<Longrightarrow> \<exists>v. f = Some v \<and> u \<in> set (allowed tbl v)"
  by (induction ms arbitrary: s) auto

lemma history_moves_change:
  "history_ok tbl initial ms t \<Longrightarrow> (Some v, u) \<in> set ms \<Longrightarrow> v \<noteq> u \<and> u \<in> set (statuses tbl)"
  using path_moves no_self_move targets_known
  by (fastforce simp: history_ok_def split: list.splits)

lemma history_nonempty: "history_ok tbl initial ms t \<Longrightarrow> ms \<noteq> []"
  by (auto simp: history_ok_def)

lemma status_can_move: "history_ok tbl initial ms t \<Longrightarrow> \<exists>u. u \<in> set (allowed tbl t)"
  using never_stuck [OF history_status_known] by (meson list.set_sel(1))

end

end
