(* ===== verification/Alerts.thy ===== *)
theory Alerts
  imports Lifecycle
begin

text \<open>
  The alert service (\<open>services/alerts.py\<close> on the tables of \<open>models/alerts.py\<close>): creation
  with deduplication, the lifecycle, assignment, notes and the reads. The tables extend the shared
  database. The lemmas show the invariant every operation keeps, from which the properties follow:
  every row satisfies its constraints, an alert's recorded moves form a path of the transition
  table that ends in its status, \<open>closed_at\<close> is set exactly in a closing status, and the
  display identifiers of a tenant are numbered without gaps.
\<close>

section \<open>Tables\<close>

record alert =
  al_id :: string
  al_tenant :: string
  al_display_id :: string
  al_rule_key :: "string option"
  al_correlation_id :: "string option"
  al_source :: string
  al_title :: string
  al_description :: string
  al_severity :: string
  al_confidence :: int
  al_risk_score :: int
  al_risk_bucket :: json
  al_risk_explanation :: json
  al_event_ids :: "string list"
  al_detection_ids :: "string list"
  al_evidence :: json
  al_affected_user :: json
  al_affected_host :: json
  al_source_ip :: json
  al_destination_ip :: json
  al_mitre_techniques :: "string list"
  al_status :: string
  al_analyst_id :: "string option"
  al_resolution_note :: "string option"
  al_dedup_key :: string
  al_occurrence_count :: int
  al_first_seen_at :: int
  al_last_seen_at :: int
  al_acknowledged_at :: "int option"
  al_closed_at :: "int option"

record alert_transition =
  at_alert :: string
  at_tenant :: string
  at_from :: "string option"
  at_to :: string
  at_actor :: "string option"
  at_note :: "string option"
  at_occurred :: int

record alert_note =
  an_alert :: string
  an_tenant :: string
  an_author :: "string option"
  an_body :: string
  an_created :: int

record alert_db = core_db +
  alerts :: "alert list"
  alert_transitions :: "alert_transition list"
  alert_notes :: "alert_note list"
  alert_sequences :: sequences

section \<open>Constants\<close>

definition DEFAULT_DEDUP_WINDOW_MINUTES :: int where "DEFAULT_DEDUP_WINDOW_MINUTES = 60"
definition MAX_EVENT_IDS :: nat where "MAX_EVENT_IDS = 200"

definition ALERT_TRANSITIONS :: transition_table where
  "ALERT_TRANSITIONS =
    [(''NEW'', [''IN_PROGRESS'', ''ESCALATED'', ''FALSE_POSITIVE'', ''RESOLVED'', ''CLOSED'']),
     (''IN_PROGRESS'', [''ESCALATED'', ''FALSE_POSITIVE'', ''RESOLVED'', ''CLOSED'', ''NEW'']),
     (''ESCALATED'', [''IN_PROGRESS'', ''FALSE_POSITIVE'', ''RESOLVED'', ''CLOSED'']),
     (''FALSE_POSITIVE'', [''IN_PROGRESS'', ''CLOSED'']),
     (''RESOLVED'', [''IN_PROGRESS'', ''CLOSED'']),
     (''CLOSED'', [''IN_PROGRESS''])]"

definition CLOSING :: "string list" where
  "CLOSING = [''FALSE_POSITIVE'', ''RESOLVED'', ''CLOSED'']"

definition OPEN_STATUSES :: "string list" where
  "OPEN_STATUSES = [''NEW'', ''IN_PROGRESS'', ''ESCALATED'']"

definition ALERT_STATUSES :: "string list" where
  "ALERT_STATUSES = [''NEW'', ''IN_PROGRESS'', ''ESCALATED'', ''FALSE_POSITIVE'', ''RESOLVED'', ''CLOSED'']"

definition SEVERITY_ORDER :: "string list" where
  "SEVERITY_ORDER = [''informational'', ''low'', ''medium'', ''high'', ''critical'']"

text \<open>\<open>_SEVERITY_ORDER.index(severity)\<close>, 0 when it is not there.\<close>

fun index_of :: "'a \<Rightarrow> 'a list \<Rightarrow> nat option" where
  "index_of x [] = None"
| "index_of x (y # ys) = (if x = y then Some 0 else map_option Suc (index_of x ys))"

definition severity_rank :: "string \<Rightarrow> nat" where
  "severity_rank s = (case index_of s SEVERITY_ORDER of None \<Rightarrow> 0 | Some n \<Rightarrow> n)"

section \<open>Constraints of an alert row\<close>

text \<open>A nullable text column given a value of the document.\<close>

definition text_column :: "nat \<Rightarrow> json \<Rightarrow> bool" where
  "text_column n v = (case v of JNull \<Rightarrow> True | JStr s \<Rightarrow> varchar n s | _ \<Rightarrow> False)"

definition inet_column :: "'b dbenv_scheme \<Rightarrow> json \<Rightarrow> bool" where
  "inet_column e v \<longleftrightarrow> v = JNull \<or> inet_ok e v"

definition small_int :: "int \<Rightarrow> bool" where
  "small_int i \<longleftrightarrow> - (2 ^ 15) \<le> i \<and> i < 2 ^ 15"

definition alert_types :: "'b dbenv_scheme \<Rightarrow> alert \<Rightarrow> (bool \<times> service_error) list" where
  "alert_types e a =
    [(varchar 32 (al_display_id a), DataError ''display_id''),
     (pred_option (varchar 64) (al_rule_key a), DataError ''rule_key''),
     (pred_option (varchar 64) (al_correlation_id a), DataError ''correlation_id''),
     (varchar 32 (al_source a), DataError ''source''),
     (varchar 300 (al_title a), DataError ''title''),
     (text_ok (al_description a), DataError ''description''),
     (varchar 16 (al_severity a), DataError ''severity''),
     (small_int (al_confidence a), DataError ''confidence''),
     (small_int (al_risk_score a), DataError ''risk_score''),
     (text_column 16 (al_risk_bucket a), DataError ''risk_bucket''),
     (jsonb_ok (al_risk_explanation a), DataError ''risk_explanation''),
     (list_all text_ok (al_event_ids a), DataError ''event_ids''),
     (list_all text_ok (al_detection_ids a), DataError ''detection_ids''),
     (jsonb_ok (al_evidence a), DataError ''evidence''),
     (text_column 300 (al_affected_user a), DataError ''affected_user''),
     (text_column 300 (al_affected_host a), DataError ''affected_host''),
     (inet_column e (al_source_ip a), DataError ''source_ip''),
     (inet_column e (al_destination_ip a), DataError ''destination_ip''),
     (list_all text_ok (al_mitre_techniques a), DataError ''mitre_techniques''),
     (varchar 20 (al_status a), DataError ''status''),
     (pred_option text_ok (al_resolution_note a), DataError ''resolution_note''),
     (varchar 500 (al_dedup_key a), DataError ''dedup_key''),
     (int4 (al_occurrence_count a), DataError ''occurrence_count'')]"

definition alert_constraints :: "alert \<Rightarrow> (bool \<times> service_error) list" where
  "alert_constraints a =
    [(al_status a \<in> set ALERT_STATUSES, IntegrityError ''ck_alerts_status''),
     (al_severity a \<in> set SEVERITY_ORDER, IntegrityError ''ck_alerts_severity''),
     (0 \<le> al_risk_score a \<and> al_risk_score a \<le> 100, IntegrityError ''ck_alerts_risk''),
     (0 \<le> al_confidence a \<and> al_confidence a \<le> 100, IntegrityError ''ck_alerts_confidence''),
     (1 \<le> al_occurrence_count a, IntegrityError ''ck_alerts_occurrences'')]"

definition check_alert :: "'b dbenv_scheme \<Rightarrow> 'a alert_db_scheme \<Rightarrow> alert \<Rightarrow> service_error + unit" where
  "check_alert e db a = require (alert_types e a @ alert_constraints a
     @ [fk_org db (al_tenant a), fk_user db (al_analyst_id a)])"

text \<open>A changed row replaces the one with its primary key; a new row needs a key and a display
  identifier of its own.\<close>

definition save_alert :: "'b dbenv_scheme \<Rightarrow> alert \<Rightarrow> 'a alert_db_scheme \<Rightarrow> service_error + 'a alert_db_scheme" where
  "save_alert e a db = bind_res (check_alert e db a) (\<lambda>_.
     Inr (db\<lparr>alerts := update_rows (\<lambda>x. al_id x = al_id a) (\<lambda>_. a) (alerts db)\<rparr>))"

definition insert_alert :: "'b dbenv_scheme \<Rightarrow> alert \<Rightarrow> 'a alert_db_scheme \<Rightarrow> service_error + 'a alert_db_scheme" where
  "insert_alert e a db = bind_res (check_alert e db a) (\<lambda>_. bind_res (require
     [(al_id a \<notin> al_id ` set (alerts db), IntegrityError ''alerts_pkey''),
      ((al_tenant a, al_display_id a) \<notin> (\<lambda>x. (al_tenant x, al_display_id x)) ` set (alerts db),
       IntegrityError ''idx_alerts_tenant_display'')])
     (\<lambda>_. Inr (db\<lparr>drawn := Suc (drawn db), alerts := alerts db @ [a]\<rparr>)))"

definition add_transition ::
  "'b dbenv_scheme \<Rightarrow> string \<Rightarrow> string \<Rightarrow> string option \<Rightarrow> string \<Rightarrow> string option \<Rightarrow> string option \<Rightarrow>
   'a alert_db_scheme \<Rightarrow> service_error + 'a alert_db_scheme" where
  "add_transition e alert_id tenant from_status to_status actor note db =
     bind_res (require [fk_org db tenant, fk_user db actor,
         (alert_id \<in> al_id ` set (alerts db), IntegrityError ''foreign key: alerts''),
         (pred_option (varchar 20) from_status \<and> varchar 20 to_status, DataError ''status''),
         (pred_option text_ok note, DataError ''note'')])
       (\<lambda>_. Inr (db\<lparr>drawn := Suc (drawn db), alert_transitions := alert_transitions db @
          [\<lparr>at_alert = alert_id, at_tenant = tenant, at_from = from_status, at_to = to_status,
            at_actor = actor, at_note = note, at_occurred = pg_now e\<rparr>]\<rparr>))"

section \<open>Creation and deduplication\<close>

record alert_input =
  ai_tenant :: string
  ai_source :: string
  ai_title :: string
  ai_description :: string
  ai_severity :: string
  ai_confidence :: int
  ai_risk_score :: int
  ai_risk_bucket :: json
  ai_risk_explanation :: json
  ai_dedup_key :: string
  ai_event_ids :: "string list"
  ai_detection_ids :: "string list"
  ai_evidence :: json
  ai_mitre_techniques :: "string list"
  ai_rule_key :: "string option"
  ai_correlation_id :: "string option"
  ai_affected_user :: json
  ai_affected_host :: json
  ai_source_ip :: json
  ai_destination_ip :: json

definition next_display_id ::
  "'b dbenv_scheme \<Rightarrow> string \<Rightarrow> 'a alert_db_scheme \<Rightarrow> service_error + string \<times> 'a alert_db_scheme" where
  "next_display_id e tenant db =
     (let year = year_of (utcnow e); (n, s) = next_number tenant year (alert_sequences db)
      in bind_res (require [fk_org db tenant, (int4 (int n), DataError ''last_number'')])
           (\<lambda>_. Inr (display_text ''ALT'' year n, db\<lparr>alert_sequences := s\<rparr>)))"

definition find_duplicate :: "'b dbenv_scheme \<Rightarrow> string \<Rightarrow> string \<Rightarrow> int \<Rightarrow> 'a alert_db_scheme \<Rightarrow> alert option" where
  "find_duplicate e tenant key minutes db =
     (let cutoff = utcnow e - minutes * 60000000
      in case sort_key (\<lambda>a. - al_last_seen_at a) (filter (\<lambda>a. al_tenant a = tenant \<and> al_dedup_key a = key
           \<and> al_status a \<in> set OPEN_STATUSES \<and> cutoff \<le> al_last_seen_at a) (alerts db))
         of [] \<Rightarrow> None | a # _ \<Rightarrow> Some a)"

text \<open>The open alert takes the input in: one more occurrence, the worst score and severity.\<close>

definition fold_input :: "int \<Rightarrow> alert_input \<Rightarrow> alert \<Rightarrow> alert" where
  "fold_input now p a =
     (let a1 = a\<lparr>al_occurrence_count := al_occurrence_count a + 1, al_last_seen_at := now\<rparr>;
          a2 = (if ai_risk_score p > al_risk_score a1
                then a1\<lparr>al_risk_score := ai_risk_score p, al_risk_bucket := ai_risk_bucket p,
                        al_risk_explanation := ai_risk_explanation p\<rparr> else a1);
          a3 = (if severity_rank (ai_severity p) > severity_rank (al_severity a2)
                then a2\<lparr>al_severity := ai_severity p\<rparr> else a2)
      in a3\<lparr>al_event_ids := take_last MAX_EVENT_IDS (al_event_ids a3 @ ai_event_ids p),
            al_detection_ids := take_last MAX_EVENT_IDS (al_detection_ids a3 @ ai_detection_ids p)\<rparr>)"

definition new_alert :: "string \<Rightarrow> string \<Rightarrow> int \<Rightarrow> alert_input \<Rightarrow> alert" where
  "new_alert i disp now p = \<lparr>al_id = i, al_tenant = ai_tenant p, al_display_id = disp,
     al_rule_key = ai_rule_key p, al_correlation_id = ai_correlation_id p, al_source = ai_source p,
     al_title = take 300 (ai_title p), al_description = ai_description p, al_severity = ai_severity p,
     al_confidence = ai_confidence p, al_risk_score = ai_risk_score p, al_risk_bucket = ai_risk_bucket p,
     al_risk_explanation = ai_risk_explanation p, al_event_ids = take_last MAX_EVENT_IDS (ai_event_ids p),
     al_detection_ids = take_last MAX_EVENT_IDS (ai_detection_ids p), al_evidence = ai_evidence p,
     al_affected_user = ai_affected_user p, al_affected_host = ai_affected_host p, al_source_ip = ai_source_ip p,
     al_destination_ip = ai_destination_ip p, al_mitre_techniques = ai_mitre_techniques p, al_status = ''NEW'',
     al_analyst_id = None, al_resolution_note = None, al_dedup_key = ai_dedup_key p, al_occurrence_count = 1,
     al_first_seen_at = now, al_last_seen_at = now, al_acknowledged_at = None, al_closed_at = None\<rparr>"

text \<open>What \<open>create_or_update\<close> does once it has looked for a duplicate. The look-up itself fails
  when its key is not a text the server can be sent.\<close>

definition record_input ::
  "'b dbenv_scheme \<Rightarrow> alert_input \<Rightarrow> alert option \<Rightarrow> 'a alert_db_scheme \<Rightarrow> service_error + (alert \<times> bool) \<times> 'a alert_db_scheme" where
  "record_input e p existing db = (case existing of
     Some a \<Rightarrow> (let a' = fold_input (utcnow e) p a in
        bind_res (save_alert e a' db) (\<lambda>db'. Inr ((a', False), db')))
   | None \<Rightarrow> bind_res (next_display_id e (ai_tenant p) db) (\<lambda>(disp, db1).
        let a = new_alert (fresh_id e db1) disp (utcnow e) p in
        bind_res (insert_alert e a db1) (\<lambda>db2.
        bind_res (add_transition e (al_id a) (ai_tenant p) None ''NEW'' None (Some ''alert created'') db2) (\<lambda>db3.
        Inr ((a, True), db3)))))"

definition create_or_update ::
  "'b dbenv_scheme \<Rightarrow> alert_input \<Rightarrow> int \<Rightarrow> 'a alert_db_scheme \<Rightarrow> service_error + (alert \<times> bool) \<times> 'a alert_db_scheme" where
  "create_or_update e p minutes db = bind_res (require [(text_ok (ai_dedup_key p), DataError ''dedup_key'')]) (\<lambda>_.
     record_input e p (find_duplicate e (ai_tenant p) (ai_dedup_key p) minutes db) db)"

section \<open>Reads\<close>

definition get_alert :: "string \<Rightarrow> string \<Rightarrow> 'a alert_db_scheme \<Rightarrow> service_error + alert" where
  "get_alert tenant alert_id db = (case find (\<lambda>a. al_id a = alert_id \<and> al_tenant a = tenant) (alerts db) of
     None \<Rightarrow> Inl (NotFoundError alert_id) | Some a \<Rightarrow> Inr a)"

text \<open>\<open>if status:\<close>: neither \<open>None\<close> nor the empty text filters.\<close>

definition optional_filter :: "string option \<Rightarrow> string \<Rightarrow> bool" where
  "optional_filter f v \<longleftrightarrow> (case f of None \<Rightarrow> True | Some s \<Rightarrow> s = [] \<or> v = s)"

definition list_alerts ::
  "string \<Rightarrow> string option \<Rightarrow> string option \<Rightarrow> string option \<Rightarrow> nat \<Rightarrow> nat \<Rightarrow> 'a alert_db_scheme \<Rightarrow> alert list" where
  "list_alerts tenant by_status by_severity assigned_to limit offset db =
     page limit offset (sort_key (\<lambda>a. - al_risk_score a) (sort_key (\<lambda>a. - al_last_seen_at a)
       (filter (\<lambda>a. al_tenant a = tenant \<and> optional_filter by_status (al_status a)
          \<and> optional_filter by_severity (al_severity a)
          \<and> (case assigned_to of None \<Rightarrow> True | Some u \<Rightarrow> al_analyst_id a = Some u)) (alerts db))))"

definition count_by_status :: "string \<Rightarrow> 'a alert_db_scheme \<Rightarrow> nat dict" where
  "count_by_status tenant db = counts (map al_status (filter (\<lambda>a. al_tenant a = tenant) (alerts db)))"

section \<open>Lifecycle\<close>

definition audit_action :: "string \<Rightarrow> string \<Rightarrow> string" where
  "audit_action current target =
     (if target \<in> set CLOSING then ''CLOSE_ALERT_'' @ target
      else if current \<in> set CLOSING then ''REOPEN_ALERT'' else ''ALERT_'' @ target)"

definition moved_alert :: "int \<Rightarrow> string \<Rightarrow> string option \<Rightarrow> string option \<Rightarrow> alert \<Rightarrow> alert" where
  "moved_alert now target actor note a =
     (let a1 = a\<lparr>al_status := target\<rparr>;
          a2 = (if target = ''IN_PROGRESS'' \<and> al_acknowledged_at a1 = None then a1\<lparr>al_acknowledged_at := Some now\<rparr> else a1);
          a3 = (if target \<in> set CLOSING
                then (let b = a2\<lparr>al_closed_at := Some now\<rparr>
                      in if note \<notin> {None, Some []} then b\<lparr>al_resolution_note := note\<rparr> else b)
                else a2\<lparr>al_closed_at := None\<rparr>)
      in if actor \<noteq> None \<and> al_analyst_id a3 = None \<and> target \<noteq> ''NEW'' then a3\<lparr>al_analyst_id := actor\<rparr> else a3)"

definition alert_transition_op ::
  "'b dbenv_scheme \<Rightarrow> string \<Rightarrow> string \<Rightarrow> string \<Rightarrow> string option \<Rightarrow> string option \<Rightarrow> string option \<Rightarrow>
   'a alert_db_scheme \<Rightarrow> service_error + alert \<times> 'a alert_db_scheme" where
  "alert_transition_op e tenant alert_id target actor ip note db =
     bind_res (get_alert tenant alert_id db) (\<lambda>a. let current = al_status a in
       if target = current then Inr (a, db)
       else if target \<notin> set (allowed ALERT_TRANSITIONS current) then Inl (refused_transition ALERT_TRANSITIONS current target)
       else let a' = moved_alert (utcnow e) target actor note a in
         bind_res (save_alert e a' db) (\<lambda>db1.
         bind_res (add_transition e (al_id a') tenant (Some current) target actor note db1) (\<lambda>db2.
         bind_res (record_audit_event e tenant (audit_action current target) ''alert'' ''success'' actor ip None
             (Some (al_display_id a')) (Some [(''status'', JStr current)])
             (Some [(''status'', JStr target), (''note'', opt_str note)]) db2) (\<lambda>db3.
         Inr (a', db3)))))"

definition assign ::
  "'b dbenv_scheme \<Rightarrow> string \<Rightarrow> string \<Rightarrow> string option \<Rightarrow> string option \<Rightarrow> string option \<Rightarrow>
   'a alert_db_scheme \<Rightarrow> service_error + alert \<times> 'a alert_db_scheme" where
  "assign e tenant alert_id analyst actor ip db =
     bind_res (get_alert tenant alert_id db) (\<lambda>a. let a' = a\<lparr>al_analyst_id := analyst\<rparr> in
       bind_res (save_alert e a' db) (\<lambda>db1.
       bind_res (record_audit_event e tenant ''ASSIGN_ALERT'' ''alert'' ''success'' actor ip None (Some (al_display_id a'))
           (Some [(''analyst_id'', opt_str (al_analyst_id a))]) (Some [(''analyst_id'', opt_str analyst)]) db1) (\<lambda>db2.
       Inr (a', db2))))"

definition alert_add_note ::
  "'b dbenv_scheme \<Rightarrow> string \<Rightarrow> string \<Rightarrow> string \<Rightarrow> string option \<Rightarrow> 'a alert_db_scheme \<Rightarrow>
   service_error + alert_note \<times> 'a alert_db_scheme" where
  "alert_add_note e tenant alert_id body author db =
     bind_res (get_alert tenant alert_id db) (\<lambda>_.
       bind_res (require [fk_org db tenant, fk_user db author, (text_ok body, DataError ''body'')]) (\<lambda>_.
       let n = \<lparr>an_alert = alert_id, an_tenant = tenant, an_author = author, an_body = body, an_created = pg_now e\<rparr>
       in Inr (n, db\<lparr>drawn := Suc (drawn db), alert_notes := alert_notes db @ [n]\<rparr>)))"

definition alert_notes_for :: "string \<Rightarrow> string \<Rightarrow> 'a alert_db_scheme \<Rightarrow> service_error + alert_note list" where
  "alert_notes_for tenant alert_id db = bind_res (get_alert tenant alert_id db) (\<lambda>_.
     Inr (sort_key an_created (filter (\<lambda>n. an_alert n = alert_id \<and> an_tenant n = tenant) (alert_notes db))))"

definition transitions_for :: "string \<Rightarrow> string \<Rightarrow> 'a alert_db_scheme \<Rightarrow> service_error + alert_transition list" where
  "transitions_for tenant alert_id db = bind_res (get_alert tenant alert_id db) (\<lambda>_.
     Inr (sort_key at_occurred (filter (\<lambda>t. at_alert t = alert_id \<and> at_tenant t = tenant) (alert_transitions db))))"

section \<open>What a successful operation leaves\<close>

lemma save_alert_Inr:
  "save_alert e a db = Inr db' \<longleftrightarrow> check_alert e db a = Inr ()
     \<and> db' = db\<lparr>alerts := update_rows (\<lambda>x. al_id x = al_id a) (\<lambda>_. a) (alerts db)\<rparr>"
  by (auto simp: save_alert_def bind_res_Inr)

lemma insert_alert_Inr:
  "insert_alert e a db = Inr db' \<longleftrightarrow> check_alert e db a = Inr () \<and> al_id a \<notin> al_id ` set (alerts db)
     \<and> (al_tenant a, al_display_id a) \<notin> (\<lambda>x. (al_tenant x, al_display_id x)) ` set (alerts db)
     \<and> db' = db\<lparr>drawn := Suc (drawn db), alerts := alerts db @ [a]\<rparr>"
  by (auto simp: insert_alert_def bind_res_Inr)

lemma add_transition_Inr:
  assumes "add_transition e i t f u actor note db = Inr db'"
  shows "db' = db\<lparr>drawn := Suc (drawn db), alert_transitions := alert_transitions db @
     [\<lparr>at_alert = i, at_tenant = t, at_from = f, at_to = u, at_actor = actor, at_note = note, at_occurred = pg_now e\<rparr>]\<rparr>
   \<and> i \<in> al_id ` set (alerts db)"
  using assms by (auto simp: add_transition_def bind_res_Inr)

lemma add_transition_ok:
  assumes "is_org db t" "pred_option (is_user db) actor" "i \<in> al_id ` set (alerts db)" "pred_option (varchar 20) f"
    "varchar 20 u" "pred_option text_ok note"
  shows "\<exists>db'. add_transition e i t f u actor note db = Inr db' \<and> organizations db' = organizations db \<and> users db' = users db"
proof -
  have "require [fk_org db t, fk_user db actor, (i \<in> al_id ` set (alerts db), IntegrityError ''foreign key: alerts''),
         (pred_option (varchar 20) f \<and> varchar 20 u, DataError ''status''), (pred_option text_ok note, DataError ''note'')] = Inr ()"
    by (rule require_ok) (use assms in \<open>simp add: fk_org_def fk_user_def\<close>)
  thus ?thesis unfolding add_transition_def by (simp only: bind_res_simps sum.inject) simp
qed

lemma next_display_id_Inr:
  assumes "next_display_id e t db = Inr (disp, db')"
  shows "disp = display_text ''ALT'' (year_of (utcnow e)) (Suc (last_number t (year_of (utcnow e)) (alert_sequences db)))
    \<and> db' = db\<lparr>alert_sequences := snd (next_number t (year_of (utcnow e)) (alert_sequences db))\<rparr>"
  using assms next_number_fst [of t "year_of (utcnow e)" "alert_sequences db"]
  by (auto simp: next_display_id_def bind_res_Inr Let_def split: prod.splits)

lemma check_alert_constraints: "check_alert e db a = Inr () \<Longrightarrow> list_all fst (alert_constraints a)"
  by (simp add: check_alert_def)

lemma get_alert_Inr:
  "get_alert t i db = Inr a \<Longrightarrow> a \<in> set (alerts db) \<and> al_id a = i \<and> al_tenant a = t"
  by (auto simp: get_alert_def split: option.splits dest: find_Some_mem)

lemma find_duplicate_Some:
  assumes "find_duplicate e t k m db = Some a"
  shows "a \<in> set (alerts db) \<and> al_tenant a = t \<and> al_dedup_key a = k \<and> al_status a \<in> set OPEN_STATUSES
     \<and> utcnow e - m * 60000000 \<le> al_last_seen_at a"
proof -
  define xs where "xs = filter (\<lambda>a. al_tenant a = t \<and> al_dedup_key a = k
      \<and> al_status a \<in> set OPEN_STATUSES \<and> utcnow e - m * 60000000 \<le> al_last_seen_at a) (alerts db)"
  have "sort_key (\<lambda>a. - al_last_seen_at a) xs = a # tl (sort_key (\<lambda>a. - al_last_seen_at a) xs)"
    using assms by (simp add: find_duplicate_def Let_def xs_def split: list.splits)
  hence "a \<in> set (sort_key (\<lambda>a. - al_last_seen_at a) xs)" by (metis list.set_intros(1))
  thus ?thesis by (simp add: xs_def)
qed

lemma find_duplicate_None:
  "find_duplicate e t k m db = None \<longleftrightarrow> (\<forall>a \<in> set (alerts db). al_tenant a = t \<longrightarrow> al_dedup_key a = k
     \<longrightarrow> al_status a \<in> set OPEN_STATUSES \<longrightarrow> al_last_seen_at a < utcnow e - m * 60000000)"
proof -
  define xs where "xs = filter (\<lambda>a. al_tenant a = t \<and> al_dedup_key a = k
      \<and> al_status a \<in> set OPEN_STATUSES \<and> utcnow e - m * 60000000 \<le> al_last_seen_at a) (alerts db)"
  have "find_duplicate e t k m db = None \<longleftrightarrow> sort_key (\<lambda>a. - al_last_seen_at a) xs = []"
    by (simp add: find_duplicate_def Let_def xs_def split: list.splits)
  also have "\<dots> \<longleftrightarrow> xs = []" by (metis length_0_conv length_sort)
  also have "\<dots> \<longleftrightarrow> (\<forall>a \<in> set (alerts db). al_tenant a = t \<longrightarrow> al_dedup_key a = k
     \<longrightarrow> al_status a \<in> set OPEN_STATUSES \<longrightarrow> al_last_seen_at a < utcnow e - m * 60000000)"
    by (auto simp: xs_def filter_empty_conv not_le)
  finally show ?thesis .
qed

text \<open>The two branches of \<open>create_or_update\<close>.\<close>

lemma record_input_fold:
  assumes "record_input e p (Some a) db = Inr ((r, created), db')"
  shows "r = fold_input (utcnow e) p a \<and> \<not> created \<and> list_all fst (alert_constraints r)
     \<and> db' = db\<lparr>alerts := update_rows (\<lambda>x. al_id x = al_id r) (\<lambda>_. r) (alerts db)\<rparr>"
  using assms check_alert_constraints by (auto simp: record_input_def Let_def bind_res_Inr save_alert_Inr)

definition created_move :: "'b dbenv_scheme \<Rightarrow> alert_input \<Rightarrow> string \<Rightarrow> alert_transition" where
  "created_move e p i = \<lparr>at_alert = i, at_tenant = ai_tenant p, at_from = None, at_to = ''NEW'',
     at_actor = None, at_note = Some ''alert created'', at_occurred = pg_now e\<rparr>"

lemma record_input_create:
  assumes "record_input e p None db = Inr ((r, created), db')"
  shows "created \<and> list_all fst (alert_constraints r) \<and> al_id r \<notin> al_id ` set (alerts db)
     \<and> r = new_alert (fresh_id e db) (display_text ''ALT'' (year_of (utcnow e))
           (Suc (last_number (ai_tenant p) (year_of (utcnow e)) (alert_sequences db)))) (utcnow e) p
     \<and> db' = db\<lparr>drawn := drawn db + 2, alerts := alerts db @ [r],
           alert_transitions := alert_transitions db @ [created_move e p (al_id r)],
           alert_sequences := snd (next_number (ai_tenant p) (year_of (utcnow e)) (alert_sequences db))\<rparr>"
proof -
  obtain disp db1 db2 where d: "next_display_id e (ai_tenant p) db = Inr (disp, db1)"
    and i: "insert_alert e r db1 = Inr db2"
    and r: "r = new_alert (fresh_id e db1) disp (utcnow e) p" and c: created
    and t: "add_transition e (al_id r) (ai_tenant p) None ''NEW'' None (Some ''alert created'') db2 = Inr db'"
    using assms by (auto simp: record_input_def Let_def bind_res_Inr split: prod.splits)
  have f: "fresh_id e db1 = fresh_id e db" using next_display_id_Inr [OF d] by (simp add: fresh_id_def)
  show ?thesis
    using next_display_id_Inr [OF d] i r c add_transition_Inr [OF t] f check_alert_constraints
    by (auto simp: insert_alert_Inr created_move_def)
qed

section \<open>The invariant\<close>

definition moves :: "alert_transition list \<Rightarrow> string \<Rightarrow> Lifecycle.moves" where
  "moves ts i = map (\<lambda>t. (at_from t, at_to t)) (filter (\<lambda>t. at_alert t = i) ts)"

definition alert_row_wf :: "alert_transition list \<Rightarrow> alert \<Rightarrow> bool" where
  "alert_row_wf ts a \<longleftrightarrow> list_all fst (alert_constraints a)
     \<and> history_ok ALERT_TRANSITIONS ''NEW'' (moves ts (al_id a)) (al_status a)
     \<and> (al_closed_at a \<noteq> None \<longleftrightarrow> al_status a \<in> set CLOSING)
     \<and> length (al_event_ids a) \<le> MAX_EVENT_IDS \<and> length (al_detection_ids a) \<le> MAX_EVENT_IDS"

definition display_ids :: "string \<Rightarrow> alert list \<Rightarrow> string list" where
  "display_ids t as = map al_display_id (filter (\<lambda>a. al_tenant a = t) as)"

definition alert_wf :: "'a alert_db_scheme \<Rightarrow> bool" where
  "alert_wf db \<longleftrightarrow> distinct (map al_id (alerts db))
     \<and> (\<forall>t \<in> set (alert_transitions db). at_alert t \<in> al_id ` set (alerts db))
     \<and> (\<forall>a \<in> set (alerts db). alert_row_wf (alert_transitions db) a)
     \<and> (\<forall>t. numbered ''ALT'' t (display_ids t (alerts db)) (alert_sequences db))"

interpretation alert_lifecycle: lifecycle ALERT_TRANSITIONS "''NEW''"
proof
  show "''NEW'' \<in> set (statuses ALERT_TRANSITIONS)" by (simp add: statuses_def ALERT_TRANSITIONS_def)
  show "t \<in> set (statuses ALERT_TRANSITIONS)" if "t \<in> set (allowed ALERT_TRANSITIONS s)" for s t
    using that by (auto simp: statuses_def allowed_def ALERT_TRANSITIONS_def split: if_splits)
  show "s \<notin> set (allowed ALERT_TRANSITIONS s)" for s by (simp add: allowed_def ALERT_TRANSITIONS_def)
  show "allowed ALERT_TRANSITIONS s \<noteq> []" if "s \<in> set (statuses ALERT_TRANSITIONS)" for s
    using that by (auto simp: statuses_def allowed_def ALERT_TRANSITIONS_def)
qed

lemma moves_append: "moves (ts @ [t]) i = moves ts i @ (if at_alert t = i then [(at_from t, at_to t)] else [])"
  by (simp add: moves_def)

lemma moves_fresh: "\<forall>t \<in> set ts. at_alert t \<noteq> i \<Longrightarrow> moves ts i = []"
  by (simp add: moves_def filter_empty_conv)

lemma alert_row_wf_other: "at_alert t \<noteq> al_id a \<Longrightarrow> alert_row_wf (ts @ [t]) a = alert_row_wf ts a"
  by (simp add: alert_row_wf_def moves_append)

lemma display_ids_update:
  assumes "al_display_id a' = al_display_id a" "al_tenant a' = al_tenant a" "al_id a' = al_id a"
    and "a \<in> set as" "distinct (map al_id as)"
  shows "display_ids t (update_rows (\<lambda>x. al_id x = al_id a') (\<lambda>_. a') as) = display_ids t as"
proof -
  have same: "x = a" if "x \<in> set as" "al_id x = al_id a" for x
    using that assms(4,5) by (auto simp: distinct_map dest: inj_onD)
  have "map (\<lambda>x. (al_tenant x, al_display_id x)) (update_rows (\<lambda>x. al_id x = al_id a') (\<lambda>_. a') as)
      = map (\<lambda>x. (al_tenant x, al_display_id x)) as"
    unfolding update_rows_def using same assms(1-3) by (auto simp: list.map_comp) 
  moreover have "display_ids t bs = map snd (filter (\<lambda>x. fst x = t) (map (\<lambda>x. (al_tenant x, al_display_id x)) bs))" for bs
    by (simp add: display_ids_def filter_map comp_def)
  ultimately show ?thesis by simp
qed

text \<open>Replacing one row keeps the invariant when the row keeps its identity and is well formed
  with the moves recorded for it.\<close>

lemma alert_wf_update:
  assumes wf: "alert_wf db" and a: "a \<in> set (alerts db)"
    and id: "al_id a' = al_id a" "al_tenant a' = al_tenant a" "al_display_id a' = al_display_id a"
    and db': "alerts db' = update_rows (\<lambda>x. al_id x = al_id a') (\<lambda>_. a') (alerts db)"
      "alert_sequences db' = alert_sequences db"
    and row: "alert_row_wf (alert_transitions db') a'"
    and ts: "alert_transitions db' = alert_transitions db
      \<or> (\<exists>t. alert_transitions db' = alert_transitions db @ [t] \<and> at_alert t = al_id a)"
  shows "alert_wf db'"
proof -
  have ids: "map al_id (alerts db') = map al_id (alerts db)"
    unfolding db' update_rows_def using id(1) by (auto simp: list.map_comp)
  have dist: "distinct (map al_id (alerts db))" using wf by (simp add: alert_wf_def)
  have tr: "at_alert t \<in> al_id ` set (alerts db')" if "t \<in> set (alert_transitions db')" for t
  proof -
    have "at_alert t \<in> al_id ` set (alerts db)" using wf that ts a by (auto simp: alert_wf_def)
    thus ?thesis using ids by (metis set_map)
  qed
  have rows: "alert_row_wf (alert_transitions db') x" if x: "x \<in> set (alerts db')" for x
  proof (cases "al_id x = al_id a")
    case True
    hence "x = a'" using x id(1) unfolding db' set_update_rows by (auto split: if_splits)
    thus ?thesis using row by simp
  next
    case False
    hence "x \<in> set (alerts db)" using x id(1) unfolding db' set_update_rows by (auto split: if_splits)
    thus ?thesis using wf ts False by (auto simp: alert_wf_def alert_row_wf_other)
  qed
  have "numbered ''ALT'' t (display_ids t (alerts db')) (alert_sequences db')" for t
    using wf display_ids_update [OF id(3,2,1) a dist] by (simp add: alert_wf_def db')
  thus ?thesis using ids dist tr rows by (auto simp: alert_wf_def)
qed

lemma display_ids_insert:
  assumes "numbered ''ALT'' t (display_ids t as) s" and "al_tenant r = u"
    and "al_display_id r = display_text ''ALT'' y (Suc (last_number u y s))"
  shows "numbered ''ALT'' t (display_ids t (as @ [r])) (snd (next_number u y s))"
  using assms numbered_next [of "''ALT''" u "display_ids u as" s y] numbered_other
  by (cases "t = u") (auto simp: display_ids_def)

lemma new_alert_simps [simp]:
  "al_id (new_alert i d now p) = i" "al_tenant (new_alert i d now p) = ai_tenant p"
  "al_display_id (new_alert i d now p) = d" "al_status (new_alert i d now p) = ''NEW''"
  "al_closed_at (new_alert i d now p) = None" "al_occurrence_count (new_alert i d now p) = 1"
  "al_dedup_key (new_alert i d now p) = ai_dedup_key p" "al_last_seen_at (new_alert i d now p) = now"
  "length (al_event_ids (new_alert i d now p)) \<le> MAX_EVENT_IDS"
  "length (al_detection_ids (new_alert i d now p)) \<le> MAX_EVENT_IDS"
  by (simp_all add: new_alert_def)

lemma fold_input_simps [simp]:
  "al_id (fold_input now p a) = al_id a" "al_tenant (fold_input now p a) = al_tenant a"
  "al_display_id (fold_input now p a) = al_display_id a" "al_status (fold_input now p a) = al_status a"
  "al_closed_at (fold_input now p a) = al_closed_at a" "al_dedup_key (fold_input now p a) = al_dedup_key a"
  "al_occurrence_count (fold_input now p a) = al_occurrence_count a + 1"
  "al_last_seen_at (fold_input now p a) = now"
  "al_risk_score (fold_input now p a) = max (al_risk_score a) (ai_risk_score p)"
  "al_event_ids (fold_input now p a) = take_last MAX_EVENT_IDS (al_event_ids a @ ai_event_ids p)"
  "al_detection_ids (fold_input now p a) = take_last MAX_EVENT_IDS (al_detection_ids a @ ai_detection_ids p)"
  "severity_rank (al_severity (fold_input now p a)) = max (severity_rank (al_severity a)) (severity_rank (ai_severity p))"
  by (auto simp: fold_input_def Let_def)

lemma moved_alert_simps [simp]:
  "al_id (moved_alert now u actor note a) = al_id a" "al_tenant (moved_alert now u actor note a) = al_tenant a"
  "al_display_id (moved_alert now u actor note a) = al_display_id a"
  "al_status (moved_alert now u actor note a) = u"
  "al_event_ids (moved_alert now u actor note a) = al_event_ids a"
  "al_detection_ids (moved_alert now u actor note a) = al_detection_ids a"
  "al_occurrence_count (moved_alert now u actor note a) = al_occurrence_count a"
  "al_closed_at (moved_alert now u actor note a) = (if u \<in> set CLOSING then Some now else None)"
  "al_acknowledged_at (moved_alert now u actor note a) =
     (if u = ''IN_PROGRESS'' \<and> al_acknowledged_at a = None then Some now else al_acknowledged_at a)"
  by (auto simp: moved_alert_def Let_def)

lemma alert_wf_create:
  assumes wf: "alert_wf db" and c: "record_input e p None db = Inr ((r, created), db')"
  shows "alert_wf db'"
proof -
  note k = record_input_create [OF c]
  define y where "y = year_of (utcnow e)"
  have al: "alerts db' = alerts db @ [r]" and tr: "alert_transitions db' = alert_transitions db @ [created_move e p (al_id r)]"
    and sq: "alert_sequences db' = snd (next_number (ai_tenant p) y (alert_sequences db))"
    and r: "r = new_alert (fresh_id e db) (display_text ''ALT'' y (Suc (last_number (ai_tenant p) y (alert_sequences db)))) (utcnow e) p"
    using k by (simp_all add: y_def)
  have new: "al_id r \<notin> al_id ` set (alerts db)" using k by blast
  have tid: "at_alert (created_move e p (al_id r)) = al_id r" by (simp add: created_move_def)
  have "\<forall>t \<in> set (alert_transitions db). at_alert t \<in> al_id ` set (alerts db)" using wf by (simp add: alert_wf_def)
  hence none: "moves (alert_transitions db) (al_id r) = []" using new by (intro moves_fresh) metis
  have c: "list_all fst (alert_constraints r)" using k by blast
  have "al_status r = ''NEW''" "al_closed_at r = None" "length (al_event_ids r) \<le> MAX_EVENT_IDS"
    "length (al_detection_ids r) \<le> MAX_EVENT_IDS" by (simp_all add: r)
  moreover have "moves (alert_transitions db') (al_id r) = [(None, ''NEW'')]"
    by (simp add: tr moves_append none created_move_def)
  ultimately have "alert_row_wf (alert_transitions db') r"
    using c by (simp add: alert_row_wf_def history_ok_first CLOSING_def)
  moreover have "alert_row_wf (alert_transitions db') x" if "x \<in> set (alerts db)" for x
    using wf that new alert_row_wf_other [of "created_move e p (al_id r)" x] by (auto simp: alert_wf_def tr tid)
  moreover have "numbered ''ALT'' t (display_ids t (alerts db')) (alert_sequences db')" for t
    unfolding al sq by (rule display_ids_insert) (use wf r in \<open>auto simp: alert_wf_def\<close>)
  ultimately show ?thesis
    using wf new unfolding alert_wf_def al tr by (auto simp: tid)
qed

lemma alert_wf_fold:
  assumes wf: "alert_wf db" and a: "a \<in> set (alerts db)" and c: "record_input e p (Some a) db = Inr ((r, created), db')"
  shows "alert_wf db'"
proof (rule alert_wf_update [OF wf a])
  note k = record_input_fold [OF c]
  show "alert_row_wf (alert_transitions db') r"
    using k wf a by (auto simp: alert_wf_def alert_row_wf_def)
qed (use record_input_fold [OF c] in simp_all)

lemma alert_wf_create_or_update [inv_intros]:
  "alert_wf db \<Longrightarrow> create_or_update e p m db = Inr (r, db') \<Longrightarrow> alert_wf db'"
  by (cases r; cases "find_duplicate e (ai_tenant p) (ai_dedup_key p) m db")
    (auto simp: create_or_update_def bind_res_Inr dest: find_duplicate_Some intro: alert_wf_create alert_wf_fold)

lemma alert_transition_Inr:
  assumes "alert_transition_op e t i u actor ip note db = Inr (r, db')"
  obtains (same) "get_alert t i db = Inr r" "db' = db" "u = al_status r"
  | (moved) a x where "get_alert t i db = Inr a" "u \<in> set (allowed ALERT_TRANSITIONS (al_status a))"
      "r = moved_alert (utcnow e) u actor note a" "list_all fst (alert_constraints r)"
      "db' = db\<lparr>drawn := drawn db + 2, alerts := update_rows (\<lambda>x. al_id x = i) (\<lambda>_. r) (alerts db),
         alert_transitions := alert_transitions db @ [\<lparr>at_alert = i, at_tenant = t, at_from = Some (al_status a),
           at_to = u, at_actor = actor, at_note = note, at_occurred = pg_now e\<rparr>],
         audit_logs := audit_logs db @ [x]\<rparr>"
      "aud_tenant x = t" "aud_actor x = actor" "aud_action x = audit_action (al_status a) u"
      "aud_object_type x = ''alert''" "aud_object_id x = Some (al_display_id a)"
proof -
  obtain a where g: "get_alert t i db = Inr a" using assms by (auto simp: alert_transition_op_def bind_res_Inr)
  note gi = get_alert_Inr [OF g]
  show thesis
  proof (cases "u = al_status a")
    case True
    with assms g show thesis by (intro same) (auto simp: alert_transition_op_def)
  next
    case False
    define r' where "r' = moved_alert (utcnow e) u actor note a"
    obtain db1 db2 where ok: "u \<in> set (allowed ALERT_TRANSITIONS (al_status a))" and s: "save_alert e r' db = Inr db1"
      and t: "add_transition e (al_id r') t (Some (al_status a)) u actor note db1 = Inr db2"
      and v: "record_audit_event e t (audit_action (al_status a) u) ''alert'' ''success'' actor ip None
             (Some (al_display_id r')) (Some [(''status'', JStr (al_status a))])
             (Some [(''status'', JStr u), (''note'', opt_str note)]) db2 = Inr db'" and r: "r = r'"
      using assms g False by (auto simp: alert_transition_op_def Let_def bind_res_Inr r'_def split: if_splits)
    obtain x where x: "db' = db2\<lparr>drawn := Suc (drawn db2), audit_logs := audit_logs db2 @ [x]\<rparr>"
      "aud_tenant x = t" "aud_actor x = actor" "aud_action x = audit_action (al_status a) u"
      "aud_object_type x = ''alert''" "aud_object_id x = Some (al_display_id a)"
      using record_audit_event_Inr [OF v] by (auto simp: r'_def)
    have s': "db1 = db\<lparr>alerts := update_rows (\<lambda>x. al_id x = i) (\<lambda>_. r') (alerts db)\<rparr>" "list_all fst (alert_constraints r')"
      using s gi check_alert_constraints by (auto simp: save_alert_Inr r'_def)
    show thesis
      by (rule moved [OF g ok]) (use r r'_def s' add_transition_Inr [OF t] x gi in auto)
  qed
qed

lemma alert_wf_transition [inv_intros]:
  assumes wf: "alert_wf db" and c: "alert_transition_op e t i u actor ip note db = Inr (r, db')"
  shows "alert_wf db'"
  using c
proof (cases rule: alert_transition_Inr)
  case same
  with wf show ?thesis by simp
next
  case (moved a x)
  note gi = get_alert_Inr [OF moved(1)]
  have a: "a \<in> set (alerts db)" using gi by simp
  have h: "history_ok ALERT_TRANSITIONS ''NEW'' (moves (alert_transitions db) i) (al_status a)"
    and l: "length (al_event_ids a) \<le> MAX_EVENT_IDS" "length (al_detection_ids a) \<le> MAX_EVENT_IDS"
    using wf a gi by (auto simp: alert_wf_def alert_row_wf_def)
  show ?thesis
  proof (rule alert_wf_update [OF wf a, of r])
    show "alert_row_wf (alert_transitions db') r"
      unfolding alert_row_wf_def using moved gi l history_ok_snoc [OF h moved(2)] by (auto simp: moves_append)
  qed (use moved gi in auto)
qed

lemma assign_Inr:
  assumes "assign e t i analyst actor ip db = Inr (r, db')"
  shows "\<exists>a x. get_alert t i db = Inr a \<and> r = a\<lparr>al_analyst_id := analyst\<rparr> \<and> list_all fst (alert_constraints r)
     \<and> db' = db\<lparr>drawn := Suc (drawn db), alerts := update_rows (\<lambda>x. al_id x = i) (\<lambda>_. r) (alerts db),
         audit_logs := audit_logs db @ [x]\<rparr> \<and> aud_tenant x = t \<and> aud_action x = ''ASSIGN_ALERT''"
proof -
  obtain a db1 where g: "get_alert t i db = Inr a" and r: "r = a\<lparr>al_analyst_id := analyst\<rparr>"
    and s: "save_alert e r db = Inr db1"
    and v: "record_audit_event e t ''ASSIGN_ALERT'' ''alert'' ''success'' actor ip None (Some (al_display_id r))
           (Some [(''analyst_id'', opt_str (al_analyst_id a))]) (Some [(''analyst_id'', opt_str analyst)]) db1 = Inr db'"
    using assms by (auto simp: assign_def Let_def bind_res_Inr)
  have s': "db1 = db\<lparr>alerts := update_rows (\<lambda>x. al_id x = i) (\<lambda>_. r) (alerts db)\<rparr>" "list_all fst (alert_constraints r)"
    using s get_alert_Inr [OF g] check_alert_constraints by (auto simp: save_alert_Inr r)
  obtain x where "db' = db1\<lparr>drawn := Suc (drawn db1), audit_logs := audit_logs db1 @ [x]\<rparr>" "aud_tenant x = t"
    "aud_action x = ''ASSIGN_ALERT''" using record_audit_event_Inr [OF v] by blast
  with g r s' show ?thesis by (intro exI [of _ a] exI [of _ x]) simp
qed

lemma alert_wf_assign [inv_intros]:
  assumes wf: "alert_wf db" and c: "assign e t i analyst actor ip db = Inr (r, db')"
  shows "alert_wf db'"
proof -
  obtain a x where k: "get_alert t i db = Inr a" "r = a\<lparr>al_analyst_id := analyst\<rparr>" "list_all fst (alert_constraints r)"
    "db' = db\<lparr>drawn := Suc (drawn db), alerts := update_rows (\<lambda>x. al_id x = i) (\<lambda>_. r) (alerts db),
       audit_logs := audit_logs db @ [x]\<rparr>" using assign_Inr [OF c] by blast
  note gi = get_alert_Inr [OF k(1)]
  show ?thesis
  proof (rule alert_wf_update [OF wf, of a r])
    show "alert_row_wf (alert_transitions db') r" using k gi wf by (auto simp: alert_wf_def alert_row_wf_def)
  qed (use k gi in auto)
qed

lemma alert_add_note_Inr:
  "alert_add_note e t i body author db = Inr (n, db') \<Longrightarrow>
     db' = db\<lparr>drawn := Suc (drawn db), alert_notes := alert_notes db @ [n]\<rparr> \<and> an_alert n = i \<and> an_tenant n = t \<and> an_body n = body"
  by (auto simp: alert_add_note_def bind_res_Inr Let_def)

lemma alert_wf_cong:
  "alert_wf db \<Longrightarrow> alerts db' = alerts db \<Longrightarrow> alert_transitions db' = alert_transitions db \<Longrightarrow>
   alert_sequences db' = alert_sequences db \<Longrightarrow> alert_wf db'"
  by (simp add: alert_wf_def)

section \<open>The service as a transition system\<close>

inductive alert_step :: "'a alert_db_scheme \<Rightarrow> 'a alert_db_scheme \<Rightarrow> bool" where
  input: "create_or_update (e :: dbenv) p m db = Inr (r, db') \<Longrightarrow> alert_step db db'"
| move: "alert_transition_op (e :: dbenv) t i u actor ip note db = Inr (r, db') \<Longrightarrow> alert_step db db'"
| assigned: "assign (e :: dbenv) t i analyst actor ip db = Inr (r, db') \<Longrightarrow> alert_step db db'"
| noted: "alert_add_note (e :: dbenv) t i body author db = Inr (n, db') \<Longrightarrow> alert_step db db'"

definition empty_alerts :: "'a alert_db_scheme \<Rightarrow> bool" where
  "empty_alerts db \<longleftrightarrow> alerts db = [] \<and> alert_transitions db = [] \<and> alert_sequences db = []"

lemma alert_wf_empty: "empty_alerts db \<Longrightarrow> alert_wf db"
  by (simp add: empty_alerts_def alert_wf_def display_ids_def numbered_empty)

lemma alert_wf_note [inv_intros]:
  assumes "alert_wf db" "alert_add_note e t i body author db = Inr (n, db')"
  shows "alert_wf db'"
  using alert_add_note_Inr [OF assms(2)] by (intro alert_wf_cong [OF assms(1)]) auto

lemma alert_wf_step: "alert_step db db' \<Longrightarrow> alert_wf db \<Longrightarrow> alert_wf db'"
  by (induction rule: alert_step.induct) (auto intro: inv_intros)

lemma alert_wf_reachable: "alert_step\<^sup>*\<^sup>* db0 db \<Longrightarrow> empty_alerts db0 \<Longrightarrow> alert_wf db"
  by (induction rule: rtranclp_induct) (auto intro: alert_wf_empty alert_wf_step)

section \<open>Episodes\<close>

text \<open>A sequence of inputs, each in its own transaction, with the moment it arrives.\<close>

fun take_inputs :: "(dbenv \<times> alert_input) list \<Rightarrow> int \<Rightarrow> 'a alert_db_scheme \<Rightarrow> service_error + 'a alert_db_scheme" where
  "take_inputs [] m db = Inr db"
| "take_inputs ((e, p) # ps) m db = bind_res (create_or_update e p m db) (\<lambda>(r, db'). take_inputs ps m db')"

definition occurrences :: "'a alert_db_scheme \<Rightarrow> int" where
  "occurrences db = (\<Sum>a\<leftarrow>alerts db. al_occurrence_count a)"

lemma occurrences_create_or_update:
  assumes "alert_wf db" "create_or_update e p m db = Inr (r, db')"
  shows "occurrences db' = occurrences db + 1"
proof (cases "find_duplicate e (ai_tenant p) (ai_dedup_key p) m db")
  case None
  obtain a c where r: "r = (a, c)" by (cases r)
  have "alerts db' = alerts db @ [a]" "al_occurrence_count a = 1"
    using assms(2) record_input_create [of e p db a c db'] by (auto simp: create_or_update_def bind_res_Inr None r)
  thus ?thesis by (simp add: occurrences_def)
next
  case (Some x)
  obtain a c where r: "r = (a, c)" by (cases r)
  have k: "a = fold_input (utcnow e) p x" "alerts db' = update_rows (\<lambda>y. al_id y = al_id a) (\<lambda>_. a) (alerts db)"
    using assms(2) record_input_fold [of e p x db a c db'] by (auto simp: create_or_update_def bind_res_Inr Some r)
  show ?thesis
    using sum_update_row [of al_id "alerts db" x a al_occurrence_count] k assms(1) find_duplicate_Some [OF Some]
    by (simp add: occurrences_def alert_wf_def)
qed

lemma occurrences_take_inputs:
  "take_inputs ps m db = Inr db' \<Longrightarrow> alert_wf db \<Longrightarrow> occurrences db' = occurrences db + int (length ps) \<and> alert_wf db'"
proof (induction ps m db rule: take_inputs.induct)
  case (2 e p ps m db)
  then obtain r db1 where "create_or_update e p m db = Inr (r, db1)" "take_inputs ps m db1 = Inr db'"
    by (auto simp: bind_res_Inr)
  with 2 show ?case
    using occurrences_create_or_update [of db e p m r db1] alert_wf_create_or_update [of db e p m r db1] by simp
qed simp

text \<open>The inputs of one episode: the same tenant and key, each within the window of the one
  before.\<close>

fun episode :: "string \<Rightarrow> string \<Rightarrow> int \<Rightarrow> int \<Rightarrow> (dbenv \<times> alert_input) list \<Rightarrow> bool" where
  "episode t k m prev [] \<longleftrightarrow> True"
| "episode t k m prev ((e, p) # ps) \<longleftrightarrow> ai_tenant p = t \<and> ai_dedup_key p = k \<and> utcnow e - m * 60000000 \<le> prev
     \<and> episode t k m (utcnow e) ps"

text \<open>The last row of the table is the only open alert with the key, and takes every repeat.\<close>

definition sole_open :: "string \<Rightarrow> string \<Rightarrow> alert list \<Rightarrow> alert \<Rightarrow> bool" where
  "sole_open t k as a \<longleftrightarrow> al_tenant a = t \<and> al_dedup_key a = k \<and> al_status a = ''NEW'' \<and> al_id a \<notin> al_id ` set as
     \<and> (\<forall>x \<in> set as. al_tenant x = t \<longrightarrow> al_dedup_key x = k \<longrightarrow> al_status x \<notin> set OPEN_STATUSES)"

lemma sole_open_found:
  assumes "sole_open t k as a" "alerts db = as @ [a]" "utcnow e - m * 60000000 \<le> al_last_seen_at a"
  shows "find_duplicate e t k m db = Some a"
proof -
  have "filter (\<lambda>x. al_tenant x = t \<and> al_dedup_key x = k \<and> al_status x \<in> set OPEN_STATUSES
      \<and> utcnow e - m * 60000000 \<le> al_last_seen_at x) as = []"
    using assms(1) by (auto simp: sole_open_def filter_empty_conv)
  thus ?thesis using assms by (simp add: find_duplicate_def Let_def sole_open_def OPEN_STATUSES_def)
qed

lemma episode_folds:
  "take_inputs ps m db = Inr db' \<Longrightarrow> episode t k m (al_last_seen_at a) ps \<Longrightarrow> sole_open t k as a \<Longrightarrow> alerts db = as @ [a] \<Longrightarrow>
   \<exists>b. alerts db' = as @ [b] \<and> al_id b = al_id a \<and> al_tenant b = t \<and> al_dedup_key b = k
     \<and> al_occurrence_count b = al_occurrence_count a + int (length ps)
     \<and> (\<forall>s \<in> insert (al_risk_score a) ((\<lambda>(e, p). ai_risk_score p) ` set ps). s \<le> al_risk_score b)
     \<and> (\<forall>s \<in> insert (al_severity a) ((\<lambda>(e, p). ai_severity p) ` set ps). severity_rank s \<le> severity_rank (al_severity b))"
proof (induction ps m db arbitrary: a rule: take_inputs.induct)
  case (2 e p ps m db)
  have d: "find_duplicate e (ai_tenant p) (ai_dedup_key p) m db = Some a"
    using 2 by (auto intro: sole_open_found)
  obtain b c db1 where c: "record_input e p (Some a) db = Inr ((b, c), db1)" and t: "take_inputs ps m db1 = Inr db'"
    using 2(2) d by (auto simp: create_or_update_def bind_res_Inr)
  have b: "b = fold_input (utcnow e) p a" "alerts db1 = as @ [b]"
    using record_input_fold [OF c] 2(4,5) update_rows_last [of al_id a as b] by (auto simp: sole_open_def)
  have "create_or_update e p m db = Inr ((b, c), db1)" using c d 2(2) by (auto simp: create_or_update_def bind_res_Inr)
  note IH = 2(1) [OF this refl t, of b]
  have so: "sole_open t k as b" using 2(4) by (simp add: b sole_open_def)
  obtain z where "alerts db' = as @ [z]" "al_id z = al_id b" "al_tenant z = t" "al_dedup_key z = k"
     "al_occurrence_count z = al_occurrence_count b + int (length ps)"
     "\<forall>s \<in> insert (al_risk_score b) ((\<lambda>(e, p). ai_risk_score p) ` set ps). s \<le> al_risk_score z"
     "\<forall>s \<in> insert (al_severity b) ((\<lambda>(e, p). ai_severity p) ` set ps). severity_rank s \<le> severity_rank (al_severity z)"
    using IH 2(3) so b by auto
  thus ?case using b by (intro exI [of _ z]) auto
qed (auto simp: sole_open_def)

section \<open>A concrete tenant\<close>

definition sample_dbenv :: "int \<Rightarrow> dbenv" where
  "sample_dbenv t = \<lparr>rx = (\<lambda>p cs s. NotFound), fromiso = (\<lambda>s. None), utcnow = t, isoformat = show_int,
     monotonic = 0, uuid4 = show_nat, pg_now = t, pg_clock = (\<lambda>n. t + int n), inet_ok = (\<lambda>v. True)\<rparr>"

definition sample_org :: organization where
  "sample_org = \<lparr>org_id = ''t1'', org_name = ''Acme'', org_slug = ''acme'', org_active = True\<rparr>"

definition sample_user :: "string \<Rightarrow> user_row" where
  "sample_user u = \<lparr>usr_id = u, usr_tenant = ''t1'', usr_email = u @ ''@acme'', usr_password_hash = [], usr_full_name = u,
     usr_active = True, usr_mfa_enabled = False, usr_mfa_secret = None, usr_failed_logins = 0, usr_locked_until = None,
     usr_last_login = None\<rparr>"

definition sample_db :: alert_db where
  "sample_db = \<lparr>organizations = [sample_org], users = [sample_user ''u1'', sample_user ''u2''], assets = [], iocs = [], ioc_history = [],
     audit_logs = [], drawn = 0, alerts = [], alert_transitions = [], alert_notes = [], alert_sequences = []\<rparr>"

definition sample_alert_input :: "string \<Rightarrow> int \<Rightarrow> alert_input" where
  "sample_alert_input sev score = \<lparr>ai_tenant = ''t1'', ai_source = ''detection'', ai_title = ''brute force'', ai_description = ''d'',
     ai_severity = sev, ai_confidence = 50, ai_risk_score = score, ai_risk_bucket = JNull, ai_risk_explanation = JObj [],
     ai_dedup_key = ''detection:R:root'', ai_event_ids = [''e1''], ai_detection_ids = [''d1''], ai_evidence = JObj [],
     ai_mitre_techniques = [], ai_rule_key = Some ''R'', ai_correlation_id = None, ai_affected_user = JStr ''root'',
     ai_affected_host = JNull, ai_source_ip = JNull, ai_destination_ip = JNull\<rparr>"

definition sample_alert :: "int \<Rightarrow> alert" where
  "sample_alert t = new_alert ''0'' ''ALT-1970-000001'' t (sample_alert_input ''low'' 20)"

definition sample_db1 :: alert_db where
  "sample_db1 = sample_db\<lparr>drawn := 2, alerts := [sample_alert 0],
     alert_transitions := [created_move (sample_dbenv 0) (sample_alert_input ''low'' 20) ''0''],
     alert_sequences := [((''t1'', 1970), 1)]\<rparr>"

lemmas sample_defs = sample_dbenv_def sample_org_def sample_user_def sample_db_def sample_alert_input_def
  sample_alert_def sample_db1_def

lemmas check_alert_defs = check_alert_def alert_types_def alert_constraints_def varchar_def text_ok_def small_int_def int4_def
  text_column_def inet_column_def fk_org_def fk_user_def is_org_def is_user_def SEVERITY_ORDER_def ALERT_STATUSES_def require.simps

lemma digit_char_simps: "digit_char 0 = CHR ''0''" "digit_char (Suc 0) = CHR ''1''" "digit_char 7 = CHR ''7''" "digit_char 9 = CHR ''9''"
  by (simp_all add: digit_char_def char_of_def bit_iff_odd)

lemma sample_display: "display_text ''ALT'' 1970 (Suc 0) = ''ALT-1970-000001''"
proof -
  have "replicate 5 (CHR ''0'') = ''00000''" by (simp add: numeral_eq_Suc)
  thus ?thesis by (simp add: display_text_def show_int_def show_nat.simps digit_char_simps zero_pad_def)
qed

lemma sample_empty: "empty_alerts sample_db"
  by (simp add: empty_alerts_def sample_defs)

lemma sample_created: "create_or_update (sample_dbenv 0) (sample_alert_input ''low'' 20) 60 sample_db = Inr ((sample_alert 0, True), sample_db1)"
proof -
  have f: "find_duplicate (sample_dbenv 0) ''t1'' ''detection:R:root'' 60 sample_db = None"
    by (simp add: find_duplicate_None sample_db_def)
  have n: "next_display_id (sample_dbenv 0) ''t1'' sample_db = Inr (''ALT-1970-000001'', sample_db\<lparr>alert_sequences := [((''t1'', 1970), 1)]\<rparr>)"
    using sample_display by (simp add: next_display_id_def sample_defs year_of_def next_number_def ensure_counter_def last_number_def
        check_alert_defs)
  have a: "new_alert (fresh_id (sample_dbenv 0) (sample_db\<lparr>alert_sequences := s\<rparr>)) ''ALT-1970-000001''
      (utcnow (sample_dbenv 0)) (sample_alert_input ''low'' 20) = sample_alert 0" for s
    by (simp add: sample_alert_def fresh_id_def sample_dbenv_def sample_db_def show_nat.simps digit_char_simps)
  have c: "check_alert (sample_dbenv 0) (sample_db\<lparr>alert_sequences := s\<rparr>) (sample_alert 0) = Inr ()" for s
    by (simp add: check_alert_defs sample_defs new_alert_def MAX_EVENT_IDS_def take_last_def)
  have i: "insert_alert (sample_dbenv 0) (sample_alert 0) (sample_db\<lparr>alert_sequences := s\<rparr>)
      = Inr (sample_db\<lparr>drawn := 1, alerts := [sample_alert 0], alert_sequences := s\<rparr>)" for s
    unfolding insert_alert_Inr using c by (simp add: sample_db_def)
  have t: "add_transition (sample_dbenv 0) (al_id (sample_alert 0)) ''t1'' None ''NEW'' None (Some ''alert created'')
      (sample_db\<lparr>drawn := 1, alerts := [sample_alert 0], alert_sequences := [((''t1'', 1970), 1)]\<rparr>) = Inr sample_db1"
    by (simp add: add_transition_def sample_defs check_alert_defs created_move_def)
  have p: "ai_tenant (sample_alert_input ''low'' 20) = ''t1''" "ai_dedup_key (sample_alert_input ''low'' 20) = ''detection:R:root''"
    by (simp_all add: sample_alert_input_def)
  have key: "require [(text_ok ''detection:R:root'', DataError ''dedup_key'')] = Inr ()"
    by (simp add: text_ok_def)
  show ?thesis
    unfolding create_or_update_def p key record_input_def f n option.case bind_res_simps prod.case Let_def a i t by simp
qed

lemma sample_dup: "find_duplicate (sample_dbenv 1) ''t1'' ''detection:R:root'' 60 sample_db1 = Some (sample_alert 0)"
  by (simp add: find_duplicate_def sample_db1_def Let_def OPEN_STATUSES_def) (simp add: sample_defs)

lemma sample_repeat: "\<exists>r db. create_or_update (sample_dbenv 1) (sample_alert_input ''high'' 80) 60 sample_db1 = Inr ((r, False), db)"
proof -
  let ?r = "fold_input 1 (sample_alert_input ''high'' 80) (sample_alert 0)"
  have "check_alert (sample_dbenv 1) sample_db1 ?r = Inr ()"
    by (simp add: check_alert_defs sample_defs new_alert_def fold_input_def MAX_EVENT_IDS_def take_last_def severity_rank_def)
  moreover have "utcnow (sample_dbenv 1) = 1" "ai_tenant (sample_alert_input ''high'' 80) = ''t1''"
    "ai_dedup_key (sample_alert_input ''high'' 80) = ''detection:R:root''"
    by (simp_all add: sample_dbenv_def sample_alert_input_def)
  moreover have "text_ok ''detection:R:root''" by (simp add: text_ok_def)
  ultimately show ?thesis
    by (simp add: create_or_update_def record_input_def sample_dup save_alert_def Let_def require.simps)
qed

lemma sample_closed: "\<exists>r db. alert_transition_op (sample_dbenv 5) ''t1'' ''0'' ''CLOSED'' (Some ''u1'') None None sample_db1 = Inr (r, db)"
proof -
  let ?r = "moved_alert 5 ''CLOSED'' (Some ''u1'') None (sample_alert 0)"
  let ?db1 = "sample_db1\<lparr>alerts := [?r]\<rparr>"
  have now: "utcnow (sample_dbenv 5) = 5" by (simp add: sample_dbenv_def)
  have g: "get_alert ''t1'' ''0'' sample_db1 = Inr (sample_alert 0)"
    by (simp add: get_alert_def sample_db1_def) (simp add: sample_defs)
  have c: "check_alert (sample_dbenv 5) sample_db1 ?r = Inr ()"
    by (simp add: check_alert_defs sample_defs new_alert_def moved_alert_def MAX_EVENT_IDS_def take_last_def CLOSING_def)
  have s: "save_alert (sample_dbenv 5) ?r sample_db1 = Inr ?db1"
    unfolding save_alert_def c by (simp add: sample_db1_def update_rows_def)
  have st: "al_status (sample_alert 0) = ''NEW''" by (simp add: sample_alert_def)
  have o1: "is_org ?db1 ''t1''" "is_user ?db1 ''u1''"
    by (simp_all add: is_org_def is_user_def sample_db1_def sample_db_def sample_org_def sample_user_def)
  obtain db2 where t: "add_transition (sample_dbenv 5) (al_id ?r) ''t1'' (Some ''NEW'') ''CLOSED'' (Some ''u1'') None ?db1 = Inr db2"
    and core: "organizations db2 = organizations ?db1" "users db2 = users ?db1"
    using add_transition_ok [of ?db1 "''t1''" "Some ''u1''" "al_id ?r" "Some ''NEW''" "''CLOSED''" None "sample_dbenv 5"] o1
    by (auto simp: varchar_def text_ok_def)
  have d: "text_ok (al_display_id (sample_alert 0))" by (simp add: sample_alert_def text_ok_def)
  have v: "\<exists>db3. record_audit_event (sample_dbenv 5) ''t1'' (audit_action ''NEW'' ''CLOSED'') ''alert'' ''success'' (Some ''u1'') None None
      (Some (al_display_id ?r)) (Some [(''status'', JStr ''NEW'')]) (Some [(''status'', JStr ''CLOSED''), (''note'', opt_str None)]) db2 = Inr db3"
    using o1 core d by (intro record_audit_event_ok)
      (auto simp: is_org_def is_user_def audit_action_def CLOSING_def opt_str_def text_ok_def)
  show ?thesis
    using g s t v by (auto simp: alert_transition_op_def Let_def st now allowed_def ALERT_TRANSITIONS_def bind_res_Inr)
qed

lemma record_input_create_ok:
  fixes db :: "'a alert_db_scheme" and e :: "'b dbenv_scheme" and p :: alert_input
  defines "y \<equiv> year_of (utcnow e)"
  defines "n \<equiv> Suc (last_number (ai_tenant p) y (alert_sequences db))"
  defines "a \<equiv> new_alert (fresh_id e db) (display_text ''ALT'' y n) (utcnow e) p"
  assumes "is_org db (ai_tenant p)" "int4 (int n)" "list_all fst (alert_types e a)" "list_all fst (alert_constraints a)"
    "al_id a \<notin> al_id ` set (alerts db)"
    "(ai_tenant p, display_text ''ALT'' y n) \<notin> (\<lambda>x. (al_tenant x, al_display_id x)) ` set (alerts db)"
  shows "\<exists>db'. record_input e p None db = Inr ((a, True), db')"
proof -
  define db1 where "db1 = db\<lparr>alert_sequences := snd (next_number (ai_tenant p) y (alert_sequences db))\<rparr>"
  obtain m s where ms: "next_number (ai_tenant p) y (alert_sequences db) = (m, s)" by force
  have m: "m = n" using next_number_fst [of "ai_tenant p" y "alert_sequences db"] ms by (simp add: n_def)
  have R: "require [fk_org db (ai_tenant p), (int4 (int n), DataError ''last_number'')] = Inr ()"
    by (rule require_ok) (use assms in \<open>simp add: fk_org_def\<close>)
  have d: "next_display_id e (ai_tenant p) db = Inr (display_text ''ALT'' y n, db1)"
    unfolding next_display_id_def Let_def y_def [symmetric] ms prod.case m R bind_res_simps by (simp add: db1_def ms)
  have "require (alert_types e a @ alert_constraints a @ [fk_org db1 (al_tenant a), fk_user db1 (al_analyst_id a)]) = Inr ()"
    by (rule require_ok) (use assms in \<open>simp add: fk_org_def fk_user_def is_org_def db1_def a_def new_alert_def\<close>)
  hence i: "insert_alert e a db1 = Inr (db1\<lparr>drawn := Suc (drawn db1), alerts := alerts db1 @ [a]\<rparr>)"
    using assms by (simp add: insert_alert_Inr check_alert_def db1_def a_def)
  obtain db3 where t: "add_transition e (al_id a) (ai_tenant p) None ''NEW'' None (Some ''alert created'')
      (db1\<lparr>drawn := Suc (drawn db1), alerts := alerts db1 @ [a]\<rparr>) = Inr db3"
    using add_transition_ok [of "db1\<lparr>drawn := Suc (drawn db1), alerts := alerts db1 @ [a]\<rparr>" "ai_tenant p" None "al_id a" None
      "''NEW''" "Some ''alert created''" e] assms(4)
    by (auto simp: is_org_def db1_def varchar_def text_ok_def)
  have f: "new_alert (fresh_id e db1) (display_text ''ALT'' y n) (utcnow e) p = a" by (simp add: a_def fresh_id_def db1_def)
  show ?thesis
    unfolding record_input_def option.case d bind_res_simps prod.case Let_def f i t by simp
qed

lemma sample_second:
  "\<exists>r db. record_input (sample_dbenv 1) (sample_alert_input ''high'' 80) None sample_db1 = Inr (r, db)"
proof -
  let ?e = "sample_dbenv 1" and ?p = "sample_alert_input ''high'' 80"
  have y: "year_of (utcnow ?e) = 1970" by (simp add: sample_dbenv_def year_of_def)
  have t: "ai_tenant ?p = ''t1''" by (simp add: sample_alert_input_def)
  have l: "last_number ''t1'' 1970 (alert_sequences sample_db1) = 1" by (simp add: sample_db1_def last_number_def)
  have f: "fresh_id ?e sample_db1 \<noteq> ''0''"
    by (simp add: fresh_id_def sample_dbenv_def sample_db1_def show_nat.simps digit_char_def char_of_def bit_iff_odd)
  have x: "display_text ''ALT'' 1970 2 \<noteq> ''ALT-1970-000001''"
    using sample_display display_text_inj [of "''ALT''" 1970 2 1970 "Suc 0"] by auto
  have v: "varchar 32 (display_text ''ALT'' 1970 2)"
    by (simp add: display_text_def show_int_def show_nat.simps digit_char_simps zero_pad_def varchar_def text_ok_def)
      (simp add: digit_char_def char_of_def bit_iff_odd)
  have "\<exists>db. record_input ?e ?p None sample_db1
      = Inr ((new_alert (fresh_id ?e sample_db1) (display_text ''ALT'' 1970 2) (utcnow ?e) ?p, True), db)"
    using record_input_create_ok [of sample_db1 ?p ?e, unfolded y t l] f x v
    by (simp add: check_alert_defs sample_defs new_alert_def MAX_EVENT_IDS_def take_last_def numeral_2_eq_2)
  thus ?thesis by blast
qed

section \<open>Properties\<close>

text \<open>C12: in every state the service can reach from an empty alert table, the moves recorded for an
  alert form a path of the transition table from \<open>NEW\<close> to its status, \<open>closed_at\<close> is
  set exactly in a closing status, some move is always left, and the row keeps its bounds: at least
  one occurrence, a score from 0 to 100, at most 200 event identifiers.\<close>

theorem alert_history_sound:
  assumes "alert_step\<^sup>*\<^sup>* db0 db" and "empty_alerts db0" and "a \<in> set (alerts db)"
  shows "history_ok ALERT_TRANSITIONS ''NEW'' (moves (alert_transitions db) (al_id a)) (al_status a)
    \<and> (al_closed_at a \<noteq> None \<longleftrightarrow> al_status a \<in> set CLOSING)
    \<and> al_status a \<in> set (statuses ALERT_TRANSITIONS) \<and> allowed ALERT_TRANSITIONS (al_status a) \<noteq> []
    \<and> 1 \<le> al_occurrence_count a \<and> 0 \<le> al_risk_score a \<and> al_risk_score a \<le> 100
    \<and> length (al_event_ids a) \<le> 200"
proof -
  have w: "alert_row_wf (alert_transitions db) a" using alert_wf_reachable [OF assms(1,2)] assms(3) by (simp add: alert_wf_def)
  hence h: "history_ok ALERT_TRANSITIONS ''NEW'' (moves (alert_transitions db) (al_id a)) (al_status a)"
    by (simp add: alert_row_wf_def)
  from w h show ?thesis
    using alert_lifecycle.history_status_known [OF h] alert_lifecycle.never_stuck
    by (auto simp: alert_row_wf_def alert_constraints_def MAX_EVENT_IDS_def)
qed

theorem alert_history_sound_witness:
  "\<exists>db a. alert_step\<^sup>*\<^sup>* sample_db db \<and> a \<in> set (alerts db) \<and> al_status a = ''CLOSED'' \<and> al_closed_at a \<noteq> None
     \<and> history_ok ALERT_TRANSITIONS ''NEW'' (moves (alert_transitions db) (al_id a)) ''CLOSED''"
proof -
  obtain r db where c: "alert_transition_op (sample_dbenv 5) ''t1'' ''0'' ''CLOSED'' (Some ''u1'') None None sample_db1 = Inr (r, db)"
    using sample_closed by blast
  have s: "alert_step\<^sup>*\<^sup>* sample_db db"
    using alert_step.input [OF sample_created] alert_step.move [OF c] by (meson converse_rtranclp_into_rtranclp rtranclp.rtrancl_refl)
  have g: "get_alert ''t1'' ''0'' sample_db1 = Inr x \<Longrightarrow> x = sample_alert 0" for x
    using get_alert_Inr [of "''t1''" "''0''" sample_db1 x] by (simp add: sample_db1_def)
  have "r \<in> set (alerts db) \<and> al_status r = ''CLOSED''"
    using c
  proof (cases rule: alert_transition_Inr)
    case same
    with g show ?thesis by (simp add: sample_alert_def)
  next
    case (moved a x)
    thus ?thesis using get_alert_Inr [OF moved(1)] by (auto simp: sample_db1_def set_update_rows)
  qed
  thus ?thesis using alert_history_sound [OF s sample_empty, of r] s by (auto simp: CLOSING_def)
qed

text \<open>C14: the display identifiers of a tenant are unique and gapless: at every reachable state they
  are exactly the numbers 1 to the counter's value of every year, each once.\<close>

theorem display_ids_gapless:
  assumes "alert_step\<^sup>*\<^sup>* db0 db" and "empty_alerts db0"
  shows "distinct (display_ids t (alerts db))
    \<and> set (display_ids t (alerts db)) = {display_text ''ALT'' y k |y k. 0 < k \<and> k \<le> last_number t y (alert_sequences db)}"
  using alert_wf_reachable [OF assms] by (simp add: alert_wf_def numbered_def)

theorem display_ids_gapless_witness:
  "set (display_ids ''t1'' (alerts sample_db1))
    = {display_text ''ALT'' y k |y k. 0 < k \<and> k \<le> last_number ''t1'' y (alert_sequences sample_db1)}"
proof -
  have "alert_step\<^sup>*\<^sup>* sample_db sample_db1" using alert_step.input [OF sample_created] by blast
  from display_ids_gapless [OF this sample_empty, of "''t1''"] show ?thesis by simp
qed



text \<open>C15: deduplication has a race. When two workers both look for a duplicate before either has
  written, each creates its own alert: the same episode is open twice.\<close>

theorem concurrent_inputs_open_two_alerts:
  assumes "find_duplicate e1 t k m db = None" and "find_duplicate e2 t k m db = None"
    and "ai_tenant p1 = t" "ai_dedup_key p1 = k" and "ai_tenant p2 = t" "ai_dedup_key p2 = k"
    and "record_input e1 p1 (find_duplicate e1 t k m db) db = Inr (r1, db1)"
    and "record_input e2 p2 (find_duplicate e2 t k m db) db1 = Inr (r2, db2)"
  shows "\<exists>a b. alerts db2 = alerts db @ [a, b] \<and> al_id a \<noteq> al_id b \<and> al_display_id a \<noteq> al_display_id b
     \<and> al_tenant a = t \<and> al_tenant b = t \<and> al_dedup_key a = k \<and> al_dedup_key b = k
     \<and> al_status a \<in> set OPEN_STATUSES \<and> al_status b \<in> set OPEN_STATUSES"
proof -
  obtain a c where r1: "r1 = (a, c)" by (cases r1)
  obtain b d where r2: "r2 = (b, d)" by (cases r2)
  have k1: "a = new_alert (fresh_id e1 db) (display_text ''ALT'' (year_of (utcnow e1))
       (Suc (last_number t (year_of (utcnow e1)) (alert_sequences db)))) (utcnow e1) p1" "alerts db1 = alerts db @ [a]"
     "alert_sequences db1 = snd (next_number t (year_of (utcnow e1)) (alert_sequences db))"
    using record_input_create [of e1 p1 db a c db1] assms r1 by auto
  have k2: "b = new_alert (fresh_id e2 db1) (display_text ''ALT'' (year_of (utcnow e2))
       (Suc (last_number t (year_of (utcnow e2)) (alert_sequences db1)))) (utcnow e2) p2" "alerts db2 = alerts db1 @ [b]"
     "al_id b \<notin> al_id ` set (alerts db1)"
    using record_input_create [of e2 p2 db1 b d db2] assms r2 by auto
  have "al_id a \<noteq> al_id b" using k1 k2 by auto
  moreover have "al_display_id a \<noteq> al_display_id b"
    using k1 k2 by (auto simp: next_number_snd dest!: display_text_inj)
  moreover have "al_tenant a = t" "al_tenant b = t" "al_dedup_key a = k" "al_dedup_key b = k" "al_status a = ''NEW''" "al_status b = ''NEW''"
    using k1 k2 assms by simp_all
  ultimately show ?thesis using k1 k2 by (intro exI [of _ a] exI [of _ b]) (simp add: OPEN_STATUSES_def)
qed

theorem concurrent_inputs_open_two_alerts_witness:
  "\<exists>(db :: alert_db) a b. alerts db = [a, b] \<and> al_dedup_key a = al_dedup_key b \<and> al_id a \<noteq> al_id b
     \<and> al_status a \<in> set OPEN_STATUSES \<and> al_status b \<in> set OPEN_STATUSES"
proof -
  let ?p = "sample_alert_input ''low'' 20" and ?q = "sample_alert_input ''high'' 80"
  have n: "find_duplicate e ''t1'' ''detection:R:root'' 60 sample_db = None" for e :: dbenv
    by (simp add: find_duplicate_None sample_db_def)
  have i: "ai_tenant ?p = ''t1''" "ai_dedup_key ?p = ''detection:R:root''" "ai_tenant ?q = ''t1''" "ai_dedup_key ?q = ''detection:R:root''"
    by (simp_all add: sample_alert_input_def)
  have r1: "record_input (sample_dbenv 0) ?p (find_duplicate (sample_dbenv 0) ''t1'' ''detection:R:root'' 60 sample_db) sample_db
      = Inr ((sample_alert 0, True), sample_db1)"
    using sample_created i by (auto simp: create_or_update_def bind_res_Inr)
  obtain r db where "record_input (sample_dbenv 1) ?q None sample_db1 = Inr (r, db)" using sample_second by blast
  hence r2: "record_input (sample_dbenv 1) ?q (find_duplicate (sample_dbenv 1) ''t1'' ''detection:R:root'' 60 sample_db) sample_db1 = Inr (r, db)"
    by (simp add: n)
  obtain a b where "alerts db = alerts sample_db @ [a, b]" "al_id a \<noteq> al_id b" "al_dedup_key a = ''detection:R:root''"
    "al_dedup_key b = ''detection:R:root''" "al_status a \<in> set OPEN_STATUSES" "al_status b \<in> set OPEN_STATUSES"
    using concurrent_inputs_open_two_alerts [OF n n i r1 r2] by blast
  thus ?thesis by (intro exI [of _ db] exI [of _ a] exI [of _ b]) (simp add: sample_db_def)
qed

end
