(* ===== verification/Incidents.thy ===== *)
theory Incidents
  imports Alerts
begin

text \<open>
  The incident service (\<open>services/incidents.py\<close> on the tables of \<open>models/incidents.py\<close>):
  opening a case and promoting alerts into it, its lifecycle, linkage, notes, tasks and the
  timeline. The tables extend those of the alerts. A session is scoped to its tenant, so a read sees
  the rows of that tenant only (row level security); foreign keys and unique constraints look at
  the whole table.
\<close>

section \<open>Tables\<close>

record incident =
  in_id :: string
  in_tenant :: string
  in_display_id :: string
  in_title :: string
  in_description :: "string option"
  in_severity :: string
  in_priority :: string
  in_status :: string
  in_analyst_id :: "string option"
  in_resolution :: "string option"
  in_lessons_learned :: "string option"
  in_detected_at :: "int option"
  in_contained_at :: "int option"
  in_closed_at :: "int option"
  in_created_at :: int

text \<open>A row of \<open>incident_alerts\<close>, \<open>incident_assets\<close>, \<open>incident_iocs\<close> or
  \<open>incident_users\<close>.\<close>

record incident_link =
  lk_tenant :: string
  lk_incident :: string
  lk_target :: string

record incident_note =
  nt_tenant :: string
  nt_incident :: string
  nt_author :: "string option"
  nt_body :: string
  nt_created :: int

record incident_task =
  tk_id :: string
  tk_tenant :: string
  tk_incident :: string
  tk_title :: string
  tk_description :: "string option"
  tk_assignee :: "string option"
  tk_status :: string
  tk_due_at :: "int option"
  tk_completed_at :: "int option"
  tk_created :: int

record timeline_row =
  tl_id :: string
  tl_tenant :: string
  tl_incident :: string
  tl_kind :: string
  tl_summary :: string
  tl_detail :: document
  tl_actor :: "string option"
  tl_occurred :: int

record incident_db = alert_db +
  incidents :: "incident list"
  incident_alerts :: "incident_link list"
  incident_assets :: "incident_link list"
  incident_iocs :: "incident_link list"
  incident_users :: "incident_link list"
  incident_notes :: "incident_note list"
  incident_tasks :: "incident_task list"
  incident_timeline :: "timeline_row list"
  incident_sequences :: sequences

section \<open>Constants\<close>

definition INCIDENT_TRANSITIONS :: transition_table where
  "INCIDENT_TRANSITIONS =
    [(''NEW'', [''TRIAGE'', ''INVESTIGATION'', ''CLOSED'']),
     (''TRIAGE'', [''INVESTIGATION'', ''CONTAINMENT'', ''CLOSED'', ''NEW'']),
     (''INVESTIGATION'', [''CONTAINMENT'', ''ERADICATION'', ''TRIAGE'', ''CLOSED'']),
     (''CONTAINMENT'', [''ERADICATION'', ''INVESTIGATION'', ''CLOSED'']),
     (''ERADICATION'', [''RECOVERY'', ''CONTAINMENT'', ''INVESTIGATION'', ''CLOSED'']),
     (''RECOVERY'', [''CLOSED'', ''ERADICATION'', ''INVESTIGATION'']),
     (''CLOSED'', [''INVESTIGATION'', ''TRIAGE''])]"

definition INCIDENT_STATUSES :: "string list" where
  "INCIDENT_STATUSES = [''NEW'', ''TRIAGE'', ''INVESTIGATION'', ''CONTAINMENT'', ''ERADICATION'', ''RECOVERY'', ''CLOSED'']"

definition INCIDENT_OPEN_STATUSES :: "string list" where
  "INCIDENT_OPEN_STATUSES = filter (\<lambda>s. s \<noteq> ''CLOSED'') (statuses INCIDENT_TRANSITIONS)"

definition SEVERITY_TO_PRIORITY :: "string dict" where
  "SEVERITY_TO_PRIORITY = [(''critical'', ''P1''), (''high'', ''P2''), (''medium'', ''P3''), (''low'', ''P4'')]"

definition INCIDENT_SEVERITIES :: "string list" where
  "INCIDENT_SEVERITIES = [''low'', ''medium'', ''high'', ''critical'']"

definition INCIDENT_PRIORITIES :: "string list" where
  "INCIDENT_PRIORITIES = [''P1'', ''P2'', ''P3'', ''P4'']"

definition TASK_STATUSES :: "string list" where
  "TASK_STATUSES = [''open'', ''in_progress'', ''done'']"

definition TIMELINE_KINDS :: "string list" where
  "TIMELINE_KINDS = [''status_change'', ''note'', ''task'', ''alert_linked'', ''asset_linked'', ''ioc_linked'',
     ''assignment'', ''created'']"

section \<open>Rows and their constraints\<close>

definition incident_constraints :: "incident \<Rightarrow> (bool \<times> service_error) list" where
  "incident_constraints i =
    [(in_status i \<in> set INCIDENT_STATUSES, IntegrityError ''ck_incidents_status''),
     (in_severity i \<in> set INCIDENT_SEVERITIES, IntegrityError ''ck_incidents_severity''),
     (in_priority i \<in> set INCIDENT_PRIORITIES, IntegrityError ''ck_incidents_priority'')]"

definition check_incident :: "'a incident_db_scheme \<Rightarrow> incident \<Rightarrow> service_error + unit" where
  "check_incident db i = require
    ([(varchar 32 (in_display_id i), DataError ''display_id''), (varchar 300 (in_title i), DataError ''title''),
      (pred_option text_ok (in_description i), DataError ''description''), (varchar 16 (in_severity i), DataError ''severity''),
      (varchar 4 (in_priority i), DataError ''priority''), (varchar 20 (in_status i), DataError ''status''),
      (pred_option text_ok (in_resolution i), DataError ''resolution''),
      (pred_option text_ok (in_lessons_learned i), DataError ''lessons_learned'')]
     @ incident_constraints i @ [fk_org db (in_tenant i), fk_user db (in_analyst_id i)])"

definition fk_incident :: "'a incident_db_scheme \<Rightarrow> string \<Rightarrow> bool \<times> service_error" where
  "fk_incident db i = (i \<in> in_id ` set (incidents db), IntegrityError ''foreign key: incidents'')"

definition save_incident :: "incident \<Rightarrow> 'a incident_db_scheme \<Rightarrow> service_error + 'a incident_db_scheme" where
  "save_incident i db = bind_res (check_incident db i) (\<lambda>_.
     Inr (db\<lparr>incidents := update_rows (\<lambda>x. in_id x = in_id i) (\<lambda>_. i) (incidents db)\<rparr>))"

definition insert_incident :: "incident \<Rightarrow> 'a incident_db_scheme \<Rightarrow> service_error + 'a incident_db_scheme" where
  "insert_incident i db = bind_res (check_incident db i) (\<lambda>_. bind_res (require
     [(in_id i \<notin> in_id ` set (incidents db), IntegrityError ''incidents_pkey''),
      ((in_tenant i, in_display_id i) \<notin> (\<lambda>x. (in_tenant x, in_display_id x)) ` set (incidents db),
       IntegrityError ''uq_incidents_display_id'')])
     (\<lambda>_. Inr (db\<lparr>drawn := Suc (drawn db), incidents := incidents db @ [i]\<rparr>)))"

section \<open>Display identifiers and the timeline\<close>

definition incident_next_display_id ::
  "'b dbenv_scheme \<Rightarrow> string \<Rightarrow> 'a incident_db_scheme \<Rightarrow> service_error + string \<times> 'a incident_db_scheme" where
  "incident_next_display_id e tenant db =
     (let year = year_of (utcnow e); (n, s) = next_number tenant year (incident_sequences db)
      in bind_res (require [fk_org db tenant, (int4 (int n), DataError ''last_number'')])
           (\<lambda>_. Inr (display_text ''INC'' year n, db\<lparr>incident_sequences := s\<rparr>)))"

definition record_timeline ::
  "'b dbenv_scheme \<Rightarrow> string \<Rightarrow> string \<Rightarrow> string \<Rightarrow> string \<Rightarrow> document \<Rightarrow> string option \<Rightarrow>
   'a incident_db_scheme \<Rightarrow> service_error + 'a incident_db_scheme" where
  "record_timeline e tenant incident_id kind summary detail actor db =
     bind_res (require [fk_org db tenant, fk_incident db incident_id, fk_user db actor,
         (varchar 32 kind, DataError ''kind''), (text_ok summary, DataError ''summary''),
         (jsonb_ok (JObj detail), DataError ''detail''),
         (kind \<in> set TIMELINE_KINDS, IntegrityError ''ck_incident_timeline_kind'')])
       (\<lambda>_. Inr (db\<lparr>drawn := Suc (drawn db), incident_timeline := incident_timeline db @
          [\<lparr>tl_id = uuid4 e (drawn db), tl_tenant = tenant, tl_incident = incident_id, tl_kind = kind, tl_summary = summary,
            tl_detail = detail, tl_actor = actor, tl_occurred = pg_clock e (drawn db)\<rparr>]\<rparr>))"

section \<open>Reads\<close>

definition get_incident :: "string \<Rightarrow> string \<Rightarrow> 'a incident_db_scheme \<Rightarrow> service_error + incident" where
  "get_incident tenant incident_id db =
     (case find (\<lambda>i. in_id i = incident_id \<and> in_tenant i = tenant) (incidents db) of
        None \<Rightarrow> Inl (NotFoundError incident_id) | Some i \<Rightarrow> Inr i)"

definition list_incidents ::
  "string \<Rightarrow> string option \<Rightarrow> string option \<Rightarrow> string option \<Rightarrow> nat \<Rightarrow> nat \<Rightarrow> 'a incident_db_scheme \<Rightarrow> incident list" where
  "list_incidents tenant by_status by_severity assigned_to limit offset db =
     page limit offset (sort_key in_priority (sort_key (\<lambda>i. - in_created_at i)
       (filter (\<lambda>i. in_tenant i = tenant \<and> optional_filter by_status (in_status i)
          \<and> optional_filter by_severity (in_severity i)
          \<and> (case assigned_to of None \<Rightarrow> True | Some u \<Rightarrow> in_analyst_id i = Some u)) (incidents db))))"

definition incident_count_by_status :: "string \<Rightarrow> 'a incident_db_scheme \<Rightarrow> nat dict" where
  "incident_count_by_status tenant db = counts (map in_status (filter (\<lambda>i. in_tenant i = tenant) (incidents db)))"

section \<open>Linkage\<close>

text \<open>The look-up of an existing link sees the tenant's rows; the unique constraint sees all.\<close>

definition linked :: "string \<Rightarrow> string \<Rightarrow> string \<Rightarrow> incident_link list \<Rightarrow> bool" where
  "linked tenant incident_id target ls \<longleftrightarrow>
     list_ex (\<lambda>l. lk_tenant l = tenant \<and> lk_incident l = incident_id \<and> lk_target l = target) ls"

definition link_checks :: "string \<Rightarrow> string \<Rightarrow> incident_link list \<Rightarrow> string \<Rightarrow> 'a incident_db_scheme \<Rightarrow> (bool \<times> service_error) list" where
  "link_checks incident_id target ls tenant db =
     [fk_org db tenant, fk_incident db incident_id,
      (\<not> list_ex (\<lambda>l. lk_incident l = incident_id \<and> lk_target l = target) ls, IntegrityError ''uq_incident_link'')]"

definition new_link :: "string \<Rightarrow> string \<Rightarrow> string \<Rightarrow> incident_link" where
  "new_link tenant incident_id target = \<lparr>lk_tenant = tenant, lk_incident = incident_id, lk_target = target\<rparr>"

definition link_alert ::
  "'b dbenv_scheme \<Rightarrow> string \<Rightarrow> string \<Rightarrow> string \<Rightarrow> string option \<Rightarrow> 'a incident_db_scheme \<Rightarrow> service_error + bool \<times> 'a incident_db_scheme" where
  "link_alert e tenant incident_id alert_id actor db =
     (case find (\<lambda>a. al_id a = alert_id \<and> al_tenant a = tenant) (alerts db) of
        None \<Rightarrow> Inl (NotFoundError (''alert '' @ alert_id))
      | Some a \<Rightarrow>
        if linked tenant incident_id alert_id (incident_alerts db) then Inr (False, db)
        else bind_res (require (link_checks incident_id alert_id (incident_alerts db) tenant db)) (\<lambda>_.
          bind_res (record_timeline e tenant incident_id ''alert_linked'' (''alert '' @ al_display_id a @ '' linked'')
              [(''alert_id'', JStr alert_id), (''display_id'', JStr (al_display_id a)), (''title'', JStr (al_title a))] actor
              (db\<lparr>drawn := Suc (drawn db), incident_alerts := incident_alerts db @ [new_link tenant incident_id alert_id]\<rparr>))
            (\<lambda>db'. Inr (True, db'))))"

definition link_asset ::
  "'b dbenv_scheme \<Rightarrow> string \<Rightarrow> string \<Rightarrow> string \<Rightarrow> string option \<Rightarrow> 'a incident_db_scheme \<Rightarrow> service_error + bool \<times> 'a incident_db_scheme" where
  "link_asset e tenant incident_id asset_id actor db =
     (case find (\<lambda>a. ast_id a = asset_id \<and> ast_tenant a = tenant) (assets db) of
        None \<Rightarrow> Inl (NotFoundError (''asset '' @ asset_id))
      | Some a \<Rightarrow>
        if linked tenant incident_id asset_id (incident_assets db) then Inr (False, db)
        else bind_res (require (link_checks incident_id asset_id (incident_assets db) tenant db)) (\<lambda>_.
          bind_res (record_timeline e tenant incident_id ''asset_linked''
              (''asset '' @ (case ast_hostname a of Some h \<Rightarrow> if h = [] then ast_id a else h | None \<Rightarrow> ast_id a) @ '' linked'')
              [(''asset_id'', JStr asset_id), (''hostname'', opt_str (ast_hostname a))] actor
              (db\<lparr>drawn := Suc (drawn db), incident_assets := incident_assets db @ [new_link tenant incident_id asset_id]\<rparr>))
            (\<lambda>db'. Inr (True, db'))))"

definition link_ioc ::
  "'b dbenv_scheme \<Rightarrow> string \<Rightarrow> string \<Rightarrow> string \<Rightarrow> string option \<Rightarrow> 'a incident_db_scheme \<Rightarrow> service_error + bool \<times> 'a incident_db_scheme" where
  "link_ioc e tenant incident_id ioc_ref actor db =
     (case find (\<lambda>i. ioc_id i = ioc_ref \<and> (ioc_tenant i = Some tenant \<or> ioc_tenant i = None)) (iocs db) of
        None \<Rightarrow> Inl (NotFoundError (''ioc '' @ ioc_ref))
      | Some i \<Rightarrow>
        if linked tenant incident_id ioc_ref (incident_iocs db) then Inr (False, db)
        else bind_res (require (link_checks incident_id ioc_ref (incident_iocs db) tenant db)) (\<lambda>_.
          bind_res (record_timeline e tenant incident_id ''ioc_linked'' (''indicator '' @ ioc_value i @ '' linked'')
              [(''ioc_id'', JStr ioc_ref), (''value'', JStr (ioc_value i)), (''type'', JStr (ioc_kind i))] actor
              (db\<lparr>drawn := Suc (drawn db), incident_iocs := incident_iocs db @ [new_link tenant incident_id ioc_ref]\<rparr>))
            (\<lambda>db'. Inr (True, db'))))"

definition link_user ::
  "'b dbenv_scheme \<Rightarrow> string \<Rightarrow> string \<Rightarrow> string \<Rightarrow> string option \<Rightarrow> 'a incident_db_scheme \<Rightarrow> service_error + bool \<times> 'a incident_db_scheme" where
  "link_user e tenant incident_id username actor db =
     (if linked tenant incident_id username (incident_users db) then Inr (False, db)
      else bind_res (require ((varchar 300 username, DataError ''username'') # link_checks incident_id username (incident_users db) tenant db)) (\<lambda>_.
          bind_res (record_timeline e tenant incident_id ''note'' (''account '' @ username @ '' linked'')
              [(''username'', JStr username)] actor
              (db\<lparr>drawn := Suc (drawn db), incident_users := incident_users db @ [new_link tenant incident_id username]\<rparr>))
            (\<lambda>db'. Inr (True, db'))))"

section \<open>Opening a case and its lifecycle\<close>

record incident_draft =
  df_title :: string
  df_description :: "string option"
  df_severity :: string
  df_priority :: "string option"
  df_alert_ids :: "string list"

definition draft_priority :: "incident_draft \<Rightarrow> string" where
  "draft_priority d = (case df_priority d of
     Some p \<Rightarrow> if p \<noteq> [] then p else (case dict_get SEVERITY_TO_PRIORITY (df_severity d) of Some q \<Rightarrow> q | None \<Rightarrow> ''P3'')
   | None \<Rightarrow> (case dict_get SEVERITY_TO_PRIORITY (df_severity d) of Some q \<Rightarrow> q | None \<Rightarrow> ''P3''))"

fun link_alerts ::
  "'b dbenv_scheme \<Rightarrow> string \<Rightarrow> string \<Rightarrow> string list \<Rightarrow> string option \<Rightarrow> 'a incident_db_scheme \<Rightarrow> service_error + 'a incident_db_scheme" where
  "link_alerts e tenant incident_id [] actor db = Inr db"
| "link_alerts e tenant incident_id (a # as) actor db =
     bind_res (link_alert e tenant incident_id a actor db) (\<lambda>(_, db'). link_alerts e tenant incident_id as actor db')"

definition create_incident ::
  "'b dbenv_scheme \<Rightarrow> string \<Rightarrow> incident_draft \<Rightarrow> string option \<Rightarrow> string option \<Rightarrow> 'a incident_db_scheme \<Rightarrow>
   service_error + incident \<times> 'a incident_db_scheme" where
  "create_incident e tenant d actor ip db =
     bind_res (incident_next_display_id e tenant db) (\<lambda>(disp, db1).
       let i = \<lparr>in_id = fresh_id e db1, in_tenant = tenant, in_display_id = disp, in_title = take 300 (df_title d),
              in_description = df_description d, in_severity = df_severity d, in_priority = draft_priority d, in_status = ''NEW'',
              in_analyst_id = actor, in_resolution = None, in_lessons_learned = None, in_detected_at = Some (utcnow e),
              in_contained_at = None, in_closed_at = None, in_created_at = pg_now e\<rparr> in
       bind_res (insert_incident i db1) (\<lambda>db2.
       bind_res (record_timeline e tenant (in_id i) ''created'' (disp @ '' opened'')
           [(''severity'', JStr (in_severity i)), (''priority'', JStr (in_priority i))] actor db2) (\<lambda>db3.
       bind_res (link_alerts e tenant (in_id i) (df_alert_ids d) actor db3) (\<lambda>db4.
       bind_res (record_audit_event e tenant ''CREATE_INCIDENT'' ''incident'' ''success'' actor ip None (Some disp) None
           (Some [(''title'', JStr (in_title i)), (''severity'', JStr (in_severity i)),
             (''alerts'', JInt (int (length (df_alert_ids d))))]) db4) (\<lambda>db5.
       Inr (i, db5))))))"

definition moved_incident :: "int \<Rightarrow> string \<Rightarrow> string option \<Rightarrow> incident \<Rightarrow> incident" where
  "moved_incident now target note i =
     (let i1 = i\<lparr>in_status := target\<rparr>;
          i2 = (if target = ''CONTAINMENT'' \<and> in_contained_at i1 = None then i1\<lparr>in_contained_at := Some now\<rparr> else i1)
      in if target = ''CLOSED''
         then (let j = i2\<lparr>in_closed_at := Some now\<rparr> in if note \<notin> {None, Some []} then j\<lparr>in_resolution := note\<rparr> else j)
         else i2\<lparr>in_closed_at := None\<rparr>)"

text \<open>The arrow of the summaries, in UTF-8.\<close>

definition to_arrow :: string where
  "to_arrow = [CHR '' '', CHR 0xE2, CHR 0x86, CHR 0x92, CHR '' '']"

definition incident_transition ::
  "'b dbenv_scheme \<Rightarrow> string \<Rightarrow> string \<Rightarrow> string \<Rightarrow> string option \<Rightarrow> string option \<Rightarrow> string option \<Rightarrow>
   'a incident_db_scheme \<Rightarrow> service_error + incident \<times> 'a incident_db_scheme" where
  "incident_transition e tenant incident_id target actor ip note db =
     bind_res (get_incident tenant incident_id db) (\<lambda>i. let current = in_status i in
       if target = current then Inr (i, db)
       else if target \<notin> set (allowed INCIDENT_TRANSITIONS current) then Inl (refused_transition INCIDENT_TRANSITIONS current target)
       else let i' = moved_incident (utcnow e) target note i in
         bind_res (save_incident i' db) (\<lambda>db1.
         bind_res (record_timeline e tenant (in_id i') ''status_change'' (current @ to_arrow @ target)
             [(''from'', JStr current), (''to'', JStr target), (''note'', opt_str note)] actor db1) (\<lambda>db2.
         bind_res (record_audit_event e tenant (if current = ''CLOSED'' then ''REOPEN_INCIDENT'' else ''INCIDENT_'' @ target)
             ''incident'' ''success'' actor ip None (Some (in_display_id i')) (Some [(''status'', JStr current)])
             (Some [(''status'', JStr target), (''note'', opt_str note)]) db2) (\<lambda>db3.
         Inr (i', db3)))))"

text \<open>The values of an update: the fields \<open>IncidentUpdate\<close> lets through, \<open>None\<close> for an
  explicit null. A null in a column that is \<open>NOT NULL\<close> fails at the flush.\<close>

datatype incident_field = F_title | F_description | F_severity | F_priority | F_analyst_id | F_lessons_learned

fun field_name :: "incident_field \<Rightarrow> string" where
  "field_name F_title = ''title''"
| "field_name F_description = ''description''"
| "field_name F_severity = ''severity''"
| "field_name F_priority = ''priority''"
| "field_name F_analyst_id = ''analyst_id''"
| "field_name F_lessons_learned = ''lessons_learned''"

fun get_field :: "incident \<Rightarrow> incident_field \<Rightarrow> string option" where
  "get_field i F_title = Some (in_title i)"
| "get_field i F_description = in_description i"
| "get_field i F_severity = Some (in_severity i)"
| "get_field i F_priority = Some (in_priority i)"
| "get_field i F_analyst_id = in_analyst_id i"
| "get_field i F_lessons_learned = in_lessons_learned i"

definition not_null :: "string option \<Rightarrow> (string \<Rightarrow> 'r) \<Rightarrow> service_error + 'r" where
  "not_null v f = (case v of None \<Rightarrow> Inl (IntegrityError ''not-null constraint'') | Some s \<Rightarrow> Inr (f s))"

fun set_field :: "incident_field \<Rightarrow> string option \<Rightarrow> incident \<Rightarrow> service_error + incident" where
  "set_field F_title v i = not_null v (\<lambda>s. i\<lparr>in_title := s\<rparr>)"
| "set_field F_description v i = Inr (i\<lparr>in_description := v\<rparr>)"
| "set_field F_severity v i = not_null v (\<lambda>s. i\<lparr>in_severity := s\<rparr>)"
| "set_field F_priority v i = not_null v (\<lambda>s. i\<lparr>in_priority := s\<rparr>)"
| "set_field F_analyst_id v i = Inr (i\<lparr>in_analyst_id := v\<rparr>)"
| "set_field F_lessons_learned v i = Inr (i\<lparr>in_lessons_learned := v\<rparr>)"

fun set_fields :: "(incident_field \<times> string option) list \<Rightarrow> incident \<Rightarrow> service_error + incident" where
  "set_fields [] i = Inr i"
| "set_fields ((f, v) # fs) i = bind_res (set_field f v i) (set_fields fs)"

definition opt_text :: "string option \<Rightarrow> string" where
  "opt_text v = (case v of None \<Rightarrow> ''None'' | Some s \<Rightarrow> s)"

definition field_states :: "incident \<Rightarrow> (incident_field \<times> string option) list \<Rightarrow> document" where
  "field_states i vs = map (\<lambda>(f, v). (field_name f, JStr (opt_text (get_field i f)))) vs"

definition update_incident ::
  "'b dbenv_scheme \<Rightarrow> string \<Rightarrow> string \<Rightarrow> (incident_field \<times> string option) list \<Rightarrow> string option \<Rightarrow> string option \<Rightarrow>
   'a incident_db_scheme \<Rightarrow> service_error + incident \<times> 'a incident_db_scheme" where
  "update_incident e tenant incident_id vs actor ip db =
     bind_res (get_incident tenant incident_id db) (\<lambda>i.
     bind_res (set_fields vs i) (\<lambda>i'.
     bind_res (save_incident i' db) (\<lambda>db1.
     bind_res (case map_of vs F_analyst_id of None \<Rightarrow> Inr db1
         | Some who \<Rightarrow> record_timeline e tenant (in_id i') ''assignment''
             (''assigned to '' @ (case who of Some u \<Rightarrow> u | None \<Rightarrow> ''nobody'')) [(''analyst_id'', opt_str who)] actor db1) (\<lambda>db2.
     bind_res (record_audit_event e tenant ''UPDATE_INCIDENT'' ''incident'' ''success'' actor ip None (Some (in_display_id i'))
         (Some (field_states i vs)) (Some (field_states i' vs)) db2) (\<lambda>db3.
     Inr (i', db3))))))"

section \<open>Notes and tasks\<close>

text \<open>\<open>body.splitlines()[0]\<close>: the empty text has no line.\<close>

definition line_break :: "char \<Rightarrow> bool" where
  "line_break c \<longleftrightarrow> (let n = (of_char c :: nat) in (10 \<le> n \<and> n \<le> 13) \<or> (28 \<le> n \<and> n \<le> 30) \<or> n = 133)"

definition first_line :: "string \<Rightarrow> service_error + string" where
  "first_line s = (if s = [] then Inl IndexError else Inr (takeWhile (\<lambda>c. \<not> line_break c) s))"

definition incident_add_note ::
  "'b dbenv_scheme \<Rightarrow> string \<Rightarrow> string \<Rightarrow> string \<Rightarrow> string option \<Rightarrow> 'a incident_db_scheme \<Rightarrow>
   service_error + incident_note \<times> 'a incident_db_scheme" where
  "incident_add_note e tenant incident_id body author db =
     bind_res (get_incident tenant incident_id db) (\<lambda>_.
     bind_res (first_line body) (\<lambda>line.
     bind_res (require [fk_org db tenant, fk_user db author, (text_ok body, DataError ''body'')]) (\<lambda>_.
     let n = \<lparr>nt_tenant = tenant, nt_incident = incident_id, nt_author = author, nt_body = body, nt_created = pg_now e\<rparr> in
     bind_res (record_timeline e tenant incident_id ''note'' (take 200 line) [(''length'', JInt (int (length body)))] author
         (db\<lparr>drawn := Suc (drawn db), incident_notes := incident_notes db @ [n]\<rparr>)) (\<lambda>db'.
     Inr (n, db')))))"

definition check_task :: "'a incident_db_scheme \<Rightarrow> incident_task \<Rightarrow> service_error + unit" where
  "check_task db t = require [fk_org db (tk_tenant t), fk_incident db (tk_incident t), fk_user db (tk_assignee t),
     (varchar 300 (tk_title t), DataError ''title''), (pred_option text_ok (tk_description t), DataError ''description''),
     (varchar 16 (tk_status t), DataError ''status''), (tk_status t \<in> set TASK_STATUSES, IntegrityError ''ck_incident_tasks_status'')]"

definition add_task ::
  "'b dbenv_scheme \<Rightarrow> string \<Rightarrow> string \<Rightarrow> string \<Rightarrow> string option \<Rightarrow> string option \<Rightarrow> int option \<Rightarrow> string option \<Rightarrow>
   'a incident_db_scheme \<Rightarrow> service_error + incident_task \<times> 'a incident_db_scheme" where
  "add_task e tenant incident_id title description assignee due actor db =
     bind_res (get_incident tenant incident_id db) (\<lambda>_.
     let t = \<lparr>tk_id = fresh_id e db, tk_tenant = tenant, tk_incident = incident_id, tk_title = take 300 title,
            tk_description = description, tk_assignee = assignee, tk_status = ''open'', tk_due_at = due, tk_completed_at = None,
            tk_created = pg_now e\<rparr> in
     bind_res (check_task db t) (\<lambda>_.
     bind_res (require [(tk_id t \<notin> tk_id ` set (incident_tasks db), IntegrityError ''incident_tasks_pkey'')]) (\<lambda>_.
     bind_res (record_timeline e tenant incident_id ''task'' (''task created: '' @ tk_title t)
         [(''task_id'', JStr (tk_id t)), (''status'', JStr (tk_status t))] actor
         (db\<lparr>drawn := Suc (drawn db), incident_tasks := incident_tasks db @ [t]\<rparr>)) (\<lambda>db'.
     Inr (t, db')))))"

datatype task_value = T_title "string option" | T_description "string option" | T_assignee "string option"
  | T_status "string option" | T_due_at "int option"

fun set_task :: "task_value \<Rightarrow> incident_task \<Rightarrow> service_error + incident_task" where
  "set_task (T_title v) t = not_null v (\<lambda>s. t\<lparr>tk_title := s\<rparr>)"
| "set_task (T_description v) t = Inr (t\<lparr>tk_description := v\<rparr>)"
| "set_task (T_assignee v) t = Inr (t\<lparr>tk_assignee := v\<rparr>)"
| "set_task (T_status v) t = not_null v (\<lambda>s. t\<lparr>tk_status := s\<rparr>)"
| "set_task (T_due_at v) t = Inr (t\<lparr>tk_due_at := v\<rparr>)"

fun set_task_values :: "task_value list \<Rightarrow> incident_task \<Rightarrow> service_error + incident_task" where
  "set_task_values [] t = Inr t"
| "set_task_values (v # vs) t = bind_res (set_task v t) (set_task_values vs)"

definition update_task ::
  "'b dbenv_scheme \<Rightarrow> string \<Rightarrow> string \<Rightarrow> string \<Rightarrow> task_value list \<Rightarrow> string option \<Rightarrow> 'a incident_db_scheme \<Rightarrow>
   service_error + incident_task \<times> 'a incident_db_scheme" where
  "update_task e tenant incident_id task_id vs actor db =
     (case find (\<lambda>t. tk_id t = task_id \<and> tk_incident t = incident_id \<and> tk_tenant t = tenant) (incident_tasks db) of
        None \<Rightarrow> Inl (NotFoundError (''task '' @ task_id))
      | Some t \<Rightarrow>
        bind_res (set_task_values vs t) (\<lambda>t1.
        let t2 = (if T_status (Some ''done'') \<in> set vs \<and> tk_completed_at t1 = None then t1\<lparr>tk_completed_at := Some (utcnow e)\<rparr> else t1) in
        bind_res (check_task db t2) (\<lambda>_.
        bind_res (record_timeline e tenant incident_id ''task'' (''task '' @ tk_title t2 @ '': '' @ tk_status t @ to_arrow @ tk_status t2)
            [(''task_id'', JStr (tk_id t2)), (''from'', JStr (tk_status t)), (''to'', JStr (tk_status t2))] actor
            (db\<lparr>incident_tasks := update_rows (\<lambda>x. tk_id x = task_id) (\<lambda>_. t2) (incident_tasks db)\<rparr>)) (\<lambda>db'.
        Inr (t2, db')))))"

section \<open>Reads of a case\<close>

definition timeline_for :: "string \<Rightarrow> string \<Rightarrow> 'a incident_db_scheme \<Rightarrow> service_error + timeline_row list" where
  "timeline_for tenant incident_id db = bind_res (get_incident tenant incident_id db) (\<lambda>_.
     Inr (sort_key tl_occurred (sort_key tl_id
       (filter (\<lambda>t. tl_incident t = incident_id \<and> tl_tenant t = tenant) (incident_timeline db)))))"

definition incident_notes_for :: "string \<Rightarrow> string \<Rightarrow> 'a incident_db_scheme \<Rightarrow> service_error + incident_note list" where
  "incident_notes_for tenant incident_id db = bind_res (get_incident tenant incident_id db) (\<lambda>_.
     Inr (sort_key nt_created (filter (\<lambda>n. nt_incident n = incident_id \<and> nt_tenant n = tenant) (incident_notes db))))"

definition tasks_for :: "string \<Rightarrow> string \<Rightarrow> 'a incident_db_scheme \<Rightarrow> service_error + incident_task list" where
  "tasks_for tenant incident_id db = bind_res (get_incident tenant incident_id db) (\<lambda>_.
     Inr (sort_key tk_created (filter (\<lambda>t. tk_incident t = incident_id \<and> tk_tenant t = tenant) (incident_tasks db))))"

text \<open>\<open>JOIN\<close> of the tenant's links of an incident with a table the session sees.\<close>

definition join_links :: "string \<Rightarrow> string \<Rightarrow> incident_link list \<Rightarrow> ('r \<Rightarrow> string) \<Rightarrow> ('r \<Rightarrow> bool) \<Rightarrow> 'r list \<Rightarrow> 'r list" where
  "join_links tenant incident_id ls key visible rows =
     concat (map (\<lambda>l. filter (\<lambda>r. key r = lk_target l \<and> visible r) rows)
       (filter (\<lambda>l. lk_incident l = incident_id \<and> lk_tenant l = tenant) ls))"

definition linked_alerts :: "string \<Rightarrow> string \<Rightarrow> 'a incident_db_scheme \<Rightarrow> alert list" where
  "linked_alerts tenant incident_id db = sort_key (\<lambda>a. - al_risk_score a)
     (join_links tenant incident_id (incident_alerts db) al_id (\<lambda>a. al_tenant a = tenant) (alerts db))"

definition linked_entities :: "string \<Rightarrow> string \<Rightarrow> 'a incident_db_scheme \<Rightarrow> document" where
  "linked_entities tenant incident_id db =
     [(''assets'', JList (map (\<lambda>a. JObj [(''id'', JStr (ast_id a)), (''hostname'', opt_str (ast_hostname a)),
          (''criticality'', JStr (ast_criticality a))])
        (join_links tenant incident_id (incident_assets db) ast_id (\<lambda>a. ast_tenant a = tenant) (assets db)))),
      (''iocs'', JList (map (\<lambda>i. JObj [(''id'', JStr (ioc_id i)), (''value'', JStr (ioc_value i)), (''type'', JStr (ioc_kind i)),
          (''classification'', JStr (ioc_classification i))])
        (join_links tenant incident_id (incident_iocs db) ioc_id (\<lambda>i. ioc_tenant i = Some tenant \<or> ioc_tenant i = None) (iocs db)))),
      (''users'', JList (map (\<lambda>l. JObj [(''username'', JStr (lk_target l))])
        (filter (\<lambda>l. lk_incident l = incident_id \<and> lk_tenant l = tenant) (incident_users db))))]"

definition evidence_event_ids :: "string \<Rightarrow> string \<Rightarrow> 'a incident_db_scheme \<Rightarrow> string list" where
  "evidence_event_ids tenant incident_id db = dict_fromkeys (concat (map al_event_ids (linked_alerts tenant incident_id db)))"

section \<open>What a successful operation leaves\<close>

lemma record_timeline_Inr:
  assumes "record_timeline e t i kind summ detail actor db = Inr db'"
  shows "\<exists>x. db' = db\<lparr>drawn := Suc (drawn db), incident_timeline := incident_timeline db @ [x]\<rparr>
    \<and> tl_tenant x = t \<and> tl_incident x = i \<and> tl_kind x = kind \<and> tl_detail x = detail \<and> tl_actor x = actor
    \<and> i \<in> in_id ` set (incidents db) \<and> kind \<in> set TIMELINE_KINDS"
  using assms by (auto simp: record_timeline_def bind_res_Inr fk_incident_def)

lemma save_incident_Inr:
  "save_incident i db = Inr db' \<longleftrightarrow> check_incident db i = Inr ()
     \<and> db' = db\<lparr>incidents := update_rows (\<lambda>x. in_id x = in_id i) (\<lambda>_. i) (incidents db)\<rparr>"
  by (auto simp: save_incident_def bind_res_Inr)

lemma insert_incident_Inr:
  "insert_incident i db = Inr db' \<longleftrightarrow> check_incident db i = Inr () \<and> in_id i \<notin> in_id ` set (incidents db)
     \<and> (in_tenant i, in_display_id i) \<notin> (\<lambda>x. (in_tenant x, in_display_id x)) ` set (incidents db)
     \<and> db' = db\<lparr>drawn := Suc (drawn db), incidents := incidents db @ [i]\<rparr>"
  by (auto simp: insert_incident_def bind_res_Inr)

lemma check_incident_constraints: "check_incident db i = Inr () \<Longrightarrow> list_all fst (incident_constraints i)"
  by (simp add: check_incident_def)

lemma get_incident_Inr:
  "get_incident t i db = Inr x \<Longrightarrow> x \<in> set (incidents db) \<and> in_id x = i \<and> in_tenant x = t"
  by (auto simp: get_incident_def split: option.splits dest: find_Some_mem)

lemma incident_next_display_id_Inr:
  assumes "incident_next_display_id e t db = Inr (disp, db')"
  shows "disp = display_text ''INC'' (year_of (utcnow e)) (Suc (last_number t (year_of (utcnow e)) (incident_sequences db)))
    \<and> db' = db\<lparr>incident_sequences := snd (next_number t (year_of (utcnow e)) (incident_sequences db))\<rparr>"
  using assms next_number_fst [of t "year_of (utcnow e)" "incident_sequences db"]
  by (auto simp: incident_next_display_id_def bind_res_Inr Let_def split: prod.splits)

text \<open>An operation is noted when it leaves the incident rows alone and adds one entry about the
  incident to the timeline; the alert tables stay as they are.\<close>

definition noted_on :: "string \<Rightarrow> string \<Rightarrow> string \<Rightarrow> 'a incident_db_scheme \<Rightarrow> 'a incident_db_scheme \<Rightarrow> bool" where
  "noted_on t i kind db db' \<longleftrightarrow> incidents db' = incidents db \<and> incident_sequences db' = incident_sequences db
     \<and> alerts db' = alerts db \<and> alert_transitions db' = alert_transitions db \<and> alert_sequences db' = alert_sequences db
     \<and> i \<in> in_id ` set (incidents db)
     \<and> (\<exists>x. incident_timeline db' = incident_timeline db @ [x] \<and> tl_tenant x = t \<and> tl_incident x = i \<and> tl_kind x = kind)"

lemma record_timeline_noted:
  assumes "record_timeline e t i kind summ detail actor db1 = Inr db'"
    and "incidents db1 = incidents db" "incident_sequences db1 = incident_sequences db" "incident_timeline db1 = incident_timeline db"
      "alerts db1 = alerts db" "alert_transitions db1 = alert_transitions db" "alert_sequences db1 = alert_sequences db"
  shows "noted_on t i kind db db'"
  using record_timeline_Inr [OF assms(1)] assms(2-) unfolding noted_on_def by auto

lemma link_alert_Inr:
  assumes "link_alert e t i a actor db = Inr (r, db')"
  shows "(\<exists>x \<in> set (alerts db). al_id x = a \<and> al_tenant x = t)
     \<and> (if r then noted_on t i ''alert_linked'' db db' \<and> incident_alerts db' = incident_alerts db @ [new_link t i a] else db' = db)"
proof -
  obtain x where x: "find (\<lambda>x. al_id x = a \<and> al_tenant x = t) (alerts db) = Some x"
    using assms by (auto simp: link_alert_def split: option.splits)
  show ?thesis
  proof (cases "linked t i a (incident_alerts db)")
    case True
    thus ?thesis using assms x find_Some_mem [OF x] by (auto simp: link_alert_def)
  next
    case False
    then obtain detail summ where r: r and t: "record_timeline e t i ''alert_linked'' summ detail actor
        (db\<lparr>drawn := Suc (drawn db), incident_alerts := incident_alerts db @ [new_link t i a]\<rparr>) = Inr db'"
      using assms x by (auto simp: link_alert_def bind_res_Inr)
    have "noted_on t i ''alert_linked'' db db'" by (rule record_timeline_noted [OF t]) simp_all
    thus ?thesis using r record_timeline_Inr [OF t] find_Some_mem [OF x] by auto
  qed
qed

lemma link_asset_Inr:
  assumes "link_asset e t i a actor db = Inr (r, db')"
  shows "if r then noted_on t i ''asset_linked'' db db' else db' = db"
proof -
  obtain x where x: "find (\<lambda>x. ast_id x = a \<and> ast_tenant x = t) (assets db) = Some x"
    using assms by (auto simp: link_asset_def split: option.splits)
  show ?thesis
  proof (cases "linked t i a (incident_assets db)")
    case True
    thus ?thesis using assms x by (auto simp: link_asset_def)
  next
    case False
    then obtain detail summ where r: r and t: "record_timeline e t i ''asset_linked'' summ detail actor
        (db\<lparr>drawn := Suc (drawn db), incident_assets := incident_assets db @ [new_link t i a]\<rparr>) = Inr db'"
      using assms x by (auto simp: link_asset_def bind_res_Inr)
    have "noted_on t i ''asset_linked'' db db'" by (rule record_timeline_noted [OF t]) simp_all
    thus ?thesis using r by simp
  qed
qed

lemma link_ioc_Inr:
  assumes "link_ioc e t i a actor db = Inr (r, db')"
  shows "if r then noted_on t i ''ioc_linked'' db db' else db' = db"
proof -
  obtain x where x: "find (\<lambda>i. ioc_id i = a \<and> (ioc_tenant i = Some t \<or> ioc_tenant i = None)) (iocs db) = Some x"
    using assms by (auto simp: link_ioc_def split: option.splits)
  show ?thesis
  proof (cases "linked t i a (incident_iocs db)")
    case True
    thus ?thesis using assms x by (auto simp: link_ioc_def)
  next
    case False
    then obtain detail summ where r: r and t: "record_timeline e t i ''ioc_linked'' summ detail actor
        (db\<lparr>drawn := Suc (drawn db), incident_iocs := incident_iocs db @ [new_link t i a]\<rparr>) = Inr db'"
      using assms x by (auto simp: link_ioc_def bind_res_Inr)
    have "noted_on t i ''ioc_linked'' db db'" by (rule record_timeline_noted [OF t]) simp_all
    thus ?thesis using r by simp
  qed
qed

lemma link_user_Inr:
  assumes "link_user e t i u actor db = Inr (r, db')"
  shows "if r then noted_on t i ''note'' db db' else db' = db"
proof (cases "linked t i u (incident_users db)")
  case True
  thus ?thesis using assms by (auto simp: link_user_def)
next
  case False
  then obtain detail summ where r: r and t: "record_timeline e t i ''note'' summ detail actor
      (db\<lparr>drawn := Suc (drawn db), incident_users := incident_users db @ [new_link t i u]\<rparr>) = Inr db'"
    using assms by (auto simp: link_user_def bind_res_Inr)
  have "noted_on t i ''note'' db db'" by (rule record_timeline_noted [OF t]) simp_all
  thus ?thesis using r by simp
qed

lemma incident_add_note_Inr:
  assumes "incident_add_note e t i body author db = Inr (n, db')"
  shows "noted_on t i ''note'' db db' \<and> body \<noteq> [] \<and> incident_notes db' = incident_notes db @ [n] \<and> nt_body n = body"
proof -
  obtain line where l: "first_line body = Inr line" and n: "n = \<lparr>nt_tenant = t, nt_incident = i, nt_author = author, nt_body = body, nt_created = pg_now e\<rparr>"
    and t: "record_timeline e t i ''note'' (take 200 line) [(''length'', JInt (int (length body)))] author
         (db\<lparr>drawn := Suc (drawn db), incident_notes := incident_notes db @ [n]\<rparr>) = Inr db'"
    using assms by (auto simp: incident_add_note_def bind_res_Inr Let_def)
  have "noted_on t i ''note'' db db'" by (rule record_timeline_noted [OF t]) simp_all
  thus ?thesis using l n record_timeline_Inr [OF t] by (auto simp: first_line_def split: if_splits)
qed

lemma add_task_Inr:
  assumes "add_task e t i title desc assignee due actor db = Inr (k, db')"
  shows "noted_on t i ''task'' db db' \<and> incident_tasks db' = incident_tasks db @ [k]"
proof -
  obtain summ detail where t: "record_timeline e t i ''task'' summ detail actor
         (db\<lparr>drawn := Suc (drawn db), incident_tasks := incident_tasks db @ [k]\<rparr>) = Inr db'"
    using assms by (auto simp: add_task_def bind_res_Inr Let_def)
  have "noted_on t i ''task'' db db'" by (rule record_timeline_noted [OF t]) simp_all
  thus ?thesis using record_timeline_Inr [OF t] by auto
qed

lemma update_task_Inr:
  assumes "update_task e t i k vs actor db = Inr (r, db')"
  shows "noted_on t i ''task'' db db'"
proof -
  obtain tsk where f: "find (\<lambda>x. tk_id x = k \<and> tk_incident x = i \<and> tk_tenant x = t) (incident_tasks db) = Some tsk"
    using assms by (auto simp: update_task_def split: option.splits)
  obtain summ detail where t: "record_timeline e t i ''task'' summ detail actor
         (db\<lparr>incident_tasks := update_rows (\<lambda>x. tk_id x = k) (\<lambda>_. r) (incident_tasks db)\<rparr>) = Inr db'"
    using assms f by (auto simp: update_task_def bind_res_Inr Let_def)
  show ?thesis by (rule record_timeline_noted [OF t]) simp_all
qed

section \<open>The invariant\<close>

definition status_moves :: "timeline_row list \<Rightarrow> string \<Rightarrow> Lifecycle.moves" where
  "status_moves ts i = map (\<lambda>t. (Some (py_str (get (tl_detail t) ''from'')), py_str (get (tl_detail t) ''to'')))
     (filter (\<lambda>t. tl_incident t = i \<and> tl_kind t = ''status_change'') ts)"

definition incident_row_wf :: "timeline_row list \<Rightarrow> incident \<Rightarrow> bool" where
  "incident_row_wf ts i \<longleftrightarrow> list_all fst (incident_constraints i)
     \<and> path_ok INCIDENT_TRANSITIONS ''NEW'' (status_moves ts (in_id i)) (in_status i)
     \<and> (in_closed_at i \<noteq> None \<longleftrightarrow> in_status i = ''CLOSED'')"

definition incident_display_ids :: "string \<Rightarrow> incident list \<Rightarrow> string list" where
  "incident_display_ids t is = map in_display_id (filter (\<lambda>i. in_tenant i = t) is)"

definition incident_wf :: "'a incident_db_scheme \<Rightarrow> bool" where
  "incident_wf db \<longleftrightarrow> distinct (map in_id (incidents db))
     \<and> (\<forall>t \<in> set (incident_timeline db). tl_incident t \<in> in_id ` set (incidents db))
     \<and> (\<forall>i \<in> set (incidents db). incident_row_wf (incident_timeline db) i)
     \<and> (\<forall>t. numbered ''INC'' t (incident_display_ids t (incidents db)) (incident_sequences db))"

interpretation incident_lifecycle: lifecycle INCIDENT_TRANSITIONS "''NEW''"
proof
  show "''NEW'' \<in> set (statuses INCIDENT_TRANSITIONS)" by (simp add: statuses_def INCIDENT_TRANSITIONS_def)
  show "t \<in> set (statuses INCIDENT_TRANSITIONS)" if "t \<in> set (allowed INCIDENT_TRANSITIONS s)" for s t
    using that by (auto simp: statuses_def allowed_def INCIDENT_TRANSITIONS_def split: if_splits)
  show "s \<notin> set (allowed INCIDENT_TRANSITIONS s)" for s by (simp add: allowed_def INCIDENT_TRANSITIONS_def)
  show "allowed INCIDENT_TRANSITIONS s \<noteq> []" if "s \<in> set (statuses INCIDENT_TRANSITIONS)" for s
    using that by (auto simp: statuses_def allowed_def INCIDENT_TRANSITIONS_def)
qed

lemma status_moves_other: "tl_kind x \<noteq> ''status_change'' \<or> tl_incident x \<noteq> i \<Longrightarrow> status_moves (ts @ [x]) i = status_moves ts i"
  by (auto simp: status_moves_def)

lemma incident_wf_noted:
  assumes "incident_wf db" "noted_on t i kind db db'" "kind \<noteq> ''status_change''"
  shows "incident_wf db'"
proof -
  obtain x where x: "incident_timeline db' = incident_timeline db @ [x]" "tl_incident x = i" "tl_kind x \<noteq> ''status_change''"
    and o: "incidents db' = incidents db" "incident_sequences db' = incident_sequences db" "i \<in> in_id ` set (incidents db)"
    using assms(2,3) by (auto simp: noted_on_def)
  have "incident_row_wf (incident_timeline db') y = incident_row_wf (incident_timeline db) y" for y
    by (simp add: incident_row_wf_def x status_moves_other)
  thus ?thesis using assms(1) x o by (auto simp: incident_wf_def)
qed

lemma incident_wf_update:
  assumes wf: "incident_wf db" and a: "a \<in> set (incidents db)"
    and id: "in_id a' = in_id a" "in_tenant a' = in_tenant a" "in_display_id a' = in_display_id a"
    and db': "incidents db' = update_rows (\<lambda>x. in_id x = in_id a') (\<lambda>_. a') (incidents db)"
      "incident_sequences db' = incident_sequences db"
    and row: "incident_row_wf (incident_timeline db') a'"
    and ts: "incident_timeline db' = incident_timeline db
      \<or> (\<exists>t. incident_timeline db' = incident_timeline db @ [t] \<and> tl_incident t = in_id a)"
  shows "incident_wf db'"
proof -
  have ids: "map in_id (incidents db') = map in_id (incidents db)"
    unfolding db' update_rows_def using id(1) by (auto simp: list.map_comp)
  have dist: "distinct (map in_id (incidents db))" using wf by (simp add: incident_wf_def)
  have tr: "tl_incident t \<in> in_id ` set (incidents db')" if "t \<in> set (incident_timeline db')" for t
  proof -
    have "tl_incident t \<in> in_id ` set (incidents db)" using wf that ts a by (auto simp: incident_wf_def)
    thus ?thesis using ids by (metis set_map)
  qed
  have rows: "incident_row_wf (incident_timeline db') x" if x: "x \<in> set (incidents db')" for x
  proof (cases "in_id x = in_id a")
    case True
    hence "x = a'" using x id(1) unfolding db' set_update_rows by (auto split: if_splits)
    thus ?thesis using row by simp
  next
    case False
    hence "x \<in> set (incidents db)" using x id(1) unfolding db' set_update_rows by (auto split: if_splits)
    thus ?thesis using wf ts False by (auto simp: incident_wf_def incident_row_wf_def status_moves_other)
  qed
  have same: "x = a" if "x \<in> set (incidents db)" "in_id x = in_id a" for x
    using that a dist by (auto simp: distinct_map dest: inj_onD)
  have "map (\<lambda>x. (in_tenant x, in_display_id x)) (incidents db') = map (\<lambda>x. (in_tenant x, in_display_id x)) (incidents db)"
    unfolding db' update_rows_def using same id by (auto simp: list.map_comp)
  moreover have "incident_display_ids t bs = map snd (filter (\<lambda>x. fst x = t) (map (\<lambda>x. (in_tenant x, in_display_id x)) bs))" for t bs
    by (simp add: incident_display_ids_def filter_map comp_def)
  ultimately have "incident_display_ids t (incidents db') = incident_display_ids t (incidents db)" for t by simp
  thus ?thesis using ids dist tr rows wf by (auto simp: incident_wf_def db'(2))
qed

text \<open>The entries about one incident: what an operation adds is a list of them.\<close>

definition records_on :: "string \<Rightarrow> string \<Rightarrow> timeline_row list \<Rightarrow> bool" where
  "records_on t i xs \<longleftrightarrow> list_all (\<lambda>x. tl_tenant x = t \<and> tl_incident x = i \<and> tl_kind x \<in> set TIMELINE_KINDS) xs"

definition quiet_on :: "string \<Rightarrow> string \<Rightarrow> 'a incident_db_scheme \<Rightarrow> 'a incident_db_scheme \<Rightarrow> bool" where
  "quiet_on t i db db' \<longleftrightarrow> incidents db' = incidents db \<and> incident_sequences db' = incident_sequences db
     \<and> (\<exists>xs. incident_timeline db' = incident_timeline db @ xs \<and> records_on t i xs \<and> list_all (\<lambda>x. tl_kind x \<noteq> ''status_change'') xs)"

lemma quiet_on_refl: "quiet_on t i db db"
  by (simp add: quiet_on_def records_on_def)

lemma quiet_on_trans: "quiet_on t i db db1 \<Longrightarrow> quiet_on t i db1 db2 \<Longrightarrow> quiet_on t i db db2"
  by (auto simp: quiet_on_def records_on_def)

lemma noted_quiet:
  "noted_on t i kind db db' \<Longrightarrow> kind \<in> set TIMELINE_KINDS \<Longrightarrow> kind \<noteq> ''status_change'' \<Longrightarrow> quiet_on t i db db'"
  by (auto simp: noted_on_def quiet_on_def records_on_def)

lemma link_alert_quiet: "link_alert e t i a actor db = Inr (r, db') \<Longrightarrow> quiet_on t i db db'"
  using link_alert_Inr [of e t i a actor db r db'] noted_quiet [of t i "''alert_linked''" db db']
  by (auto simp: TIMELINE_KINDS_def quiet_on_refl split: if_splits)

lemma link_alerts_quiet: "link_alerts e t i as actor db = Inr db' \<Longrightarrow> quiet_on t i db db'"
  by (induction as arbitrary: db) (auto simp: bind_res_Inr quiet_on_refl intro: quiet_on_trans dest!: link_alert_quiet)

lemma status_moves_quiet: "list_all (\<lambda>x. tl_kind x \<noteq> ''status_change'') xs \<Longrightarrow> status_moves (ts @ xs) i = status_moves ts i"
  by (auto simp: status_moves_def list_all_iff filter_empty_conv)

lemma incident_wf_quiet:
  assumes "incident_wf db" "quiet_on t i db db'" "i \<in> in_id ` set (incidents db)"
  shows "incident_wf db'"
proof -
  obtain xs where x: "incident_timeline db' = incident_timeline db @ xs" "records_on t i xs"
      "list_all (\<lambda>x. tl_kind x \<noteq> ''status_change'') xs"
    and o: "incidents db' = incidents db" "incident_sequences db' = incident_sequences db"
    using assms(2) by (auto simp: quiet_on_def)
  have "incident_row_wf (incident_timeline db') y = incident_row_wf (incident_timeline db) y" for y
    by (simp add: incident_row_wf_def x status_moves_quiet)
  thus ?thesis using assms(1,3) x o by (auto simp: incident_wf_def records_on_def list_all_iff)
qed

lemma incident_wf_cong:
  "incident_wf db \<Longrightarrow> incidents db' = incidents db \<Longrightarrow> incident_timeline db' = incident_timeline db \<Longrightarrow>
   incident_sequences db' = incident_sequences db \<Longrightarrow> incident_wf db'"
  by (simp add: incident_wf_def)

lemma incident_display_ids_insert:
  assumes "numbered ''INC'' t (incident_display_ids t is) s" and "in_tenant r = u"
    and "in_display_id r = display_text ''INC'' y (Suc (last_number u y s))"
  shows "numbered ''INC'' t (incident_display_ids t (is @ [r])) (snd (next_number u y s))"
  using assms numbered_next [of "''INC''" u "incident_display_ids u is" s y] numbered_other
  by (cases "t = u") (auto simp: incident_display_ids_def)

lemma incident_wf_insert:
  assumes wf: "incident_wf db" and new: "in_id r \<notin> in_id ` set (incidents db)"
    and c: "list_all fst (incident_constraints r)" and st: "in_status r = ''NEW''" "in_closed_at r = None"
    and disp: "in_display_id r = display_text ''INC'' y (Suc (last_number (in_tenant r) y (incident_sequences db)))"
    and db': "incidents db' = incidents db @ [r]" "incident_timeline db' = incident_timeline db"
      "incident_sequences db' = snd (next_number (in_tenant r) y (incident_sequences db))"
  shows "incident_wf db'"
proof -
  have none: "status_moves (incident_timeline db) (in_id r) = []"
  proof -
    have "tl_incident x \<noteq> in_id r" if "x \<in> set (incident_timeline db)" for x
      using wf new that unfolding incident_wf_def by metis
    thus ?thesis by (simp add: status_moves_def filter_empty_conv)
  qed
  have "incident_row_wf (incident_timeline db) r" using c st none by (simp add: incident_row_wf_def)
  moreover have "numbered ''INC'' t (incident_display_ids t (incidents db')) (incident_sequences db')" for t
    unfolding db' by (rule incident_display_ids_insert) (use wf disp in \<open>auto simp: incident_wf_def\<close>)
  ultimately show ?thesis using wf new unfolding incident_wf_def db' by auto
qed

lemma create_incident_Inr:
  assumes "create_incident e t d actor ip db = Inr (r, db')"
  obtains db2 db4 x where
    "incidents db2 = incidents db @ [r]" "incident_timeline db2 = incident_timeline db"
    "incident_sequences db2 = snd (next_number t (year_of (utcnow e)) (incident_sequences db))"
    "in_id r \<notin> in_id ` set (incidents db)" "in_tenant r = t" "in_status r = ''NEW''" "in_closed_at r = None"
    "list_all fst (incident_constraints r)" "in_id r = uuid4 e (drawn db)"
    "in_display_id r = display_text ''INC'' (year_of (utcnow e)) (Suc (last_number t (year_of (utcnow e)) (incident_sequences db)))"
    "quiet_on t (in_id r) db2 db4" "length (incident_timeline db) < length (incident_timeline db4)"
    "db' = db4\<lparr>drawn := Suc (drawn db4), audit_logs := audit_logs db4 @ [x]\<rparr>"
proof -
  obtain disp db1 db2 db3 db4 where d: "incident_next_display_id e t db = Inr (disp, db1)"
    and i: "insert_incident r db1 = Inr db2"
    and tl: "record_timeline e t (in_id r) ''created'' (disp @ '' opened'')
         [(''severity'', JStr (in_severity r)), (''priority'', JStr (in_priority r))] actor db2 = Inr db3"
    and l: "link_alerts e t (in_id r) (df_alert_ids d) actor db3 = Inr db4"
    and v: "record_audit_event e t ''CREATE_INCIDENT'' ''incident'' ''success'' actor ip None (Some disp) None
         (Some [(''title'', JStr (in_title r)), (''severity'', JStr (in_severity r)),
           (''alerts'', JInt (int (length (df_alert_ids d))))]) db4 = Inr db'"
    and r: "in_id r = fresh_id e db1" "in_tenant r = t" "in_display_id r = disp" "in_status r = ''NEW''" "in_closed_at r = None"
    using assms by (auto simp: create_incident_def Let_def bind_res_Inr split: prod.splits)
  note k = incident_next_display_id_Inr [OF d]
  have i': "list_all fst (incident_constraints r)" "in_id r \<notin> in_id ` set (incidents db1)"
      "db2 = db1\<lparr>drawn := Suc (drawn db1), incidents := incidents db1 @ [r]\<rparr>"
    using i check_incident_constraints by (auto simp: insert_incident_Inr)
  have n: "noted_on t (in_id r) ''created'' db2 db3" by (rule record_timeline_noted [OF tl]) simp_all
  have q: "quiet_on t (in_id r) db2 db3" by (rule noted_quiet [OF n]) (simp_all add: TIMELINE_KINDS_def)
  have q2: "quiet_on t (in_id r) db3 db4" by (rule link_alerts_quiet [OF l])
  have len: "length (incident_timeline db) < length (incident_timeline db4)"
    using n q2 i' k by (auto simp: noted_on_def quiet_on_def)
  obtain x where x: "db' = db4\<lparr>drawn := Suc (drawn db4), audit_logs := audit_logs db4 @ [x]\<rparr>"
    using record_audit_event_Inr [OF v] by blast
  show thesis
    by (rule that [of db2 db4 x]) (use k i' r x len quiet_on_trans [OF q q2] in \<open>auto simp: fresh_id_def\<close>)
qed

lemma incident_wf_create [inv_intros]:
  assumes wf: "incident_wf db" and c: "create_incident e t d actor ip db = Inr (r, db')"
  shows "incident_wf db'"
  using c
proof (cases rule: create_incident_Inr)
  case (1 db2 db4 x)
  have "incident_wf db2"
    by (rule incident_wf_insert [OF wf, where r = r and y = "year_of (utcnow e)"]) (use 1 in simp_all)
  hence "incident_wf db4" by (rule incident_wf_quiet [where t = t and i = "in_id r"]) (use 1 in simp_all)
  thus ?thesis by (rule incident_wf_cong) (use 1 in simp_all)
qed

lemma moved_incident_simps [simp]:
  "in_id (moved_incident now u note i) = in_id i" "in_tenant (moved_incident now u note i) = in_tenant i"
  "in_display_id (moved_incident now u note i) = in_display_id i" "in_status (moved_incident now u note i) = u"
  "in_closed_at (moved_incident now u note i) = (if u = ''CLOSED'' then Some now else None)"
  by (simp_all add: moved_incident_def Let_def)

lemma incident_transition_Inr:
  assumes "incident_transition e t i u actor ip note db = Inr (r, db')"
  obtains (same) "get_incident t i db = Inr r" "db' = db" "u = in_status r"
  | (moved) a x y where "get_incident t i db = Inr a" "u \<in> set (allowed INCIDENT_TRANSITIONS (in_status a))"
      "r = moved_incident (utcnow e) u note a" "list_all fst (incident_constraints r)"
      "db' = db\<lparr>drawn := drawn db + 2, audit_logs := audit_logs db @ [x],
         incidents := update_rows (\<lambda>x. in_id x = i) (\<lambda>_. r) (incidents db), incident_timeline := incident_timeline db @ [y]\<rparr>"
      "tl_tenant y = t" "tl_incident y = i" "tl_kind y = ''status_change''" "tl_actor y = actor"
      "tl_detail y = [(''from'', JStr (in_status a)), (''to'', JStr u), (''note'', opt_str note)]"
      "aud_tenant x = t" "aud_object_id x = Some (in_display_id a)"
proof -
  obtain a where g: "get_incident t i db = Inr a" using assms by (auto simp: incident_transition_def bind_res_Inr)
  note gi = get_incident_Inr [OF g]
  show thesis
  proof (cases "u = in_status a")
    case True
    with assms g show thesis by (intro same) (auto simp: incident_transition_def)
  next
    case False
    define r' where "r' = moved_incident (utcnow e) u note a"
    obtain db1 db2 where ok: "u \<in> set (allowed INCIDENT_TRANSITIONS (in_status a))" and s: "save_incident r' db = Inr db1"
      and tl: "record_timeline e t (in_id r') ''status_change'' (in_status a @ to_arrow @ u)
             [(''from'', JStr (in_status a)), (''to'', JStr u), (''note'', opt_str note)] actor db1 = Inr db2"
      and v: "record_audit_event e t (if in_status a = ''CLOSED'' then ''REOPEN_INCIDENT'' else ''INCIDENT_'' @ u)
             ''incident'' ''success'' actor ip None (Some (in_display_id r')) (Some [(''status'', JStr (in_status a))])
             (Some [(''status'', JStr u), (''note'', opt_str note)]) db2 = Inr db'" and r: "r = r'"
      using assms g False by (auto simp: incident_transition_def Let_def bind_res_Inr r'_def split: if_splits)
    obtain x where x: "db' = db2\<lparr>drawn := Suc (drawn db2), audit_logs := audit_logs db2 @ [x]\<rparr>"
      "aud_tenant x = t" "aud_object_id x = Some (in_display_id a)"
      using record_audit_event_Inr [OF v] by (auto simp: r'_def)
    have s': "db1 = db\<lparr>incidents := update_rows (\<lambda>x. in_id x = i) (\<lambda>_. r') (incidents db)\<rparr>" "list_all fst (incident_constraints r')"
      using s gi check_incident_constraints by (auto simp: save_incident_Inr r'_def)
    obtain y where y: "db2 = db1\<lparr>drawn := Suc (drawn db1), incident_timeline := incident_timeline db1 @ [y]\<rparr>"
      "tl_tenant y = t" "tl_incident y = i" "tl_kind y = ''status_change''" "tl_actor y = actor"
      "tl_detail y = [(''from'', JStr (in_status a)), (''to'', JStr u), (''note'', opt_str note)]"
      using record_timeline_Inr [OF tl] gi by (auto simp: r'_def)
    show thesis
      by (rule moved [OF g ok, where x = x and y = y]) (use r r'_def s' x y gi in auto)
  qed
qed

lemma incident_wf_transition [inv_intros]:
  assumes wf: "incident_wf db" and c: "incident_transition e t i u actor ip note db = Inr (r, db')"
  shows "incident_wf db'"
  using c
proof (cases rule: incident_transition_Inr)
  case same
  with wf show ?thesis by simp
next
  case (moved a x y)
  note gi = get_incident_Inr [OF moved(1)]
  have p: "path_ok INCIDENT_TRANSITIONS ''NEW'' (status_moves (incident_timeline db) i) (in_status a)"
    using wf gi by (auto simp: incident_wf_def incident_row_wf_def)
  have mv: "status_moves (incident_timeline db') i = status_moves (incident_timeline db) i @ [(Some (in_status a), u)]"
    using moved by (simp add: status_moves_def get_def py_str_def)
  show ?thesis
  proof (rule incident_wf_update [OF wf, of a r])
    show "incident_row_wf (incident_timeline db') r"
      unfolding incident_row_wf_def using moved(3,4) gi mv path_ok_snoc [OF p moved(2)] by auto
  qed (use moved gi in auto)
qed

lemma set_field_keeps:
  "set_field f v i = Inr i' \<Longrightarrow> in_id i' = in_id i \<and> in_tenant i' = in_tenant i \<and> in_display_id i' = in_display_id i
     \<and> in_status i' = in_status i \<and> in_closed_at i' = in_closed_at i"
  by (cases f) (auto simp: not_null_def split: option.splits)

lemma set_fields_keeps:
  "set_fields vs i = Inr i' \<Longrightarrow> in_id i' = in_id i \<and> in_tenant i' = in_tenant i \<and> in_display_id i' = in_display_id i
     \<and> in_status i' = in_status i \<and> in_closed_at i' = in_closed_at i"
  by (induction vs i rule: set_fields.induct) (auto simp: bind_res_Inr dest: set_field_keeps)

lemma update_incident_Inr:
  assumes "update_incident e t i vs actor ip db = Inr (r, db')"
  obtains a db1 x where "get_incident t i db = Inr a" "set_fields vs a = Inr r" "list_all fst (incident_constraints r)"
    "incidents db1 = update_rows (\<lambda>x. in_id x = i) (\<lambda>_. r) (incidents db)" "incident_sequences db1 = incident_sequences db"
    "alerts db1 = alerts db" "alert_transitions db1 = alert_transitions db" "alert_sequences db1 = alert_sequences db"
    "if map_of vs F_analyst_id = None then incident_timeline db1 = incident_timeline db
     else \<exists>y. incident_timeline db1 = incident_timeline db @ [y] \<and> tl_tenant y = t \<and> tl_incident y = i \<and> tl_kind y = ''assignment''"
    "db' = db1\<lparr>drawn := Suc (drawn db1), audit_logs := audit_logs db1 @ [x]\<rparr>"
proof -
  obtain a db0 db1 where g: "get_incident t i db = Inr a" and f: "set_fields vs a = Inr r"
    and s: "save_incident r db = Inr db0"
    and tl: "(case map_of vs F_analyst_id of None \<Rightarrow> Inr db0
         | Some who \<Rightarrow> record_timeline e t (in_id r) ''assignment''
             (''assigned to '' @ (case who of Some u \<Rightarrow> u | None \<Rightarrow> ''nobody'')) [(''analyst_id'', opt_str who)] actor db0) = Inr db1"
    and v: "record_audit_event e t ''UPDATE_INCIDENT'' ''incident'' ''success'' actor ip None (Some (in_display_id r))
         (Some (field_states a vs)) (Some (field_states r vs)) db1 = Inr db'"
    using assms by (auto simp: update_incident_def bind_res_Inr)
  have id: "in_id r = i" using set_fields_keeps [OF f] get_incident_Inr [OF g] by simp
  have s': "db0 = db\<lparr>incidents := update_rows (\<lambda>x. in_id x = i) (\<lambda>_. r) (incidents db)\<rparr>" "list_all fst (incident_constraints r)"
    using s id check_incident_constraints by (auto simp: save_incident_Inr)
  obtain x where x: "db' = db1\<lparr>drawn := Suc (drawn db1), audit_logs := audit_logs db1 @ [x]\<rparr>"
    using record_audit_event_Inr [OF v] by blast
  show thesis
  proof (cases "map_of vs F_analyst_id")
    case None
    with tl have "db1 = db0" by simp
    thus thesis by (intro that [OF g f s'(2) _ _ _ _ _ _ x]) (use s' None in simp_all)
  next
    case (Some who)
    then obtain y where "db1 = db0\<lparr>drawn := Suc (drawn db0), incident_timeline := incident_timeline db0 @ [y]\<rparr>"
      "tl_tenant y = t" "tl_incident y = i" "tl_kind y = ''assignment''"
      using tl id by (auto dest!: record_timeline_Inr)
    thus thesis by (intro that [OF g f s'(2) _ _ _ _ _ _ x]) (use s' Some in simp_all)
  qed
qed

lemma incident_wf_update_incident [inv_intros]:
  assumes wf: "incident_wf db" and c: "update_incident e t i vs actor ip db = Inr (r, db')"
  shows "incident_wf db'"
  using c
proof (cases rule: update_incident_Inr)
  case (1 a db1 x)
  note gi = get_incident_Inr [OF 1(1)] and k = set_fields_keeps [OF 1(2)]
  have row: "incident_row_wf (incident_timeline db) a" using wf gi by (auto simp: incident_wf_def)
  have mv: "status_moves (incident_timeline db') i = status_moves (incident_timeline db) i"
    using 1(9,10) by (auto simp: status_moves_other split: if_splits)
  show ?thesis
  proof (rule incident_wf_update [OF wf, of a r])
    show "incident_row_wf (incident_timeline db') r"
      using row gi k mv 1(3) by (auto simp: incident_row_wf_def)
  qed (use 1 gi k in \<open>auto split: if_splits\<close>)
qed

section \<open>The service as a transition system\<close>

text \<open>The operations of the service, each in its own transaction, labelled with the tenant and the
  incident it is about. The alert service works on the same database.\<close>

inductive incident_step :: "string \<Rightarrow> string \<Rightarrow> 'a incident_db_scheme \<Rightarrow> 'a incident_db_scheme \<Rightarrow> bool" where
  opened: "create_incident (e :: dbenv) t d actor ip db = Inr (r, db') \<Longrightarrow> incident_step t (in_id r) db db'"
| moved: "incident_transition (e :: dbenv) t i u actor ip note db = Inr (r, db') \<Longrightarrow> incident_step t i db db'"
| alert_linked: "link_alert (e :: dbenv) t i a actor db = Inr (new, db') \<Longrightarrow> incident_step t i db db'"
| asset_linked: "link_asset (e :: dbenv) t i a actor db = Inr (new, db') \<Longrightarrow> incident_step t i db db'"
| ioc_linked: "link_ioc (e :: dbenv) t i a actor db = Inr (new, db') \<Longrightarrow> incident_step t i db db'"
| user_linked: "link_user (e :: dbenv) t i a actor db = Inr (new, db') \<Longrightarrow> incident_step t i db db'"
| noted: "incident_add_note (e :: dbenv) t i body author db = Inr (n, db') \<Longrightarrow> incident_step t i db db'"
| task_added: "add_task (e :: dbenv) t i title desc assignee due actor db = Inr (k, db') \<Longrightarrow> incident_step t i db db'"
| task_updated: "update_task (e :: dbenv) t i k ts actor db = Inr (r, db') \<Longrightarrow> incident_step t i db db'"
| assigned: "update_incident (e :: dbenv) t i vs actor ip db = Inr (r, db') \<Longrightarrow> map_of vs F_analyst_id \<noteq> None
    \<Longrightarrow> incident_step t i db db'"

inductive case_step :: "'a incident_db_scheme \<Rightarrow> 'a incident_db_scheme \<Rightarrow> bool" where
  recorded: "incident_step t i db db' \<Longrightarrow> case_step db db'"
| edited: "update_incident (e :: dbenv) t i vs actor ip db = Inr (r, db') \<Longrightarrow> case_step db db'"
| alerting: "alert_step db db' \<Longrightarrow> case_step db db'"

lemma incident_wf_linked:
  assumes "incident_wf db" "if r then noted_on t i kind db db' else db' = db" "kind \<noteq> ''status_change''"
  shows "incident_wf db'"
  using assms incident_wf_noted by (cases r) auto

lemma incident_wf_link_alert [inv_intros]:
  "incident_wf db \<Longrightarrow> link_alert e t i a actor db = Inr (r, db') \<Longrightarrow> incident_wf db'"
  by (rule incident_wf_linked [where r = r and kind = "''alert_linked''" and t = t and i = i]) (auto dest: link_alert_Inr)

lemma incident_wf_link_asset [inv_intros]:
  "incident_wf db \<Longrightarrow> link_asset e t i a actor db = Inr (r, db') \<Longrightarrow> incident_wf db'"
  by (rule incident_wf_linked [OF _ link_asset_Inr]) auto

lemma incident_wf_link_ioc [inv_intros]:
  "incident_wf db \<Longrightarrow> link_ioc e t i a actor db = Inr (r, db') \<Longrightarrow> incident_wf db'"
  by (rule incident_wf_linked [OF _ link_ioc_Inr]) auto

lemma incident_wf_link_user [inv_intros]:
  "incident_wf db \<Longrightarrow> link_user e t i a actor db = Inr (r, db') \<Longrightarrow> incident_wf db'"
  by (rule incident_wf_linked [OF _ link_user_Inr]) auto

lemma incident_wf_add_note [inv_intros]:
  "incident_wf db \<Longrightarrow> incident_add_note e t i body author db = Inr (n, db') \<Longrightarrow> incident_wf db'"
  by (erule incident_wf_noted [OF _ incident_add_note_Inr [THEN conjunct1]]) auto

lemma incident_wf_add_task [inv_intros]:
  "incident_wf db \<Longrightarrow> add_task e t i title desc assignee due actor db = Inr (k, db') \<Longrightarrow> incident_wf db'"
  by (erule incident_wf_noted [OF _ add_task_Inr [THEN conjunct1]]) auto

lemma incident_wf_update_task [inv_intros]:
  "incident_wf db \<Longrightarrow> update_task e t i k ts actor db = Inr (r, db') \<Longrightarrow> incident_wf db'"
  by (erule incident_wf_noted [OF _ update_task_Inr]) auto

lemma incident_wf_step: "incident_step t i db db' \<Longrightarrow> incident_wf db \<Longrightarrow> incident_wf db'"
  by (induction rule: incident_step.induct) (auto intro: inv_intros)

text \<open>The alert service leaves the cases alone.\<close>

lemma alert_step_frame:
  fixes db :: "'a incident_db_scheme"
  assumes "alert_step db db'"
  shows "incidents db' = incidents db \<and> incident_timeline db' = incident_timeline db \<and> incident_sequences db' = incident_sequences db"
  using assms
proof cases
  case (input e p m r)
  thus ?thesis
    by (cases r; cases "find_duplicate e (ai_tenant p) (ai_dedup_key p) m db")
      (auto simp: create_or_update_def bind_res_Inr dest!: record_input_fold record_input_create)
next
  case (move e t i u actor ip body r)
  from move show ?thesis by (cases rule: alert_transition_Inr) simp_all
next
  case (assigned e t i analyst actor ip r)
  show ?thesis using assign_Inr [OF assigned] by auto
next
  case (noted e t i body author n)
  show ?thesis using alert_add_note_Inr [OF noted] by simp
qed

definition empty_cases :: "'a incident_db_scheme \<Rightarrow> bool" where
  "empty_cases db \<longleftrightarrow> incidents db = [] \<and> incident_timeline db = [] \<and> incident_sequences db = []"

lemma incident_wf_empty: "empty_cases db \<Longrightarrow> incident_wf db"
  by (simp add: empty_cases_def incident_wf_def incident_display_ids_def numbered_empty)

lemma incident_wf_case_step: "case_step db db' \<Longrightarrow> incident_wf db \<Longrightarrow> incident_wf db'"
  by (induction rule: case_step.induct) (auto intro: inv_intros incident_wf_step dest: alert_step_frame elim: incident_wf_cong)

lemma incident_wf_reachable: "case_step\<^sup>*\<^sup>* db0 db \<Longrightarrow> empty_cases db0 \<Longrightarrow> incident_wf db"
  by (induction rule: rtranclp_induct) (auto intro: incident_wf_empty incident_wf_case_step)

section \<open>A concrete case\<close>

definition sample_cases :: incident_db where
  "sample_cases = alert_db.extend sample_db1 \<lparr>incidents = [], incident_alerts = [], incident_assets = [], incident_iocs = [],
     incident_users = [], incident_notes = [], incident_tasks = [], incident_timeline = [], incident_sequences = []\<rparr>"

definition sample_draft :: incident_draft where
  "sample_draft = \<lparr>df_title = ''brute force'', df_description = None, df_severity = ''high'', df_priority = None, df_alert_ids = [''0'']\<rparr>"

definition sample_incident :: incident where
  "sample_incident = \<lparr>in_id = ''2'', in_tenant = ''t1'', in_display_id = ''INC-1970-000001'', in_title = ''brute force'',
     in_description = None, in_severity = ''high'', in_priority = ''P2'', in_status = ''NEW'', in_analyst_id = Some ''u1'',
     in_resolution = None, in_lessons_learned = None, in_detected_at = Some 7, in_contained_at = None, in_closed_at = None,
     in_created_at = 7\<rparr>"

lemma sample_incident_display: "display_text ''INC'' 1970 (Suc 0) = ''INC-1970-000001''"
proof -
  have "replicate 5 (CHR ''0'') = ''00000''" by (simp add: numeral_eq_Suc)
  thus ?thesis by (simp add: display_text_def show_int_def show_nat.simps digit_char_simps zero_pad_def)
qed

lemmas check_incident_defs = check_incident_def incident_constraints_def varchar_def text_ok_def int4_def fk_org_def fk_user_def
  is_org_def is_user_def fk_incident_def INCIDENT_STATUSES_def INCIDENT_SEVERITIES_def INCIDENT_PRIORITIES_def TIMELINE_KINDS_def require.simps

lemmas sample_case_defs = sample_cases_def alert_db.defs sample_draft_def sample_incident_def sample_db1_def sample_db_def
  sample_dbenv_def sample_org_def sample_user_def

lemma record_timeline_ok:
  assumes "is_org db t" "i \<in> in_id ` set (incidents db)" "pred_option (is_user db) actor" "kind \<in> set TIMELINE_KINDS"
    "text_ok summ" "jsonb_ok (JObj detail)"
  shows "\<exists>db'. record_timeline e t i kind summ detail actor db = Inr db' \<and> organizations db' = organizations db \<and> users db' = users db
     \<and> incidents db' = incidents db \<and> alerts db' = alerts db \<and> incident_alerts db' = incident_alerts db"
proof -
  have "require [fk_org db t, fk_incident db i, fk_user db actor,
         (varchar 32 kind, DataError ''kind''), (text_ok summ, DataError ''summary''),
         (jsonb_ok (JObj detail), DataError ''detail''), (kind \<in> set TIMELINE_KINDS, IntegrityError ''ck_incident_timeline_kind'')] = Inr ()"
    by (rule require_ok) (use assms in \<open>auto simp: fk_org_def fk_incident_def fk_user_def TIMELINE_KINDS_def varchar_def text_ok_def\<close>)
  thus ?thesis unfolding record_timeline_def by (simp only: bind_res_simps sum.inject) simp
qed

lemma link_alert_ok:
  assumes "is_org db t" "i \<in> in_id ` set (incidents db)" "pred_option (is_user db) actor"
    and a: "find (\<lambda>x. al_id x = a \<and> al_tenant x = t) (alerts db) = Some x"
    and "\<not> list_ex (\<lambda>l. lk_incident l = i \<and> lk_target l = a) (incident_alerts db)"
    and "text_ok a" "text_ok (al_display_id x)" "text_ok (al_title x)"
  shows "\<exists>db'. link_alert e t i a actor db = Inr (True, db') \<and> organizations db' = organizations db \<and> users db' = users db"
proof -
  let ?db = "db\<lparr>drawn := Suc (drawn db), incident_alerts := incident_alerts db @ [new_link t i a]\<rparr>"
  have r: "require (link_checks i a (incident_alerts db) t db) = Inr ()"
    unfolding link_checks_def by (rule require_ok) (use assms in \<open>simp add: fk_org_def fk_incident_def\<close>)
  have l: "\<not> linked t i a (incident_alerts db)" using assms(5) by (auto simp: linked_def list_ex_iff)
  have "\<exists>db'. record_timeline e t i ''alert_linked'' (''alert '' @ al_display_id x @ '' linked'')
      [(''alert_id'', JStr a), (''display_id'', JStr (al_display_id x)), (''title'', JStr (al_title x))] actor ?db = Inr db'
      \<and> organizations db' = organizations ?db \<and> users db' = users ?db \<and> incidents db' = incidents ?db \<and> alerts db' = alerts ?db
      \<and> incident_alerts db' = incident_alerts ?db"
    by (rule record_timeline_ok) (use assms in \<open>auto simp: is_org_def is_user_def TIMELINE_KINDS_def text_ok_def pred_option_def\<close>)
  thus ?thesis using a l unfolding link_alert_def r by auto
qed

lemma sample_opened: "\<exists>db. create_incident (sample_dbenv 7) ''t1'' sample_draft (Some ''u1'') None sample_cases = Inr (sample_incident, db)"
proof -
  let ?e = "sample_dbenv 7" and ?i = sample_incident
  let ?db1 = "sample_cases\<lparr>incident_sequences := [((''t1'', 1970), 1)]\<rparr>"
  let ?db2 = "?db1\<lparr>drawn := 3, incidents := [?i]\<rparr>"
  have n: "incident_next_display_id ?e ''t1'' sample_cases = Inr (''INC-1970-000001'', ?db1)"
    using sample_incident_display by (simp add: incident_next_display_id_def sample_case_defs year_of_def next_number_def
      ensure_counter_def last_number_def check_incident_defs)
  have row: "\<lparr>in_id = fresh_id ?e ?db1, in_tenant = ''t1'', in_display_id = ''INC-1970-000001'', in_title = take 300 (df_title sample_draft),
      in_description = df_description sample_draft, in_severity = df_severity sample_draft, in_priority = draft_priority sample_draft,
      in_status = ''NEW'', in_analyst_id = Some ''u1'', in_resolution = None, in_lessons_learned = None, in_detected_at = Some (utcnow ?e),
      in_contained_at = None, in_closed_at = None, in_created_at = pg_now ?e\<rparr> = ?i"
    by (simp add: sample_case_defs fresh_id_def draft_priority_def SEVERITY_TO_PRIORITY_def show_nat.simps digit_char_def char_of_def bit_iff_odd)
  have i: "insert_incident ?i ?db1 = Inr ?db2"
    unfolding insert_incident_Inr by (simp add: check_incident_defs sample_case_defs)
  have o2: "is_org ?db2 ''t1''" "is_user ?db2 ''u1''" "in_id ?i \<in> in_id ` set (incidents ?db2)"
    by (simp_all add: is_org_def is_user_def sample_case_defs)
  obtain db3 where t: "record_timeline ?e ''t1'' (in_id ?i) ''created'' (''INC-1970-000001'' @ '' opened'')
      [(''severity'', JStr (in_severity ?i)), (''priority'', JStr (in_priority ?i))] (Some ''u1'') ?db2 = Inr db3"
    and o3: "organizations db3 = organizations ?db2" "users db3 = users ?db2" "incidents db3 = incidents ?db2" "alerts db3 = alerts ?db2"
      "incident_alerts db3 = incident_alerts ?db2"
    using record_timeline_ok [OF o2(1,3), of "Some ''u1''" "''created''" "''INC-1970-000001'' @ '' opened''"
      "[(''severity'', JStr (in_severity ?i)), (''priority'', JStr (in_priority ?i))]" ?e] o2(2)
    by (auto simp: TIMELINE_KINDS_def text_ok_def sample_incident_def)
  have "\<exists>db'. link_alert ?e ''t1'' (in_id ?i) ''0'' (Some ''u1'') db3 = Inr (True, db') \<and> organizations db' = organizations db3 \<and> users db' = users db3"
    by (rule link_alert_ok [where x = "sample_alert 0"])
      (use o2 o3 in \<open>simp_all add: is_org_def is_user_def sample_case_defs text_ok_def, simp_all add: sample_alert_def sample_alert_input_def new_alert_def\<close>)
  then obtain db4 where l: "link_alert ?e ''t1'' (in_id ?i) ''0'' (Some ''u1'') db3 = Inr (True, db4)"
    and o4: "organizations db4 = organizations db3" "users db4 = users db3" by blast
  have "\<exists>db5. record_audit_event ?e ''t1'' ''CREATE_INCIDENT'' ''incident'' ''success'' (Some ''u1'') None None (Some ''INC-1970-000001'') None
      (Some [(''title'', JStr (in_title ?i)), (''severity'', JStr (in_severity ?i)), (''alerts'', JInt (int (length (df_alert_ids sample_draft))))]) db4 = Inr db5"
    using o2 o3 o4 by (intro record_audit_event_ok) (auto simp: is_org_def is_user_def text_ok_def sample_incident_def)
  thus ?thesis
    unfolding create_incident_def n bind_res_simps prod.case Let_def row i t
    using l by (auto simp: sample_draft_def)
qed

section \<open>Properties\<close>

lemma timeline_grows:
  assumes "if new then noted_on t i kind db db' else db' = db" "kind \<in> set TIMELINE_KINDS"
  shows "db' = db \<or> (\<exists>xs. xs \<noteq> [] \<and> incident_timeline db' = incident_timeline db @ xs \<and> records_on t i xs)"
  using assms by (cases new) (fastforce simp: noted_on_def records_on_def)+

lemma timeline_noted:
  assumes "noted_on t i kind db db'" "kind \<in> set TIMELINE_KINDS"
  shows "db' = db \<or> (\<exists>xs. xs \<noteq> [] \<and> incident_timeline db' = incident_timeline db @ xs \<and> records_on t i xs)"
  by (rule timeline_grows [of True]) (use assms in simp_all)

lemma timeline_kinds [simp]:
  "''alert_linked'' \<in> set TIMELINE_KINDS" "''asset_linked'' \<in> set TIMELINE_KINDS" "''ioc_linked'' \<in> set TIMELINE_KINDS"
  "''note'' \<in> set TIMELINE_KINDS" "''task'' \<in> set TIMELINE_KINDS" "''status_change'' \<in> set TIMELINE_KINDS"
  "''assignment'' \<in> set TIMELINE_KINDS" "''created'' \<in> set TIMELINE_KINDS"
  by (simp_all add: TIMELINE_KINDS_def)

text \<open>C16: in every state the incident and alert services reach from an empty case table, the
  status changes recorded on the timeline of an incident form a path of the transition table from
  \<open>NEW\<close> to its status, \<open>closed_at\<close> is set exactly while the incident is closed, and a
  move is always left.\<close>

theorem incident_history_sound:
  assumes "case_step\<^sup>*\<^sup>* db0 db" and "empty_cases db0" and "i \<in> set (incidents db)"
  shows "path_ok INCIDENT_TRANSITIONS ''NEW'' (status_moves (incident_timeline db) (in_id i)) (in_status i)
    \<and> (in_closed_at i \<noteq> None \<longleftrightarrow> in_status i = ''CLOSED'') \<and> allowed INCIDENT_TRANSITIONS (in_status i) \<noteq> []
    \<and> distinct (incident_display_ids (in_tenant i) (incidents db))"
proof -
  have wf: "incident_wf db" by (rule incident_wf_reachable [OF assms(1,2)])
  hence w: "incident_row_wf (incident_timeline db) i" using assms(3) by (simp add: incident_wf_def)
  hence p: "path_ok INCIDENT_TRANSITIONS ''NEW'' (status_moves (incident_timeline db) (in_id i)) (in_status i)"
    by (simp add: incident_row_wf_def)
  have "in_status i \<in> set (statuses INCIDENT_TRANSITIONS)"
    by (rule incident_lifecycle.reaches_known [OF path_ok_reaches [OF p] incident_lifecycle.initial_known])
  thus ?thesis using w p wf incident_lifecycle.never_stuck
    by (auto simp: incident_row_wf_def incident_wf_def numbered_def)
qed

theorem incident_history_sound_witness:
  "\<exists>(db :: incident_db) i. case_step\<^sup>*\<^sup>* sample_cases db \<and> i \<in> set (incidents db) \<and> in_status i = ''NEW'' \<and> in_closed_at i = None
     \<and> path_ok INCIDENT_TRANSITIONS ''NEW'' (status_moves (incident_timeline db) (in_id i)) ''NEW''"
proof -
  obtain db where c: "create_incident (sample_dbenv 7) ''t1'' sample_draft (Some ''u1'') None sample_cases = Inr (sample_incident, db)"
    using sample_opened by blast
  have s: "case_step\<^sup>*\<^sup>* sample_cases db" using case_step.recorded [OF incident_step.opened [OF c]] by blast
  have m: "sample_incident \<in> set (incidents db)" using c by (cases rule: create_incident_Inr) (auto simp: quiet_on_def)
  have "empty_cases sample_cases" by (simp add: empty_cases_def sample_case_defs)
  from incident_history_sound [OF s this m] show ?thesis
    using s m by (intro exI [of _ db] exI [of _ sample_incident]) (simp add: sample_incident_def)
qed

text \<open>C17: every operation on a case but a plain edit writes the timeline. Whatever of it succeeds
  either changed nothing at all or appended at least one entry, all of them about that incident and
  tenant and of a known kind; no entry is ever removed or rewritten.\<close>

theorem timeline_complete:
  assumes "incident_step t i db db'"
  shows "db' = db \<or> (\<exists>xs. xs \<noteq> [] \<and> incident_timeline db' = incident_timeline db @ xs \<and> records_on t i xs)"
  using assms
proof cases
  case (opened e d actor ip r)
  from opened(2) show ?thesis
  proof (cases rule: create_incident_Inr)
    case (1 db2 db4 x)
    thus ?thesis using opened(1) by (auto simp: quiet_on_def)
  qed
next
  case (moved e u actor ip body r)
  thus ?thesis by (cases rule: incident_transition_Inr) (auto simp: records_on_def)
next
  case (alert_linked e a actor new)
  thus ?thesis by (intro timeline_grows [of new t i "''alert_linked''"]) (auto dest: link_alert_Inr)
next
  case (asset_linked e a actor new)
  show ?thesis by (rule timeline_grows [OF link_asset_Inr [OF asset_linked]]) simp
next
  case (ioc_linked e a actor new)
  show ?thesis by (rule timeline_grows [OF link_ioc_Inr [OF ioc_linked]]) simp
next
  case (user_linked e a actor new)
  show ?thesis by (rule timeline_grows [OF link_user_Inr [OF user_linked]]) simp
next
  case (noted e body author n)
  show ?thesis by (rule timeline_noted [of t i "''note''"]) (use incident_add_note_Inr [OF noted] in simp_all)
next
  case (task_added e title desc assignee due actor k)
  show ?thesis by (rule timeline_noted [of t i "''task''"]) (use add_task_Inr [OF task_added] in simp_all)
next
  case (task_updated e k ts actor r)
  show ?thesis by (rule timeline_noted [OF update_task_Inr [OF task_updated]]) simp
next
  case (assigned e vs actor ip r)
  from assigned(1) show ?thesis by (cases rule: update_incident_Inr) (use assigned(2) in \<open>auto simp: records_on_def\<close>)
qed

theorem timeline_complete_witness:
  "\<exists>(db :: incident_db) xs. incident_step ''t1'' ''2'' sample_cases db \<and> xs \<noteq> [] \<and> incident_timeline db = xs \<and> records_on ''t1'' ''2'' xs"
proof -
  obtain db where c: "create_incident (sample_dbenv 7) ''t1'' sample_draft (Some ''u1'') None sample_cases = Inr (sample_incident, db)"
    using sample_opened by blast
  have s: "incident_step ''t1'' ''2'' sample_cases db" using incident_step.opened [OF c] by (simp add: sample_incident_def)
  have "incidents db \<noteq> []" using c by (cases rule: create_incident_Inr) (auto simp: quiet_on_def)
  hence "db \<noteq> sample_cases" by (auto simp: sample_case_defs)
  thus ?thesis using timeline_complete [OF s] s by (auto simp: sample_case_defs)
qed

text \<open>A plain edit is the exception. An update that does not name the analyst succeeds without
  a timeline entry: the severity or the priority of a case changes and its timeline does not show
  it.\<close>

lemma update_not_on_timeline:
  assumes "update_incident e t i vs actor ip db = Inr (r, db')" and "map_of vs F_analyst_id = None"
  shows "incident_timeline db' = incident_timeline db \<and> length (audit_logs db') \<noteq> 0
    \<and> incidents db' = update_rows (\<lambda>x. in_id x = i) (\<lambda>_. r) (incidents db)"
  using assms(1) by (cases rule: update_incident_Inr) (use assms(2) in simp)

end
