(* ===== verification/Py_Url.thy ===== *)
theory Py_Url
  imports Py_Net
begin

text \<open>
  The standard library the indicator code uses on texts: \<open>str.replace\<close>,
  \<open>urllib.parse.urlsplit\<close> and \<open>urlunsplit\<close> (of the CPython 3.12 the image pins), and
  \<open>is_private\<close> of an address. The check \<open>urlsplit\<close> makes of a network location beyond
  ASCII has no counterpart here: text is ASCII, as in the whole development.
\<close>

section \<open>Replacing\<close>

function str_replace :: "string \<Rightarrow> string \<Rightarrow> string \<Rightarrow> string" where
  "str_replace old new s = (if old = [] \<or> s = [] then s
     else if prefix old s then new @ str_replace old new (drop (length old) s) else hd s # str_replace old new (tl s))"
  by pat_completeness auto
termination by (relation "measure (\<lambda>(old, new, s). length s)") (auto simp: neq_Nil_conv)

declare str_replace.simps [simp del]

lemma str_replace_Nil [simp]: "str_replace old new [] = []"
  by (simp add: str_replace.simps)

lemma str_replace_Cons:
  "old \<noteq> [] \<Longrightarrow> str_replace old new (c # cs) =
     (if prefix old (c # cs) then new @ str_replace old new (drop (length old) (c # cs)) else c # str_replace old new cs)"
  by (subst str_replace.simps) simp

text \<open>A text that lacks a character of the pattern is left alone; a pattern of one character
  that is replaced by nothing is filtered out.\<close>

lemma str_replace_absent: "x \<in> set old \<Longrightarrow> x \<notin> set s \<Longrightarrow> str_replace old new s = s"
proof (induction s)
  case (Cons c cs)
  have "\<not> prefix old (c # cs)" using Cons.prems set_mono_prefix by blast
  thus ?case using Cons by (subst str_replace_Cons) auto
qed simp

lemma str_replace_delete: "str_replace [c] [] s = filter (\<lambda>x. x \<noteq> c) s"
  by (induction s) (auto simp: str_replace_Cons)

section \<open>Parts of a text\<close>

definition find_char :: "char \<Rightarrow> string \<Rightarrow> nat option" where
  "find_char c s = (if c \<in> set s then Some (length (takeWhile (\<lambda>x. x \<noteq> c) s)) else None)"

definition partition_at :: "char \<Rightarrow> string \<Rightarrow> string \<times> bool \<times> string" where
  "partition_at c s = (takeWhile (\<lambda>x. x \<noteq> c) s, c \<in> set s, tl (dropWhile (\<lambda>x. x \<noteq> c) s))"

definition after_last :: "char \<Rightarrow> string \<Rightarrow> string" where
  "after_last c s = rev (takeWhile (\<lambda>x. x \<noteq> c) (rev s))"

definition is_alpha :: "char \<Rightarrow> bool" where
  "is_alpha c \<longleftrightarrow> (let n = (of_char c :: nat) in (65 \<le> n \<and> n \<le> 90) \<or> (97 \<le> n \<and> n \<le> 122))"

section \<open>URLs\<close>

record split_url =
  url_scheme :: string
  url_netloc :: string
  url_path :: string
  url_query :: string
  url_fragment :: string

definition scheme_char :: "char \<Rightarrow> bool" where
  "scheme_char c \<longleftrightarrow> is_alpha c \<or> is_digit c \<or> c \<in> set ''+-.''"

definition take_scheme :: "string \<Rightarrow> string \<times> string" where
  "take_scheme u = (case find_char (CHR '':'') u of
     Some i \<Rightarrow> if 0 < i \<and> is_alpha (hd u) \<and> list_all scheme_char (take i u) then (str_lower (take i u), drop (Suc i) u) else ([], u)
   | None \<Rightarrow> ([], u))"

text \<open>What stands between brackets has to be an IPv6 address or an \<open>IPvFuture\<close> text, with
  nothing before it and only a port after it.\<close>

definition bracketed_host_ok :: "string \<Rightarrow> bool" where
  "bracketed_host_ok h = (if prefix ''v'' h
     then (let (a, dot, b) = partition_at (CHR ''.'') (tl h) in a \<noteq> [] \<and> list_all (\<lambda>c. hex_val c \<noteq> None) a \<and> dot
        \<and> b \<noteq> [] \<and> CHR 0x0A \<notin> set b)
     else (case ip_address h of Some (V6 w z) \<Rightarrow> True | _ \<Rightarrow> False))"

definition bracketed_netloc_ok :: "string \<Rightarrow> bool" where
  "bracketed_netloc_ok n = (let hp = after_last (CHR ''@'') n; (front, found, inner) = partition_at (CHR ''['') hp
     in if found then front = [] \<and> (let (host, _, port) = partition_at (CHR '']'') inner
            in (port = [] \<or> prefix '':'' port) \<and> bracketed_host_ok host)
        else bracketed_host_ok (fst (partition_at (CHR '':'') hp)))"

definition netloc_ok :: "string \<Rightarrow> bool" where
  "netloc_ok n \<longleftrightarrow> (CHR ''['' \<in> set n \<longleftrightarrow> CHR '']'' \<in> set n) \<and> (CHR ''['' \<in> set n \<longrightarrow> bracketed_netloc_ok n)"

definition url_delimiter :: "char \<Rightarrow> bool" where
  "url_delimiter c \<longleftrightarrow> c \<in> set ''/?#''"

definition c0_or_space :: "char \<Rightarrow> bool" where
  "c0_or_space c \<longleftrightarrow> of_char c \<le> (32 :: nat)"

definition urlsplit :: "string \<Rightarrow> split_url option" where
  "urlsplit url =
     (let u0 = filter (\<lambda>c. c \<notin> {CHR 0x09, CHR 0x0D, CHR 0x0A}) (dropWhile c0_or_space url);
          (scheme, u1) = take_scheme u0;
          (netloc, u2) = (if prefix ''//'' u1
             then (takeWhile (\<lambda>c. \<not> url_delimiter c) (drop 2 u1), dropWhile (\<lambda>c. \<not> url_delimiter c) (drop 2 u1)) else ([], u1));
          (u3, _, fragment) = partition_at (CHR ''#'') u2;
          (path, _, query) = partition_at (CHR ''?'') u3
      in if netloc_ok netloc
         then Some \<lparr>url_scheme = scheme, url_netloc = netloc, url_path = path, url_query = query, url_fragment = fragment\<rparr>
         else None)"

definition uses_netloc :: "string list" where
  "uses_netloc = [[], ''ftp'', ''http'', ''gopher'', ''nntp'', ''telnet'', ''imap'', ''wais'', ''file'', ''mms'', ''https'', ''shttp'',
     ''snews'', ''prospero'', ''rtsp'', ''rtsps'', ''rtspu'', ''rsync'', ''svn'', ''svn+ssh'', ''sftp'', ''nfs'', ''git'', ''git+ssh'',
     ''ws'', ''wss'', ''itms-services'']"

definition urlunsplit :: "split_url \<Rightarrow> string" where
  "urlunsplit p =
     (let path = url_path p;
          u1 = (if url_netloc p \<noteq> [] then ''//'' @ url_netloc p @ (if path \<noteq> [] \<and> \<not> prefix ''/'' path then ''/'' @ path else path)
                else if prefix ''//'' path then ''//'' @ path
                else if url_scheme p \<noteq> [] \<and> url_scheme p \<in> set uses_netloc \<and> (path = [] \<or> prefix ''/'' path) then ''//'' @ path
                else path);
          u2 = (if url_scheme p \<noteq> [] then url_scheme p @ '':'' @ u1 else u1);
          u3 = (if url_query p \<noteq> [] then u2 @ ''?'' @ url_query p else u2)
      in if url_fragment p \<noteq> [] then u3 @ ''#'' @ url_fragment p else u3)"

section \<open>Private addresses\<close>

definition private_v4 :: "string list" where
  "private_v4 = [''0.0.0.0/8'', ''10.0.0.0/8'', ''127.0.0.0/8'', ''169.254.0.0/16'', ''172.16.0.0/12'', ''192.0.0.0/24'', ''192.0.0.170/31'',
     ''192.0.2.0/24'', ''192.168.0.0/16'', ''198.18.0.0/15'', ''198.51.100.0/24'', ''203.0.113.0/24'', ''240.0.0.0/4'', ''255.255.255.255/32'']"

definition private_v4_exceptions :: "string list" where
  "private_v4_exceptions = [''192.0.0.9/32'', ''192.0.0.10/32'']"

definition private_v6 :: "string list" where
  "private_v6 = [''::1/128'', ''::/128'', ''::ffff:0:0/96'', ''64:ff9b:1::/48'', ''100::/64'', ''2001::/23'', ''2001:db8::/32'', ''2002::/16'',
     ''3fff::/20'', ''fc00::/7'', ''fe80::/10'']"

definition private_v6_exceptions :: "string list" where
  "private_v6_exceptions = [''2001:1::1/128'', ''2001:1::2/128'', ''2001:3::/32'', ''2001:4:112::/48'', ''2001:20::/28'', ''2001:30::/28'']"

definition in_any :: "ip \<Rightarrow> string list \<Rightarrow> bool" where
  "in_any a ns \<longleftrightarrow> list_ex (\<lambda>n. case ip_network n of Some m \<Rightarrow> in_network a m | None \<Rightarrow> False) ns"

definition ipv4_mapped :: "128 word \<Rightarrow> 32 word option" where
  "ipv4_mapped w = (if drop_bit 32 w = 0xFFFF then Some (ucast w) else None)"

definition v4_is_private :: "32 word \<Rightarrow> bool" where
  "v4_is_private w \<longleftrightarrow> in_any (V4 w) private_v4 \<and> \<not> in_any (V4 w) private_v4_exceptions"

fun is_private :: "ip \<Rightarrow> bool" where
  "is_private (V4 w) = v4_is_private w"
| "is_private (V6 w z) = (case ipv4_mapped w of Some v \<Rightarrow> v4_is_private v
     | None \<Rightarrow> in_any (V6 w z) private_v6 \<and> \<not> in_any (V6 w z) private_v6_exceptions)"

fun is_loopback :: "ip \<Rightarrow> bool" where
  "is_loopback (V4 w) = in_any (V4 w) [''127.0.0.0/8'']"
| "is_loopback (V6 w z) = (w = 1)"

fun is_link_local :: "ip \<Rightarrow> bool" where
  "is_link_local (V4 w) = in_any (V4 w) [''169.254.0.0/16'']"
| "is_link_local (V6 w z) = in_any (V6 w z) [''fe80::/10'']"

end
