(* ===== verification/Indicators.thy ===== *)
theory Indicators
  imports Py_Url Py_Value
begin

text \<open>
  Canonical indicators (\<open>threat_intel/normalize.py\<close>): refanging, typing, canonicalization,
  validation and the observables of an event. The regular expressions of the module are fixed, so
  each is a recognizer; \<open>$\<close> accepts a final newline, as it does in Python. The code raises
  \<open>InvalidIndicator\<close> itself, and \<open>urlsplit\<close> raises a plain \<open>ValueError\<close>: the
  two are told apart because callers catch the first only.
\<close>

datatype indicator_error = InvalidIndicator string | UrlValueError

definition MAX_VALUE_LENGTH :: nat where "MAX_VALUE_LENGTH = 2048"

definition IOC_TYPES :: "string list" where
  "IOC_TYPES = [''ipv4'', ''ipv6'', ''domain'', ''url'', ''md5'', ''sha1'', ''sha256'', ''email'', ''asn'', ''certificate'']"

section \<open>Patterns\<close>

definition dollar :: "(string \<Rightarrow> bool) \<Rightarrow> string \<Rightarrow> bool" where
  "dollar p s \<longleftrightarrow> p s \<or> (s \<noteq> [] \<and> last s = CHR 0x0A \<and> p (butlast s))"

definition is_hex_lower :: "char \<Rightarrow> bool" where
  "is_hex_lower c \<longleftrightarrow> (let n = (of_char c :: nat) in (97 \<le> n \<and> n \<le> 102) \<or> (48 \<le> n \<and> n \<le> 57))"

definition is_lower :: "char \<Rightarrow> bool" where
  "is_lower c \<longleftrightarrow> (let n = (of_char c :: nat) in 97 \<le> n \<and> n \<le> 122)"

definition hex_run :: "nat \<Rightarrow> string \<Rightarrow> bool" where
  "hex_run n s \<longleftrightarrow> length s = n \<and> list_all is_hex_lower s"

definition MD5_match :: "string \<Rightarrow> bool" where "MD5_match = dollar (hex_run 32)"
definition SHA1_match :: "string \<Rightarrow> bool" where "SHA1_match = dollar (hex_run 40)"
definition SHA256_match :: "string \<Rightarrow> bool" where "SHA256_match = dollar (hex_run 64)"

definition ASN_match :: "string \<Rightarrow> bool" where
  "ASN_match = dollar (\<lambda>s. prefix ''as'' s \<and> 1 \<le> length s - 2 \<and> length s - 2 \<le> 10 \<and> list_all is_digit (drop 2 s))"

definition email_host :: "string \<Rightarrow> bool" where
  "email_host d = (let tld = after_last (CHR ''.'') d; host = take (length d - length tld - 1) d
     in CHR ''.'' \<in> set d \<and> host \<noteq> [] \<and> list_all (\<lambda>c. is_lower c \<or> is_digit c \<or> c \<in> set ''.-'') host
        \<and> 2 \<le> length tld \<and> list_all is_lower tld)"

definition EMAIL_match :: "string \<Rightarrow> bool" where
  "EMAIL_match = dollar (\<lambda>s. let (a, found, d) = partition_at (CHR ''@'') s
     in found \<and> a \<noteq> [] \<and> list_all (\<lambda>c. \<not> is_space c) a \<and> email_host d)"

definition label_char :: "char \<Rightarrow> bool" where
  "label_char c \<longleftrightarrow> is_lower c \<or> is_digit c \<or> c = CHR ''-''"

definition label_ok :: "string \<Rightarrow> bool" where
  "label_ok l \<longleftrightarrow> l \<noteq> [] \<and> list_all label_char l \<and> hd l \<noteq> CHR ''-'' \<and> last l \<noteq> CHR ''-''"

definition domain_text :: "string \<Rightarrow> bool" where
  "domain_text s = (let ls = split_on (CHR ''.'') s
     in 1 \<le> length s \<and> length s \<le> 253 \<and> 2 \<le> length ls
        \<and> list_all (\<lambda>l. label_ok l \<and> length l \<le> 63) (butlast ls)
        \<and> label_ok (last ls) \<and> list_ex is_lower (last ls))"

definition DOMAIN_match :: "string \<Rightarrow> bool" where
  "DOMAIN_match = dollar domain_text"

section \<open>Canonical forms\<close>

definition DEFANG_REPLACEMENTS :: "(string \<times> string) list" where
  "DEFANG_REPLACEMENTS = [(''[.]'', ''.''), (''(.)'', ''.''), (''{.}'', ''.''), (''[:]'', '':''), (''[@]'', ''@''), (''(@)'', ''@''),
     (''[at]'', ''@''), (''[dot]'', ''.''), (''hxxp'', ''http''), (''hxxps'', ''https''), (''fxp'', ''ftp'')]"

definition refang :: "string \<Rightarrow> string" where
  "refang value = foldl (\<lambda>s (defanged, real). str_replace (str_upper defanged) real (str_replace defanged real s))
     (str_strip value) DEFANG_REPLACEMENTS"

definition drop_port :: "string \<Rightarrow> string \<Rightarrow> (string \<times> string) \<Rightarrow> string" where
  "drop_port scheme netloc sp = (if scheme = fst sp \<and> suffix (snd sp) netloc then take (length netloc - length (snd sp)) netloc else netloc)"

definition canonical_url :: "string \<Rightarrow> indicator_error + string" where
  "canonical_url value =
     (let c = str_strip value; candidate = (if str_contains c ''://'' then c else ''http://'' @ c)
      in case urlsplit candidate of None \<Rightarrow> Inl UrlValueError
         | Some p \<Rightarrow> let netloc = foldl (drop_port (url_scheme p)) (str_lower (url_netloc p)) [(''http'', '':80''), (''https'', '':443'')]
             in Inr (urlunsplit \<lparr>url_scheme = str_lower (url_scheme p), url_netloc = netloc,
                  url_path = (if url_path p = [] then ''/'' else url_path p), url_query = url_query p, url_fragment = []\<rparr>))"

definition rstrip_dots :: "string \<Rightarrow> string" where
  "rstrip_dots s = rev (dropWhile (\<lambda>c. c = CHR ''.'') (rev s))"

definition canonicalize_as :: "string \<Rightarrow> string \<Rightarrow> indicator_error + string" where
  "canonicalize_as value ioc_type =
     (let v = str_strip value in
      if ioc_type \<in> {''ipv4'', ''ipv6''} then Inr (case ip_address v of Some a \<Rightarrow> show_ip a | None \<Rightarrow> v)
      else if ioc_type = ''domain'' then Inr (str_lower (rstrip_dots v))
      else if ioc_type = ''url'' then canonical_url value
      else if ioc_type = ''email'' then Inr (str_lower v)
      else if ioc_type = ''asn'' then
        (let l = str_lower v; digits = (if prefix ''as'' l then drop 2 l else l)
         in Inr (if digits \<noteq> [] \<and> list_all is_digit digits then ''AS'' @ show_nat (read_digits digits) else str_upper v))
      else if ioc_type \<in> {''md5'', ''sha1'', ''sha256'', ''certificate''} then Inr (str_replace '':'' [] (str_lower v))
      else Inr v)"

definition is_ip :: "string \<Rightarrow> nat \<Rightarrow> bool" where
  "is_ip value version = (case ip_address value of Some a \<Rightarrow> ip_version a = version | None \<Rightarrow> False)"

definition infer_type :: "string \<Rightarrow> indicator_error + string" where
  "infer_type value =
     (let candidate = str_strip value; lowered = str_lower candidate in
      if str_contains lowered ''://'' then Inr ''url''
      else case ip_address candidate of Some a \<Rightarrow> Inr (if ip_version a = 4 then ''ipv4'' else ''ipv6'')
      | None \<Rightarrow>
        if MD5_match lowered then Inr ''md5''
        else if SHA1_match lowered then Inr ''sha1''
        else if SHA256_match lowered then Inr ''sha256''
        else if ASN_match lowered then Inr ''asn''
        else if EMAIL_match lowered then Inr ''email''
        else if CHR ''/'' \<in> set lowered \<and> DOMAIN_match (takeWhile (\<lambda>c. c \<noteq> CHR ''/'') lowered) then Inr ''url''
        else if DOMAIN_match (rstrip_dots lowered) then Inr ''domain''
        else Inl (InvalidIndicator (''cannot determine the indicator type of '' @ CHR 0x27 # value @ [CHR 0x27])))"

definition validates_as :: "string \<Rightarrow> string \<Rightarrow> indicator_error + bool" where
  "validates_as value ioc_type =
     (let lowered = str_lower value in
      if ioc_type = ''ipv4'' then Inr (is_ip value 4)
      else if ioc_type = ''ipv6'' then Inr (is_ip value 6)
      else if ioc_type = ''domain'' then Inr (DOMAIN_match lowered)
      else if ioc_type = ''url'' then
        (case urlsplit value of None \<Rightarrow> Inl UrlValueError | Some p \<Rightarrow> Inr (url_scheme p \<noteq> [] \<and> url_netloc p \<noteq> []))
      else if ioc_type = ''email'' then Inr (EMAIL_match lowered)
      else if ioc_type = ''asn'' then Inr (ASN_match lowered)
      else if ioc_type = ''md5'' then Inr (MD5_match lowered)
      else if ioc_type = ''sha1'' then Inr (SHA1_match lowered)
      else if ioc_type = ''sha256'' then Inr (SHA256_match lowered)
      else if ioc_type = ''certificate'' then Inr (SHA1_match lowered \<or> SHA256_match lowered)
      else Inr False)"

definition canonicalize :: "string \<Rightarrow> string option \<Rightarrow> indicator_error + string \<times> string" where
  "canonicalize value ioc_type =
     (if str_strip value = [] then Inl (InvalidIndicator ''indicator is empty'')
      else if length value > MAX_VALUE_LENGTH then Inl (InvalidIndicator ''indicator exceeds 2048 characters'')
      else let cleaned = refang value in
        bind_res (if ioc_type \<in> {None, Some []} then infer_type cleaned else Inr (the ioc_type)) (\<lambda>inferred.
        if inferred \<notin> set IOC_TYPES then Inl (InvalidIndicator (''unknown indicator type: '' @ inferred))
        else bind_res (canonicalize_as cleaned inferred) (\<lambda>canonical.
          bind_res (validates_as canonical inferred) (\<lambda>ok.
          if ok then Inr (canonical, inferred)
          else Inl (InvalidIndicator (CHR 0x27 # value @ CHR 0x27 # '' is not a valid '' @ inferred))))))"

section \<open>Observables of an event\<close>

text \<open>\<open>add\<close>: what is no text, is blank or is no indicator adds nothing; another error
  escapes. The sets of candidates are kept sorted, as they are returned.\<close>

definition add_observable :: "json \<Rightarrow> string \<Rightarrow> string list dict \<Rightarrow> indicator_error + string list dict" where
  "add_observable raw ioc_type found = (case raw of
     JStr s \<Rightarrow> if str_strip s = [] then Inr found
       else (case canonicalize s (Some ioc_type) of
          Inr (canonical, resolved) \<Rightarrow> Inr (map (\<lambda>(t, vs). (t, if t = resolved then insort_insert canonical vs else vs)) found)
        | Inl (InvalidIndicator _) \<Rightarrow> Inr found
        | Inl err \<Rightarrow> Inl err)
   | _ \<Rightarrow> Inr found)"

definition ip_kind :: "json \<Rightarrow> string" where
  "ip_kind v = (case v of JStr s \<Rightarrow> if CHR '':'' \<notin> set s then ''ipv4'' else ''ipv6'' | _ \<Rightarrow> ''ipv4'')"

fun add_observables :: "(json \<times> string) list \<Rightarrow> string list dict \<Rightarrow> indicator_error + string list dict" where
  "add_observables [] found = Inr found"
| "add_observables ((v, t) # vs) found = bind_res (add_observable v t found) (add_observables vs)"

definition sub_get :: "document \<Rightarrow> string \<Rightarrow> string \<Rightarrow> json" where
  "sub_get d k f = (case get d k of JObj kvs \<Rightarrow> get kvs f | _ \<Rightarrow> JNull)"

definition observable_fields :: "document \<Rightarrow> (json \<times> string) list" where
  "observable_fields d =
     map (\<lambda>k. (get d k, ip_kind (get d k))) [''source_ip'', ''destination_ip'']
     @ [(sub_get d ''device'' ''ip'', ip_kind (sub_get d ''device'' ''ip'')), (get d ''domain'', ''domain''), (get d ''url'', ''url'')]
     @ map (\<lambda>a. (sub_get d ''hash'' a, a)) [''md5'', ''sha1'', ''sha256'']
     @ [(sub_get d ''user'' ''email'', ''email'')]"

definition observables_from_event :: "document \<Rightarrow> indicator_error + string list dict" where
  "observables_from_event d = bind_res (add_observables (observable_fields d) (map (\<lambda>t. (t, [])) IOC_TYPES))
     (\<lambda>found. Inr (filter (\<lambda>(t, vs). vs \<noteq> []) found))"

section \<open>Values that are canonical already\<close>

lemma refang_id:
  assumes "str_strip s = s" "set s \<inter> set ''[({xX'' = {}"
  shows "refang s = s"
proof -
  have id: "str_replace old new s = s" if "set old \<inter> set ''[({xX'' \<noteq> {}" for old new
    using that assms(2) str_replace_absent [of _ old s new] by blast
  show ?thesis unfolding refang_def assms(1) DEFANG_REPLACEMENTS_def
    by (simp add: id str_upper_def char_upper_def char_of_def bit_iff_odd)
qed

lemma str_strip_id: "list_all (\<lambda>c. \<not> is_space c) s \<Longrightarrow> str_strip s = s"
proof -
  assume *: "list_all (\<lambda>c. \<not> is_space c) s"
  hence "dropWhile is_space s = s" "dropWhile is_space (rev s) = rev s"
    by (cases s, simp_all) (cases "rev s"; auto simp: list_all_iff; metis list.set_intros(1) set_rev)+
  thus ?thesis by (simp add: str_strip_def)
qed

lemma v4_chars: "c \<in> set (show_v4 w) \<Longrightarrow> is_digit c \<or> c = CHR ''.''"
  by (auto simp: show_v4_def dest: show_nat_digits)

lemma digit_or_dot: "is_digit c \<or> c = CHR ''.'' \<Longrightarrow> \<not> is_space c \<and> c \<notin> set ''[({xX:/''"
  by (auto simp: is_digit_def is_space_def)

lemma v4_plain: "c \<in> set (show_v4 w) \<Longrightarrow> \<not> is_space c \<and> c \<notin> set ''[({xX:/''"
  using v4_chars digit_or_dot by blast

lemma strip_v4 [simp]: "str_strip (show_v4 w) = show_v4 w"
  by (rule str_strip_id) (simp add: list_all_iff v4_plain)

lemma refang_v4 [simp]: "refang (show_v4 w) = show_v4 w"
proof (rule refang_id)
  show "set (show_v4 w) \<inter> set ''[({xX'' = {}" using v4_plain [of _ w] by (auto simp del: set_simps) auto
qed simp

lemma show_v4_nonempty [simp]: "show_v4 w \<noteq> []"
  by (simp add: show_v4_def)

lemma show_v4_short: "length (show_v4 w) \<le> 15"
  using length_show_octet [of "octet 0 w"] length_show_octet [of "octet 1 w"] length_show_octet [of "octet 2 w"]
    length_show_octet [of "octet 3 w"] by (simp add: show_v4_def)

lemma canonicalize_v4: "canonicalize (show_v4 w) (Some ''ipv4'') = Inr (show_v4 w, ''ipv4'')"
  using show_v4_short [of w]
  by (simp add: canonicalize_def MAX_VALUE_LENGTH_def IOC_TYPES_def canonicalize_as_def validates_as_def is_ip_def)

lemma str_contains_chars: "str_contains s sub \<Longrightarrow> set sub \<subseteq> set s"
  by (metis set_mono_sublist str_contains_sublist)

lemma str_lower_id: "list_all (\<lambda>c. \<not> (65 \<le> (of_char c :: nat) \<and> (of_char c :: nat) \<le> 90)) s \<Longrightarrow> str_lower s = s"
  unfolding str_lower_def char_lower_def by (rule map_idI) (auto simp: list_all_iff)

lemma infer_v4: "infer_type (show_v4 w) = Inr ''ipv4''"
proof -
  have l: "str_lower (show_v4 w) = show_v4 w"
    by (rule str_lower_id) (use v4_chars in \<open>fastforce simp: list_all_iff is_digit_def\<close>)
  have "CHR '':'' \<notin> set (show_v4 w)" by (rule show_v4_no_colon)
  hence "\<not> str_contains (show_v4 w) ''://''" using str_contains_chars [of "show_v4 w" "''://''"] by auto
  thus ?thesis by (simp add: infer_type_def l)
qed

lemma canonicalize_v4_inferred: "canonicalize (show_v4 w) None = Inr (show_v4 w, ''ipv4'')"
  using show_v4_short [of w]
  by (simp add: canonicalize_def MAX_VALUE_LENGTH_def IOC_TYPES_def canonicalize_as_def validates_as_def is_ip_def infer_v4)

text \<open>A validated hash is a run of hexadecimal digits, or such a run and a newline.\<close>

definition hash_length :: "string \<Rightarrow> nat set" where
  "hash_length t = (if t = ''md5'' then {32} else if t = ''sha1'' then {40} else if t = ''sha256'' then {64}
     else if t = ''certificate'' then {40, 64} else {})"

lemma canonicalize_Inr:
  assumes "canonicalize v ty = Inr (c, t)"
  shows "t \<in> set IOC_TYPES \<and> canonicalize_as (refang v) t = Inr c \<and> validates_as c t = Inr True"
  using assms by (auto simp: canonicalize_def Let_def bind_res_Inr split: if_splits)

lemma validates_hash:
  assumes "t \<in> {''md5'', ''sha1'', ''sha256'', ''certificate''}" "str_lower c = c"
  shows "validates_as c t = Inr True \<longleftrightarrow> (\<exists>n \<in> hash_length t. dollar (hex_run n) c)"
proof -
  have "t = ''md5'' \<or> t = ''sha1'' \<or> t = ''sha256'' \<or> t = ''certificate''" using assms(1) by blast
  thus ?thesis
    by (elim disjE) (simp_all add: assms(2) validates_as_def hash_length_def MD5_match_def SHA1_match_def SHA256_match_def)
qed

lemma canonicalize_hash_Inr:
  assumes "canonicalize v ty = Inr (c, t)" "hash_length t \<noteq> {}"
  shows "\<exists>n \<in> hash_length t. hex_run n c \<or> (\<exists>h. hex_run n h \<and> c = h @ [CHR 0x0A])"
proof -
  note k = canonicalize_Inr [OF assms(1)]
  have t: "t \<in> {''md5'', ''sha1'', ''sha256'', ''certificate''}" using assms(2) by (auto simp: hash_length_def split: if_splits)
  hence c: "c = str_replace '':'' [] (str_lower (str_strip (refang v)))" using k by (auto simp: canonicalize_as_def)
  have "char_lower (char_lower x) = char_lower x" for x by (auto simp: char_lower_def)
  hence "str_lower c = c" unfolding c str_replace_delete str_lower_def by (intro map_idI) auto
  hence "\<exists>n \<in> hash_length t. dollar (hex_run n) c"
    using t k validates_hash [of t c] by metis
  thus ?thesis unfolding dollar_def by (metis append_butlast_last_id)
qed

lemma hex_run_plain:
  assumes "hex_run n s"
  shows "str_strip s = s" "set s \<inter> set ''[({xX'' = {}" "str_lower s = s" "CHR '':'' \<notin> set s"
proof -
  have hex: "\<not> is_space c \<and> c \<notin> set ''[({xX:'' \<and> \<not> (65 \<le> (of_char c :: nat) \<and> (of_char c :: nat) \<le> 90)" if "c \<in> set s" for c
    using assms that by (auto simp: hex_run_def list_all_iff is_hex_lower_def is_space_def Let_def)
  show "str_strip s = s" by (rule str_strip_id) (use hex in \<open>auto simp: list_all_iff\<close>)
  show "set s \<inter> set ''[({xX'' = {}" using hex by auto
  show "str_lower s = s" by (rule str_lower_id) (use hex in \<open>auto simp: list_all_iff\<close>)
  show "CHR '':'' \<notin> set s" using hex by auto
qed

lemma canonicalize_hash:
  assumes "n \<in> hash_length t" "hex_run n s"
  shows "canonicalize s (Some t) = Inr (s, t)"
proof -
  note p = hex_run_plain [OF assms(2)]
  have t: "t \<in> {''md5'', ''sha1'', ''sha256'', ''certificate''}" using assms(1) by (auto simp: hash_length_def split: if_splits)
  have len: "0 < length s" "length s \<le> 64" using assms by (auto simp: hex_run_def hash_length_def split: if_splits)
  have r: "refang s = s" by (rule refang_id [OF p(1,2)])
  have c: "canonicalize_as s t = Inr s"
    using t p str_replace_delete [of "CHR '':''" s] by (auto simp: canonicalize_as_def filter_id_conv)
  have v: "validates_as s t = Inr True"
    using validates_hash [OF t p(3)] assms by (auto simp: dollar_def)
  have ne: "str_strip s \<noteq> []" using len p(1) by auto
  have i: "t \<in> set IOC_TYPES" "t \<noteq> []" using t by (auto simp: IOC_TYPES_def)
  show ?thesis using len by (simp add: canonicalize_def MAX_VALUE_LENGTH_def r c v i ne)
qed

section \<open>Observables\<close>

definition never_url_error :: "string \<Rightarrow> bool" where
  "never_url_error t \<longleftrightarrow> t \<noteq> [] \<and> t \<noteq> ''url''"

lemma add_observable_total:
  assumes "never_url_error t"
  shows "\<exists>found'. add_observable v t found = Inr found'"
proof (cases v)
  case (JStr s)
  have "canonicalize s (Some t) \<noteq> Inl UrlValueError"
    using assms by (auto simp: canonicalize_def canonicalize_as_def validates_as_def never_url_error_def Let_def)
  thus ?thesis using JStr by (auto simp: add_observable_def split: sum.splits indicator_error.splits)
qed (simp_all add: add_observable_def)

text \<open>One malformed address in the \<open>url\<close> field makes the whole collection raise.\<close>

lemma observables_url_error:
  assumes "get d ''url'' = JStr u" "str_strip u \<noteq> []" "canonicalize u (Some ''url'') = Inl UrlValueError"
  shows "observables_from_event d = Inl UrlValueError"
proof -
  have n: "never_url_error (ip_kind v)" "never_url_error ''domain''" for v
    by (simp_all add: never_url_error_def ip_kind_def split: json.splits)
  obtain f1 where 1: "add_observable (get d ''source_ip'') (ip_kind (get d ''source_ip'')) (map (\<lambda>t. (t, [])) IOC_TYPES) = Inr f1"
    using add_observable_total n by metis
  obtain f2 where 2: "add_observable (get d ''destination_ip'') (ip_kind (get d ''destination_ip'')) f1 = Inr f2"
    using add_observable_total n by metis
  obtain f3 where 3: "add_observable (sub_get d ''device'' ''ip'') (ip_kind (sub_get d ''device'' ''ip'')) f2 = Inr f3"
    using add_observable_total n by metis
  obtain f4 where 4: "add_observable (get d ''domain'') ''domain'' f3 = Inr f4" using add_observable_total n by metis
  have 5: "add_observable (get d ''url'') ''url'' f4 = Inl UrlValueError" using assms by (simp add: add_observable_def)
  show ?thesis by (simp add: observables_from_event_def observable_fields_def 1 2 3 4 5)
qed

section \<open>Properties\<close>



text \<open>Refanging merges different names. The replacement of \<open>fxp\<close> applies anywhere in a
  text, so two distinct registered domains get one canonical form and an indicator on one of them
  matches events about the other.\<close>

lemma refanging_merges_domains: "refang ''fxpro.com'' = ''ftpro.com''" "refang ''ftpro.com'' = ''ftpro.com''"
  by code_simp+

end
