(* ===== verification/Threat_Intel.thy ===== *)
theory Threat_Intel
  imports Database Indicators
begin

text \<open>
  The indicator service (\<open>services/threat_intel.py\<close> on the tables of
  \<open>models/threat_intel.py\<close>): creating, amending, deleting and expiring indicators, the match of
  an event's observables, and the sync of a feed. An indicator belongs to a tenant or, with no
  tenant, to everyone.
\<close>

section \<open>Constants and constraints\<close>

definition DEFAULT_FEED_TTL_DAYS :: int where "DEFAULT_FEED_TTL_DAYS = 30"

definition CLASSIFICATIONS :: "string list" where
  "CLASSIFICATIONS = [''malicious'', ''suspicious'', ''benign'', ''unknown'']"

definition ioc_constraints :: "ioc \<Rightarrow> (bool \<times> service_error) list" where
  "ioc_constraints i =
    [(ioc_kind i \<in> set IOC_TYPES, IntegrityError ''ck_iocs_type''),
     (ioc_classification i \<in> set CLASSIFICATIONS, IntegrityError ''ck_iocs_classification''),
     (0 \<le> ioc_confidence i \<and> ioc_confidence i \<le> 100, IntegrityError ''ck_iocs_confidence''),
     (ioc_classification i \<in> {''unknown'', ''benign''} \<or> list_ex (\<lambda>c. c \<noteq> CHR '' '') (ioc_source i),
      IntegrityError ''ck_iocs_source_required'')]"

definition ioc_types :: "ioc \<Rightarrow> (bool \<times> service_error) list" where
  "ioc_types i =
    [(varchar 16 (ioc_kind i), DataError ''ioc_type''), (text_ok (ioc_value i), DataError ''value''),
     (varchar 16 (ioc_classification i), DataError ''classification''),
     (- 32768 \<le> ioc_confidence i \<and> ioc_confidence i < 32768, DataError ''confidence''),
     (varchar 200 (ioc_source i), DataError ''source''), (pred_option text_ok (ioc_description i), DataError ''description''),
     (list_all text_ok (ioc_tags i), DataError ''tags'')]"

definition check_ioc_row :: "'a core_db_scheme \<Rightarrow> ioc \<Rightarrow> service_error + unit" where
  "check_ioc_row db i = require (ioc_types i @ ioc_constraints i
     @ [(pred_option (is_org db) (ioc_tenant i), IntegrityError ''foreign key: organizations''), fk_user db (ioc_created_by i)])"

text \<open>\<open>uq_iocs_identity\<close>: \<open>NULL\<close> tenants are distinct from each other in SQL, so the
  constraint holds for the rows of a tenant only.\<close>

definition ioc_identity :: "ioc \<Rightarrow> string option \<times> string \<times> string \<times> string" where
  "ioc_identity i = (ioc_tenant i, ioc_kind i, ioc_value i, ioc_source i)"

definition identity_free :: "ioc \<Rightarrow> ioc list \<Rightarrow> bool" where
  "identity_free i is \<longleftrightarrow> ioc_tenant i = None \<or> ioc_identity i \<notin> ioc_identity ` set is"

definition insert_ioc :: "ioc \<Rightarrow> 'a core_db_scheme \<Rightarrow> service_error + 'a core_db_scheme" where
  "insert_ioc i db = bind_res (check_ioc_row db i) (\<lambda>_. bind_res (require
     [(ioc_id i \<notin> ioc_id ` set (iocs db), IntegrityError ''iocs_pkey''),
      (identity_free i (iocs db), IntegrityError ''uq_iocs_identity'')])
     (\<lambda>_. Inr (db\<lparr>iocs := iocs db @ [i], drawn := Suc (drawn db)\<rparr>)))"

definition save_ioc :: "ioc \<Rightarrow> 'a core_db_scheme \<Rightarrow> service_error + 'a core_db_scheme" where
  "save_ioc i db = bind_res (check_ioc_row db i) (\<lambda>_. bind_res (require
     [(identity_free i (filter (\<lambda>x. ioc_id x \<noteq> ioc_id i) (iocs db)), IntegrityError ''uq_iocs_identity'')])
     (\<lambda>_. Inr (db\<lparr>iocs := update_rows (\<lambda>x. ioc_id x = ioc_id i) (\<lambda>_. i) (iocs db)\<rparr>)))"

section \<open>Reads\<close>

definition not_expired :: "int \<Rightarrow> ioc \<Rightarrow> bool" where
  "not_expired now i \<longleftrightarrow> (case ioc_expires_at i of None \<Rightarrow> True | Some t \<Rightarrow> now < t)"

definition visible_to :: "string option \<Rightarrow> ioc \<Rightarrow> bool" where
  "visible_to tenant i \<longleftrightarrow> ioc_tenant i = None \<or> (tenant \<noteq> None \<and> ioc_tenant i = tenant)"

definition list_iocs ::
  "'b dbenv_scheme \<Rightarrow> string \<Rightarrow> string option \<Rightarrow> bool \<Rightarrow> nat \<Rightarrow> 'a core_db_scheme \<Rightarrow> ioc list" where
  "list_iocs e tenant by_type include_expired limit db =
     take limit (sort_key (\<lambda>i. - ioc_last_seen i)
       (filter (\<lambda>i. visible_to (Some tenant) i \<and> (by_type \<in> {None, Some []} \<or> by_type = Some (ioc_kind i))
          \<and> (include_expired \<or> not_expired (utcnow e) i)) (iocs db)))"

definition get_ioc :: "string \<Rightarrow> string \<Rightarrow> 'a core_db_scheme \<Rightarrow> service_error + ioc" where
  "get_ioc tenant i db = (case find (\<lambda>x. ioc_id x = i \<and> visible_to (Some tenant) x) (iocs db) of
     None \<Rightarrow> Inl (NotFoundError i) | Some x \<Rightarrow> Inr x)"

definition history_for :: "string \<Rightarrow> string \<Rightarrow> 'a core_db_scheme \<Rightarrow> service_error + ioc_change list" where
  "history_for tenant i db = bind_res (get_ioc tenant i db) (\<lambda>_.
     Inr (sort_key (\<lambda>h. - hi_at h) (filter (\<lambda>h. hi_ioc h = i \<and> (hi_tenant h = None \<or> hi_tenant h = Some tenant)) (ioc_history db))))"

definition ioc_document :: "ioc \<Rightarrow> document" where
  "ioc_document i = [(''value'', JStr (ioc_value i)), (''type'', JStr (ioc_kind i)), (''classification'', JStr (ioc_classification i)),
     (''confidence'', JInt (ioc_confidence i)), (''source'', JStr (ioc_source i)), (''tags'', JList (map JStr (ioc_tags i))),
     (''ioc_id'', JStr (ioc_id i)), (''shared'', JBool (ioc_tenant i = None))]"

text \<open>\<open>match\<close>: one query, the rows whose type and value are among the pairs.\<close>

definition match_indicators ::
  "'b dbenv_scheme \<Rightarrow> string option \<Rightarrow> string list dict \<Rightarrow> 'a core_db_scheme \<Rightarrow> service_error + document list" where
  "match_indicators e tenant observables db =
     (let pairs = concat (map (\<lambda>(t, vs). map (Pair t) vs) observables)
      in bind_res (require [(list_all (\<lambda>(t, v). text_ok v) pairs, DataError ''value'')]) (\<lambda>_.
         Inr (map ioc_document (filter (\<lambda>i. (ioc_kind i, ioc_value i) \<in> set pairs \<and> visible_to tenant i
           \<and> not_expired (utcnow e) i) (iocs db)))))"

definition count_active :: "'b dbenv_scheme \<Rightarrow> string option \<Rightarrow> 'a core_db_scheme \<Rightarrow> nat" where
  "count_active e tenant db = length (filter (\<lambda>i. visible_to tenant i \<and> not_expired (utcnow e) i) (iocs db))"

section \<open>Changing indicators\<close>

text \<open>Both errors of \<open>canonicalize\<close> are \<open>ValueError\<close>s to a caller that does not tell
  them apart.\<close>

fun indicator_raised :: "indicator_error \<Rightarrow> service_error" where
  "indicator_raised (InvalidIndicator m) = Raised (ValueError m)"
| "indicator_raised UrlValueError = Raised (ValueError ''Invalid URL'')"

definition canonical_or_raise :: "string \<Rightarrow> string option \<Rightarrow> service_error + string \<times> string" where
  "canonical_or_raise v ty = (case canonicalize v ty of Inl err \<Rightarrow> Inl (indicator_raised err) | Inr r \<Rightarrow> Inr r)"

record ioc_draft =
  id_value :: string
  id_type :: "string option"
  id_classification :: string
  id_confidence :: int
  id_source :: string
  id_description :: "string option"
  id_tags :: "string list"
  id_expires_at :: "int option"

definition create_ioc ::
  "'b dbenv_scheme \<Rightarrow> string \<Rightarrow> ioc_draft \<Rightarrow> string option \<Rightarrow> string option \<Rightarrow> 'a core_db_scheme \<Rightarrow> service_error + ioc \<times> 'a core_db_scheme" where
  "create_ioc e tenant d actor ip db =
     bind_res (canonical_or_raise (id_value d) (id_type d)) (\<lambda>(canonical, resolved).
     let i = \<lparr>ioc_id = fresh_id e db, ioc_tenant = Some tenant, ioc_kind = resolved, ioc_value = canonical,
          ioc_classification = id_classification d, ioc_confidence = id_confidence d, ioc_source = id_source d,
          ioc_description = id_description d, ioc_tags = id_tags d, ioc_first_seen = pg_now e, ioc_last_seen = pg_now e,
          ioc_expires_at = id_expires_at d, ioc_created_by = actor\<rparr> in
     bind_res (insert_ioc i db) (\<lambda>db1.
     bind_res (record_audit_event e tenant ''CREATE_IOC'' ''ioc'' ''success'' actor ip None (Some (ioc_id i)) None
         (Some [(''value'', JStr canonical), (''type'', JStr resolved), (''classification'', JStr (id_classification d)),
           (''confidence'', JInt (id_confidence d)), (''source'', JStr (id_source d))]) db1) (\<lambda>db2.
     Inr (i, db2))))"

text \<open>The fields \<open>IocUpdate\<close> lets through; \<open>None\<close> is an explicit null.\<close>

datatype ioc_update = U_classification "string option" | U_confidence "int option" | U_source "string option"
  | U_description "string option" | U_tags "string list option" | U_expires_at "int option"

definition ioc_not_null :: "'v option \<Rightarrow> ('v \<Rightarrow> ioc) \<Rightarrow> service_error + ioc" where
  "ioc_not_null v f = (case v of None \<Rightarrow> Inl (IntegrityError ''not-null constraint'') | Some x \<Rightarrow> Inr (f x))"

fun set_ioc :: "ioc_update \<Rightarrow> ioc \<Rightarrow> service_error + ioc" where
  "set_ioc (U_classification v) i = ioc_not_null v (\<lambda>x. i\<lparr>ioc_classification := x\<rparr>)"
| "set_ioc (U_confidence v) i = ioc_not_null v (\<lambda>x. i\<lparr>ioc_confidence := x\<rparr>)"
| "set_ioc (U_source v) i = ioc_not_null v (\<lambda>x. i\<lparr>ioc_source := x\<rparr>)"
| "set_ioc (U_description v) i = Inr (i\<lparr>ioc_description := v\<rparr>)"
| "set_ioc (U_tags v) i = ioc_not_null v (\<lambda>x. i\<lparr>ioc_tags := x\<rparr>)"
| "set_ioc (U_expires_at v) i = Inr (i\<lparr>ioc_expires_at := v\<rparr>)"

fun set_ioc_values :: "ioc_update list \<Rightarrow> ioc \<Rightarrow> service_error + ioc" where
  "set_ioc_values [] i = Inr i"
| "set_ioc_values (u # us) i = bind_res (set_ioc u i) (set_ioc_values us)"

text \<open>The tracked fields: name, value to compare, \<open>str(value)\<close> unless it is \<open>None\<close>.
  A \<open>datetime\<close> prints with a blank where its ISO text has a \<open>T\<close>.\<close>

definition str_time :: "'b dbenv_scheme \<Rightarrow> int \<Rightarrow> string" where
  "str_time e t = map (\<lambda>c. if c = CHR ''T'' then CHR '' '' else c) (isoformat e t)"

definition tracked :: "'b dbenv_scheme \<Rightarrow> ioc \<Rightarrow> (string \<times> json \<times> string option) list" where
  "tracked e i =
     [(''classification'', JStr (ioc_classification i), Some (ioc_classification i)),
      (''confidence'', JInt (ioc_confidence i), Some (show_int (ioc_confidence i))),
      (''source'', JStr (ioc_source i), Some (ioc_source i)),
      (''expires_at'', (case ioc_expires_at i of None \<Rightarrow> JNull | Some t \<Rightarrow> JInt t), map_option (str_time e) (ioc_expires_at i)),
      (''tags'', JList (map JStr (ioc_tags i)), Some (py_repr (JList (map JStr (ioc_tags i))))),
      (''description'', opt_str (ioc_description i), ioc_description i)]"

definition changes :: "'b dbenv_scheme \<Rightarrow> string option \<Rightarrow> ioc \<Rightarrow> ioc \<Rightarrow> ioc_change list" where
  "changes e actor old new = concat (map2 (\<lambda>(f, v, s) (_, v', s').
     if v = v' then [] else [\<lparr>hi_ioc = ioc_id new, hi_tenant = ioc_tenant new, hi_field = f, hi_old = s, hi_new = s',
       hi_by = actor, hi_at = pg_now e\<rparr>]) (tracked e old) (tracked e new))"

definition tracked_document :: "'b dbenv_scheme \<Rightarrow> ioc \<Rightarrow> document" where
  "tracked_document e i = map (\<lambda>(f, _, s). (f, JStr (case s of None \<Rightarrow> ''None'' | Some t \<Rightarrow> t))) (tracked e i)"

definition own_ioc :: "string \<Rightarrow> string \<Rightarrow> 'a core_db_scheme \<Rightarrow> service_error + ioc" where
  "own_ioc tenant i db = bind_res (get_ioc tenant i db) (\<lambda>x. if ioc_tenant x = None then Inl (NotFoundError i) else Inr x)"

definition update_ioc ::
  "'b dbenv_scheme \<Rightarrow> string \<Rightarrow> string \<Rightarrow> ioc_update list \<Rightarrow> string option \<Rightarrow> string option \<Rightarrow> 'a core_db_scheme \<Rightarrow>
   service_error + ioc \<times> 'a core_db_scheme" where
  "update_ioc e tenant i us actor ip db =
     bind_res (own_ioc tenant i db) (\<lambda>old.
     bind_res (set_ioc_values us old) (\<lambda>new.
     bind_res (save_ioc new db) (\<lambda>db1.
     bind_res (require [(list_all (\<lambda>h. pred_option text_ok (hi_old h) \<and> pred_option text_ok (hi_new h)) (changes e actor old new), DataError ''history''),
         fk_user db actor]) (\<lambda>_.
     bind_res (record_audit_event e tenant
         (if ioc_classification old \<noteq> ioc_classification new then ''RECLASSIFY_IOC'' else ''UPDATE_IOC'') ''ioc'' ''success''
         actor ip None (Some (ioc_id new)) (Some (tracked_document e old)) (Some (tracked_document e new))
         (db1\<lparr>ioc_history := ioc_history db1 @ changes e actor old new, drawn := drawn db1 + length (changes e actor old new)\<rparr>)) (\<lambda>db2.
     Inr (new, db2))))))"

text \<open>\<open>ON DELETE CASCADE\<close> takes the history of the row with it.\<close>

definition drop_iocs :: "(ioc \<Rightarrow> bool) \<Rightarrow> 'a core_db_scheme \<Rightarrow> 'a core_db_scheme" where
  "drop_iocs p db = (let gone = ioc_id ` set (filter p (iocs db))
     in db\<lparr>iocs := filter (\<lambda>i. \<not> p i) (iocs db), ioc_history := filter (\<lambda>h. hi_ioc h \<notin> gone) (ioc_history db)\<rparr>)"

definition delete_ioc ::
  "'b dbenv_scheme \<Rightarrow> string \<Rightarrow> string \<Rightarrow> string option \<Rightarrow> string option \<Rightarrow> 'a core_db_scheme \<Rightarrow> service_error + 'a core_db_scheme" where
  "delete_ioc e tenant i actor ip db =
     bind_res (own_ioc tenant i db) (\<lambda>x.
     record_audit_event e tenant ''DELETE_IOC'' ''ioc'' ''success'' actor ip None (Some i)
       (Some [(''value'', JStr (ioc_value x)), (''type'', JStr (ioc_kind x)), (''source'', JStr (ioc_source x))]) None
       (drop_iocs (\<lambda>y. ioc_id y = i) db))"

section \<open>Feeds\<close>

record feed_indicator =
  fi_value :: string
  fi_type :: "string option"
  fi_classification :: "string option"
  fi_confidence :: "int option"
  fi_description :: "string option"
  fi_tags :: "string list"
  fi_expires_at :: "int option"

definition day_span :: "int \<Rightarrow> int" where
  "day_span n = n * 86400000000"

definition feed_row :: "'b dbenv_scheme \<Rightarrow> string option \<Rightarrow> string \<Rightarrow> int \<Rightarrow> feed_indicator \<Rightarrow> string \<Rightarrow> string \<times> string \<Rightarrow> ioc" where
  "feed_row e tenant source expires f i = (\<lambda>(canonical, resolved).
     \<lparr>ioc_id = i, ioc_tenant = tenant, ioc_kind = resolved, ioc_value = canonical,
      ioc_classification = (if fi_classification f \<in> {None, Some []} then ''unknown'' else the (fi_classification f)),
      ioc_confidence = (case fi_confidence f of None \<Rightarrow> 50 | Some c \<Rightarrow> c), ioc_source = source, ioc_description = fi_description f,
      ioc_tags = fi_tags f, ioc_first_seen = utcnow e, ioc_last_seen = utcnow e, ioc_expires_at = Some expires, ioc_created_by = None\<rparr>)"

definition refreshed :: "'b dbenv_scheme \<Rightarrow> int \<Rightarrow> feed_indicator \<Rightarrow> ioc \<Rightarrow> ioc" where
  "refreshed e expires f i =
     (let i1 = i\<lparr>ioc_last_seen := utcnow e, ioc_expires_at := Some expires\<rparr>;
          i2 = (if fi_classification f \<in> {None, Some []} then i1 else i1\<lparr>ioc_classification := the (fi_classification f)\<rparr>);
          i3 = (case fi_confidence f of None \<Rightarrow> i2 | Some c \<Rightarrow> i2\<lparr>ioc_confidence := c\<rparr>)
      in if fi_tags f = [] then i3 else i3\<lparr>ioc_tags := sorted_list_of_set (set (ioc_tags i3) \<union> set (fi_tags f))\<rparr>)"

definition feed_matches :: "string option \<Rightarrow> string \<Rightarrow> string \<times> string \<Rightarrow> ioc list \<Rightarrow> ioc list" where
  "feed_matches tenant source ct is =
     filter (\<lambda>i. ioc_tenant i = tenant \<and> ioc_kind i = snd ct \<and> ioc_value i = fst ct \<and> ioc_source i = source) is"

text \<open>One indicator of a feed: the counts of created, updated and skipped ones are threaded through.
  The look-up flushes what the loop has added before.\<close>

definition feed_one ::
  "'b dbenv_scheme \<Rightarrow> string option \<Rightarrow> string \<Rightarrow> int \<Rightarrow> feed_indicator \<Rightarrow> (nat \<times> nat \<times> nat) \<times> 'a core_db_scheme \<Rightarrow>
   service_error + (nat \<times> nat \<times> nat) \<times> 'a core_db_scheme" where
  "feed_one e tenant source ttl f = (\<lambda>((created, updated, skipped), db).
     (case canonicalize (fi_value f) (fi_type f) of Inl _ \<Rightarrow> Inr ((created, updated, Suc skipped), db)
      | Inr ct \<Rightarrow>
        let expires = (case fi_expires_at f of None \<Rightarrow> utcnow e + day_span ttl | Some t \<Rightarrow> t) in
        (case feed_matches tenant source ct (iocs db) of
           [] \<Rightarrow> bind_res (insert_ioc (feed_row e tenant source expires f (fresh_id e db) ct) db)
                   (\<lambda>db'. Inr ((Suc created, updated, skipped), db'))
         | [i] \<Rightarrow> bind_res (save_ioc (refreshed e expires f i) db) (\<lambda>db'. Inr ((created, Suc updated, skipped), db'))
         | _ \<Rightarrow> Inl MultipleResultsFound)))"

fun upsert_from_feed ::
  "'b dbenv_scheme \<Rightarrow> string option \<Rightarrow> string \<Rightarrow> int \<Rightarrow> feed_indicator list \<Rightarrow> (nat \<times> nat \<times> nat) \<times> 'a core_db_scheme \<Rightarrow>
   service_error + (nat \<times> nat \<times> nat) \<times> 'a core_db_scheme" where
  "upsert_from_feed e tenant source ttl [] s = Inr s"
| "upsert_from_feed e tenant source ttl (f # fs) s = bind_res (feed_one e tenant source ttl f s) (upsert_from_feed e tenant source ttl fs)"

definition purge_expired :: "'b dbenv_scheme \<Rightarrow> int \<Rightarrow> 'a core_db_scheme \<Rightarrow> nat \<times> 'a core_db_scheme" where
  "purge_expired e older_than db =
     (let lapsed = (\<lambda>i. case ioc_expires_at i of None \<Rightarrow> False | Some t \<Rightarrow> t < utcnow e - day_span older_than)
      in (length (filter lapsed (iocs db)), drop_iocs lapsed db))"

section \<open>The invariant\<close>

definition ioc_row_wf :: "ioc \<Rightarrow> bool" where
  "ioc_row_wf i \<longleftrightarrow> list_all fst (ioc_constraints i) \<and> validates_as (ioc_value i) (ioc_kind i) = Inr True"

definition intel_wf :: "'a core_db_scheme \<Rightarrow> bool" where
  "intel_wf db \<longleftrightarrow> distinct (map ioc_id (iocs db)) \<and> list_all ioc_row_wf (iocs db)
     \<and> (\<forall>i \<in> set (iocs db). \<forall>j \<in> set (iocs db). ioc_tenant i \<noteq> None \<longrightarrow> ioc_identity i = ioc_identity j \<longrightarrow> i = j)"

lemma check_ioc_constraints: "check_ioc_row db i = Inr () \<Longrightarrow> list_all fst (ioc_constraints i)"
  by (simp add: check_ioc_row_def)

lemma insert_ioc_Inr:
  assumes "insert_ioc i db = Inr db'"
  shows "list_all fst (ioc_constraints i) \<and> ioc_id i \<notin> ioc_id ` set (iocs db) \<and> identity_free i (iocs db)
    \<and> db' = db\<lparr>iocs := iocs db @ [i], drawn := Suc (drawn db)\<rparr>"
  using assms check_ioc_constraints by (auto simp: insert_ioc_def bind_res_Inr)

lemma save_ioc_Inr:
  assumes "save_ioc i db = Inr db'"
  shows "list_all fst (ioc_constraints i) \<and> identity_free i (filter (\<lambda>x. ioc_id x \<noteq> ioc_id i) (iocs db))
    \<and> db' = db\<lparr>iocs := update_rows (\<lambda>x. ioc_id x = ioc_id i) (\<lambda>_. i) (iocs db)\<rparr>"
  using assms check_ioc_constraints by (auto simp: save_ioc_def bind_res_Inr)

lemma intel_wf_cong: "intel_wf db \<Longrightarrow> iocs db' = iocs db \<Longrightarrow> intel_wf db'"
  by (simp add: intel_wf_def)

lemma identity_free_apart:
  assumes "identity_free i is" "j \<in> set is" "ioc_tenant i \<noteq> None \<or> ioc_tenant j \<noteq> None"
  shows "ioc_identity j \<noteq> ioc_identity i"
proof
  assume eq: "ioc_identity j = ioc_identity i"
  hence "ioc_tenant i \<noteq> None" using assms(3) by (auto simp: ioc_identity_def)
  thus False using assms(1,2) eq unfolding identity_free_def by (metis imageI)
qed

lemma intel_wf_insert:
  assumes "intel_wf db" "insert_ioc i db = Inr db'" "validates_as (ioc_value i) (ioc_kind i) = Inr True"
  shows "intel_wf db'"
proof -
  note k = insert_ioc_Inr [OF assms(2)]
  have "ioc_identity j \<noteq> ioc_identity i \<and> ioc_identity i \<noteq> ioc_identity j"
    if "j \<in> set (iocs db)" "ioc_tenant i \<noteq> None \<or> ioc_tenant j \<noteq> None" for j
    using k that identity_free_apart [of i "iocs db" j] by (metis (no_types))
  thus ?thesis using assms(1,3) k by (auto simp: intel_wf_def ioc_row_wf_def)
qed

lemma intel_wf_save:
  assumes "intel_wf db" "save_ioc i db = Inr db'" "validates_as (ioc_value i) (ioc_kind i) = Inr True"
  shows "intel_wf db'"
proof -
  note k = save_ioc_Inr [OF assms(2)]
  have ids: "map ioc_id (iocs db') = map ioc_id (iocs db)" using k by (auto simp: update_rows_def)
  have mem: "x \<in> set (iocs db') \<Longrightarrow> x = i \<or> (x \<in> set (iocs db) \<and> ioc_id x \<noteq> ioc_id i)" for x
    using k by (auto simp: set_update_rows split: if_splits)
  have "ioc_identity j \<noteq> ioc_identity i" if "j \<in> set (iocs db)" "ioc_id j \<noteq> ioc_id i" "ioc_tenant i \<noteq> None \<or> ioc_tenant j \<noteq> None" for j
    using k that identity_free_apart [of i "filter (\<lambda>x. ioc_id x \<noteq> ioc_id i) (iocs db)" j] by simp
  hence "\<forall>x \<in> set (iocs db'). \<forall>y \<in> set (iocs db'). ioc_tenant x \<noteq> None \<longrightarrow> ioc_identity x = ioc_identity y \<longrightarrow> x = y"
    using mem assms(1) unfolding intel_wf_def by metis
  moreover have "list_all ioc_row_wf (iocs db')" using mem assms(1,3) k by (auto simp: intel_wf_def ioc_row_wf_def list_all_iff)
  ultimately show ?thesis using ids assms(1) by (simp add: intel_wf_def)
qed

lemma intel_wf_drop: "intel_wf db \<Longrightarrow> intel_wf (drop_iocs p db)"
  by (auto simp: intel_wf_def drop_iocs_def Let_def list_all_iff distinct_map_filter)

lemma create_ioc_wf [inv_intros]:
  assumes "intel_wf db" "create_ioc e t d actor ip db = Inr (i, db')"
  shows "intel_wf db'"
proof -
  obtain c k db1 oid af where ck: "canonicalize (id_value d) (id_type d) = Inr (c, k)" and i: "insert_ioc i db = Inr db1"
    and v: "ioc_value i = c" "ioc_kind i = k"
    and a: "record_audit_event e t ''CREATE_IOC'' ''ioc'' ''success'' actor ip None oid None af db1 = Inr db'"
    using assms(2) by (auto simp: create_ioc_def canonical_or_raise_def Let_def bind_res_Inr split: sum.splits)
  have "intel_wf db1" by (rule intel_wf_insert [OF assms(1) i]) (use canonicalize_Inr [OF ck] v in simp)
  moreover have "iocs db' = iocs db1" using a by (auto dest!: record_audit_event_Inr)
  ultimately show ?thesis by (rule intel_wf_cong)
qed

lemma set_ioc_keeps: "set_ioc u i = Inr i' \<Longrightarrow> ioc_id i' = ioc_id i \<and> ioc_tenant i' = ioc_tenant i \<and> ioc_kind i' = ioc_kind i \<and> ioc_value i' = ioc_value i"
  by (cases u) (auto simp: ioc_not_null_def split: option.splits)

lemma set_ioc_values_keeps:
  "set_ioc_values us i = Inr i' \<Longrightarrow> ioc_id i' = ioc_id i \<and> ioc_tenant i' = ioc_tenant i \<and> ioc_kind i' = ioc_kind i \<and> ioc_value i' = ioc_value i"
  by (induction us i rule: set_ioc_values.induct) (auto simp: bind_res_Inr dest: set_ioc_keeps)

lemma own_ioc_Inr: "own_ioc t i db = Inr x \<Longrightarrow> x \<in> set (iocs db) \<and> ioc_id x = i \<and> ioc_tenant x = Some t"
  by (auto simp: own_ioc_def get_ioc_def bind_res_Inr visible_to_def split: option.splits if_splits dest: find_Some_mem)

lemma update_ioc_Inr:
  assumes "update_ioc e t i us actor ip db = Inr (new, db')"
  obtains old db1 x where "own_ioc t i db = Inr old" "set_ioc_values us old = Inr new" "save_ioc new db = Inr db1"
    "iocs db' = iocs db1" "ioc_history db' = ioc_history db @ changes e actor old new"
    "audit_logs db' = audit_logs db @ [x]" "aud_tenant x = t" "aud_actor x = actor"
    "aud_action x = (if ioc_classification old \<noteq> ioc_classification new then ''RECLASSIFY_IOC'' else ''UPDATE_IOC'')"
proof -
  obtain old db1 where o: "own_ioc t i db = Inr old" "set_ioc_values us old = Inr new" "save_ioc new db = Inr db1"
    and a: "record_audit_event e t (if ioc_classification old \<noteq> ioc_classification new then ''RECLASSIFY_IOC'' else ''UPDATE_IOC'')
         ''ioc'' ''success'' actor ip None (Some (ioc_id new)) (Some (tracked_document e old)) (Some (tracked_document e new))
         (db1\<lparr>ioc_history := ioc_history db1 @ changes e actor old new, drawn := drawn db1 + length (changes e actor old new)\<rparr>) = Inr db'"
    using assms by (auto simp: update_ioc_def bind_res_Inr)
  show thesis using that [OF o] record_audit_event_Inr [OF a] save_ioc_Inr [OF o(3)] by auto
qed

lemma update_ioc_wf [inv_intros]:
  assumes wf: "intel_wf db" and u: "update_ioc e t i us actor ip db = Inr (new, db')"
  shows "intel_wf db'"
  using u
proof (cases rule: update_ioc_Inr)
  case (1 old db1 x)
  have "validates_as (ioc_value old) (ioc_kind old) = Inr True"
    using wf own_ioc_Inr [OF 1(1)] by (auto simp: intel_wf_def ioc_row_wf_def list_all_iff)
  hence "intel_wf db1" by (intro intel_wf_save [OF wf 1(3)]) (use set_ioc_values_keeps [OF 1(2)] in simp)
  thus ?thesis by (rule intel_wf_cong [OF _ 1(4)])
qed

lemma delete_ioc_wf [inv_intros]:
  assumes "intel_wf db" "delete_ioc e t i actor ip db = Inr db'"
  shows "intel_wf db'"
proof -
  obtain act ot r oid b af where "record_audit_event e t act ot r actor ip None oid b af (drop_iocs (\<lambda>y. ioc_id y = i) db) = Inr db'"
    using assms(2) by (auto simp: delete_ioc_def bind_res_Inr)
  hence "iocs db' = iocs (drop_iocs (\<lambda>y. ioc_id y = i) db)" by (auto dest!: record_audit_event_Inr)
  thus ?thesis by (rule intel_wf_cong [OF intel_wf_drop [OF assms(1)]])
qed

lemma refreshed_keeps [simp]:
  "ioc_id (refreshed e x f i) = ioc_id i" "ioc_tenant (refreshed e x f i) = ioc_tenant i" "ioc_kind (refreshed e x f i) = ioc_kind i"
  "ioc_value (refreshed e x f i) = ioc_value i" "ioc_source (refreshed e x f i) = ioc_source i"
  by (auto simp: refreshed_def Let_def split: option.splits)

lemma feed_one_wf:
  assumes wf: "intel_wf db" and f: "feed_one e t src ttl f (n, db) = Inr (n', db')"
  shows "intel_wf db'"
proof (cases "canonicalize (fi_value f) (fi_type f)")
  case (Inl err)
  thus ?thesis using f wf by (auto simp: feed_one_def split: prod.splits)
next
  case (Inr ct)
  obtain c k where ct: "ct = (c, k)" by force
  have val: "validates_as c k = Inr True" using canonicalize_Inr Inr ct by blast
  obtain expires where x: "expires = (case fi_expires_at f of None \<Rightarrow> utcnow e + day_span ttl | Some t \<Rightarrow> t)" by simp
  show ?thesis
  proof (cases "feed_matches t src ct (iocs db)")
    case Nil
    hence "insert_ioc (feed_row e t src expires f (fresh_id e db) ct) db = Inr db'"
      using f Inr x by (auto simp: feed_one_def Let_def bind_res_Inr split: prod.splits)
    thus ?thesis by (rule intel_wf_insert [OF wf]) (simp add: feed_row_def ct val)
  next
    case (Cons i xs)
    hence mem: "i \<in> set (feed_matches t src ct (iocs db))" by simp
    have "save_ioc (refreshed e expires f i) db = Inr db'"
      using f Inr x Cons by (auto simp: feed_one_def Let_def bind_res_Inr split: prod.splits list.splits)
    thus ?thesis
      by (rule intel_wf_save [OF wf]) (use mem wf in \<open>auto simp: feed_matches_def intel_wf_def ioc_row_wf_def list_all_iff\<close>)
  qed
qed

lemma upsert_from_feed_wf [inv_intros]:
  "upsert_from_feed e t src ttl fs (n, db) = Inr (n', db') \<Longrightarrow> intel_wf db \<Longrightarrow> intel_wf db'"
proof (induction fs arbitrary: n db)
  case (Cons f fs)
  then obtain n1 db1 where "feed_one e t src ttl f (n, db) = Inr (n1, db1)" "upsert_from_feed e t src ttl fs (n1, db1) = Inr (n', db')"
    by (auto simp: bind_res_Inr)
  thus ?case using Cons feed_one_wf by blast
qed simp

lemma purge_expired_wf [inv_intros]: "intel_wf db \<Longrightarrow> intel_wf (snd (purge_expired e d db))"
  by (simp add: purge_expired_def Let_def intel_wf_drop)

inductive intel_step :: "'a core_db_scheme \<Rightarrow> 'a core_db_scheme \<Rightarrow> bool" where
  created: "create_ioc (e :: dbenv) t d actor ip db = Inr (i, db') \<Longrightarrow> intel_step db db'"
| updated: "update_ioc (e :: dbenv) t i us actor ip db = Inr (r, db') \<Longrightarrow> intel_step db db'"
| deleted: "delete_ioc (e :: dbenv) t i actor ip db = Inr db' \<Longrightarrow> intel_step db db'"
| synced: "upsert_from_feed (e :: dbenv) t src ttl fs ((0, 0, 0), db) = Inr (n, db') \<Longrightarrow> intel_step db db'"
| purged: "intel_step db (snd (purge_expired (e :: dbenv) d db))"

lemma intel_wf_step: "intel_step db db' \<Longrightarrow> intel_wf db \<Longrightarrow> intel_wf db'"
  by (induction rule: intel_step.induct) (auto intro: inv_intros)

lemma intel_wf_reachable: "intel_step\<^sup>*\<^sup>* db0 db \<Longrightarrow> iocs db0 = [] \<Longrightarrow> intel_wf db"
proof (induction rule: rtranclp_induct)
  case base
  thus ?case by (simp add: intel_wf_def)
qed (auto intro: intel_wf_step)

section \<open>A concrete tenant\<close>

definition intel_env :: "int \<Rightarrow> dbenv" where
  "intel_env t = \<lparr>rx = (\<lambda>p cs s. NotFound), fromiso = (\<lambda>s. None), utcnow = t, isoformat = show_int,
     monotonic = 0, uuid4 = show_nat, pg_now = t, pg_clock = (\<lambda>n. t + int n), inet_ok = (\<lambda>v. True)\<rparr>"

definition intel_db :: core_db where
  "intel_db = \<lparr>organizations = [\<lparr>org_id = ''t1'', org_name = ''Acme'', org_slug = ''acme'', org_active = True\<rparr>], users = [], assets = [],
     iocs = [], ioc_history = [], audit_logs = [], drawn = 0\<rparr>"

definition intel_draft :: ioc_draft where
  "intel_draft = \<lparr>id_value = show_v4 167772161, id_type = Some ''ipv4'', id_classification = ''malicious'', id_confidence = 90, id_source = ''ir'',
     id_description = None, id_tags = [], id_expires_at = None\<rparr>"

definition intel_row :: ioc where
  "intel_row = \<lparr>ioc_id = ''0'', ioc_tenant = Some ''t1'', ioc_kind = ''ipv4'', ioc_value = show_v4 167772161, ioc_classification = ''malicious'',
     ioc_confidence = 90, ioc_source = ''ir'', ioc_description = None, ioc_tags = [], ioc_first_seen = 0, ioc_last_seen = 0,
     ioc_expires_at = None, ioc_created_by = None\<rparr>"

lemma intel_created: "\<exists>db. create_ioc (intel_env 0) ''t1'' intel_draft None None intel_db = Inr (intel_row, db)"
proof -
  let ?db1 = "intel_db\<lparr>iocs := [intel_row], drawn := 1\<rparr>"
  have c: "canonical_or_raise (id_value intel_draft) (id_type intel_draft) = Inr (show_v4 167772161, ''ipv4'')"
    using canonicalize_v4 by (simp add: canonical_or_raise_def intel_draft_def)
  have t: "text_ok (show_v4 w)" for w using v4_chars [of "CHR 0x00" w] by (auto simp: text_ok_def is_digit_def)
  have "require (ioc_types intel_row @ ioc_constraints intel_row
     @ [(pred_option (is_org intel_db) (ioc_tenant intel_row), IntegrityError ''foreign key: organizations''), fk_user intel_db (ioc_created_by intel_row)]) = Inr ()"
    by (rule require_ok) (simp add: ioc_types_def ioc_constraints_def intel_row_def intel_db_def varchar_def text_ok_def t [unfolded text_ok_def]
        IOC_TYPES_def CLASSIFICATIONS_def is_org_def fk_user_def)
  hence i: "insert_ioc intel_row intel_db = Inr ?db1"
    unfolding insert_ioc_def check_ioc_row_def
    by (simp only: bind_res_simps) (simp add: require.simps identity_free_def intel_db_def)
  have "\<exists>db'. record_audit_event (intel_env 0) ''t1'' ''CREATE_IOC'' ''ioc'' ''success'' None None None (Some ''0'') None
      (Some [(''value'', JStr (show_v4 167772161)), (''type'', JStr ''ipv4''), (''classification'', JStr ''malicious''),
        (''confidence'', JInt 90), (''source'', JStr ''ir'')]) ?db1 = Inr db'"
    by (rule record_audit_event_ok) (simp_all add: is_org_def intel_db_def text_ok_def t [unfolded text_ok_def])
  moreover have "fresh_id (intel_env 0) intel_db = ''0''" by (simp add: fresh_id_def intel_env_def intel_db_def show_nat_0)
  ultimately show ?thesis
    using i unfolding create_ioc_def c bind_res_simps prod.case Let_def by (auto simp: intel_draft_def intel_env_def intel_row_def)
qed

section \<open>Properties\<close>



text \<open>A feed that sees an indicator again may raise its classification: the row takes whatever the
  feed asserts now, with no history entry and no audit entry.\<close>

lemma feed_raises_classification:
  assumes "feed_one e t src ttl f (n, db) = Inr (n', db')" and "canonicalize (fi_value f) (fi_type f) = Inr ct"
    and "feed_matches t src ct (iocs db) = [i]" and "fi_classification f = Some ''malicious''"
  shows "\<exists>j \<in> set (iocs db'). ioc_id j = ioc_id i \<and> ioc_classification j = ''malicious''
    \<and> ioc_history db' = ioc_history db \<and> audit_logs db' = audit_logs db"
proof -
  obtain expires where s: "save_ioc (refreshed e expires f i) db = Inr db'"
    using assms by (auto simp: feed_one_def Let_def bind_res_Inr split: prod.splits)
  have m: "i \<in> set (iocs db)" using assms(3) by (auto simp: feed_matches_def dest!: arg_cong [of _ _ set])
  have "ioc_classification (refreshed e expires f i) = ''malicious''"
    using assms(4) by (auto simp: refreshed_def Let_def split: option.splits)
  thus ?thesis using save_ioc_Inr [OF s] m by (intro bexI [of _ "refreshed e expires f i"]) (auto simp: set_update_rows)
qed

end
