(* ===== verification/Py_Ops.thy ===== *)
theory Py_Ops
  imports Conditions
begin

text \<open>
  Operations of Python on parsed JSON that raise on a value of the wrong type, shared by the
  components that read documents they did not write: member access, iteration and the
  conversions \<open>int\<close>, \<open>float\<close>, \<open>dict\<close>, and the fixed-point format of a float.
\<close>

text \<open>Python on parsed JSON: \<open>v.get(k, d)\<close>, \<open>v[k]\<close>, \<open>k in v\<close>, \<open>for x in v\<close>
  and \<open>int(v)\<close>, with the exceptions they raise on a value of another type.\<close>

definition obj_get :: "json \<Rightarrow> string \<Rightarrow> json \<Rightarrow> eval_error + json" where
  "obj_get v k dflt = (case v of
     JObj d \<Rightarrow> Inr (case dict_get d k of Some x \<Rightarrow> x | None \<Rightarrow> dflt) | _ \<Rightarrow> Inl AttributeError)"

definition item :: "json \<Rightarrow> string \<Rightarrow> eval_error + json" where
  "item v k = (case v of
     JObj d \<Rightarrow> (case dict_get d k of Some x \<Rightarrow> Inr x | None \<Rightarrow> Inl (KeyError k)) | _ \<Rightarrow> Inl TypeError)"

definition contains_key :: "json \<Rightarrow> string \<Rightarrow> eval_error + bool" where
  "contains_key v k = (case v of JObj d \<Rightarrow> Inr (dict_get d k \<noteq> None)
     | JList xs \<Rightarrow> Inr (list_ex (py_eq (JStr k)) xs) | JStr s \<Rightarrow> Inr (str_contains s k) | _ \<Rightarrow> Inl TypeError)"

definition py_iter :: "json \<Rightarrow> eval_error + json list" where
  "py_iter v = (case v of JList xs \<Rightarrow> Inr xs | JObj d \<Rightarrow> Inr (map (\<lambda>(k, v). JStr k) d)
     | JStr s \<Rightarrow> Inr (map (\<lambda>c. JStr [c]) s) | _ \<Rightarrow> Inl TypeError)"

definition py_int :: "json \<Rightarrow> eval_error + int" where
  "py_int v = (case v of JInt i \<Rightarrow> Inr i | JBool b \<Rightarrow> Inr (bool_int b)
     | JFloat (Fin x) \<Rightarrow> Inr (trunc x) | JFloat NaN \<Rightarrow> Inl (ValueError ''cannot convert float NaN to integer'')
     | JFloat _ \<Rightarrow> Inl OverflowError
     | JStr s \<Rightarrow> (case read_int s of Some i \<Rightarrow> Inr i | None \<Rightarrow> Inl (ValueError ''invalid literal for int()''))
     | _ \<Rightarrow> Inl TypeError)"

text \<open>\<open>dict(v)\<close> of a bucket key, which the cluster returns as an object.\<close>

definition py_dict :: "json \<Rightarrow> eval_error + document" where
  "py_dict v = (case v of JObj d \<Rightarrow> Inr d | JList [] \<Rightarrow> Inr [] | JStr [] \<Rightarrow> Inr [] | _ \<Rightarrow> Inl TypeError)"

definition py_float :: "json \<Rightarrow> eval_error + pyfloat" where
  "py_float v = (case v of
     JInt i \<Rightarrow> (case to_float (of_int i) of Fin x \<Rightarrow> Inr (Fin x) | _ \<Rightarrow> Inl OverflowError)
   | JBool b \<Rightarrow> Inr (Fin (of_int (bool_int b)))
   | JFloat f \<Rightarrow> Inr f
   | JStr s \<Rightarrow> (case float_of_str s of Some f \<Rightarrow> Inr f | None \<Rightarrow> Inl (ValueError ''could not convert string to float''))
   | _ \<Rightarrow> Inl TypeError)"

text \<open>\<open>s.lower()\<close>, \<open>s.split(...)\<close> and their kin on a value that must be a text.\<close>

definition py_text :: "json \<Rightarrow> eval_error + string" where
  "py_text v = (case v of JStr s \<Rightarrow> Inr s | _ \<Rightarrow> Inl AttributeError)"

text \<open>\<open>f"{x:.nf}"\<close>: the value rounded half to even at the n-th decimal.\<close>

definition show_fixed_rat :: "nat \<Rightarrow> rat \<Rightarrow> string" where
  "show_fixed_rat n x = (let k = nat (round_half_even (\<bar>x\<bar> * 10 ^ n)) in
     (if x < 0 then ''-'' else []) @ show_nat (k div 10 ^ n)
       @ (if n = 0 then [] else ''.'' @ zero_pad n (show_nat (k mod 10 ^ n))))"

fun show_fixed :: "nat \<Rightarrow> pyfloat \<Rightarrow> string" where
  "show_fixed n (Fin x) = show_fixed_rat n x"
| "show_fixed n PInf = ''inf''"
| "show_fixed n NInf = ''-inf''"
| "show_fixed n NaN = ''nan''"

text \<open>\<open>v or default\<close> and the value of a key that may be absent.\<close>

definition py_or :: "json \<Rightarrow> json \<Rightarrow> json" where
  "py_or v dflt = (if py_truthy v then v else dflt)"

definition get_default :: "document \<Rightarrow> string \<Rightarrow> json \<Rightarrow> json" where
  "get_default d k dflt = (case dict_get d k of Some v \<Rightarrow> v | None \<Rightarrow> dflt)"

end
