(* ===== verification/Playbooks.thy ===== *)
theory Playbooks
  imports Incidents Threat_Intel Py_Ops "HOL-Library.Multiset"
begin

text \<open>
  SOAR playbooks (\<open>playbooks/actions.py\<close>, \<open>engine.py\<close>, \<open>context.py\<close>,
  \<open>schema.py\<close>, \<open>services/playbooks.py\<close> on the tables of \<open>models/playbooks.py\<close>):
  the actions, the gate in front of the destructive ones, the engine that runs the steps of a
  definition and halts at a destructive step without an approval, and the approval workflow. A
  session is scoped to its tenant, so \<open>db.get\<close> and every query see the rows of that tenant.
\<close>

section \<open>Tables\<close>

record step_definition =
  st_action :: string
  st_params :: document

record playbook_definition =
  pd_key :: string
  pd_name :: string
  pd_description :: "string option"
  pd_trigger :: string
  pd_steps :: "step_definition list"

record playbook =
  pb_id :: string
  pb_tenant :: string
  pb_key :: string
  pb_name :: string
  pb_description :: "string option"
  pb_trigger :: string
  pb_definition :: playbook_definition
  pb_status :: string
  pb_created_by :: "string option"

record playbook_run =
  run_id :: string
  run_tenant :: string
  run_playbook_id :: string
  run_status :: string
  run_dry :: bool
  run_by :: "string option"
  run_alert :: "string option"
  run_incident :: "string option"
  run_step :: nat
  run_results :: "document list"
  run_error :: "string option"
  run_started :: int
  run_completed :: "int option"

record approval =
  ap_id :: string
  ap_tenant :: string
  ap_run :: string
  ap_step :: nat
  ap_action :: string
  ap_preview :: document
  ap_status :: string
  ap_requested_by :: string
  ap_requested_at :: int
  ap_decided_by :: "string option"
  ap_decided_at :: "int option"
  ap_reason :: "string option"

record playbook_db = incident_db +
  playbooks :: "playbook list"
  playbook_runs :: "playbook_run list"
  approvals :: "approval list"

definition TRIGGER_TYPES :: "string list" where "TRIGGER_TYPES = [''manual'', ''alert'']"

definition PLAYBOOK_STATUSES :: "string list" where "PLAYBOOK_STATUSES = [''enabled'', ''disabled'']"

definition RUN_STATUSES :: "string list" where
  "RUN_STATUSES = [''PENDING'', ''RUNNING'', ''AWAITING_APPROVAL'', ''COMPLETED'', ''FAILED'', ''REJECTED'']"

definition APPROVAL_STATUSES :: "string list" where
  "APPROVAL_STATUSES = [''PENDING_APPROVAL'', ''APPROVED'', ''REJECTED'', ''EXECUTED'']"

text \<open>\<open>PlaybookDefinition\<close>: the key is \<open>PB-\<close> and at least three digits.\<close>

definition step_valid :: "step_definition \<Rightarrow> bool" where
  "step_valid s \<longleftrightarrow> 1 \<le> length (st_action s) \<and> length (st_action s) \<le> 100"

definition definition_valid :: "playbook_definition \<Rightarrow> bool" where
  "definition_valid d \<longleftrightarrow> prefix ''PB-'' (pd_key d) \<and> 3 \<le> length (drop 3 (pd_key d)) \<and> list_all is_digit (drop 3 (pd_key d))
     \<and> 1 \<le> length (pd_name d) \<and> length (pd_name d) \<le> 200 \<and> pred_option (\<lambda>s. length s \<le> 2000) (pd_description d)
     \<and> 1 \<le> length (pd_steps d) \<and> length (pd_steps d) \<le> 20 \<and> list_all step_valid (pd_steps d) \<and> pd_trigger d \<in> set TRIGGER_TYPES"

section \<open>What an action sees and returns\<close>

record playbook_context =
  cx_tenant :: string
  cx_actor :: "string option"
  cx_alert :: "alert option"
  cx_incident :: "incident option"
  cx_params :: document
  cx_state :: document

record action_result =
  ar_summary :: string
  ar_details :: document

definition result :: "string \<Rightarrow> document \<Rightarrow> action_result" where
  "result s d = \<lparr>ar_summary = s, ar_details = d\<rparr>"

definition remember :: "string \<Rightarrow> document \<Rightarrow> playbook_context \<Rightarrow> playbook_context" where
  "remember name details cx = cx\<lparr>cx_state := dict_set name (JObj details) (cx_state cx)\<rparr>"

text \<open>\<open>context.params.get(key) or (context.alert.field if context.alert else None)\<close>, and the
  error when neither names a target.\<close>

definition target :: "string \<Rightarrow> (alert \<Rightarrow> json) \<Rightarrow> string \<Rightarrow> playbook_context \<Rightarrow> service_error + string" where
  "target key field missing cx =
     (let v = py_or (get (cx_params cx) key) (case cx_alert cx of None \<Rightarrow> JNull | Some a \<Rightarrow> field a)
      in if py_truthy v then Inr (py_str v) else Inl (ActionTargetNotFound missing))"

definition target_ip :: "playbook_context \<Rightarrow> service_error + string" where
  "target_ip = target ''ip'' al_source_ip ''no IP address on the alert or in step params''"

definition target_hostname :: "playbook_context \<Rightarrow> service_error + string" where
  "target_hostname = target ''hostname'' al_affected_host ''no hostname on the alert or in step params''"

definition target_email :: "playbook_context \<Rightarrow> service_error + string" where
  "target_email = target ''email'' al_affected_user ''no affected user on the alert or in step params''"

definition find_asset_by_host :: "string \<Rightarrow> string \<Rightarrow> 'a core_db_scheme \<Rightarrow> service_error + asset" where
  "find_asset_by_host tenant hostname db = bind_res (require [(text_ok hostname, DataError ''hostname'')]) (\<lambda>_.
     case find (\<lambda>a. ast_tenant a = tenant \<and> ast_hostname a = Some hostname) (assets db) of
       None \<Rightarrow> Inl (ActionTargetNotFound (''no asset registered with hostname '' @ hostname)) | Some a \<Rightarrow> Inr a)"

definition find_user_by_email :: "string \<Rightarrow> string \<Rightarrow> 'a core_db_scheme \<Rightarrow> service_error + user_row" where
  "find_user_by_email tenant email db = bind_res (require [(text_ok email, DataError ''email'')]) (\<lambda>_.
     case find (\<lambda>u. usr_tenant u = tenant \<and> usr_email u = email) (users db) of
       None \<Rightarrow> Inl (ActionTargetNotFound (''no user account found for '' @ email)) | Some u \<Rightarrow> Inr u)"

section \<open>Actions\<close>

definition enrich_ip :: "'b dbenv_scheme \<Rightarrow> playbook_context \<Rightarrow> 'a core_db_scheme \<Rightarrow> service_error + action_result \<times> playbook_context" where
  "enrich_ip e cx db =
     bind_res (target_ip cx) (\<lambda>ip. bind_res (require [(inet_ok e (JStr ip), DataError ''ip_address'')]) (\<lambda>_.
       let private = (case ip_address ip of None \<Rightarrow> JNull | Some a \<Rightarrow> JBool (is_private a));
           found = find (\<lambda>a. ast_tenant a = cx_tenant cx \<and> same_inet ip (ast_ip a)) (assets db);
           details = [(''ip'', JStr ip), (''is_private'', private)] @ (case found of None \<Rightarrow> []
             | Some a \<Rightarrow> [(''asset'', JObj [(''id'', JStr (ast_id a)), (''hostname'', opt_str (ast_hostname a)),
                 (''criticality'', JStr (ast_criticality a))])])
       in Inr (result (''Enriched '' @ ip) details, remember ''enrich_ip'' details cx)))"

definition enrich_host :: "playbook_context \<Rightarrow> 'a core_db_scheme \<Rightarrow> service_error + action_result \<times> playbook_context" where
  "enrich_host cx db =
     bind_res (target_hostname cx) (\<lambda>h. bind_res (find_asset_by_host (cx_tenant cx) h db) (\<lambda>a.
       let details = [(''asset_id'', JStr (ast_id a)), (''hostname'', JStr h), (''criticality'', JStr (ast_criticality a)),
             (''is_isolated'', JBool (ast_isolated a))]
       in Inr (result (''Enriched host '' @ h) details, remember ''enrich_host'' details cx)))"

definition enrich_user :: "playbook_context \<Rightarrow> 'a core_db_scheme \<Rightarrow> service_error + action_result \<times> playbook_context" where
  "enrich_user cx db =
     bind_res (target_email cx) (\<lambda>m. bind_res (find_user_by_email (cx_tenant cx) m db) (\<lambda>u.
       let details = [(''user_id'', JStr (usr_id u)), (''email'', JStr m), (''is_active'', JBool (usr_active u))]
       in Inr (result (''Enriched account '' @ m) details, remember ''enrich_user'' details cx)))"

definition classified :: "string \<Rightarrow> document list \<Rightarrow> bool" where
  "classified c ms \<longleftrightarrow> list_ex (\<lambda>m. get m ''classification'' = JStr c) ms"

definition check_ioc :: "'b dbenv_scheme \<Rightarrow> playbook_context \<Rightarrow> 'a core_db_scheme \<Rightarrow> service_error + action_result \<times> playbook_context" where
  "check_ioc e cx db =
     bind_res (target_ip cx) (\<lambda>ip.
       bind_res (case canonicalize ip None of Inl (InvalidIndicator m) \<Rightarrow> Inl (ActionTargetNotFound m)
           | Inl err \<Rightarrow> Inl (indicator_raised err) | Inr ct \<Rightarrow> Inr ct) (\<lambda>(canonical, kind).
       bind_res (match_indicators e (Some (cx_tenant cx)) [(kind, [canonical])] db) (\<lambda>ms.
       let details = [(''ip'', JStr ip), (''matches'', JList (map JObj ms))];
           verdict = (if classified ''malicious'' ms then ''known-malicious'' else ''no match'')
       in Inr (result (''IOC check for '' @ ip @ '': '' @ verdict) details, remember ''check_ioc'' details cx))))"

text \<open>The state holds what earlier actions of this call remembered: objects they built.\<close>

definition state_object :: "string \<Rightarrow> document \<Rightarrow> document" where
  "state_object name s = (case get s name of JObj d \<Rightarrow> d | _ \<Rightarrow> [])"

definition state_matches :: "document \<Rightarrow> document list" where
  "state_matches s = (case get (state_object ''check_ioc'' s) ''matches'' of
     JList xs \<Rightarrow> List.map_filter (\<lambda>x. case x of JObj d \<Rightarrow> Some d | _ \<Rightarrow> None) xs | _ \<Rightarrow> [])"

definition reputation_score :: "document \<Rightarrow> int" where
  "reputation_score s =
     (let ms = state_matches s;
          a = (if classified ''malicious'' ms then 70 else if classified ''suspicious'' ms then 40 else 0);
          crit = get (state_object ''asset'' (state_object ''enrich_ip'' s)) ''criticality''
      in min (a + (if crit \<in> {JStr ''HIGH'', JStr ''CRITICAL''} then 20 else 0)) 100)"

definition reputation_verdict :: "int \<Rightarrow> string" where
  "reputation_verdict n = (if n \<ge> 70 then ''malicious'' else if n \<ge> 30 then ''suspicious'' else ''unknown'')"

definition calculate_reputation :: "playbook_context \<Rightarrow> service_error + action_result \<times> playbook_context" where
  "calculate_reputation cx =
     (let n = reputation_score (cx_state cx); v = reputation_verdict n; details = [(''score'', JInt n), (''verdict'', JStr v)]
      in Inr (result (''Reputation: '' @ v @ '' ('' @ show_int n @ ''/100)'') details, remember ''calculate_reputation'' details cx))"

definition incident_title :: "playbook_context \<Rightarrow> string" where
  "incident_title cx = py_str (py_or (get (cx_params cx) ''title'')
     (case cx_alert cx of None \<Rightarrow> JStr ''Playbook-created incident'' | Some a \<Rightarrow> JStr (al_title a)))"

definition incident_description :: "document \<Rightarrow> string" where
  "incident_description s = str_join '' '' ([''Opened automatically by playbook step '' @ [CHR 0x27] @ ''create_incident'' @ [CHR 0x27] @ ''.'']
     @ (let r = state_object ''calculate_reputation'' s in if r = [] then []
        else [''Reputation: '' @ py_str (get r ''verdict'') @ '' ('' @ py_str (get r ''score'') @ ''/100).'']))"

definition create_incident_action ::
  "'b dbenv_scheme \<Rightarrow> playbook_context \<Rightarrow> 'a incident_db_scheme \<Rightarrow> service_error + (action_result \<times> playbook_context) \<times> 'a incident_db_scheme" where
  "create_incident_action e cx db =
     (let d = \<lparr>df_title = incident_title cx, df_description = Some (incident_description (cx_state cx)),
            df_severity = py_str (get_default (cx_params cx) ''severity'' (JStr ''medium'')), df_priority = None,
            df_alert_ids = (case cx_alert cx of None \<Rightarrow> [] | Some a \<Rightarrow> [al_id a])\<rparr>
      in bind_res (create_incident e (cx_tenant cx) d (cx_actor cx) None db) (\<lambda>(i, db').
         let details = [(''incident_id'', JStr (in_id i)), (''display_id'', JStr (in_display_id i))]
         in Inr ((result (''Opened '' @ in_display_id i) details, remember ''create_incident'' details (cx\<lparr>cx_incident := Some i\<rparr>)), db')))"

definition notify_analyst ::
  "'b dbenv_scheme \<Rightarrow> playbook_context \<Rightarrow> 'a incident_db_scheme \<Rightarrow> service_error + (action_result \<times> playbook_context) \<times> 'a incident_db_scheme" where
  "notify_analyst e cx db =
     (let message = py_str (get_default (cx_params cx) ''message'' (JStr ''Playbook run completed.''))
      in bind_res (case cx_incident cx of None \<Rightarrow> Inr db
           | Some i \<Rightarrow> bind_res (incident_add_note e (cx_tenant cx) (in_id i) message (cx_actor cx) db) (\<lambda>(_, db'). Inr db')) (\<lambda>db1.
         bind_res (record_audit_event e (cx_tenant cx) ''PLAYBOOK_NOTIFY'' (if cx_incident cx = None then ''alert'' else ''incident'') ''success''
             (cx_actor cx) None None
             (case cx_incident cx of Some i \<Rightarrow> Some (in_id i) | None \<Rightarrow> map_option al_id (cx_alert cx))
             None (Some [(''message'', JStr message)]) db1) (\<lambda>db2.
         let details = [(''message'', JStr message)]
         in Inr ((result ''Analyst notified'' details, remember ''notify_analyst'' details cx), db2))))"

section \<open>The gate\<close>

text \<open>\<open>require_approved\<close>: the grant is the identifier of an approved record of this exact run, step
  and action.\<close>

definition require_approved :: "playbook_context \<Rightarrow> string \<Rightarrow> nat \<Rightarrow> string \<Rightarrow> 'a playbook_db_scheme \<Rightarrow> service_error + string" where
  "require_approved cx run step action db =
     (case find (\<lambda>a. ap_tenant a = cx_tenant cx \<and> ap_run a = run \<and> ap_step a = step \<and> ap_action a = action \<and> ap_status a = ''APPROVED'')
         (approvals db) of
        None \<Rightarrow> Inl (ApprovalRequired (''step '' @ show_nat step @ '' ('' @ action @ '') has no approved record''))
      | Some a \<Rightarrow> Inr (ap_id a))"

text \<open>\<open>db.get(PlaybookActionApproval, id)\<close>.\<close>

definition find_approval :: "string \<Rightarrow> string \<Rightarrow> 'a playbook_db_scheme \<Rightarrow> approval option" where
  "find_approval tenant i db = find (\<lambda>a. ap_id a = i \<and> ap_tenant a = tenant) (approvals db)"

definition verify_grant :: "playbook_context \<Rightarrow> string \<Rightarrow> string \<Rightarrow> 'a playbook_db_scheme \<Rightarrow> service_error + unit" where
  "verify_grant cx name grant db = (case find_approval (cx_tenant cx) grant db of
     Some a \<Rightarrow> if ap_tenant a \<noteq> cx_tenant cx \<or> ap_action a \<noteq> name \<or> ap_status a \<noteq> ''APPROVED''
       then Inl (ApprovalRequired (''grant for '' @ name @ '' does not reference an approved record'')) else Inr ()
   | None \<Rightarrow> Inl (ApprovalRequired (''grant for '' @ name @ '' does not reference an approved record'')))"

definition disable_user ::
  "'b dbenv_scheme \<Rightarrow> playbook_context \<Rightarrow> string \<Rightarrow> 'a playbook_db_scheme \<Rightarrow> service_error + (action_result \<times> playbook_context) \<times> 'a playbook_db_scheme" where
  "disable_user e cx grant db =
     bind_res (verify_grant cx ''disable_user'' grant db) (\<lambda>_.
     bind_res (target_email cx) (\<lambda>m.
     bind_res (find_user_by_email (cx_tenant cx) m db) (\<lambda>u.
     bind_res (record_audit_event e (cx_tenant cx) ''PLAYBOOK_DISABLE_USER'' ''user'' ''success'' (cx_actor cx) None None (Some (usr_id u))
         (Some [(''is_active'', JBool (usr_active u))]) (Some [(''is_active'', JBool False)])
         (db\<lparr>users := update_rows (\<lambda>x. usr_id x = usr_id u) (\<lambda>x. x\<lparr>usr_active := False\<rparr>) (users db)\<rparr>)) (\<lambda>db'.
     let details = [(''user_id'', JStr (usr_id u)), (''email'', JStr m)]
     in Inr ((result (''Disabled account '' @ m) details, remember ''disable_user'' details cx), db')))))"

definition isolate_host ::
  "'b dbenv_scheme \<Rightarrow> playbook_context \<Rightarrow> string \<Rightarrow> 'a playbook_db_scheme \<Rightarrow> service_error + (action_result \<times> playbook_context) \<times> 'a playbook_db_scheme" where
  "isolate_host e cx grant db =
     bind_res (verify_grant cx ''isolate_host'' grant db) (\<lambda>_.
     bind_res (target_hostname cx) (\<lambda>h.
     bind_res (find_asset_by_host (cx_tenant cx) h db) (\<lambda>a.
     bind_res (record_audit_event e (cx_tenant cx) ''PLAYBOOK_ISOLATE_HOST'' ''asset'' ''success'' (cx_actor cx) None None (Some (ast_id a))
         (Some [(''is_isolated'', JBool (ast_isolated a))]) (Some [(''is_isolated'', JBool True)])
         (db\<lparr>assets := update_rows (\<lambda>x. ast_id x = ast_id a) (\<lambda>x. x\<lparr>ast_isolated := True, ast_isolated_at := Some (utcnow e)\<rparr>) (assets db)\<rparr>)) (\<lambda>db'.
     let details = [(''asset_id'', JStr (ast_id a)), (''hostname'', JStr h)]
     in Inr ((result (''Marked '' @ h @ '' contained'') details, remember ''isolate_host'' details cx), db')))))"

section \<open>The registry\<close>

definition DESTRUCTIVE_ACTIONS :: "string list" where "DESTRUCTIVE_ACTIONS = [''disable_user'', ''isolate_host'']"

definition ACTION_REGISTRY :: "string list" where
  "ACTION_REGISTRY = [''enrich_ip'', ''enrich_host'', ''enrich_user'', ''check_ioc'', ''calculate_reputation'', ''create_incident'',
     ''notify_analyst''] @ DESTRUCTIVE_ACTIONS"

definition preview :: "string \<Rightarrow> playbook_context \<Rightarrow> service_error + action_result" where
  "preview name cx =
     (if name = ''enrich_ip'' then bind_res (target_ip cx) (\<lambda>ip. Inr (result (''Would look up asset and network context for '' @ ip) []))
      else if name = ''enrich_host'' then bind_res (target_hostname cx) (\<lambda>h. Inr (result (''Would look up asset context for '' @ h) []))
      else if name = ''enrich_user'' then bind_res (target_email cx) (\<lambda>m. Inr (result (''Would look up account context for '' @ m) []))
      else if name = ''check_ioc'' then bind_res (target_ip cx) (\<lambda>ip. Inr (result (''Would check '' @ ip @ '' against known indicators'') []))
      else if name = ''calculate_reputation'' then Inr (result ''Would compute a reputation score from prior enrichment'' [])
      else if name = ''create_incident'' then Inr (result (''Would open an incident: '' @ incident_title cx) [])
      else if name = ''notify_analyst'' then Inr (result ''Would record a note on the incident and an audit entry'' [])
      else if name = ''disable_user'' then bind_res (target_email cx) (\<lambda>m.
        Inr (result (''Would disable the account '' @ m) [(''email'', JStr m), (''destructive'', JBool True)]))
      else bind_res (target_hostname cx) (\<lambda>h.
        Inr (result (''Would mark '' @ h @ '' contained'') [(''hostname'', JStr h), (''destructive'', JBool True)])))"

definition execute ::
  "'b dbenv_scheme \<Rightarrow> string \<Rightarrow> playbook_context \<Rightarrow> 'a playbook_db_scheme \<Rightarrow> service_error + (action_result \<times> playbook_context) \<times> 'a playbook_db_scheme" where
  "execute e name cx db =
     (let read = (\<lambda>r. bind_res r (\<lambda>x. Inr (x, db))) in
      if name = ''enrich_ip'' then read (enrich_ip e cx db)
      else if name = ''enrich_host'' then read (enrich_host cx db)
      else if name = ''enrich_user'' then read (enrich_user cx db)
      else if name = ''check_ioc'' then read (check_ioc e cx db)
      else if name = ''calculate_reputation'' then read (calculate_reputation cx)
      else if name = ''create_incident'' then create_incident_action e cx db
      else notify_analyst e cx db)"

definition execute_destructive ::
  "'b dbenv_scheme \<Rightarrow> string \<Rightarrow> playbook_context \<Rightarrow> string \<Rightarrow> 'a playbook_db_scheme \<Rightarrow>
   service_error + (action_result \<times> playbook_context) \<times> 'a playbook_db_scheme" where
  "execute_destructive e name cx grant db = (if name = ''disable_user'' then disable_user e cx grant db else isolate_host e cx grant db)"

section \<open>Rows of the run and approval tables\<close>

definition check_run :: "'a playbook_db_scheme \<Rightarrow> playbook_run \<Rightarrow> service_error + unit" where
  "check_run db r = require [fk_org db (run_tenant r),
     (run_playbook_id r \<in> pb_id ` set (playbooks db), IntegrityError ''foreign key: playbooks''), fk_user db (run_by r),
     (pred_option (\<lambda>a. a \<in> al_id ` set (alerts db)) (run_alert r), IntegrityError ''foreign key: alerts''),
     (pred_option (\<lambda>i. i \<in> in_id ` set (incidents db)) (run_incident r), IntegrityError ''foreign key: incidents''),
     (int4 (int (run_step r)), DataError ''current_step''), (list_all (\<lambda>d. jsonb_ok (JObj d)) (run_results r), DataError ''results''),
     (pred_option text_ok (run_error r), DataError ''error''), (run_status r \<in> set RUN_STATUSES, IntegrityError ''ck_playbook_runs_status'')]"

definition save_run :: "playbook_run \<Rightarrow> 'a playbook_db_scheme \<Rightarrow> service_error + 'a playbook_db_scheme" where
  "save_run r db = bind_res (check_run db r) (\<lambda>_.
     Inr (db\<lparr>playbook_runs := update_rows (\<lambda>x. run_id x = run_id r) (\<lambda>_. r) (playbook_runs db)\<rparr>))"

definition insert_run :: "playbook_run \<Rightarrow> 'a playbook_db_scheme \<Rightarrow> service_error + 'a playbook_db_scheme" where
  "insert_run r db = bind_res (check_run db r) (\<lambda>_. bind_res (require
     [(run_id r \<notin> run_id ` set (playbook_runs db), IntegrityError ''playbook_runs_pkey'')])
     (\<lambda>_. Inr (db\<lparr>drawn := Suc (drawn db), playbook_runs := playbook_runs db @ [r]\<rparr>)))"

definition check_approval :: "'a playbook_db_scheme \<Rightarrow> approval \<Rightarrow> service_error + unit" where
  "check_approval db a = require [fk_org db (ap_tenant a),
     (ap_run a \<in> run_id ` set (playbook_runs db), IntegrityError ''foreign key: playbook_runs''),
     (int4 (int (ap_step a)), DataError ''step_index''), (text_ok (ap_action a), DataError ''action_name''),
     (jsonb_ok (JObj (ap_preview a)), DataError ''preview''), fk_user db (Some (ap_requested_by a)), fk_user db (ap_decided_by a),
     (pred_option text_ok (ap_reason a), DataError ''reason''),
     (ap_status a \<in> set APPROVAL_STATUSES, IntegrityError ''ck_playbook_approvals_status''),
     (ap_decided_by a = None \<or> ap_decided_by a \<noteq> Some (ap_requested_by a), IntegrityError ''ck_playbook_action_approvals_dual_control'')]"

definition save_approval :: "approval \<Rightarrow> 'a playbook_db_scheme \<Rightarrow> service_error + 'a playbook_db_scheme" where
  "save_approval a db = bind_res (check_approval db a) (\<lambda>_.
     Inr (db\<lparr>approvals := update_rows (\<lambda>x. ap_id x = ap_id a) (\<lambda>_. a) (approvals db)\<rparr>))"

definition create_pending_approval ::
  "'b dbenv_scheme \<Rightarrow> playbook_run \<Rightarrow> nat \<Rightarrow> string \<Rightarrow> document \<Rightarrow> string \<Rightarrow> 'a playbook_db_scheme \<Rightarrow> service_error + 'a playbook_db_scheme" where
  "create_pending_approval e run step action details requested_by db =
     (let a = \<lparr>ap_id = fresh_id e db, ap_tenant = run_tenant run, ap_run = run_id run, ap_step = step, ap_action = action, ap_preview = details,
          ap_status = ''PENDING_APPROVAL'', ap_requested_by = requested_by, ap_requested_at = pg_now e, ap_decided_by = None,
          ap_decided_at = None, ap_reason = None\<rparr>
      in bind_res (check_approval db a) (\<lambda>_.
         bind_res (require [(ap_id a \<notin> ap_id ` set (approvals db), IntegrityError ''playbook_action_approvals_pkey'')]) (\<lambda>_.
         record_audit_event e (run_tenant run) ''PLAYBOOK_APPROVAL_REQUESTED'' ''playbook_action_approval'' ''success'' (Some requested_by)
           None None (Some (ap_id a)) None (Some [(''action'', JStr action), (''step_index'', JInt (int step))])
           (db\<lparr>drawn := Suc (drawn db), approvals := approvals db @ [a]\<rparr>))))"

section \<open>The engine\<close>

record step_outcome =
  oc_index :: nat
  oc_action :: string
  oc_kind :: string
  oc_summary :: string
  oc_details :: document

definition outcome :: "nat \<Rightarrow> string \<Rightarrow> string \<Rightarrow> action_result \<Rightarrow> step_outcome" where
  "outcome i a k r = \<lparr>oc_index = i, oc_action = a, oc_kind = k, oc_summary = ar_summary r, oc_details = ar_details r\<rparr>"

definition outcome_dict :: "step_outcome \<Rightarrow> document" where
  "outcome_dict o1 = [(''step_index'', JInt (int (oc_index o1))), (''action'', JStr (oc_action o1)), (''kind'', JStr (oc_kind o1)),
     (''summary'', JStr (oc_summary o1)), (''details'', JObj (oc_details o1))]"

definition load_context :: "string option \<Rightarrow> playbook_run \<Rightarrow> 'a playbook_db_scheme \<Rightarrow> playbook_context" where
  "load_context actor run db =
     \<lparr>cx_tenant = run_tenant run, cx_actor = actor,
      cx_alert = (case run_alert run of None \<Rightarrow> None | Some a \<Rightarrow> find (\<lambda>x. al_id x = a \<and> al_tenant x = run_tenant run) (alerts db)),
      cx_incident = (case run_incident run of None \<Rightarrow> None | Some i \<Rightarrow> find (\<lambda>x. in_id x = i \<and> in_tenant x = run_tenant run) (incidents db)),
      cx_params = [], cx_state = []\<rparr>"

text \<open>One step outside a dry run: the action is executed, or an approval is requested. The errors the
  engine catches fail the run; every other exception leaves the call.\<close>

datatype 'db attempt = Executed action_result playbook_context 'db | Awaiting action_result 'db

definition attempt_step ::
  "'b dbenv_scheme \<Rightarrow> string option \<Rightarrow> playbook_run \<Rightarrow> nat \<Rightarrow> string \<Rightarrow> playbook_context \<Rightarrow> 'a playbook_db_scheme \<Rightarrow>
   service_error + 'a playbook_db_scheme attempt" where
  "attempt_step e actor run index name cx db =
     (if name \<in> set DESTRUCTIVE_ACTIONS then
        (case require_approved cx (run_id run) index name db of
           Inl err \<Rightarrow> (case actor of None \<Rightarrow> Inl err
             | Some u \<Rightarrow> bind_res (preview name cx) (\<lambda>p.
                 bind_res (create_pending_approval e run index name (ar_details p) u db) (\<lambda>db'. Inr (Awaiting p db'))))
         | Inr grant \<Rightarrow> bind_res (execute_destructive e name cx grant db) (\<lambda>((r, cx'), db1).
             case find_approval (cx_tenant cx) grant db1 of None \<Rightarrow> Inl AssertionError
             | Some a \<Rightarrow> bind_res (save_approval (a\<lparr>ap_status := ''EXECUTED''\<rparr>) db1) (\<lambda>db2. Inr (Executed r cx' db2))))
      else bind_res (execute e name cx db) (\<lambda>((r, cx'), db'). Inr (Executed r cx' db')))"

fun caught :: "service_error \<Rightarrow> string option" where
  "caught (ActionTargetNotFound m) = Some m"
| "caught (ApprovalRequired m) = Some m"
| "caught _ = None"

definition add_result :: "step_outcome \<Rightarrow> playbook_run \<Rightarrow> playbook_run" where
  "add_result oc run = run\<lparr>run_results := run_results run @ [outcome_dict oc]\<rparr>"

fun run_steps ::
  "'b dbenv_scheme \<Rightarrow> string option \<Rightarrow> nat \<Rightarrow> step_definition list \<Rightarrow> playbook_context \<Rightarrow> playbook_run \<times> 'a playbook_db_scheme \<Rightarrow>
   service_error + step_outcome list \<times> playbook_run \<times> 'a playbook_db_scheme" where
  "run_steps e actor index [] cx (run, db) = Inr ([], run\<lparr>run_status := ''COMPLETED''\<rparr>, db)"
| "run_steps e actor index (s # ss) cx0 (run, db) =
     (let name = st_action s; cx = cx0\<lparr>cx_params := st_params s\<rparr> in
      if name \<notin> set ACTION_REGISTRY then Inl (Raised (KeyError name))
      else if run_dry run then bind_res (preview name cx) (\<lambda>p.
        let oc = outcome index name ''preview'' p in
        bind_res (run_steps e actor (Suc index) ss cx (add_result oc run, db)) (\<lambda>(ocs, r, db'). Inr (oc # ocs, r, db')))
      else case attempt_step e actor run index name cx db of
        Inl err \<Rightarrow> (case caught err of None \<Rightarrow> Inl err
          | Some m \<Rightarrow> let oc = outcome index name ''error'' (result m []) in
              Inr ([oc], add_result oc (run\<lparr>run_status := ''FAILED'', run_error := Some m, run_step := index\<rparr>), db))
      | Inr (Awaiting p db') \<Rightarrow>
          Inr ([outcome index name ''awaiting_approval'' p], run\<lparr>run_status := ''AWAITING_APPROVAL'', run_step := index\<rparr>, db')
      | Inr (Executed r cx' db') \<Rightarrow>
          let oc = outcome index name ''result'' r;
              run1 = (add_result oc run)\<lparr>run_step := Suc index\<rparr>;
              run2 = (case cx_incident cx' of None \<Rightarrow> run1 | Some i \<Rightarrow> run1\<lparr>run_incident := Some (in_id i)\<rparr>)
          in bind_res (run_steps e actor (Suc index) ss cx' (run2, db')) (\<lambda>(ocs, r', db''). Inr (oc # ocs, r', db'')))"

definition run_playbook ::
  "'b dbenv_scheme \<Rightarrow> string option \<Rightarrow> playbook \<Rightarrow> playbook_run \<Rightarrow> 'a playbook_db_scheme \<Rightarrow>
   service_error + step_outcome list \<times> playbook_run \<times> 'a playbook_db_scheme" where
  "run_playbook e actor pb run db =
     (if \<not> definition_valid (pb_definition pb) then Inl (Raised (ValueError ''invalid playbook definition''))
      else bind_res (run_steps e actor (run_step run) (drop (run_step run) (pd_steps (pb_definition pb))) (load_context actor run db)
             (run\<lparr>run_status := ''RUNNING''\<rparr>, db)) (\<lambda>(ocs, run', db').
           bind_res (save_run run' db') (\<lambda>db''. Inr (ocs, run', db''))))"

section \<open>The service\<close>

definition get_by_key :: "string \<Rightarrow> string \<Rightarrow> 'a playbook_db_scheme \<Rightarrow> playbook option" where
  "get_by_key tenant key db = find (\<lambda>p. pb_tenant p = tenant \<and> pb_key p = key) (playbooks db)"

definition get_playbook :: "string \<Rightarrow> string \<Rightarrow> 'a playbook_db_scheme \<Rightarrow> service_error + playbook" where
  "get_playbook tenant key db = (case get_by_key tenant key db of None \<Rightarrow> Inl (NotFoundError key) | Some p \<Rightarrow> Inr p)"

definition list_playbooks :: "string \<Rightarrow> 'a playbook_db_scheme \<Rightarrow> playbook list" where
  "list_playbooks tenant db = sort_key pb_key (filter (\<lambda>p. pb_tenant p = tenant) (playbooks db))"

definition insert_playbook :: "playbook \<Rightarrow> 'a playbook_db_scheme \<Rightarrow> service_error + 'a playbook_db_scheme" where
  "insert_playbook p db = bind_res (require [fk_org db (pb_tenant p), (varchar 50 (pb_key p), DataError ''key''), (varchar 200 (pb_name p), DataError ''name''),
       (pred_option text_ok (pb_description p), DataError ''description''),
       (list_all (\<lambda>s. text_ok (st_action s) \<and> jsonb_ok (JObj (st_params s))) (pd_steps (pb_definition p)), DataError ''definition''),
       fk_user db (pb_created_by p), (pb_trigger p \<in> set TRIGGER_TYPES, IntegrityError ''ck_playbooks_trigger_type''),
       (pb_status p \<in> set PLAYBOOK_STATUSES, IntegrityError ''ck_playbooks_status''),
       (pb_id p \<notin> pb_id ` set (playbooks db), IntegrityError ''playbooks_pkey''),
       (get_by_key (pb_tenant p) (pb_key p) db = None, IntegrityError ''idx_playbooks_tenant_key'')])
     (\<lambda>_. Inr (db\<lparr>drawn := Suc (drawn db), playbooks := playbooks db @ [p]\<rparr>))"

definition create_playbook ::
  "'b dbenv_scheme \<Rightarrow> string \<Rightarrow> playbook_definition \<Rightarrow> string option \<Rightarrow> string option \<Rightarrow> 'a playbook_db_scheme \<Rightarrow>
   service_error + playbook \<times> 'a playbook_db_scheme" where
  "create_playbook e tenant d actor ip db =
     (let unknown = filter (\<lambda>a. a \<notin> set ACTION_REGISTRY) (map st_action (pd_steps d)) in
      if get_by_key tenant (pd_key d) db \<noteq> None then Inl (DuplicateError (pd_key d))
      else if unknown \<noteq> [] then Inl (UnknownAction (''unknown action(s): '' @ str_join '', '' unknown))
      else let p = \<lparr>pb_id = fresh_id e db, pb_tenant = tenant, pb_key = pd_key d, pb_name = pd_name d, pb_description = pd_description d,
               pb_trigger = pd_trigger d, pb_definition = d, pb_status = ''enabled'', pb_created_by = actor\<rparr> in
        bind_res (insert_playbook p db) (\<lambda>db1.
        bind_res (record_audit_event e tenant ''CREATE_PLAYBOOK'' ''playbook'' ''success'' actor ip None (Some (pb_key p)) None
          (Some [(''name'', JStr (pb_name p)), (''steps'', JInt (int (length (pd_steps d))))]) db1) (\<lambda>db2.
        Inr (p, db2))))"

text \<open>The playbook files of a directory, in path order: what \<open>yaml.safe_load\<close> and the schema
  make of each is given with its path.\<close>

datatype playbook_file = BadYaml string | NotMapping | Invalid string | Definition playbook_definition

record load_result =
  lr_playbooks :: "playbook_definition list"
  lr_errors :: "string list"

definition load_error :: "string \<Rightarrow> string \<Rightarrow> load_result \<Rightarrow> load_result" where
  "load_error path m r = r\<lparr>lr_errors := lr_errors r @ [path @ '': '' @ m]\<rparr>"

fun load_files :: "(string \<times> playbook_file) list \<Rightarrow> string dict \<Rightarrow> load_result \<Rightarrow> load_result" where
  "load_files [] seen r = r"
| "load_files ((path, f) # fs) seen r = (case f of
     BadYaml m \<Rightarrow> load_files fs seen (load_error path (''invalid YAML: '' @ m) r)
   | NotMapping \<Rightarrow> load_files fs seen (load_error path ''playbook document must be a mapping'' r)
   | Invalid m \<Rightarrow> load_files fs seen (load_error path m r)
   | Definition d \<Rightarrow>
       let unknown = filter (\<lambda>a. a \<notin> set ACTION_REGISTRY) (map st_action (pd_steps d)) in
       if unknown \<noteq> [] then load_files fs seen (load_error path (''unknown action(s): '' @ str_join '', '' unknown) r)
       else (case dict_get seen (pd_key d) of
          Some other \<Rightarrow> load_files fs seen (load_error path (''duplicate playbook key '' @ pd_key d @ '' (already in '' @ other @ '')'') r)
        | None \<Rightarrow> load_files fs (dict_set (pd_key d) path seen) (r\<lparr>lr_playbooks := lr_playbooks r @ [d]\<rparr>)))"

definition load_playbooks :: "string \<Rightarrow> (string \<times> playbook_file) list option \<Rightarrow> load_result" where
  "load_playbooks directory files = (case files of
     None \<Rightarrow> \<lparr>lr_playbooks = [], lr_errors = [''playbook directory does not exist: '' @ directory]\<rparr>
   | Some fs \<Rightarrow> load_files (sort_key fst fs) [] \<lparr>lr_playbooks = [], lr_errors = []\<rparr>)"

fun install_playbooks ::
  "'b dbenv_scheme \<Rightarrow> string \<Rightarrow> string option \<Rightarrow> playbook_definition list \<Rightarrow> 'a playbook_db_scheme \<Rightarrow>
   service_error + string list \<times> 'a playbook_db_scheme" where
  "install_playbooks e tenant actor [] db = Inr ([], db)"
| "install_playbooks e tenant actor (d # ds) db =
     (if get_by_key tenant (pd_key d) db \<noteq> None then install_playbooks e tenant actor ds db
      else bind_res (create_playbook e tenant d actor None db) (\<lambda>(_, db1).
           bind_res (install_playbooks e tenant actor ds db1) (\<lambda>(ks, db2). Inr (pd_key d # ks, db2))))"

definition install_default_playbooks ::
  "'b dbenv_scheme \<Rightarrow> string \<Rightarrow> string option \<Rightarrow> load_result \<Rightarrow> 'a playbook_db_scheme \<Rightarrow> service_error + string list \<times> 'a playbook_db_scheme" where
  "install_default_playbooks e tenant actor r db =
     (if lr_errors r \<noteq> [] then Inl (Raised (ValueError (str_join ''; '' (lr_errors r))))
      else install_playbooks e tenant actor (lr_playbooks r) db)"

section \<open>Runs and approvals\<close>

definition start_run ::
  "'b dbenv_scheme \<Rightarrow> string \<Rightarrow> playbook \<Rightarrow> string option \<Rightarrow> bool \<Rightarrow> string option \<Rightarrow> 'a playbook_db_scheme \<Rightarrow>
   service_error + playbook_run \<times> step_outcome list \<times> 'a playbook_db_scheme" where
  "start_run e tenant pb actor dry alert_id db =
     bind_res (case alert_id of None \<Rightarrow> Inr ()
       | Some a \<Rightarrow> if find (\<lambda>x. al_tenant x = tenant \<and> al_id x = a) (alerts db) = None
           then Inl (Raised (ValueError (''no alert '' @ a @ '' in this tenant''))) else Inr ()) (\<lambda>_.
     let run = \<lparr>run_id = fresh_id e db, run_tenant = tenant, run_playbook_id = pb_id pb, run_status = ''PENDING'', run_dry = dry,
          run_by = actor, run_alert = alert_id, run_incident = None, run_step = 0, run_results = [], run_error = None,
          run_started = pg_now e, run_completed = None\<rparr> in
     bind_res (insert_run run db) (\<lambda>db1.
     bind_res (record_audit_event e tenant ''PLAYBOOK_RUN_STARTED'' ''playbook_run'' ''success'' actor None None (Some (run_id run)) None
         (Some [(''playbook'', JStr (pb_key pb)), (''dry_run'', JBool dry)]) db1) (\<lambda>db2.
     bind_res (run_playbook e actor pb run db2) (\<lambda>(ocs, run', db3). Inr (run', ocs, db3)))))"

definition get_run :: "string \<Rightarrow> string \<Rightarrow> 'a playbook_db_scheme \<Rightarrow> service_error + playbook_run" where
  "get_run tenant i db = (case find (\<lambda>r. run_tenant r = tenant \<and> run_id r = i) (playbook_runs db) of
     None \<Rightarrow> Inl (NotFoundError i) | Some r \<Rightarrow> Inr r)"

definition list_runs :: "string \<Rightarrow> 'a playbook_db_scheme \<Rightarrow> playbook_run list" where
  "list_runs tenant db = sort_key (\<lambda>r. - run_started r) (filter (\<lambda>r. run_tenant r = tenant) (playbook_runs db))"

definition list_pending_approvals :: "string \<Rightarrow> 'a playbook_db_scheme \<Rightarrow> approval list" where
  "list_pending_approvals tenant db =
     sort_key ap_requested_at (filter (\<lambda>a. ap_tenant a = tenant \<and> ap_status a = ''PENDING_APPROVAL'') (approvals db))"

definition get_approval :: "string \<Rightarrow> string \<Rightarrow> 'a playbook_db_scheme \<Rightarrow> service_error + approval" where
  "get_approval tenant i db = (case find_approval tenant i db of None \<Rightarrow> Inl (NotFoundError i) | Some a \<Rightarrow> Inr a)"

text \<open>The checks both decisions make.\<close>

definition decidable :: "string \<Rightarrow> string \<Rightarrow> string \<Rightarrow> string \<Rightarrow> 'a playbook_db_scheme \<Rightarrow> service_error + approval" where
  "decidable what tenant i approver db =
     bind_res (get_approval tenant i db) (\<lambda>a.
       if ap_status a \<noteq> ''PENDING_APPROVAL'' then Inl (InvalidState (''approval is '' @ ap_status a @ '', not PENDING_APPROVAL''))
       else if approver = ap_requested_by a then Inl (SelfApprovalError what) else Inr a)"

definition approve_action ::
  "'b dbenv_scheme \<Rightarrow> string \<Rightarrow> string \<Rightarrow> string \<Rightarrow> string option \<Rightarrow> 'a playbook_db_scheme \<Rightarrow>
   service_error + (approval \<times> playbook_run \<times> step_outcome list) \<times> 'a playbook_db_scheme" where
  "approve_action e tenant i approver ip db =
     bind_res (decidable ''the requester cannot approve their own destructive action'' tenant i approver db) (\<lambda>a.
     let a' = a\<lparr>ap_status := ''APPROVED'', ap_decided_by := Some approver, ap_decided_at := Some (utcnow e)\<rparr> in
     bind_res (save_approval a' db) (\<lambda>db1.
     bind_res (record_audit_event e tenant ''PLAYBOOK_APPROVAL_GRANTED'' ''playbook_action_approval'' ''success'' (Some approver) ip None
         (Some (ap_id a)) (Some [(''status'', JStr ''PENDING_APPROVAL'')])
         (Some [(''status'', JStr ''APPROVED''), (''requested_by'', JStr (ap_requested_by a))]) db1) (\<lambda>db2.
     bind_res (get_run tenant (ap_run a) db2) (\<lambda>run.
     case find (\<lambda>p. pb_id p = run_playbook_id run \<and> pb_tenant p = tenant) (playbooks db2) of None \<Rightarrow> Inl AssertionError
     | Some pb \<Rightarrow>
        bind_res (run_playbook e (run_by run) pb run db2) (\<lambda>(ocs, run', db3).
        Inr ((case find_approval tenant i db3 of Some x \<Rightarrow> x | None \<Rightarrow> a', run', ocs), db3))))))"

definition reject_action ::
  "'b dbenv_scheme \<Rightarrow> string \<Rightarrow> string \<Rightarrow> string \<Rightarrow> string \<Rightarrow> string option \<Rightarrow> 'a playbook_db_scheme \<Rightarrow>
   service_error + approval \<times> 'a playbook_db_scheme" where
  "reject_action e tenant i approver why ip db =
     bind_res (decidable ''the requester cannot reject their own request'' tenant i approver db) (\<lambda>a.
     let a' = a\<lparr>ap_status := ''REJECTED'', ap_decided_by := Some approver, ap_reason := Some why, ap_decided_at := Some (utcnow e)\<rparr> in
     bind_res (save_approval a' db) (\<lambda>db1.
     bind_res (get_run tenant (ap_run a) db1) (\<lambda>run.
     bind_res (save_run (run\<lparr>run_status := ''REJECTED'',
         run_error := Some (''step '' @ show_nat (ap_step a) @ '' ('' @ ap_action a @ '') rejected: '' @ why)\<rparr>) db1) (\<lambda>db2.
     bind_res (record_audit_event e tenant ''PLAYBOOK_APPROVAL_REJECTED'' ''playbook_action_approval'' ''success'' (Some approver) ip None
         (Some (ap_id a)) None (Some [(''status'', JStr ''REJECTED''), (''reason'', JStr why)]) db2) (\<lambda>db3.
     Inr (a', db3))))))"

section \<open>What leaves the accounts and hosts alone\<close>

text \<open>A containment is an audit entry of an executed destructive action.\<close>

definition containment_action :: "string \<Rightarrow> string" where
  "containment_action name = (if name = ''disable_user'' then ''PLAYBOOK_DISABLE_USER'' else ''PLAYBOOK_ISOLATE_HOST'')"

definition containments :: "'a core_db_scheme \<Rightarrow> audit_log list" where
  "containments db = filter (\<lambda>l. aud_action l \<in> containment_action ` set DESTRUCTIVE_ACTIONS) (audit_logs db)"

definition is_executed :: "approval \<Rightarrow> bool" where
  "is_executed a \<longleftrightarrow> ap_status a = ''EXECUTED''"

definition untouched :: "'a playbook_db_scheme \<Rightarrow> 'a playbook_db_scheme \<Rightarrow> bool" where
  "untouched db db' \<longleftrightarrow> users db' = users db \<and> assets db' = assets db \<and> containments db' = containments db
     \<and> playbooks db' = playbooks db \<and> playbook_runs db' = playbook_runs db"

lemma containment_names: "containment_action ` set DESTRUCTIVE_ACTIONS = {''PLAYBOOK_DISABLE_USER'', ''PLAYBOOK_ISOLATE_HOST''}"
  by (auto simp: containment_action_def DESTRUCTIVE_ACTIONS_def)

definition frame :: "'a playbook_db_scheme \<Rightarrow> 'a playbook_db_scheme \<Rightarrow> bool" where
  "frame db db' \<longleftrightarrow> untouched db db' \<and> approvals db' = approvals db"

lemma frame_refl [intro!]: "frame db db"
  by (simp add: frame_def untouched_def)

lemma frame_trans: "frame db db1 \<Longrightarrow> frame db1 db2 \<Longrightarrow> frame db db2"
  by (simp add: frame_def untouched_def)

lemma frame_audit:
  assumes "record_audit_event e t act ot r u ip ua oid b a db = Inr db'" "act \<notin> containment_action ` set DESTRUCTIVE_ACTIONS"
  shows "frame db db'"
  using record_audit_event_Inr [OF assms(1)] assms(2) by (auto simp: frame_def untouched_def containments_def)

lemma frame_timeline: "record_timeline e t i k s d u db = Inr db' \<Longrightarrow> frame db db'"
  by (auto simp: frame_def untouched_def containments_def record_timeline_def bind_res_Inr)

lemma frame_link_alert: "link_alert e t i a u db = Inr (r, db') \<Longrightarrow> frame db db'"
  by (auto simp: link_alert_def bind_res_Inr frame_def untouched_def containments_def split: option.splits if_splits dest!: frame_timeline)

lemma frame_link_alerts: "link_alerts e t i as u db = Inr db' \<Longrightarrow> frame db db'"
  by (induction as arbitrary: db) (auto simp: bind_res_Inr intro: frame_trans dest!: frame_link_alert)

lemma frame_insert_incident: "insert_incident i db = Inr db' \<Longrightarrow> frame db db'"
  by (auto simp: insert_incident_Inr frame_def untouched_def containments_def)

lemma frame_incident_id: "incident_next_display_id e t db = Inr (d, db') \<Longrightarrow> frame db db'"
  by (auto dest!: incident_next_display_id_Inr simp: frame_def untouched_def containments_def)

lemma frame_create_incident:
  assumes "create_incident e t d u ip db = Inr (i, db')"
  shows "frame db db'"
proof -
  obtain disp db1 db2 db3 db4 where s: "incident_next_display_id e t db = Inr (disp, db1)" "insert_incident i db1 = Inr db2"
    "record_timeline e t (in_id i) ''created'' (disp @ '' opened'')
         [(''severity'', JStr (in_severity i)), (''priority'', JStr (in_priority i))] u db2 = Inr db3"
    "link_alerts e t (in_id i) (df_alert_ids d) u db3 = Inr db4"
    and a: "record_audit_event e t ''CREATE_INCIDENT'' ''incident'' ''success'' u ip None (Some disp) None
           (Some [(''title'', JStr (in_title i)), (''severity'', JStr (in_severity i)),
             (''alerts'', JInt (int (length (df_alert_ids d))))]) db4 = Inr db'"
    using assms by (auto simp: create_incident_def bind_res_Inr Let_def)
  have "frame db4 db'" by (rule frame_audit [OF a]) (simp add: containment_names)
  thus ?thesis using frame_incident_id [OF s(1)] frame_insert_incident [OF s(2)] frame_timeline [OF s(3)] frame_link_alerts [OF s(4)]
    by (blast intro: frame_trans)
qed

lemma frame_add_note:
  assumes "incident_add_note e t i body u db = Inr (n, db')"
  shows "frame db db'"
proof -
  obtain s d where "record_timeline e t i ''note'' s d u (db\<lparr>drawn := Suc (drawn db), incident_notes := incident_notes db @ [n]\<rparr>) = Inr db'"
    using assms by (auto simp: incident_add_note_def bind_res_Inr Let_def)
  from frame_timeline [OF this] show ?thesis by (simp add: frame_def untouched_def containments_def)
qed

lemma frame_notify:
  assumes "notify_analyst e cx db = Inr ((r, cx'), db')"
  shows "frame db db'"
proof -
  define m where "m = py_str (get_default (cx_params cx) ''message'' (JStr ''Playbook run completed.''))"
  obtain db1 where n: "(case cx_incident cx of None \<Rightarrow> Inr db
        | Some i \<Rightarrow> bind_res (incident_add_note e (cx_tenant cx) (in_id i) m (cx_actor cx) db) (\<lambda>(_, db'). Inr db')) = Inr db1"
    and a: "record_audit_event e (cx_tenant cx) ''PLAYBOOK_NOTIFY'' (if cx_incident cx = None then ''alert'' else ''incident'') ''success''
        (cx_actor cx) None None (case cx_incident cx of Some i \<Rightarrow> Some (in_id i) | None \<Rightarrow> map_option al_id (cx_alert cx))
        None (Some [(''message'', JStr m)]) db1 = Inr db'"
    using assms unfolding notify_analyst_def m_def [symmetric] Let_def bind_res_Inr by fastforce
  have "frame db db1" using n by (auto simp: bind_res_Inr split: option.splits dest!: frame_add_note)
  moreover have "frame db1 db'" by (rule frame_audit [OF a]) (simp add: containment_names)
  ultimately show ?thesis by (rule frame_trans)
qed

lemma frame_execute: "execute e name cx db = Inr ((r, cx'), db') \<Longrightarrow> frame db db'"
  by (auto simp: execute_def create_incident_action_def bind_res_Inr Let_def split: if_splits dest!: frame_create_incident frame_notify)

section \<open>Dual control\<close>

text \<open>Every containment has its own executed approval of the same tenant and action, and every
  decided approval was decided by somebody else than the requester.\<close>

definition ledger :: "'a core_db_scheme \<Rightarrow> (string \<times> string) multiset" where
  "ledger db = mset (map (\<lambda>l. (aud_tenant l, aud_action l)) (containments db))"

definition executions :: "'a playbook_db_scheme \<Rightarrow> (string \<times> string) multiset" where
  "executions db = mset (map (\<lambda>a. (ap_tenant a, containment_action (ap_action a))) (filter is_executed (approvals db)))"

definition dual_control :: "approval \<Rightarrow> bool" where
  "dual_control a \<longleftrightarrow> ap_status a = ''PENDING_APPROVAL'' \<or> (\<exists>u. ap_decided_by a = Some u \<and> u \<noteq> ap_requested_by a)"

definition controlled :: "'a playbook_db_scheme \<Rightarrow> bool" where
  "controlled db \<longleftrightarrow> distinct (map ap_id (approvals db)) \<and> ledger db = executions db \<and> list_all dual_control (approvals db)"

lemma controlled_frame: "frame db db' \<Longrightarrow> controlled db \<Longrightarrow> controlled db'"
  by (simp add: frame_def untouched_def controlled_def ledger_def executions_def)

lemma find_approval_Some:
  "find_approval t i db = Some a \<Longrightarrow> a \<in> set (approvals db) \<and> ap_id a = i \<and> ap_tenant a = t"
  unfolding find_approval_def by (auto dest: find_Some_mem)

lemma update_rows_key_eq:
  assumes "distinct (map key xs)" "a \<in> set xs" "x \<in> set xs" "key x = key a"
  shows "x = a"
  using assms by (simp add: distinct_map inj_on_def)

lemma filter_update_rows:
  assumes "\<And>x. x \<in> set xs \<Longrightarrow> key x = k \<Longrightarrow> \<not> P x" "\<not> P b"
  shows "filter P (update_rows (\<lambda>x. key x = k) (\<lambda>_. b) xs) = filter P xs"
  using assms by (induction xs) (auto simp: update_rows_def)

lemma mset_filter_update_rows:
  assumes "distinct (map key xs)" "a \<in> set xs" "key a = k" "\<not> P a" "P b"
  shows "mset (map f (filter P (update_rows (\<lambda>x. key x = k) (\<lambda>_. b) xs))) = add_mset (f b) (mset (map f (filter P xs)))"
  using assms
proof (induction xs)
  case (Cons x xs)
  show ?case
  proof (cases "key x = k")
    case True
    have "k \<notin> key ` set xs" using Cons.prems True by auto
    moreover have "x = a" by (rule update_rows_key_eq [OF Cons.prems(1,2)]) (use Cons.prems True in simp_all)
    ultimately show ?thesis using Cons.prems True update_rows_absent [of k key xs "\<lambda>_. b"] by (simp add: update_rows_def)
  next
    case False
    thus ?thesis using Cons by (auto simp: update_rows_def)
  qed
qed simp

lemma save_approval_Inr:
  "save_approval a db = Inr db' \<longleftrightarrow> check_approval db a = Inr ()
     \<and> db' = db\<lparr>approvals := update_rows (\<lambda>x. ap_id x = ap_id a) (\<lambda>_. a) (approvals db)\<rparr>"
  by (auto simp: save_approval_def bind_res_Inr)

lemma dual_control_update:
  "list_all dual_control xs \<Longrightarrow> dual_control b \<Longrightarrow> list_all dual_control (update_rows p (\<lambda>_. b) xs)"
  by (auto simp: list_all_iff set_update_rows)

text \<open>A decision.\<close>

lemma controlled_decided:
  assumes c: "controlled db" and a: "a \<in> set (approvals db)" "\<not> is_executed a"
    and b: "ap_id b = ap_id a" "\<not> is_executed b" "dual_control b" and s: "save_approval b db = Inr db'"
  shows "controlled db'"
proof -
  have d: "distinct (map ap_id (approvals db))" using c by (simp add: controlled_def)
  have "\<not> is_executed x" if "x \<in> set (approvals db)" "ap_id x = ap_id b" for x
    using update_rows_key_eq [OF d a(1) that(1)] that a b by simp
  hence "executions db' = executions db"
    using s b(2) by (simp add: save_approval_Inr executions_def filter_update_rows)
  moreover have "map ap_id (approvals db') = map ap_id (approvals db)"
    using s by (auto simp: save_approval_Inr update_rows_def)
  moreover have "ledger db' = ledger db" using s by (auto simp: save_approval_Inr ledger_def containments_def)
  ultimately show ?thesis using c s dual_control_update [OF _ b(3)] by (auto simp: controlled_def save_approval_Inr)
qed

text \<open>A request.\<close>

lemma create_pending_Inr:
  assumes "create_pending_approval e run i name d u db = Inr db'"
  obtains a where "untouched db db'" "approvals db' = approvals db @ [a]" "ap_id a \<notin> ap_id ` set (approvals db)"
    "ap_status a = ''PENDING_APPROVAL''" "ap_action a = name" "ap_requested_by a = u" "ap_run a = run_id run" "ap_step a = i"
    "ap_tenant a = run_tenant run"
proof -
  define a where "a = \<lparr>ap_id = fresh_id e db, ap_tenant = run_tenant run, ap_run = run_id run, ap_step = i, ap_action = name, ap_preview = d,
          ap_status = ''PENDING_APPROVAL'', ap_requested_by = u, ap_requested_at = pg_now e, ap_decided_by = None,
          ap_decided_at = None, ap_reason = None\<rparr>"
  have n: "ap_id a \<notin> ap_id ` set (approvals db)"
    and r: "record_audit_event e (run_tenant run) ''PLAYBOOK_APPROVAL_REQUESTED'' ''playbook_action_approval'' ''success'' (Some u)
           None None (Some (ap_id a)) None (Some [(''action'', JStr name), (''step_index'', JInt (int i))])
           (db\<lparr>drawn := Suc (drawn db), approvals := approvals db @ [a]\<rparr>) = Inr db'"
    using assms unfolding create_pending_approval_def a_def [symmetric] Let_def by (auto simp: bind_res_Inr)
  have "frame (db\<lparr>drawn := Suc (drawn db), approvals := approvals db @ [a]\<rparr>) db'"
    by (rule frame_audit [OF r]) (simp add: containment_names)
  thus ?thesis using n that [of a] by (simp add: frame_def untouched_def containments_def a_def)
qed

lemma controlled_requested: "create_pending_approval e run i name d u db = Inr db' \<Longrightarrow> controlled db \<Longrightarrow> controlled db'"
  by (erule create_pending_Inr)
    (auto simp: controlled_def ledger_def executions_def untouched_def is_executed_def dual_control_def)

text \<open>An execution: the gate has verified the grant.\<close>

lemma verify_grant_Inr:
  "verify_grant cx name g db = Inr u \<Longrightarrow> \<exists>a. find_approval (cx_tenant cx) g db = Some a \<and> ap_action a = name \<and> ap_status a = ''APPROVED''"
  by (auto simp: verify_grant_def split: option.splits if_splits)

lemma execute_destructive_Inr:
  assumes "execute_destructive e name cx g db = Inr ((r, cx'), db')" and "name \<in> set DESTRUCTIVE_ACTIONS"
  obtains a x where "find_approval (cx_tenant cx) g db = Some a" "ap_action a = name" "ap_status a = ''APPROVED''"
    "containments db' = containments db @ [x]" "aud_tenant x = cx_tenant cx" "aud_action x = containment_action name"
    "approvals db' = approvals db" "playbooks db' = playbooks db" "playbook_runs db' = playbook_runs db" "cx_tenant cx' = cx_tenant cx"
    "cx_incident cx' = cx_incident cx"
proof -
  have "\<exists>u x. verify_grant cx name g db = Inr u \<and> containments db' = containments db @ [x] \<and> aud_tenant x = cx_tenant cx
      \<and> aud_action x = containment_action name \<and> approvals db' = approvals db \<and> playbooks db' = playbooks db
      \<and> playbook_runs db' = playbook_runs db \<and> cx_tenant cx' = cx_tenant cx \<and> cx_incident cx' = cx_incident cx"
  proof (cases "name = ''disable_user''")
    case True
    thus ?thesis using assms
      by (auto simp: execute_destructive_def disable_user_def bind_res_Inr containments_def containment_names containment_action_def
        remember_def Let_def dest!: record_audit_event_Inr)
  next
    case False
    thus ?thesis using assms
      by (auto simp: execute_destructive_def isolate_host_def bind_res_Inr containments_def containment_names containment_action_def
        remember_def DESTRUCTIVE_ACTIONS_def Let_def dest!: record_audit_event_Inr)
  qed
  thus ?thesis using that verify_grant_Inr by metis
qed

lemma controlled_executed:
  assumes c: "controlled db" and x: "execute_destructive e name cx g db = Inr ((r, cx'), db1)" "name \<in> set DESTRUCTIVE_ACTIONS"
    and a: "find_approval (cx_tenant cx) g db1 = Some a" and s: "save_approval (a\<lparr>ap_status := ''EXECUTED''\<rparr>) db1 = Inr db'"
  shows "controlled db'"
  using x
proof (cases rule: execute_destructive_Inr)
  case (1 a' x)
  have a': "a' = a" using a 1 by (simp add: find_approval_def)
  have m: "a \<in> set (approvals db)" "ap_tenant a = cx_tenant cx" using find_approval_Some [OF a] 1 by auto
  have d: "distinct (map ap_id (approvals db))" using c by (simp add: controlled_def)
  let ?b = "a\<lparr>ap_status := ''EXECUTED''\<rparr>"
  have db': "db' = db1\<lparr>approvals := update_rows (\<lambda>x. ap_id x = ap_id a) (\<lambda>_. ?b) (approvals db)\<rparr>"
    using s 1 by (simp add: save_approval_Inr)
  have "executions db' = add_mset (ap_tenant a, containment_action name) (executions db)"
    using mset_filter_update_rows [OF d m(1), of "ap_id a" is_executed ?b "\<lambda>a. (ap_tenant a, containment_action (ap_action a))"] 1 a'
    by (simp add: executions_def db' is_executed_def)
  moreover have "ledger db' = add_mset (ap_tenant a, containment_action name) (ledger db)"
    using 1 m(2) by (simp add: db' ledger_def containments_def)
  moreover have "map ap_id (approvals db') = map ap_id (approvals db)"
    by (auto simp: db' update_rows_def)
  moreover have "dual_control ?b" using c m(1) 1 a' by (auto simp: controlled_def list_all_iff dual_control_def)
  ultimately show ?thesis using c dual_control_update [of "approvals db" ?b] by (simp add: controlled_def db')
qed

section \<open>Runs\<close>

text \<open>One attempted step keeps the control and, unless it is a granted containment, the accounts
  and hosts.\<close>

lemma attempt_destructive:
  assumes "attempt_step e actor run i name cx db = Inr (Executed r cx' db')" "name \<in> set DESTRUCTIVE_ACTIONS"
  obtains g a db1 where "execute_destructive e name cx g db = Inr ((r, cx'), db1)"
    "find_approval (cx_tenant cx) g db1 = Some a" "save_approval (a\<lparr>ap_status := ''EXECUTED''\<rparr>) db1 = Inr db'"
    "require_approved cx (run_id run) i name db = Inr g"
proof (cases "require_approved cx (run_id run) i name db")
  case (Inr g)
  thus ?thesis using assms that by (auto simp: attempt_step_def bind_res_Inr split: option.splits)
qed (use assms in \<open>auto simp: attempt_step_def bind_res_Inr split: option.splits\<close>)

lemma attempt_awaiting:
  assumes "attempt_step e actor run i name cx db = Inr (Awaiting p db')"
  obtains u where "name \<in> set DESTRUCTIVE_ACTIONS" "actor = Some u" "create_pending_approval e run i name (ar_details p) u db = Inr db'"
  using assms by (auto simp: attempt_step_def bind_res_Inr split: if_splits sum.splits option.splits)

lemma attempt_harmless:
  assumes "attempt_step e actor run i name cx db = Inr (Executed r cx' db')" "name \<notin> set DESTRUCTIVE_ACTIONS"
  shows "execute e name cx db = Inr ((r, cx'), db')"
  using assms by (auto simp: attempt_step_def bind_res_Inr)

lemma controlled_attempt:
  assumes "attempt_step e actor run i name cx db = Inr (Executed r cx' db') \<or> attempt_step e actor run i name cx db = Inr (Awaiting r db')"
    and "controlled db"
  shows "controlled db'"
  using assms(1)
proof
  assume x: "attempt_step e actor run i name cx db = Inr (Executed r cx' db')"
  show ?thesis
  proof (cases "name \<in> set DESTRUCTIVE_ACTIONS")
    case True
    from x this show ?thesis by (cases rule: attempt_destructive) (use controlled_executed assms(2) True in blast)
  next
    case False
    thus ?thesis using controlled_frame [OF frame_execute assms(2)] attempt_harmless [OF x] by blast
  qed
next
  assume "attempt_step e actor run i name cx db = Inr (Awaiting r db')"
  thus ?thesis by (cases rule: attempt_awaiting) (use controlled_requested assms(2) in blast)
qed

text \<open>Runs are a loop over the steps: a law that every attempt keeps is kept by a run.\<close>

lemma run_steps_keep:
  assumes "run_steps e actor i ss cx (run, db) = Inr (ocs, run', db')" and "P db"
    and step: "\<And>run i name cx db r cx' db'. P db \<Longrightarrow>
      attempt_step e actor run i name cx db = Inr (Executed r cx' db') \<or> attempt_step e actor run i name cx db = Inr (Awaiting r db') \<Longrightarrow> P db'"
  shows "P db'"
  using assms(1,2)
proof (induction ss arbitrary: i cx run db ocs)
  case (Cons s ss)
  let ?cx = "cx\<lparr>cx_params := st_params s\<rparr>"
  have reg: "st_action s \<in> set ACTION_REGISTRY" using Cons.prems by (auto simp: Let_def split: if_splits)
  show ?case
  proof (cases "run_dry run")
    case True
    thus ?thesis using Cons reg by (auto simp: bind_res_Inr Let_def)
  next
    case False
    note r = Cons.prems(1) [unfolded run_steps.simps Let_def, simplified reg False, simplified]
    show ?thesis
    proof (cases "attempt_step e actor run i (st_action s) ?cx db")
      case (Inl err)
      thus ?thesis using r Cons.prems(2) by (auto split: option.splits)
    next
      case (Inr a)
      show ?thesis
      proof (cases a)
        case (Executed x cx' db1)
        have "P db1" using step Cons.prems(2) Inr Executed by blast
        thus ?thesis using r Inr Executed Cons.IH by (auto simp: bind_res_Inr)
      next
        case (Awaiting p db1)
        have "P db1" using step Cons.prems(2) Inr Awaiting by blast
        thus ?thesis using r Inr Awaiting by auto
      qed
    qed
  qed
qed simp

lemma save_run_Inr:
  "save_run r db = Inr db' \<longleftrightarrow> check_run db r = Inr () \<and> db' = db\<lparr>playbook_runs := update_rows (\<lambda>x. run_id x = run_id r) (\<lambda>_. r) (playbook_runs db)\<rparr>"
  by (auto simp: save_run_def bind_res_Inr)

lemma run_playbook_Inr:
  "run_playbook e actor pb run db = Inr (ocs, run', db') \<longleftrightarrow> definition_valid (pb_definition pb) \<and>
    (\<exists>db1. run_steps e actor (run_step run) (drop (run_step run) (pd_steps (pb_definition pb))) (load_context actor run db)
       (run\<lparr>run_status := ''RUNNING''\<rparr>, db) = Inr (ocs, run', db1) \<and> save_run run' db1 = Inr db')"
  by (auto simp: run_playbook_def bind_res_Inr)

lemma controlled_cong:
  "controlled db \<Longrightarrow> approvals db' = approvals db \<Longrightarrow> audit_logs db' = audit_logs db \<Longrightarrow> controlled db'"
  by (simp add: controlled_def ledger_def executions_def containments_def)

lemma controlled_run [inv_intros]:
  assumes "run_playbook e actor pb run db = Inr (ocs, run', db')" "controlled db"
  shows "controlled db'"
proof -
  obtain db1 where r: "run_steps e actor (run_step run) (drop (run_step run) (pd_steps (pb_definition pb))) (load_context actor run db)
       (run\<lparr>run_status := ''RUNNING''\<rparr>, db) = Inr (ocs, run', db1)" and s: "save_run run' db1 = Inr db'"
    using assms(1) by (auto simp: run_playbook_Inr)
  have "controlled db1" by (rule run_steps_keep [where P = controlled, OF r assms(2)]) (use controlled_attempt in blast)
  thus ?thesis by (rule controlled_cong) (use s in \<open>simp_all add: save_run_Inr\<close>)
qed

lemma start_run_Inr:
  assumes "start_run e t pb actor dry al db = Inr (run', ocs, db')"
  obtains run db1 db2 where "insert_run run db = Inr db1" "run_step run = 0" "run_dry run = dry" "run_tenant run = t"
    "run_id run = fresh_id e db" "frame db1 db2" "run_playbook e actor pb run db2 = Inr (ocs, run', db')"
    "\<exists>x. db2 = db1\<lparr>drawn := Suc (drawn db1), audit_logs := audit_logs db1 @ [x]\<rparr>"
proof -
  define run where "run = \<lparr>run_id = fresh_id e db, run_tenant = t, run_playbook_id = pb_id pb, run_status = ''PENDING'', run_dry = dry,
          run_by = actor, run_alert = al, run_incident = None, run_step = 0, run_results = [], run_error = None,
          run_started = pg_now e, run_completed = None\<rparr>"
  obtain db1 db2 where i: "insert_run run db = Inr db1"
    and a: "record_audit_event e t ''PLAYBOOK_RUN_STARTED'' ''playbook_run'' ''success'' actor None None (Some (run_id run)) None
         (Some [(''playbook'', JStr (pb_key pb)), (''dry_run'', JBool dry)]) db1 = Inr db2"
    and r: "run_playbook e actor pb run db2 = Inr (ocs, run', db')"
    using assms unfolding start_run_def run_def [symmetric] Let_def by (auto simp: bind_res_Inr)
  have "frame db1 db2" by (rule frame_audit [OF a]) (simp add: containment_names)
  thus ?thesis using i r record_audit_event_Inr [OF a] by (intro that [of run db1 db2]) (auto simp: run_def)
qed

lemma insert_run_Inr:
  "insert_run r db = Inr db' \<longleftrightarrow> check_run db r = Inr () \<and> run_id r \<notin> run_id ` set (playbook_runs db)
     \<and> db' = db\<lparr>drawn := Suc (drawn db), playbook_runs := playbook_runs db @ [r]\<rparr>"
  by (auto simp: insert_run_def bind_res_Inr)

lemma controlled_start [inv_intros]:
  assumes "start_run e t pb actor dry al db = Inr (run', ocs, db')" "controlled db"
  shows "controlled db'"
  using assms(1)
proof (cases rule: start_run_Inr)
  case (1 run db1 db2)
  have "controlled db1" by (rule controlled_cong [OF assms(2)]) (use 1 in \<open>simp_all add: insert_run_Inr\<close>)
  thus ?thesis using 1 controlled_frame controlled_run by blast
qed

lemma decidable_Inr:
  assumes "decidable what t i u db = Inr a"
  shows "a \<in> set (approvals db)" "ap_id a = i" "ap_tenant a = t" "ap_status a = ''PENDING_APPROVAL''" "u \<noteq> ap_requested_by a"
proof -
  have "find_approval t i db = Some a \<and> ap_status a = ''PENDING_APPROVAL'' \<and> u \<noteq> ap_requested_by a"
    using assms by (auto simp: decidable_def get_approval_def bind_res_Inr split: if_splits option.splits)
  thus "a \<in> set (approvals db)" "ap_id a = i" "ap_tenant a = t" "ap_status a = ''PENDING_APPROVAL''" "u \<noteq> ap_requested_by a"
    using find_approval_Some [of t i db a] by auto
qed

lemma approve_action_Inr:
  assumes "approve_action e t i u ip db = Inr ((a', run', ocs), db')"
  obtains a db1 db2 run pb where "decidable ''the requester cannot approve their own destructive action'' t i u db = Inr a"
    "save_approval (a\<lparr>ap_status := ''APPROVED'', ap_decided_by := Some u, ap_decided_at := Some (utcnow e)\<rparr>) db = Inr db1"
    "frame db1 db2" "get_run t (ap_run a) db2 = Inr run" "run_playbook e (run_by run) pb run db2 = Inr (ocs, run', db')"
proof -
  obtain a db1 db2 run pb where s: "decidable ''the requester cannot approve their own destructive action'' t i u db = Inr a"
    "save_approval (a\<lparr>ap_status := ''APPROVED'', ap_decided_by := Some u, ap_decided_at := Some (utcnow e)\<rparr>) db = Inr db1"
    "get_run t (ap_run a) db2 = Inr run" "run_playbook e (run_by run) pb run db2 = Inr (ocs, run', db')"
    and r: "record_audit_event e t ''PLAYBOOK_APPROVAL_GRANTED'' ''playbook_action_approval'' ''success'' (Some u) ip None
         (Some (ap_id a)) (Some [(''status'', JStr ''PENDING_APPROVAL'')])
         (Some [(''status'', JStr ''APPROVED''), (''requested_by'', JStr (ap_requested_by a))]) db1 = Inr db2"
    using assms by (auto simp: approve_action_def bind_res_Inr Let_def split: option.splits)
  have "frame db1 db2" by (rule frame_audit [OF r]) (simp add: containment_names)
  thus ?thesis using s that by blast
qed

lemma controlled_approve [inv_intros]:
  assumes "approve_action e t i u ip db = Inr ((a', run', ocs), db')" "controlled db"
  shows "controlled db'"
  using assms(1)
proof (cases rule: approve_action_Inr)
  case (1 a db1 db2 run pb)
  have "controlled db1"
    by (rule controlled_decided [OF assms(2) decidable_Inr(1) [OF 1(1)] _ _ _ _ 1(2)])
      (use decidable_Inr [OF 1(1)] in \<open>auto simp: is_executed_def dual_control_def\<close>)
  thus ?thesis using 1 controlled_frame controlled_run by blast
qed

lemma controlled_reject [inv_intros]:
  assumes "reject_action e t i u why ip db = Inr (a', db')" "controlled db"
  shows "controlled db'"
proof -
  obtain a db1 db2 run where a: "decidable ''the requester cannot reject their own request'' t i u db = Inr a"
    and s: "save_approval (a\<lparr>ap_status := ''REJECTED'', ap_decided_by := Some u, ap_reason := Some why, ap_decided_at := Some (utcnow e)\<rparr>) db = Inr db1"
    and r: "save_run run db1 = Inr db2"
    and x: "record_audit_event e t ''PLAYBOOK_APPROVAL_REJECTED'' ''playbook_action_approval'' ''success'' (Some u) ip None
         (Some (ap_id a)) None (Some [(''status'', JStr ''REJECTED''), (''reason'', JStr why)]) db2 = Inr db'"
    using assms(1) by (auto simp: reject_action_def bind_res_Inr Let_def)
  have "controlled db1"
    by (rule controlled_decided [OF assms(2) decidable_Inr(1) [OF a] _ _ _ _ s])
      (use decidable_Inr [OF a] in \<open>auto simp: is_executed_def dual_control_def\<close>)
  hence "controlled db2" by (rule controlled_cong) (use r in \<open>simp_all add: save_run_Inr\<close>)
  moreover have "frame db2 db'" by (rule frame_audit [OF x]) (simp add: containment_names)
  ultimately show ?thesis by (blast intro: controlled_frame)
qed

lemma controlled_create [inv_intros]:
  assumes "create_playbook e t d actor ip db = Inr (p, db')" "controlled db"
  shows "controlled db'"
proof -
  obtain db1 s where i: "insert_playbook p db = Inr db1"
    and a: "record_audit_event e t ''CREATE_PLAYBOOK'' ''playbook'' ''success'' actor ip None (Some (pb_key p)) None s db1 = Inr db'"
    using assms(1) by (auto simp: create_playbook_def bind_res_Inr Let_def split: if_splits)
  have "controlled db1" by (rule controlled_cong [OF assms(2)]) (use i in \<open>auto simp: insert_playbook_def bind_res_Inr\<close>)
  moreover have "frame db1 db'" by (rule frame_audit [OF a]) (simp add: containment_names)
  ultimately show ?thesis by (blast intro: controlled_frame)
qed

lemma controlled_install [inv_intros]:
  "install_playbooks e t actor ds db = Inr (ks, db') \<Longrightarrow> controlled db \<Longrightarrow> controlled db'"
  by (induction ds arbitrary: db ks) (auto simp: bind_res_Inr split: if_splits dest!: controlled_create)

text \<open>What the playbook endpoints and the incident service do to the database.\<close>

inductive playbook_step :: "'a playbook_db_scheme \<Rightarrow> 'a playbook_db_scheme \<Rightarrow> bool" where
  created: "create_playbook (e :: dbenv) t d actor ip db = Inr (p, db') \<Longrightarrow> playbook_step db db'"
| installed: "install_default_playbooks (e :: dbenv) t actor r db = Inr (ks, db') \<Longrightarrow> playbook_step db db'"
| started: "start_run (e :: dbenv) t pb actor dry al db = Inr (run, ocs, db') \<Longrightarrow> playbook_step db db'"
| approved: "approve_action (e :: dbenv) t i u ip db = Inr ((a, run, ocs), db') \<Longrightarrow> playbook_step db db'"
| rejected: "reject_action (e :: dbenv) t i u why ip db = Inr (a, db') \<Longrightarrow> playbook_step db db'"
| incident_opened: "create_incident (e :: dbenv) t d actor ip db = Inr (i, db') \<Longrightarrow> playbook_step db db'"
| incident_noted: "incident_add_note (e :: dbenv) t i body u db = Inr (n, db') \<Longrightarrow> playbook_step db db'"

definition no_containment :: "'a playbook_db_scheme \<Rightarrow> bool" where
  "no_containment db \<longleftrightarrow> approvals db = [] \<and> containments db = []"

lemma controlled_initial: "no_containment db \<Longrightarrow> controlled db"
  by (simp add: no_containment_def controlled_def ledger_def executions_def)

lemma controlled_step: "playbook_step db db' \<Longrightarrow> controlled db \<Longrightarrow> controlled db'"
  by (induction rule: playbook_step.induct)
    (auto intro: inv_intros controlled_frame frame_create_incident frame_add_note simp: install_default_playbooks_def split: if_splits)

lemma controlled_reachable: "playbook_step\<^sup>*\<^sup>* db0 db \<Longrightarrow> no_containment db0 \<Longrightarrow> controlled db"
  by (induction rule: rtranclp_induct) (auto intro: controlled_initial controlled_step)

text \<open>A step that records no containment leaves accounts and hosts alone.\<close>

definition kept :: "'a playbook_db_scheme \<Rightarrow> 'a playbook_db_scheme \<Rightarrow> bool" where
  "kept db db' \<longleftrightarrow> length (containments db) < length (containments db')
     \<or> (users db' = users db \<and> assets db' = assets db \<and> containments db' = containments db)"

lemma kept_refl [intro!]: "kept db db"
  by (simp add: kept_def)

lemma kept_trans: "kept db db1 \<Longrightarrow> kept db1 db2 \<Longrightarrow> kept db db2"
  by (auto simp: kept_def)

lemma kept_frame: "frame db db' \<Longrightarrow> kept db db'"
  by (simp add: kept_def frame_def untouched_def)

lemma kept_save_approval: "save_approval a db = Inr db' \<Longrightarrow> kept db db'"
  by (simp add: kept_def save_approval_Inr containments_def)

lemma kept_save_run: "save_run r db = Inr db' \<Longrightarrow> kept db db'"
  by (simp add: kept_def save_run_Inr containments_def)

lemma kept_attempt:
  assumes "attempt_step e actor run i name cx db = Inr (Executed r cx' db') \<or> attempt_step e actor run i name cx db = Inr (Awaiting r db')"
  shows "kept db db'"
  using assms
proof
  assume x: "attempt_step e actor run i name cx db = Inr (Executed r cx' db')"
  show ?thesis
  proof (cases "name \<in> set DESTRUCTIVE_ACTIONS")
    case True
    from x this show ?thesis
    proof (cases rule: attempt_destructive)
      case (1 g a db1)
      have "kept db db1" using 1(1) True by (cases rule: execute_destructive_Inr) (simp add: kept_def)
      thus ?thesis using kept_save_approval [OF 1(3)] by (rule kept_trans)
    qed
  next
    case False
    thus ?thesis using kept_frame [OF frame_execute] attempt_harmless [OF x] by blast
  qed
next
  assume "attempt_step e actor run i name cx db = Inr (Awaiting r db')"
  thus ?thesis
  proof (cases rule: attempt_awaiting)
    case (1 u)
    from 1(3) show ?thesis by (cases rule: create_pending_Inr) (simp add: kept_def untouched_def)
  qed
qed

lemma kept_run:
  assumes "run_playbook e actor pb run db = Inr (ocs, run', db')"
  shows "kept db db'"
proof -
  obtain db1 where r: "run_steps e actor (run_step run) (drop (run_step run) (pd_steps (pb_definition pb))) (load_context actor run db)
       (run\<lparr>run_status := ''RUNNING''\<rparr>, db) = Inr (ocs, run', db1)" and s: "save_run run' db1 = Inr db'"
    using assms by (auto simp: run_playbook_Inr)
  have "kept db db1" by (rule run_steps_keep [where P = "kept db", OF r kept_refl]) (use kept_attempt kept_trans in blast)
  thus ?thesis using kept_save_run [OF s] by (rule kept_trans)
qed

lemma kept_create:
  assumes "create_playbook e t d actor ip db = Inr (p, db')"
  shows "kept db db'"
proof -
  obtain db1 s where i: "insert_playbook p db = Inr db1"
    and a: "record_audit_event e t ''CREATE_PLAYBOOK'' ''playbook'' ''success'' actor ip None (Some (pb_key p)) None s db1 = Inr db'"
    using assms by (auto simp: create_playbook_def bind_res_Inr Let_def split: if_splits)
  have "kept db db1" using i by (auto simp: insert_playbook_def bind_res_Inr kept_def containments_def)
  moreover have "frame db1 db'" by (rule frame_audit [OF a]) (simp add: containment_names)
  ultimately show ?thesis using kept_trans kept_frame by blast
qed

lemma kept_install: "install_playbooks e t actor ds db = Inr (ks, db') \<Longrightarrow> kept db db'"
  by (induction ds arbitrary: db ks) (auto simp: bind_res_Inr split: if_splits dest!: kept_create intro: kept_trans)

lemma kept_step: "playbook_step db db' \<Longrightarrow> kept db db'"
proof (induction rule: playbook_step.induct)
  case (started e t pb actor dry al db run ocs db')
  then show ?case
  proof (cases rule: start_run_Inr)
    case (1 r db1 db2)
    have "kept db db1" using 1(1) by (simp add: insert_run_Inr kept_def containments_def)
    thus ?thesis using kept_frame [OF 1(6)] kept_run [OF 1(7)] by (blast intro: kept_trans)
  qed
next
  case (approved e t i u ip db a run ocs db')
  then show ?case
  proof (cases rule: approve_action_Inr)
    case (1 a db1 db2 run pb)
    thus ?thesis using kept_save_approval [OF 1(2)] kept_frame [OF 1(3)] kept_run [OF 1(5)] by (blast intro: kept_trans)
  qed
next
  case (rejected e t i u why ip db a db')
  then obtain a' db1 db2 run where s: "save_approval a' db = Inr db1" "save_run run db1 = Inr db2"
    and x: "record_audit_event e t ''PLAYBOOK_APPROVAL_REJECTED'' ''playbook_action_approval'' ''success'' (Some u) ip None
         (Some (ap_id a')) None (Some [(''status'', JStr ''REJECTED''), (''reason'', JStr why)]) db2 = Inr db'"
    by (auto simp: reject_action_def bind_res_Inr Let_def)
  have "frame db2 db'" by (rule frame_audit [OF x]) (simp add: containment_names)
  thus ?case using kept_save_approval [OF s(1)] kept_save_run [OF s(2)] kept_frame by (blast intro: kept_trans)
qed (auto intro: kept_frame frame_create_incident frame_add_note kept_create kept_install simp: install_default_playbooks_def split: if_splits)

text \<open>A dry run keeps the database; the indices of a run's outcomes are consecutive, and its results
  are exactly the steps below the one it stands at afterwards.\<close>

lemma run_steps_dry:
  "run_steps e actor i ss cx (run, db) = Inr (ocs, run', db') \<Longrightarrow> run_dry run \<Longrightarrow>
   db' = db \<and> run_dry run' \<and> run_id run' = run_id run \<and> run_status run' = ''COMPLETED'' \<and> list_all (\<lambda>oc. oc_kind oc = ''preview'') ocs
     \<and> map oc_action ocs = map st_action ss"
proof (induction ss arbitrary: i cx run ocs)
  case (Cons s ss)
  have "st_action s \<in> set ACTION_REGISTRY" using Cons.prems by (auto simp: Let_def split: if_splits)
  then obtain p ocs1 where "run_steps e actor (Suc i) ss (cx\<lparr>cx_params := st_params s\<rparr>) (add_result (outcome i (st_action s) ''preview'' p) run, db)
      = Inr (ocs1, run', db')" and "ocs = outcome i (st_action s) ''preview'' p # ocs1"
    using Cons.prems by (auto simp: Let_def bind_res_Inr)
  thus ?case using Cons.IH [of _ _ "add_result (outcome i (st_action s) ''preview'' p) run" ocs1] Cons.prems(2)
    by (simp add: add_result_def outcome_def)
qed auto

lemma add_result_simps [simp]:
  "run_dry (add_result oc run) = run_dry run" "run_step (add_result oc run) = run_step run" "run_id (add_result oc run) = run_id run"
  "run_status (add_result oc run) = run_status run"
  by (simp_all add: add_result_def)

definition is_result :: "step_outcome \<Rightarrow> bool" where
  "is_result oc \<longleftrightarrow> oc_kind oc = ''result''"

lemma run_steps_indices:
  assumes "run_steps e actor i ss cx (run, db) = Inr (ocs, run', db')" "\<not> run_dry run" "run_step run = i"
  shows "map (\<lambda>oc. (oc_index oc, oc_action oc)) (filter is_result ocs) = map (\<lambda>k. (k, st_action (ss ! (k - i)))) [i..<run_step run']
    \<and> i \<le> run_step run' \<and> run_step run' \<le> i + length ss \<and> run_id run' = run_id run \<and> \<not> run_dry run'
    \<and> (run_status run' = ''COMPLETED'' \<longrightarrow> run_step run' = i + length ss)"
  using assms
proof (induction ss arbitrary: i cx run db ocs)
  case (Cons s ss)
  let ?cx = "cx\<lparr>cx_params := st_params s\<rparr>" and ?n = "st_action s"
  have reg: "?n \<in> set ACTION_REGISTRY" using Cons.prems by (auto simp: Let_def split: if_splits)
  note r = Cons.prems(1) [unfolded run_steps.simps Let_def, simplified reg Cons.prems(2), simplified]
  show ?case
  proof (cases "attempt_step e actor run i ?n ?cx db")
    case (Inl err)
    thus ?thesis using r Cons.prems by (auto simp: outcome_def is_result_def split: option.splits)
  next
    case (Inr a)
    show ?thesis
    proof (cases a)
      case (Awaiting p db1)
      thus ?thesis using r Inr Cons.prems by (auto simp: outcome_def is_result_def)
    next
      case (Executed x cx' db1)
      let ?oc = "outcome i ?n ''result'' x" and ?row = "\<lambda>oc. (oc_index oc, oc_action oc)"
      obtain run2 ocs1 where n: "run_steps e actor (Suc i) ss cx' (run2, db1) = Inr (ocs1, run', db')" and o: "ocs = ?oc # ocs1"
        and run2: "\<not> run_dry run2" "run_step run2 = Suc i" "run_id run2 = run_id run"
        using r Inr Executed Cons.prems by (auto simp: bind_res_Inr split: option.splits)
      note ih = Cons.IH [OF n run2(1,2)]
      have "[i..<run_step run'] = i # [Suc i..<run_step run']" using ih upt_conv_Cons [of i "run_step run'"] by simp
      moreover have "map (\<lambda>k. (k, st_action ((s # ss) ! (k - i)))) [Suc i..<run_step run']
          = map (\<lambda>k. (k, st_action (ss ! (k - Suc i)))) [Suc i..<run_step run']"
        by (rule map_cong) (auto simp: nth_Cons' Suc_diff_le)
      ultimately show ?thesis using ih run2(3) o by (simp add: outcome_def is_result_def)
    qed
  qed
qed auto

lemma run_playbook_results:
  assumes "run_playbook e actor pb run db = Inr (ocs, run', db')" "\<not> run_dry run" "run_step run \<le> length (pd_steps (pb_definition pb))"
  shows "map (\<lambda>oc. (oc_index oc, oc_action oc)) (filter is_result ocs)
      = map (\<lambda>k. (k, st_action (pd_steps (pb_definition pb) ! k))) [run_step run..<run_step run']
    \<and> run_step run \<le> run_step run' \<and> run_step run' \<le> length (pd_steps (pb_definition pb)) \<and> \<not> run_dry run'
    \<and> (run_status run' = ''COMPLETED'' \<longrightarrow> run_step run' = length (pd_steps (pb_definition pb)))"
proof -
  let ?ss = "pd_steps (pb_definition pb)"
  obtain db1 where s: "run_steps e actor (run_step run) (drop (run_step run) ?ss) (load_context actor run db)
      (run\<lparr>run_status := ''RUNNING''\<rparr>, db) = Inr (ocs, run', db1)" using assms(1) by (auto simp: run_playbook_Inr)
  have "map (\<lambda>k. (k, st_action (drop (run_step run) ?ss ! (k - run_step run)))) [run_step run..<run_step run']
      = map (\<lambda>k. (k, st_action (?ss ! k))) [run_step run..<run_step run']"
    using assms(3) by (intro map_cong) auto
  thus ?thesis using run_steps_indices [OF s] assms by simp
qed

section \<open>A concrete run\<close>

definition sample_host :: asset where
  "sample_host = \<lparr>ast_id = ''h1'', ast_tenant = ''t1'', ast_type = ''server'', ast_hostname = Some ''web'', ast_ip = None,
     ast_environment = None, ast_owner = None, ast_tags = [], ast_criticality = ''HIGH'', ast_active = True, ast_isolated = False,
     ast_isolated_at = None, ast_created_at = 0\<rparr>"

definition sample_playbook :: playbook where
  "sample_playbook = \<lparr>pb_id = ''p1'', pb_tenant = ''t1'', pb_key = ''PB-001'', pb_name = ''contain'', pb_description = None,
     pb_trigger = ''manual'', pb_definition = \<lparr>pd_key = ''PB-001'', pd_name = ''contain'', pd_description = None, pd_trigger = ''manual'',
       pd_steps = [\<lparr>st_action = ''isolate_host'', st_params = [(''hostname'', JStr ''web'')]\<rparr>]\<rparr>,
     pb_status = ''enabled'', pb_created_by = Some ''u1''\<rparr>"

definition sample_playbooks :: playbook_db where
  "sample_playbooks = incident_db.extend (sample_cases\<lparr>assets := [sample_host]\<rparr>)
     \<lparr>playbooks = [sample_playbook], playbook_runs = [], approvals = []\<rparr>"

definition requested_run :: "step_outcome list \<times> playbook_db" where
  "requested_run = (case start_run (sample_dbenv 7) ''t1'' sample_playbook (Some ''u1'') False None sample_playbooks of
     Inr (r, ocs, db) \<Rightarrow> (ocs, db) | Inl _ \<Rightarrow> ([], sample_playbooks))"

section \<open>Properties\<close>

text \<open>C22: disabling an account or isolating a host takes two people. In every state the playbook
  endpoints reach from one without approvals and containments, each containment in the audit log has
  an executed approval of the same tenant and action, one each; every decided approval was decided by
  somebody else than its requester; and a further step that changes an account or a host records a
  containment.\<close>

theorem containment_takes_two:
  assumes "playbook_step\<^sup>*\<^sup>* db0 db" and "no_containment db0" and "playbook_step db db'"
  shows "mset (map (\<lambda>l. (aud_tenant l, aud_action l)) (containments db'))
      = mset (map (\<lambda>a. (ap_tenant a, containment_action (ap_action a))) (filter is_executed (approvals db')))
    \<and> list_all dual_control (approvals db')
    \<and> (length (containments db) < length (containments db') \<or> users db' = users db \<and> assets db' = assets db)"
  using controlled_step [OF assms(3) controlled_reachable [OF assms(1,2)]] kept_step [OF assms(3)]
  by (auto simp: controlled_def ledger_def executions_def kept_def)

lemma sample_requested: "start_run (sample_dbenv 7) ''t1'' sample_playbook (Some ''u1'') False None sample_playbooks
    = Inr (hd (playbook_runs (snd requested_run)), requested_run)"
  by code_simp

definition approved_run :: playbook_db where
  "approved_run = (case approve_action (sample_dbenv 9) ''t1'' ''4'' ''u2'' None (snd requested_run) of Inr (_, db) \<Rightarrow> db | Inl _ \<Rightarrow> snd requested_run)"

lemma sample_approved: "approve_action (sample_dbenv 9) ''t1'' ''4'' ''u2'' None (snd requested_run)
    = Inr ((hd (approvals approved_run), hd (playbook_runs approved_run), [outcome 0 ''isolate_host'' ''result'' (result ''Marked web contained'' [(''asset_id'', JStr ''h1''), (''hostname'', JStr ''web'')])]), approved_run)"
  by code_simp

theorem containment_takes_two_witness:
  "playbook_step\<^sup>*\<^sup>* sample_playbooks (snd requested_run) \<and> playbook_step (snd requested_run) approved_run
    \<and> map ast_isolated (assets approved_run) = [True] \<and> map aud_action (containments approved_run) = [''PLAYBOOK_ISOLATE_HOST'']
    \<and> list_all dual_control (approvals approved_run) \<and> map ap_status (approvals approved_run) = [''EXECUTED'']"
proof -
  have 1: "playbook_step sample_playbooks (snd requested_run)"
    using playbook_step.started [of "sample_dbenv 7"] sample_requested by (metis prod.collapse)
  have 2: "playbook_step (snd requested_run) approved_run"
    by (rule playbook_step.approved [OF sample_approved])
  have 0: "no_containment sample_playbooks" by code_simp
  have "map ast_isolated (assets approved_run) = [True] \<and> map aud_action (containments approved_run) = [''PLAYBOOK_ISOLATE_HOST'']
    \<and> map ap_status (approvals approved_run) = [''EXECUTED'']" by code_simp
  thus ?thesis using containment_takes_two [OF r_into_rtranclp [of playbook_step, OF 1] 0 2] 1 2 by blast
qed

text \<open>C23: a dry run is a preview. Whatever the playbook, a run started with \<open>dry_run\<close> that
  returns has previewed every step, destructive ones included, and has changed nothing but its own row and
  the audit entry of its start: no approval is requested and no account, host, incident or alert is touched.\<close>

theorem dry_run_changes_nothing:
  assumes "start_run e t pb actor True al db = Inr (run, ocs, db')"
  shows "\<exists>x n. db' = db\<lparr>drawn := n, audit_logs := audit_logs db @ [x], playbook_runs := playbook_runs db @ [run]\<rparr>
    \<and> run_status run = ''COMPLETED'' \<and> list_all (\<lambda>oc. oc_kind oc = ''preview'') ocs
    \<and> map oc_action ocs = map st_action (pd_steps (pb_definition pb))"
  using assms
proof (cases rule: start_run_Inr)
  case (1 r db1 db2)
  from 1(1) have db1: "db1 = db\<lparr>drawn := Suc (drawn db), playbook_runs := playbook_runs db @ [r]\<rparr>"
    and new: "run_id r \<notin> run_id ` set (playbook_runs db)" by (simp_all add: insert_run_Inr)
  from 1(8) obtain x where db2: "db2 = db1\<lparr>drawn := Suc (drawn db1), audit_logs := audit_logs db1 @ [x]\<rparr>" by blast
  from 1(7) obtain db3 where s: "run_steps e actor 0 (pd_steps (pb_definition pb)) (load_context actor r db2)
      (r\<lparr>run_status := ''RUNNING''\<rparr>, db2) = Inr (ocs, run, db3)" and v: "save_run run db3 = Inr db'"
    by (auto simp: run_playbook_Inr 1(2))
  have d: "db3 = db2" "run_id run = run_id r" "run_status run = ''COMPLETED''" "list_all (\<lambda>oc. oc_kind oc = ''preview'') ocs"
    "map oc_action ocs = map st_action (pd_steps (pb_definition pb))"
    using run_steps_dry [OF s] 1(3) by auto
  have "playbook_runs db' = playbook_runs db @ [run]"
    using v d new update_rows_last [where key = run_id and a = r and b = run and xs = "playbook_runs db"] by (simp add: save_run_Inr db2 db1)
  thus ?thesis using v d by (intro exI [of _ x] exI [of _ "drawn db'"]) (simp add: save_run_Inr db2 db1)
qed

theorem dry_run_changes_nothing_witness:
  "\<exists>run ocs db'. start_run (sample_dbenv 7) ''t1'' sample_playbook (Some ''u1'') True None sample_playbooks = Inr (run, ocs, db')
    \<and> assets db' = [sample_host] \<and> approvals db' = [] \<and> map oc_action ocs = [''isolate_host''] \<and> run_status run = ''COMPLETED''"
proof -
  obtain run ocs db' where s: "start_run (sample_dbenv 7) ''t1'' sample_playbook (Some ''u1'') True None sample_playbooks = Inr (run, ocs, db')"
  proof -
    have "case start_run (sample_dbenv 7) ''t1'' sample_playbook (Some ''u1'') True None sample_playbooks of Inr _ \<Rightarrow> True | Inl _ \<Rightarrow> False"
      by code_simp
    thus ?thesis using that by (auto split: sum.splits)
  qed
  have "assets sample_playbooks = [sample_host]" "approvals sample_playbooks = []"
    "map st_action (pd_steps (pb_definition sample_playbook)) = [''isolate_host'']" by code_simp+
  thus ?thesis using dry_run_changes_nothing [OF s] s by auto
qed

text \<open>C24: a halted run resumes and does not replay. When a run is taken up twice in a row, the results of both
  calls together are the steps from the one it stood at to the one it stands at afterwards, in order,
  each executed exactly once with the action of the definition; a completed run has executed them all.\<close>

theorem resumed_run_does_not_replay:
  assumes "run_playbook e actor pb run db = Inr (ocs, run1, db1)" and "run_playbook e' actor' pb run1 db2 = Inr (ocs', run2, db3)"
    and "\<not> run_dry run" and "run_step run \<le> length (pd_steps (pb_definition pb))"
  shows "map (\<lambda>oc. (oc_index oc, oc_action oc)) (filter is_result (ocs @ ocs'))
      = map (\<lambda>k. (k, st_action (pd_steps (pb_definition pb) ! k))) [run_step run..<run_step run2]
    \<and> run_step run2 \<le> length (pd_steps (pb_definition pb))
    \<and> (run_status run2 = ''COMPLETED'' \<longrightarrow> run_step run2 = length (pd_steps (pb_definition pb)))"
proof -
  let ?ss = "pd_steps (pb_definition pb)"
  note a = run_playbook_results [OF assms(1,3,4)]
  hence b: "map (\<lambda>oc. (oc_index oc, oc_action oc)) (filter is_result ocs') = map (\<lambda>k. (k, st_action (?ss ! k))) [run_step run1..<run_step run2]
      \<and> run_step run1 \<le> run_step run2 \<and> run_step run2 \<le> length ?ss \<and> (run_status run2 = ''COMPLETED'' \<longrightarrow> run_step run2 = length ?ss)"
    using run_playbook_results [OF assms(2)] by blast
  have "[run_step run..<run_step run2] = [run_step run..<run_step run1] @ [run_step run1..<run_step run2]"
    using a b upt_add_eq_append [of "run_step run" "run_step run1" "run_step run2 - run_step run1"] by simp
  thus ?thesis using a b by simp
qed

definition halted_run :: playbook_run where
  "halted_run = (hd (playbook_runs (snd requested_run)))\<lparr>run_status := ''PENDING''\<rparr>"

definition all_approved :: "playbook_db \<Rightarrow> playbook_db" where
  "all_approved db = db\<lparr>approvals := map (\<lambda>a. a\<lparr>ap_status := ''APPROVED'', ap_decided_by := Some ''u2''\<rparr>) (approvals db)\<rparr>"

lemma sample_resumed:
  "case run_playbook (sample_dbenv 7) (Some ''u1'') sample_playbook halted_run (sample_playbooks\<lparr>playbook_runs := [halted_run]\<rparr>) of
     Inl _ \<Rightarrow> False
   | Inr (ocs, run1, db1) \<Rightarrow> run_status run1 = ''AWAITING_APPROVAL'' \<and>
       (case run_playbook (sample_dbenv 9) (Some ''u1'') sample_playbook run1 (all_approved db1) of
          Inl _ \<Rightarrow> False
        | Inr (ocs', run2, db2) \<Rightarrow> run_step run2 = 1 \<and> map ast_isolated (assets db2) = [True])"
  by code_simp

theorem resumed_run_does_not_replay_witness:
  "\<exists>ocs run1 db1 ocs' run2 db2.
     run_playbook (sample_dbenv 7) (Some ''u1'') sample_playbook halted_run (sample_playbooks\<lparr>playbook_runs := [halted_run]\<rparr>) = Inr (ocs, run1, db1)
     \<and> run_playbook (sample_dbenv 9) (Some ''u1'') sample_playbook run1 (all_approved db1) = Inr (ocs', run2, db2)
     \<and> run_status run1 = ''AWAITING_APPROVAL'' \<and> map ast_isolated (assets db2) = [True]
     \<and> map (\<lambda>oc. (oc_index oc, oc_action oc)) (filter is_result (ocs @ ocs')) = [(0, ''isolate_host'')]"
proof -
  let ?second = "\<lambda>run1 db1. run_playbook (sample_dbenv 9) (Some ''u1'') sample_playbook run1 (all_approved db1)"
  obtain ocs run1 db1 where
    1: "run_playbook (sample_dbenv 7) (Some ''u1'') sample_playbook halted_run (sample_playbooks\<lparr>playbook_runs := [halted_run]\<rparr>) = Inr (ocs, run1, db1)"
    and c: "run_status run1 = ''AWAITING_APPROVAL''"
      "case ?second run1 db1 of Inl _ \<Rightarrow> False | Inr (ocs', run2, db2) \<Rightarrow> run_step run2 = 1 \<and> map ast_isolated (assets db2) = [True]"
    using sample_resumed
    by (cases "run_playbook (sample_dbenv 7) (Some ''u1'') sample_playbook halted_run (sample_playbooks\<lparr>playbook_runs := [halted_run]\<rparr>)") auto
  obtain ocs' run2 db2 where 2: "?second run1 db1 = Inr (ocs', run2, db2)"
    using c(2) by (cases "?second run1 db1") auto
  hence 3: "run_status run1 = ''AWAITING_APPROVAL''" "run_step run2 = 1" "map ast_isolated (assets db2) = [True]"
    using c by auto
  have d: "\<not> run_dry halted_run" "run_step halted_run = 0" by code_simp+
  have s: "map st_action (pd_steps (pb_definition sample_playbook)) = [''isolate_host'']" by code_simp
  hence "st_action (pd_steps (pb_definition sample_playbook) ! 0) = ''isolate_host''" by auto
  hence r: "map (\<lambda>oc. (oc_index oc, oc_action oc)) (filter is_result (ocs @ ocs')) = [(0, ''isolate_host'')]"
    using resumed_run_does_not_replay [OF 1 2 d(1)] d(2) 3(2) by (simp add: upt_rec)
  show ?thesis by (intro exI conjI) (rule 1, rule 2, rule 3(1), rule 3(3), rule r)
qed

end
