(* ===== verification/Index_Mapping.thy ===== *)
theory Index_Mapping
  imports Py_Value
begin

text \<open>
  The index mappings, templates and lifecycle policies of \<open>services/index_management.py\<close>, and
  the bootstrap that applies them at every start. The mappings are the literal dictionaries of
  the code; the windowed evaluator and the hunting pivots read them to decide which fields are
  textual. The OpenSearch client is an argument: it answers each request, given the requests
  issued before it; what the bootstrap does with every answer is the model.
\<close>

section \<open>Mappings\<close>

definition KEYWORD_T :: json where "KEYWORD_T = JObj [(''type'', JStr ''keyword'')]"

definition KEYWORD_LONG :: json where
  "KEYWORD_LONG = JObj [(''type'', JStr ''keyword''), (''ignore_above'', JInt 4096)]"

definition normalized_mapping :: json where
  "normalized_mapping = JObj [(''dynamic'', JStr ''false''), (''properties'', JObj
     [(''event_id'', KEYWORD_T), (''timestamp'', JObj [(''type'', JStr ''date'')]),
     (''ingestion_timestamp'', JObj [(''type'', JStr ''date'')]), (''tenant_id'', KEYWORD_T),
     (''source'', KEYWORD_T), (''source_type'', KEYWORD_T), (''category'', KEYWORD_T),
     (''class'', KEYWORD_T), (''event_code'', KEYWORD_T), (''severity'', KEYWORD_T),
     (''activity'', KEYWORD_T), (''actor'', JObj [(''properties'', JObj [(''user'', KEYWORD_T),
     (''process'', KEYWORD_T), (''session_id'', KEYWORD_T)])]), (''user'', JObj
     [(''properties'', JObj [(''name'', KEYWORD_T), (''domain'', KEYWORD_T), (''uid'',
     KEYWORD_T)])]), (''device'', JObj [(''properties'', JObj [(''hostname'', KEYWORD_T),
     (''ip'', JObj [(''type'', JStr ''ip'')]), (''os'', KEYWORD_T), (''asset_id'',
     KEYWORD_T)])]), (''source_ip'', JObj [(''type'', JStr ''ip'')]), (''destination_ip'', JObj
     [(''type'', JStr ''ip'')]), (''source_port'', JObj [(''type'', JStr ''integer'')]),
     (''destination_port'', JObj [(''type'', JStr ''integer'')]), (''protocol'', KEYWORD_T),
     (''hostname'', KEYWORD_T), (''process'', JObj [(''properties'', JObj [(''name'',
     KEYWORD_T), (''pid'', JObj [(''type'', JStr ''integer'')]), (''path'', KEYWORD_T),
     (''parent_name'', KEYWORD_T), (''cmd_line'', KEYWORD_LONG)])]), (''command_line'', JObj
     [(''type'', JStr ''text''), (''fields'', JObj [(''raw'', KEYWORD_LONG)])]), (''file'', JObj
     [(''properties'', JObj [(''name'', KEYWORD_T), (''path'', KEYWORD_T), (''size'', JObj
     [(''type'', JStr ''long'')])])]), (''hash'', JObj [(''properties'', JObj [(''md5'',
     KEYWORD_T), (''sha1'', KEYWORD_T), (''sha256'', KEYWORD_T)])]), (''domain'', KEYWORD_T),
     (''url'', KEYWORD_LONG), (''cloud'', JObj [(''properties'', JObj [(''provider'',
     KEYWORD_T), (''account_id'', KEYWORD_T), (''region'', KEYWORD_T)])]), (''authentication'',
     JObj [(''properties'', JObj [(''method'', KEYWORD_T), (''outcome'', KEYWORD_T),
     (''logon_type'', KEYWORD_T), (''mfa_used'', JObj [(''type'', JStr ''boolean'')])])]),
     (''mitre_techniques'', KEYWORD_T), (''ioc_matches'', KEYWORD_T), (''risk_context'', JObj
     [(''properties'', JObj [(''asset_criticality'', KEYWORD_T), (''user_risk_score'', JObj
     [(''type'', JStr ''float'')])])]), (''geo'', JObj [(''properties'', JObj
     [(''source_country'', KEYWORD_T), (''source_is_private'', JObj [(''type'', JStr
     ''boolean'')]), (''destination_is_private'', JObj [(''type'', JStr ''boolean'')])])]),
     (''asset'', JObj [(''properties'', JObj [(''id'', KEYWORD_T), (''criticality'', KEYWORD_T),
     (''environment'', KEYWORD_T), (''owner'', KEYWORD_T)])]), (''enrichment_partial'', JObj
     [(''type'', JStr ''boolean'')]), (''enrichment_errors'', KEYWORD_T), (''schema_version'',
     KEYWORD_T), (''raw_event'', JObj [(''type'', JStr ''object''), (''enabled'', JBool
     False)]), (''normalized_event'', JObj [(''type'', JStr ''object''), (''enabled'', JBool
     False)])])]"

definition raw_mapping :: json where
  "raw_mapping = JObj [(''dynamic'', JStr ''false''), (''properties'', JObj [(''event_id'',
     KEYWORD_T), (''tenant_id'', KEYWORD_T), (''collector_id'', KEYWORD_T), (''source_type'',
     KEYWORD_T), (''received_at'', JObj [(''type'', JStr ''date'')]), (''content_hash'',
     KEYWORD_T), (''raw_payload'', JObj [(''type'', JStr ''object''), (''enabled'', JBool
     False)])])]"

definition detection_mapping :: json where
  "detection_mapping = JObj [(''dynamic'', JStr ''false''), (''properties'', JObj
     [(''detection_id'', KEYWORD_T), (''tenant_id'', KEYWORD_T), (''rule_id'', KEYWORD_T),
     (''rule_name'', KEYWORD_T), (''rule_type'', KEYWORD_T), (''severity'', KEYWORD_T),
     (''confidence'', JObj [(''type'', JStr ''integer'')]), (''risk_score'', JObj [(''type'',
     JStr ''integer'')]), (''rule_risk_score'', JObj [(''type'', JStr ''integer'')]),
     (''risk_bucket'', KEYWORD_T), (''mitre_attack'', KEYWORD_T), (''event_ids'', KEYWORD_T),
     (''matched_at'', JObj [(''type'', JStr ''date'')]), (''dry_run'', JObj [(''type'', JStr
     ''boolean'')]), (''entity_summary'', KEYWORD_LONG), (''entity'', JObj [(''type'', JStr
     ''object''), (''enabled'', JBool False)]), (''evidence'', JObj [(''type'', JStr
     ''object''), (''enabled'', JBool False)]), (''risk_explanation'', JObj [(''type'', JStr
     ''object''), (''enabled'', JBool False)])])]"

definition deadletter_mapping :: json where
  "deadletter_mapping = JObj [(''dynamic'', JStr ''false''), (''properties'', JObj
     [(''tenant_id'', KEYWORD_T), (''stage'', KEYWORD_T), (''failure_reason'', JObj [(''type'',
     JStr ''text'')]), (''failed_at'', JObj [(''type'', JStr ''date'')]), (''raw_payload'', JObj
     [(''type'', JStr ''object''), (''enabled'', JBool False)])])]"

definition template_body :: "string \<Rightarrow> string \<Rightarrow> json \<Rightarrow> string \<Rightarrow> int \<Rightarrow> json" where
  "template_body pat alias mapping policy_id shards = JObj [(''index_patterns'', JList [JStr
     pat]), (''template'', JObj [(''settings'', JObj [(''number_of_shards'', JInt shards),
     (''number_of_replicas'', JInt 1), (''index.plugins.index_state_management.policy_id'', JStr
     policy_id), (''index.plugins.index_state_management.rollover_alias'', JStr alias),
     (''index.mapping.total_fields.limit'', JInt 2000)]), (''mappings'', mapping)])]"

definition ism_policy :: "string \<Rightarrow> int \<Rightarrow> int \<Rightarrow> json" where
  "ism_policy description hot_days delete_days = JObj [(''policy'', JObj [(''description'', JStr
     description), (''default_state'', JStr ''hot''), (''states'', JList [JObj [(''name'', JStr
     ''hot''), (''actions'', JList [JObj [(''rollover'', JObj [(''min_size'', JStr ''50gb''),
     (''min_index_age'', JStr ''1d'')])]]), (''transitions'', JList [JObj [(''state_name'', JStr
     ''warm''), (''conditions'', JObj [(''min_index_age'', JStr (show_int hot_days @
     ''d''))])]])], JObj [(''name'', JStr ''warm''), (''actions'', JList [JObj
     [(''replica_count'', JObj [(''number_of_replicas'', JInt 1)])]]), (''transitions'', JList
     [JObj [(''state_name'', JStr ''delete''), (''conditions'', JObj [(''min_index_age'', JStr
     (show_int delete_days @ ''d''))])]])], JObj [(''name'', JStr ''delete''), (''actions'',
     JList [JObj [(''delete'', JObj [])]]), (''transitions'', JList [])]]), (''ism_template'',
     JList [JObj [(''index_patterns'', JList []), (''priority'', JInt 100)]])])]"

section \<open>Bootstrap\<close>

datatype request =
    PutPolicy string json
  | PutTemplate string json
  | ExistsAlias string
  | CreateIndex string json
  | PutMapping string json

datatype answer =
    Acknowledged
  | AliasExists bool
  | ConflictError
  | RequestError int string  \<comment> \<open>status code and error type\<close>
  | NotFoundError
  | TransportError

type_synonym client = "request list \<Rightarrow> request \<Rightarrow> answer"

text \<open>A step takes the requests issued so far and returns them with its own, or the answer that
  was raised.\<close>

definition put_ism_policy :: "client \<Rightarrow> string \<Rightarrow> json \<Rightarrow> string \<Rightarrow> request list \<Rightarrow> answer + request list" where
  "put_ism_policy cl policy_id policy pat reqs =
     (let p = (case policy of JObj d \<Rightarrow> (case get d ''policy'' of JObj inner \<Rightarrow>
                 JObj (dict_set ''policy'' (JObj (dict_set ''ism_template''
                   (JList [JObj [(''index_patterns'', JList [JStr pat]), (''priority'', JInt 100)]]) inner)) d)
               | _ \<Rightarrow> policy) | _ \<Rightarrow> policy);
          r = PutPolicy policy_id p
      in case cl reqs r of
           ConflictError \<Rightarrow> Inr (reqs @ [r])
         | RequestError code err \<Rightarrow> if code \<noteq> 400 then Inl (RequestError code err) else Inr (reqs @ [r])
         | NotFoundError \<Rightarrow> Inr (reqs @ [r])
         | TransportError \<Rightarrow> Inl TransportError
         | _ \<Rightarrow> Inr (reqs @ [r]))"

definition put_index_template :: "client \<Rightarrow> string \<Rightarrow> json \<Rightarrow> request list \<Rightarrow> answer + request list" where
  "put_index_template cl name body reqs = (let r = PutTemplate name body in
     case cl reqs r of Acknowledged \<Rightarrow> Inr (reqs @ [r]) | AliasExists b \<Rightarrow> Inr (reqs @ [r]) | a \<Rightarrow> Inl a)"

definition initial_index :: "string \<Rightarrow> string" where
  "initial_index pat = List.concat (map (\<lambda>c. if c = CHR ''*'' then ''000001'' else [c]) pat)"

definition ensure_write_index :: "client \<Rightarrow> string \<Rightarrow> string \<Rightarrow> request list \<Rightarrow> answer + request list" where
  "ensure_write_index cl pat alias reqs = (let q = ExistsAlias alias in
     case cl reqs q of
       AliasExists True \<Rightarrow> Inr (reqs @ [q])
     | AliasExists False \<Rightarrow>
         (let r = CreateIndex (initial_index pat)
               (JObj [(''aliases'', JObj [(alias, JObj [(''is_write_index'', JBool True)])])])
          in case cl (reqs @ [q]) r of
               RequestError code err \<Rightarrow>
                 if err \<noteq> ''resource_already_exists_exception'' then Inl (RequestError code err)
                 else Inr (reqs @ [q, r])
             | Acknowledged \<Rightarrow> Inr (reqs @ [q, r])
             | AliasExists b \<Rightarrow> Inr (reqs @ [q, r])
             | a \<Rightarrow> Inl a)
     | a \<Rightarrow> Inl a)"

definition apply_mapping_to_existing :: "client \<Rightarrow> string \<Rightarrow> json \<Rightarrow> request list \<Rightarrow> answer + request list" where
  "apply_mapping_to_existing cl alias mapping reqs = (let r = PutMapping alias mapping in
     case cl reqs r of
       NotFoundError \<Rightarrow> Inr (reqs @ [r])
     | RequestError _ _ \<Rightarrow> Inr (reqs @ [r])
     | Acknowledged \<Rightarrow> Inr (reqs @ [r])
     | AliasExists b \<Rightarrow> Inr (reqs @ [r])
     | a \<Rightarrow> Inl a)"

record family =
  fam_name :: string
  fam_pattern :: string
  fam_alias :: string
  fam_mapping :: json
  fam_shards :: int
  fam_retention :: int
  fam_hot :: int

record retention =
  raw_days :: int
  normalized_days :: int
  deadletter_days :: int
  detection_days :: int

definition families :: "retention \<Rightarrow> family list" where
  "families s =
    [\<lparr>fam_name = ''lunatic-events-raw'', fam_pattern = ''lunatic-events-raw-v1-*'', fam_alias = ''events-raw-write'',
       fam_mapping = raw_mapping, fam_shards = 2, fam_retention = raw_days s, fam_hot = 7\<rparr>,
     \<lparr>fam_name = ''lunatic-events-normalized'', fam_pattern = ''lunatic-events-normalized-v1-*'',
       fam_alias = ''events-normalized-write'', fam_mapping = normalized_mapping, fam_shards = 3,
       fam_retention = normalized_days s, fam_hot = 14\<rparr>,
     \<lparr>fam_name = ''lunatic-deadletter'', fam_pattern = ''lunatic-deadletter-v1-*'', fam_alias = ''deadletter-write'',
       fam_mapping = deadletter_mapping, fam_shards = 1, fam_retention = deadletter_days s, fam_hot = 30\<rparr>,
     \<lparr>fam_name = ''lunatic-detections'', fam_pattern = ''lunatic-detections-v1-*'', fam_alias = ''detections-write'',
       fam_mapping = detection_mapping, fam_shards = 1, fam_retention = detection_days s, fam_hot = 30\<rparr>]"

definition bootstrap_family :: "client \<Rightarrow> family \<Rightarrow> request list \<Rightarrow> answer + request list" where
  "bootstrap_family cl f reqs =
     (let policy_id = fam_name f @ ''-policy'' in
      bind_res (put_ism_policy cl policy_id
          (ism_policy (''Lifecycle for '' @ fam_name f) (fam_hot f) (fam_retention f)) (fam_pattern f) reqs) (\<lambda>r1.
      bind_res (put_index_template cl (fam_name f @ ''-template'')
          (template_body (fam_pattern f) (fam_alias f) (fam_mapping f) policy_id (fam_shards f)) r1) (\<lambda>r2.
      bind_res (ensure_write_index cl (fam_pattern f) (fam_alias f) r2) (\<lambda>r3.
      apply_mapping_to_existing cl (fam_alias f) (fam_mapping f) r3))))"

fun bootstrap_families :: "client \<Rightarrow> family list \<Rightarrow> request list \<Rightarrow> answer + request list" where
  "bootstrap_families cl [] reqs = Inr reqs"
| "bootstrap_families cl (f # fs) reqs = bind_res (bootstrap_family cl f reqs) (bootstrap_families cl fs)"

definition bootstrap_indices :: "client \<Rightarrow> retention \<Rightarrow> answer + request list" where
  "bootstrap_indices cl s = bootstrap_families cl (families s) []"

section \<open>Properties\<close>

text \<open>A cluster on which everything is already there: policies conflict, every alias exists,
  templates and mappings are accepted or the mapping is refused as incompatible.\<close>

definition already_bootstrapped :: "client \<Rightarrow> bool" where
  "already_bootstrapped cl \<longleftrightarrow> (\<forall>reqs r. case r of
      PutPolicy _ _ \<Rightarrow> cl reqs r \<in> {ConflictError, NotFoundError, RequestError 400 []}
    | PutTemplate _ _ \<Rightarrow> cl reqs r = Acknowledged
    | ExistsAlias _ \<Rightarrow> cl reqs r = AliasExists True
    | CreateIndex _ _ \<Rightarrow> True
    | PutMapping _ _ \<Rightarrow> cl reqs r \<in> {Acknowledged, RequestError 400 ''illegal_argument_exception''})"

lemma already_bootstrappedD:
  assumes "already_bootstrapped cl"
  shows "cl x (PutPolicy i b) \<in> {ConflictError, NotFoundError, RequestError 400 []}"
    and "cl x (PutTemplate i b) = Acknowledged" and "cl x (ExistsAlias i) = AliasExists True"
    and "cl x (PutMapping i b) \<in> {Acknowledged, RequestError 400 ''illegal_argument_exception''}"
proof -
  note a = assms [unfolded already_bootstrapped_def, THEN spec, of x, THEN spec]
  show "cl x (PutPolicy i b) \<in> {ConflictError, NotFoundError, RequestError 400 []}" using a [of "PutPolicy i b"] by simp
  show "cl x (PutTemplate i b) = Acknowledged" using a [of "PutTemplate i b"] by simp
  show "cl x (ExistsAlias i) = AliasExists True" using a [of "ExistsAlias i"] by simp
  show "cl x (PutMapping i b) \<in> {Acknowledged, RequestError 400 ''illegal_argument_exception''}"
    using a [of "PutMapping i b"] by simp
qed

definition creates_nothing :: "request list \<Rightarrow> bool" where
  "creates_nothing reqs \<longleftrightarrow> (\<forall>i b. CreateIndex i b \<notin> set reqs)"

lemma put_ism_policy_again:
  assumes "already_bootstrapped cl" "creates_nothing reqs"
  shows "\<exists>reqs'. put_ism_policy cl i b pat reqs = Inr reqs' \<and> creates_nothing reqs'"
proof -
  define q where "q = PutPolicy i (case b of JObj d \<Rightarrow> (case get d ''policy'' of JObj inner \<Rightarrow>
                 JObj (dict_set ''policy'' (JObj (dict_set ''ism_template''
                   (JList [JObj [(''index_patterns'', JList [JStr pat]), (''priority'', JInt 100)]]) inner)) d)
               | _ \<Rightarrow> b) | _ \<Rightarrow> b)"
  have "cl reqs q \<in> {ConflictError, NotFoundError, RequestError 400 []}"
    unfolding q_def by (rule already_bootstrappedD(1) [OF assms(1)])
  hence "put_ism_policy cl i b pat reqs = Inr (reqs @ [q])"
    unfolding put_ism_policy_def Let_def q_def [symmetric] by auto
  thus ?thesis using assms(2) by (simp add: creates_nothing_def q_def)
qed

lemma apply_mapping_again:
  assumes "already_bootstrapped cl" "creates_nothing reqs"
  shows "\<exists>reqs'. apply_mapping_to_existing cl i b reqs = Inr reqs' \<and> creates_nothing reqs'"
  using already_bootstrappedD(4) [OF assms(1), of reqs i b] assms(2)
  by (auto simp: apply_mapping_to_existing_def Let_def creates_nothing_def)

lemma bootstrap_family_again:
  assumes "already_bootstrapped cl" "creates_nothing reqs"
  shows "\<exists>reqs'. bootstrap_family cl f reqs = Inr reqs' \<and> creates_nothing reqs'"
proof -
  obtain r1 where r1: "put_ism_policy cl (fam_name f @ ''-policy'')
      (ism_policy (''Lifecycle for '' @ fam_name f) (fam_hot f) (fam_retention f)) (fam_pattern f) reqs = Inr r1"
    "creates_nothing r1" using put_ism_policy_again [OF assms] by blast
  define q where "q = PutTemplate (fam_name f @ ''-template'')
    (template_body (fam_pattern f) (fam_alias f) (fam_mapping f) (fam_name f @ ''-policy'') (fam_shards f))"
  let ?r3 = "(r1 @ [q]) @ [ExistsAlias (fam_alias f)]"
  have "cl r1 q = Acknowledged" unfolding q_def by (rule already_bootstrappedD(2) [OF assms(1)])
  hence "bootstrap_family cl f reqs = apply_mapping_to_existing cl (fam_alias f) (fam_mapping f) ?r3"
    unfolding bootstrap_family_def Let_def r1(1) bind_res_simps put_index_template_def q_def [symmetric]
    by (simp add: ensure_write_index_def already_bootstrappedD(3) [OF assms(1)])
  moreover have "creates_nothing ?r3" using r1(2) by (simp add: creates_nothing_def q_def)
  ultimately show ?thesis using apply_mapping_again [OF assms(1)] by metis
qed

lemma bootstrap_families_again:
  "already_bootstrapped cl \<Longrightarrow> creates_nothing reqs \<Longrightarrow>
   \<exists>reqs'. bootstrap_families cl fs reqs = Inr reqs' \<and> creates_nothing reqs'"
proof (induction fs arbitrary: reqs)
  case (Cons f fs)
  then obtain r where "bootstrap_family cl f reqs = Inr r" "creates_nothing r" using bootstrap_family_again by blast
  with Cons show ?case by simp
qed simp

text \<open>A restart is safe: on a cluster where everything is already in place (policies conflict,
  aliases exist, a mapping update may even be refused) the bootstrap completes, and it never asks
  for an index to be created again.\<close>

theorem bootstrap_restart_safe:
  assumes "already_bootstrapped cl"
  shows "\<exists>reqs. bootstrap_indices cl s = Inr reqs \<and> (\<forall>i b. CreateIndex i b \<notin> set reqs)"
  using bootstrap_families_again [OF assms, of "[]" "families s"]
  by (simp add: bootstrap_indices_def creates_nothing_def)

theorem bootstrap_restart_safe_witness:
  "\<exists>reqs. bootstrap_indices (\<lambda>reqs r. case r of PutPolicy _ _ \<Rightarrow> ConflictError | ExistsAlias _ \<Rightarrow> AliasExists True
       | _ \<Rightarrow> Acknowledged) \<lparr>raw_days = 90, normalized_days = 365, deadletter_days = 30, detection_days = 730\<rparr> = Inr reqs
     \<and> (\<forall>i b. CreateIndex i b \<notin> set reqs)"
  by (rule bootstrap_restart_safe) (simp add: already_bootstrapped_def split: request.splits)

end
