(* ===== verification/Windowed.thy ===== *)
theory Windowed
  imports Detection Index_Mapping Py_Ops
begin

text \<open>
  Windowed (threshold) rules: the compiler from condition trees to OpenSearch queries
  (\<open>detection/query.py\<close>) and the evaluator that pages through a composite aggregation and
  applies the threshold per bucket (\<open>detection/windowed.py\<close>). A query is a value of
  \<open>clause\<close>, one constructor per shape the compiler emits, with \<open>clause_json\<close> the
  dictionary that is sent. The OpenSearch client is an argument: \<open>w_search\<close> answers the n-th
  page request, \<open>w_count\<close> the exception count. What the cluster is documented to do with
  each leaf query is the hypothesis \<open>documented_leaves\<close>.
\<close>

section \<open>Compiling conditions\<close>

datatype occurrence = Must | Filter | Should | MustNot

datatype clause =
    TermQ string string bool       \<comment> \<open>field, value, \<open>case_insensitive\<close>\<close>
  | PlainTerm string string
  | WildcardQ string string bool
  | PrefixQ string string bool
  | RangeQ string "(string \<times> json) list"
  | ExistsQ string
  | BoolQ "(occurrence \<times> clause list) list" "nat option"  \<comment> \<open>sections, \<open>minimum_should_match\<close>\<close>

fun occurrence_key :: "occurrence \<Rightarrow> string" where
  "occurrence_key Must = ''must''"
| "occurrence_key Filter = ''filter''"
| "occurrence_key Should = ''should''"
| "occurrence_key MustNot = ''must_not''"

definition value_spec :: "string \<Rightarrow> string \<Rightarrow> bool \<Rightarrow> json" where
  "value_spec f t i = JObj [(f, JObj [(''value'', JStr t), (''case_insensitive'', JBool i)])]"

fun clause_json :: "clause \<Rightarrow> json" where
  "clause_json (TermQ f t i) = JObj [(''term'', value_spec f t i)]"
| "clause_json (PlainTerm f t) = JObj [(''term'', JObj [(f, JStr t)])]"
| "clause_json (WildcardQ f t i) = JObj [(''wildcard'', value_spec f t i)]"
| "clause_json (PrefixQ f t i) = JObj [(''prefix'', value_spec f t i)]"
| "clause_json (RangeQ f bounds) = JObj [(''range'', JObj [(f, JObj bounds)])]"
| "clause_json (ExistsQ f) = JObj [(''exists'', JObj [(''field'', JStr f)])]"
| "clause_json (BoolQ sections msm) = JObj [(''bool'', JObj
     (map (\<lambda>(oc, cs). (occurrence_key oc, JList (map clause_json cs))) sections
      @ (case msm of None \<Rightarrow> [] | Some k \<Rightarrow> [(''minimum_should_match'', JInt (int k))])))]"

definition textual_type :: "json \<Rightarrow> bool" where
  "textual_type t \<longleftrightarrow> t = JStr ''keyword'' \<or> t = JStr ''text''"

function walk :: "document \<Rightarrow> string \<Rightarrow> string list" where
  "walk [] pre = []"
| "walk ((name, d) # rest) pre =
     (case d of JObj dd \<Rightarrow> (case dict_get dd ''properties'' of
          Some (JObj ps) \<Rightarrow> walk ps (pre @ name @ ''.'')
        | _ \<Rightarrow> if textual_type (get dd ''type'') then [] else [pre @ name])
      | _ \<Rightarrow> []) @ walk rest pre"
  by pat_completeness auto

termination
proof (relation "measure (\<lambda>(kvs, pre). size_list (size_prod (\<lambda>x. 0) size) kvs)", goal_cases)
  case (2 name d rest pre dd v ps)
  hence "(''properties'', JObj ps) \<in> set dd" by (simp add: map_of_SomeD)
  hence "size (JObj ps) < Suc (size_list (size_prod (\<lambda>x. 0) size) dd)" by (rule size_dict_value)
  with 2 show ?case by simp
qed auto

definition non_textual_fields :: "string list" where
  "non_textual_fields = (case normalized_mapping of
     JObj m \<Rightarrow> (case get m ''properties'' of JObj ps \<Rightarrow> walk ps [] | _ \<Rightarrow> []) | _ \<Rightarrow> [])"

definition case_insensitive_allowed :: "string \<Rightarrow> bool \<Rightarrow> bool" where
  "case_insensitive_allowed field requested \<longleftrightarrow> requested \<and> field \<notin> set non_textual_fields"

fun negative_operator :: "operator \<Rightarrow> operator option" where
  "negative_operator NOT_EQUALS = Some EQUALS"
| "negative_operator NOT_CONTAINS = Some CONTAINS"
| "negative_operator NOT_IN = Some IN_OP"
| "negative_operator _ = None"

definition escape_wildcard :: "string \<Rightarrow> string" where
  "escape_wildcard v = List.concat (map (\<lambda>c.
     if c = CHR 0x5C \<or> c = CHR ''*'' \<or> c = CHR ''?'' then [CHR 0x5C, c] else [c]) v)"

definition query_text :: "json \<Rightarrow> string" where
  "query_text v = (case v of JBool b \<Rightarrow> if b then ''true'' else ''false'' | _ \<Rightarrow> py_str v)"

fun range_operator :: "operator \<Rightarrow> string" where
  "range_operator GT = ''gt''" | "range_operator GTE = ''gte''"
| "range_operator LT = ''lt''" | "range_operator _ = ''lte''"

fun operator_value :: "operator \<Rightarrow> string" where
  "operator_value EQUALS = ''equals''" | "operator_value NOT_EQUALS = ''not_equals''"
| "operator_value CONTAINS = ''contains''" | "operator_value NOT_CONTAINS = ''not_contains''"
| "operator_value STARTS_WITH = ''starts_with''" | "operator_value ENDS_WITH = ''ends_with''"
| "operator_value MATCHES = ''matches''" | "operator_value IN_OP = ''in''"
| "operator_value NOT_IN = ''not_in''" | "operator_value GT = ''gt''" | "operator_value GTE = ''gte''"
| "operator_value LT = ''lt''" | "operator_value LTE = ''lte''" | "operator_value CIDR = ''cidr''"
| "operator_value EXISTS = ''exists''"

definition positive_clause :: "condition \<Rightarrow> eval_error + clause" where
  "positive_clause c = (let f = field_path c; v = cvalue c;
      ins = case_insensitive_allowed f (\<not> case_sensitive c) in
     case op c of
       EQUALS \<Rightarrow> Inr (TermQ f (query_text v) ins)
     | IN_OP \<Rightarrow> Inr (BoolQ [(Should, map (\<lambda>x. TermQ f (query_text x) ins) (candidates v))] (Some 1))
     | CONTAINS \<Rightarrow> Inr (WildcardQ f (''*'' @ escape_wildcard (query_text v) @ ''*'') ins)
     | STARTS_WITH \<Rightarrow> Inr (PrefixQ f (query_text v) ins)
     | ENDS_WITH \<Rightarrow> Inr (WildcardQ f (''*'' @ escape_wildcard (query_text v)) ins)
     | GT \<Rightarrow> Inr (RangeQ f [(range_operator (op c), v)])
     | GTE \<Rightarrow> Inr (RangeQ f [(range_operator (op c), v)])
     | LT \<Rightarrow> Inr (RangeQ f [(range_operator (op c), v)])
     | LTE \<Rightarrow> Inr (RangeQ f [(range_operator (op c), v)])
     | CIDR \<Rightarrow> Inr (BoolQ [(Should, map (\<lambda>x. PlainTerm f (query_text x)) (candidates v))] (Some 1))
     | EXISTS \<Rightarrow> Inr (if py_truthy v then ExistsQ f else BoolQ [(MustNot, [ExistsQ f])] None)
     | oper \<Rightarrow> Inl (UnsupportedQueryOperator (operator_value oper)))"

definition compile_condition :: "condition \<Rightarrow> eval_error + clause" where
  "compile_condition c = (case negative_operator (op c) of
     None \<Rightarrow> positive_clause c
   | Some positive \<Rightarrow> bind_res (positive_clause (c\<lparr>op := positive\<rparr>)) (\<lambda>q.
       Inr (BoolQ [(Must, [ExistsQ (field_path c)]), (MustNot, [q])] None)))"

fun compile_conditions :: "condition_node \<Rightarrow> eval_error + clause" where
  "compile_conditions (Leaf c) = compile_condition c"
| "compile_conditions (Group a b n) =
     (case a of Some xs \<Rightarrow> bind_res (map_res compile_conditions xs) (\<lambda>qs. Inr (BoolQ [(Filter, qs)] None))
      | None \<Rightarrow> (case b of Some xs \<Rightarrow> bind_res (map_res compile_conditions xs) (\<lambda>qs. Inr (BoolQ [(Should, qs)] (Some 1)))
      | None \<Rightarrow> (case n of Some x \<Rightarrow> bind_res (compile_conditions x) (\<lambda>q. Inr (BoolQ [(MustNot, [q])] None))
      | None \<Rightarrow> Inl (ValueError ''condition group has no branch set''))))"

fun unsupported_operators :: "condition_node \<Rightarrow> string list" where
  "unsupported_operators (Leaf c) = (if op c = MATCHES then [operator_value (op c)] else [])"
| "unsupported_operators (Group a b n) =
     (case a of Some xs \<Rightarrow> List.concat (map unsupported_operators xs)
      | None \<Rightarrow> (case b of Some xs \<Rightarrow> List.concat (map unsupported_operators xs)
      | None \<Rightarrow> (case n of Some x \<Rightarrow> unsupported_operators x | None \<Rightarrow> [])))"

section \<open>The evaluator\<close>

definition TIMESTAMP_FIELD :: string where "TIMESTAMP_FIELD = ''timestamp''"
definition CARDINALITY_PRECISION :: int where "CARDINALITY_PRECISION = 40000"
definition DEFAULT_PAGE_SIZE :: int where "DEFAULT_PAGE_SIZE = 500"
definition DEFAULT_MAX_BUCKETS :: int where "DEFAULT_MAX_BUCKETS = 10000"
definition EVIDENCE_EVENTS :: int where "EVIDENCE_EVENTS = 10"

record 's evaluator =
  w_search :: "nat \<Rightarrow> json \<Rightarrow> eval_error + json"
  w_count :: "json \<Rightarrow> eval_error + json"
  w_suppression :: "('s \<Rightarrow> rat \<Rightarrow> string \<Rightarrow> nat \<Rightarrow> bool \<times> 's) option"
  page_size :: int
  max_buckets :: int

text \<open>What a run may change: the suppression store and the number of identifiers drawn.\<close>

type_synonym 's wstate = "'s \<times> nat"

definition window_of :: "detection_rule \<Rightarrow> eval_error + window_spec" where
  "window_of r = (case window r of None \<Rightarrow> Inl (ValueError (rule_id r @ '' is not a windowed rule'')) | Some w \<Rightarrow> Inr w)"

definition base_filter :: "env \<Rightarrow> detection_rule \<Rightarrow> string \<Rightarrow> int \<Rightarrow> int \<Rightarrow> eval_error + clause list" where
  "base_filter e r tenant window_start now = bind_res (compile_conditions (conditions r)) (\<lambda>q. Inr
     [PlainTerm ''tenant_id'' tenant,
      RangeQ TIMESTAMP_FIELD [(''gte'', JStr (isoformat e window_start)), (''lte'', JStr (isoformat e now))],
      q])"

definition exception_clauses :: "env \<Rightarrow> detection_rule \<Rightarrow> int \<Rightarrow> eval_error + clause list" where
  "exception_clauses e r now = map_res (\<lambda>ex. compile_conditions (exc_conditions ex))
     (filter (\<lambda>ex. exception_is_active e ex now) (exceptions r))"

definition count_excepted :: "'s evaluator \<Rightarrow> clause list \<Rightarrow> clause list \<Rightarrow> eval_error + unit" where
  "count_excepted ev base exc =
     (if exc = [] then Inr ()
      else (case w_count ev (JObj [(''query'', clause_json (BoolQ [(Filter, base), (Should, exc)] (Some 1)))]) of
          Inl _ \<Rightarrow> Inr ()
        | Inr response \<Rightarrow> bind_res (obj_get response ''count'' (JInt 0)) (\<lambda>n. bind_res (py_int n) (\<lambda>_. Inr ()))))"

definition aggregation_body ::
  "'s evaluator \<Rightarrow> detection_rule \<Rightarrow> clause list \<Rightarrow> clause list \<Rightarrow> json option \<Rightarrow> eval_error + json" where
  "aggregation_body ev r base exc after = bind_res (window_of r) (\<lambda>w.
     let composite = [(''size'', JInt (page_size ev)),
           (''sources'', JList (map (\<lambda>f. JObj [(f, JObj [(''terms'', JObj [(''field'', JStr f)])])]) (group_by w)))]
           @ (case after of None \<Rightarrow> [] | Some k \<Rightarrow> [(''after'', k)]);
         aggregations = [(''events'', JObj [(''top_hits'', JObj [(''size'', JInt EVIDENCE_EVENTS),
             (''_source'', JList [JStr ''event_id'', JStr TIMESTAMP_FIELD, JStr ''source_ip'', JStr ''user'', JStr ''hostname'']),
             (''sort'', JList [JObj [(TIMESTAMP_FIELD, JObj [(''order'', JStr ''desc'')])]])])])]
           @ (case distinct_field w of None \<Rightarrow> [] | Some f \<Rightarrow> [(''distinct'', JObj [(''cardinality'',
               JObj [(''field'', JStr f), (''precision_threshold'', JInt CARDINALITY_PRECISION)])])])
     in Inr (JObj [(''size'', JInt 0),
          (''query'', clause_json (BoolQ [(Filter, base), (MustNot, exc)] None)),
          (''aggs'', JObj [(''entities'', JObj [(''composite'', JObj composite), (''aggs'', JObj aggregations)])])]))"

definition observed_in :: "window_spec \<Rightarrow> json \<Rightarrow> eval_error + int" where
  "observed_in w bucket = (case distinct_field w of
     Some _ \<Rightarrow> bind_res (obj_get bucket ''distinct'' (JObj [])) (\<lambda>d.
       bind_res (obj_get d ''value'' (JInt 0)) py_int)
   | None \<Rightarrow> bind_res (obj_get bucket ''doc_count'' (JInt 0)) py_int)"

text \<open>The hits of a bucket, the event ids they carry and their \<open>_source\<close> documents.\<close>

definition bucket_hits :: "json \<Rightarrow> eval_error + json list" where
  "bucket_hits bucket =
     bind_res (obj_get bucket ''events'' (JObj [])) (\<lambda>ev.
     bind_res (obj_get ev ''hits'' (JObj [])) (\<lambda>h.
     bind_res (obj_get h ''hits'' (JList [])) py_iter))"

fun hit_event_ids :: "json list \<Rightarrow> eval_error + json list" where
  "hit_event_ids [] = Inr []"
| "hit_event_ids (hit # hits) =
     bind_res (item hit ''_source'') (\<lambda>s. bind_res (contains_key s ''event_id'') (\<lambda>b.
     if b then bind_res (item s ''event_id'') (\<lambda>i. bind_res (hit_event_ids hits) (\<lambda>is. Inr (i # is)))
     else hit_event_ids hits))"

definition hit_sources :: "json list \<Rightarrow> eval_error + json list" where
  "hit_sources hits = map_res (\<lambda>hit. item hit ''_source'') hits"

definition window_evidence :: "env \<Rightarrow> window_spec \<Rightarrow> int \<Rightarrow> int \<Rightarrow> int \<Rightarrow> json list \<Rightarrow> json list \<Rightarrow> document" where
  "window_evidence e w observed window_start now ids sources =
    [(''observed'', JInt observed), (''threshold'', JInt (threshold w)),
     (''distinct_field'', case distinct_field w of None \<Rightarrow> JNull | Some f \<Rightarrow> JStr f),
     (''window_start'', JStr (isoformat e window_start)), (''window_end'', JStr (isoformat e now)),
     (''event_ids_truncated'', JBool (observed > int (length ids))), (''sample_events'', JList sources)]"

definition finish_match ::
  "env \<Rightarrow> detection_rule \<Rightarrow> string \<Rightarrow> window_spec \<Rightarrow> json \<Rightarrow> int \<Rightarrow> document \<Rightarrow> int \<Rightarrow> int \<Rightarrow> 's wstate
    \<Rightarrow> (eval_error + rule_match option) \<times> 's wstate" where
  "finish_match e r tenant w bucket observed entity window_start now st =
     (case bind_res (bucket_hits bucket) (\<lambda>hits. bind_res (hit_event_ids hits) (\<lambda>ids.
             bind_res (hit_sources hits) (\<lambda>ss. Inr (ss, ids)))) of
        Inl err \<Rightarrow> (Inl err, st)
      | Inr (ss, ids) \<Rightarrow>
          (Inr (Some (build_match e (snd st) r tenant ids entity
             (window_evidence e w observed window_start now ids ss))), (fst st, Suc (snd st))))"

definition bucket_match ::
  "env \<Rightarrow> 's evaluator \<Rightarrow> detection_rule \<Rightarrow> string \<Rightarrow> json \<Rightarrow> int \<Rightarrow> int \<Rightarrow> 's wstate
    \<Rightarrow> (eval_error + rule_match option) \<times> 's wstate" where
  "bucket_match e ev r tenant bucket window_start now st =
     (case bind_res (window_of r) (\<lambda>w. bind_res (observed_in w bucket) (\<lambda>n. Inr (w, n))) of
        Inl err \<Rightarrow> (Inl err, st)
      | Inr (w, observed) \<Rightarrow>
          if observed < threshold w then (Inr None, st)
          else (case bind_res (obj_get bucket ''key'' (JObj [])) py_dict of
              Inl err \<Rightarrow> (Inl err, st)
            | Inr entity \<Rightarrow> (case suppression_seconds r of
                None \<Rightarrow> (Inl (ValueError ''invalid suppression duration''), st)
              | Some secs \<Rightarrow>
                  (case w_suppression ev of
                     Some claim \<Rightarrow>
                       if 0 < secs then
                         (case claim (fst st) (monotonic e) (suppression_key r tenant entity) secs of
                            (granted, s') \<Rightarrow>
                              if granted then finish_match e r tenant w bucket observed entity window_start now (s', snd st)
                              else (Inr None, (s', snd st)))
                       else finish_match e r tenant w bucket observed entity window_start now st
                   | None \<Rightarrow> finish_match e r tenant w bucket observed entity window_start now st))))"

fun bucket_matches ::
  "env \<Rightarrow> 's evaluator \<Rightarrow> detection_rule \<Rightarrow> string \<Rightarrow> json list \<Rightarrow> int \<Rightarrow> int \<Rightarrow> 's wstate
    \<Rightarrow> (eval_error + rule_match list) \<times> 's wstate" where
  "bucket_matches e ev r tenant [] window_start now st = (Inr [], st)"
| "bucket_matches e ev r tenant (b # bs) window_start now st =
     (case bucket_match e ev r tenant b window_start now st of
        (Inl err, st') \<Rightarrow> (Inl err, st')
      | (Inr m, st') \<Rightarrow> (case bucket_matches e ev r tenant bs window_start now st' of
          (Inl err, st'') \<Rightarrow> (Inl err, st'')
        | (Inr ms, st'') \<Rightarrow> (Inr (case m of None \<Rightarrow> ms | Some x \<Rightarrow> x # ms), st'')))"

definition page_of :: "json \<Rightarrow> eval_error + json list \<times> json option" where
  "page_of response =
     bind_res (obj_get response ''aggregations'' (JObj [])) (\<lambda>aggs.
     bind_res (obj_get aggs ''entities'' (JObj [])) (\<lambda>entities.
     bind_res (obj_get entities ''buckets'' (JList [])) (\<lambda>bs.
     bind_res (py_iter bs) (\<lambda>buckets.
     bind_res (obj_get entities ''after_key'' JNull) (\<lambda>k.
     Inr (buckets, if k = JNull then None else Some k))))))"

text \<open>One page request: the body, the answer and the page it holds.\<close>

definition fetch_page ::
  "'s evaluator \<Rightarrow> detection_rule \<Rightarrow> clause list \<Rightarrow> clause list \<Rightarrow> nat \<Rightarrow> json option \<Rightarrow> eval_error + json list \<times> json option" where
  "fetch_page ev r base exc page after =
     bind_res (aggregation_body ev r base exc after) (\<lambda>body. bind_res (w_search ev page body) page_of)"

function collect ::
  "env \<Rightarrow> 's evaluator \<Rightarrow> detection_rule \<Rightarrow> string \<Rightarrow> clause list \<Rightarrow> clause list \<Rightarrow> int \<Rightarrow> int
    \<Rightarrow> nat \<Rightarrow> json option \<Rightarrow> int \<Rightarrow> 's wstate \<Rightarrow> (eval_error + rule_match list) \<times> 's wstate" where
  "collect e ev r tenant base exc window_start now page after seen st =
     (case fetch_page ev r base exc page after of
        Inl err \<Rightarrow> (Inl err, st)
      | Inr (buckets, after') \<Rightarrow>
          (case bucket_matches e ev r tenant buckets window_start now st of
             (Inl err, st') \<Rightarrow> (Inl err, st')
           | (Inr ms, st') \<Rightarrow>
               let seen' = seen + int (length buckets) in
               if after' = None \<or> buckets = [] then (Inr ms, st')
               else if seen' \<ge> max_buckets ev then (Inr ms, st')
               else (case collect e ev r tenant base exc window_start now (Suc page) after' seen' st' of
                   (Inl err, st'') \<Rightarrow> (Inl err, st'')
                 | (Inr ns, st'') \<Rightarrow> (Inr (ms @ ns), st''))))"
  by pat_completeness auto

termination
proof (relation "measure (\<lambda>(e, ev, r, tenant, base, exc, ws, now, page, after, seen, st). nat (max_buckets ev - seen))",
    goal_cases)
  case (2 e ev r tenant base exc ws now page after seen st x bs after')
  thus ?case by (cases bs) simp_all
qed simp

declare collect.simps [simp del]

definition run ::
  "env \<Rightarrow> 's evaluator \<Rightarrow> detection_rule \<Rightarrow> string \<Rightarrow> int \<Rightarrow> 's wstate \<Rightarrow> (eval_error + rule_match list) \<times> 's wstate" where
  "run e ev r tenant now st =
     (case window_of r of Inl err \<Rightarrow> (Inl err, st)
      | Inr w \<Rightarrow>
          if status r = DISABLED then (Inr [], st)
          else (case duration_seconds (duration w) of
              None \<Rightarrow> (Inl (ValueError ''invalid duration''), st)
            | Some secs \<Rightarrow>
                let window_start = now - int secs * 1000000 in
                (case bind_res (base_filter e r tenant window_start now) (\<lambda>base.
                      bind_res (exception_clauses e r now) (\<lambda>exc.
                      bind_res (count_excepted ev base exc) (\<lambda>_. Inr (base, exc)))) of
                   Inl err \<Rightarrow> (Inl err, st)
                 | Inr (base, exc) \<Rightarrow> collect e ev r tenant base exc window_start now 0 None 0 st)))"

section \<open>What the compiler accepts\<close>

lemma compile_condition_ex: "(\<exists>q. compile_condition c = Inr q) \<longleftrightarrow> op c \<noteq> MATCHES"
  by (cases "op c") (auto simp: compile_condition_def positive_clause_def Let_def)

lemma compile_conditions_ex:
  "node_valid ok n \<Longrightarrow> (\<exists>q. compile_conditions n = Inr q) \<longleftrightarrow> unsupported_operators n = []"
proof (induction n rule: compile_conditions.induct)
  case (1 c)
  show ?case using compile_condition_ex [of c] by simp
next
  case (2 a b n)
  show ?case
  proof (cases a)
    case (Some xs)
    with 2 have "\<forall>x \<in> set xs. (\<exists>q. compile_conditions x = Inr q) = (unsupported_operators x = [])"
      by (auto simp: list_all_iff)
    with Some show ?thesis by (simp add: bind_res_Inr map_res_ex)
  next
    case a: None
    show ?thesis
    proof (cases b)
      case (Some xs)
      with 2 a have "\<forall>x \<in> set xs. (\<exists>q. compile_conditions x = Inr q) = (unsupported_operators x = [])"
        by (auto simp: list_all_iff)
      with Some a show ?thesis by (simp add: bind_res_Inr map_res_ex)
    next
      case b: None
      then obtain x where "n = Some x" using 2 a by (cases n) auto
      with 2 a b show ?thesis by (simp add: bind_res_Inr)
    qed
  qed
qed

section \<open>What a query means\<close>

text \<open>How a \<open>bool\<close> query combines its clauses, given what each leaf query matches.\<close>

definition should_needed :: "(occurrence \<times> clause list) list \<Rightarrow> nat option \<Rightarrow> nat" where
  "should_needed sections msm = (case msm of Some k \<Rightarrow> k
     | None \<Rightarrow> if list_ex (\<lambda>(oc, cs). (oc = Must \<or> oc = Filter) \<and> cs \<noteq> []) sections then 0 else 1)"

fun clause_sat :: "(clause \<Rightarrow> document \<Rightarrow> bool) \<Rightarrow> document \<Rightarrow> clause \<Rightarrow> bool" where
  "clause_sat leaf doc (BoolQ sections msm) \<longleftrightarrow> list_all (\<lambda>(oc, cs). case oc of
       Must \<Rightarrow> list_all (clause_sat leaf doc) cs
     | Filter \<Rightarrow> list_all (clause_sat leaf doc) cs
     | MustNot \<Rightarrow> list_all (\<lambda>c. \<not> clause_sat leaf doc c) cs
     | Should \<Rightarrow> should_needed sections msm \<le> length (filter (clause_sat leaf doc) cs)) sections"
| "clause_sat leaf doc c \<longleftrightarrow> leaf c doc"

text \<open>Lucene wildcard patterns: \<open>*\<close> any text, \<open>?\<close> any character, a backslash takes
  the next character literally.\<close>

fun wild_match :: "string \<Rightarrow> string \<Rightarrow> bool" where
  "wild_match [] s \<longleftrightarrow> s = []"
| "wild_match (p # ps) s \<longleftrightarrow>
     (if p = CHR ''*'' then wild_match ps s \<or> (case s of [] \<Rightarrow> False | _ # s' \<Rightarrow> wild_match (p # ps) s')
      else if p = CHR ''?'' then (case s of [] \<Rightarrow> False | _ # s' \<Rightarrow> wild_match ps s')
      else if p = CHR 0x5C then (case ps of [] \<Rightarrow> s = [p]
        | q # qs \<Rightarrow> (case s of [] \<Rightarrow> False | c # s' \<Rightarrow> c = q \<and> wild_match qs s'))
      else (case s of [] \<Rightarrow> False | c # s' \<Rightarrow> c = p \<and> wild_match ps s'))"

lemma wild_match_star: "wild_match (CHR ''*'' # ps) s \<longleftrightarrow> (\<exists>u v. s = u @ v \<and> wild_match ps v)"
proof (induction s)
  case (Cons c s)
  have "wild_match (CHR ''*'' # ps) (c # s) \<longleftrightarrow> wild_match ps (c # s) \<or> (\<exists>u v. s = u @ v \<and> wild_match ps v)"
    using Cons by simp
  also have "\<dots> \<longleftrightarrow> (\<exists>u v. c # s = u @ v \<and> wild_match ps v)" by (auto simp: Cons_eq_append_conv)
  finally show ?case .
qed simp

lemma wild_match_escape: "wild_match (escape_wildcard v @ ps) s \<longleftrightarrow> (\<exists>w. s = v @ w \<and> wild_match ps w)"
proof (induction v arbitrary: s)
  case (Cons c v)
  have e: "escape_wildcard (c # v) = (if c = CHR 0x5C \<or> c = CHR ''*'' \<or> c = CHR ''?'' then [CHR 0x5C, c] else [c])
      @ escape_wildcard v" by (simp add: escape_wildcard_def)
  show ?case unfolding e using Cons by (cases s) auto
qed (simp add: escape_wildcard_def)

lemma wild_match_Nil: "wild_match [] s \<longleftrightarrow> s = []"
  by simp

declare wild_match.simps [simp del]

lemma wild_contains: "wild_match (''*'' @ escape_wildcard v @ ''*'') s \<longleftrightarrow> sublist v s"
  unfolding append_Cons append_Nil wild_match_star wild_match_escape wild_match_Nil sublist_def by blast

lemma wild_ends: "wild_match (''*'' @ escape_wildcard v) s \<longleftrightarrow> suffix v s"
proof -
  have "wild_match (escape_wildcard v) w \<longleftrightarrow> w = v" for w
    using wild_match_escape [of v "[]" w] by (simp add: wild_match_Nil)
  thus ?thesis unfolding append_Cons append_Nil wild_match_star suffix_def by blast
qed

text \<open>The non-null values of a field, and case folding of a query.\<close>

definition present :: "string \<Rightarrow> document \<Rightarrow> json set" where
  "present f doc = {v \<in> set (resolve_path (JObj doc) f). v \<noteq> JNull}"

definition fold_if :: "bool \<Rightarrow> string \<Rightarrow> string" where
  "fold_if i s = (if i then str_lower s else s)"

text \<open>What OpenSearch documents of each leaf query: \<open>exists\<close> asks for a value; on a keyword
  field \<open>term\<close> compares whole texts, \<open>prefix\<close> and \<open>wildcard\<close> their beginning and
  their pattern, all folding case on request; \<open>range\<close> compares numbers on a numeric field;
  a plain \<open>term\<close> with an address or a network asks an \<open>ip\<close> field for containment.\<close>

record typing =
  kw_field :: "string \<Rightarrow> bool"
  num_field :: "string \<Rightarrow> bool"
  ip_field :: "string \<Rightarrow> bool"

fun range_rel :: "operator \<Rightarrow> pyfloat \<Rightarrow> pyfloat \<Rightarrow> bool" where
  "range_rel GT a b = f_lt b a" | "range_rel GTE a b = f_le b a"
| "range_rel LT a b = f_lt a b" | "range_rel _ a b = f_le a b"

definition documented_leaves :: "typing \<Rightarrow> (clause \<Rightarrow> document \<Rightarrow> bool) \<Rightarrow> bool" where
  "documented_leaves ty leaf \<longleftrightarrow>
     (\<forall>f doc. leaf (ExistsQ f) doc \<longleftrightarrow> present f doc \<noteq> {}) \<and>
     (\<forall>f t i doc. kw_field ty f \<longrightarrow> (leaf (TermQ f t i) doc \<longleftrightarrow>
        (\<exists>v \<in> present f doc. \<exists>s. as_text v = Some s \<and> fold_if i s = fold_if i t))) \<and>
     (\<forall>f t i doc. kw_field ty f \<longrightarrow> (leaf (PrefixQ f t i) doc \<longleftrightarrow>
        (\<exists>v \<in> present f doc. \<exists>s. as_text v = Some s \<and> prefix (fold_if i t) (fold_if i s)))) \<and>
     (\<forall>f p i doc. kw_field ty f \<longrightarrow> (leaf (WildcardQ f p i) doc \<longleftrightarrow>
        (\<exists>v \<in> present f doc. \<exists>s. as_text v = Some s \<and> wild_match (fold_if i p) (fold_if i s)))) \<and>
     (\<forall>f oper x doc. num_field ty f \<and> oper \<in> {GT, GTE, LT, LTE} \<longrightarrow>
        (leaf (RangeQ f [(range_operator oper, x)]) doc \<longleftrightarrow>
          (\<exists>v \<in> present f doc. related_number (range_rel oper) v x))) \<and>
     (\<forall>f t doc. ip_field ty f \<longrightarrow> (leaf (PlainTerm f t) doc \<longleftrightarrow>
        (\<exists>v \<in> present f doc. cidr_match v (JStr t))))"

text \<open>Conditions on which the two paths can agree: text operators on keyword fields with text
  values that do not read as numbers where texts are compared for equality, ranges on numeric
  fields, networks on address fields, and a negative operator only on a field that holds at
  most one value in the document at hand.\<close>

definition plain_text :: "json \<Rightarrow> bool" where
  "plain_text v \<longleftrightarrow> (\<exists>t. v = JStr t \<and> number_of v = None)"

definition portable_condition :: "typing \<Rightarrow> document \<Rightarrow> condition \<Rightarrow> bool" where
  "portable_condition ty doc c \<longleftrightarrow> (let f = field_path c; v = cvalue c;
      single = (\<exists>x. present f doc \<subseteq> {x}); kw = (kw_field ty f \<and> f \<notin> set non_textual_fields) in
     case op c of
       EQUALS \<Rightarrow> kw \<and> plain_text v
     | NOT_EQUALS \<Rightarrow> kw \<and> plain_text v \<and> single
     | IN_OP \<Rightarrow> kw \<and> (\<forall>k \<in> set (candidates v). plain_text k)
     | NOT_IN \<Rightarrow> kw \<and> (\<forall>k \<in> set (candidates v). plain_text k) \<and> single
     | CONTAINS \<Rightarrow> kw \<and> (\<exists>t. v = JStr t)
     | NOT_CONTAINS \<Rightarrow> kw \<and> (\<exists>t. v = JStr t) \<and> single
     | STARTS_WITH \<Rightarrow> kw \<and> (\<exists>t. v = JStr t)
     | ENDS_WITH \<Rightarrow> kw \<and> (\<exists>t. v = JStr t)
     | MATCHES \<Rightarrow> False
     | CIDR \<Rightarrow> ip_field ty f \<and> (\<forall>k \<in> set (candidates v). \<exists>t. k = JStr t)
     | EXISTS \<Rightarrow> (\<exists>b. v = JBool b)
     | _ \<Rightarrow> num_field ty f)"

fun portable :: "typing \<Rightarrow> document \<Rightarrow> condition_node \<Rightarrow> bool" where
  "portable ty doc (Leaf c) = portable_condition ty doc c"
| "portable ty doc (Group a b n) \<longleftrightarrow>
     (case a of None \<Rightarrow> True | Some xs \<Rightarrow> list_all (portable ty doc) xs) \<and>
     (case b of None \<Rightarrow> True | Some xs \<Rightarrow> list_all (portable ty doc) xs) \<and>
     (case n of None \<Rightarrow> True | Some x \<Rightarrow> portable ty doc x)"

lemma char_lower_meta:
  "char_lower c = CHR 0x5C \<longleftrightarrow> c = CHR 0x5C" "char_lower c = CHR ''*'' \<longleftrightarrow> c = CHR ''*''"
  "char_lower c = CHR ''?'' \<longleftrightarrow> c = CHR ''?''"
  by (auto simp: char_lower_def char_of_eq_iff take_bit_eq_mod)

lemma escape_lower: "str_lower (escape_wildcard t) = escape_wildcard (str_lower t)"
proof (induction t)
  case (Cons c t)
  have "map char_lower (if c = CHR 0x5C \<or> c = CHR ''*'' \<or> c = CHR ''?'' then [CHR 0x5C, c] else [c])
      = (let d = char_lower c in if d = CHR 0x5C \<or> d = CHR ''*'' \<or> d = CHR ''?'' then [CHR 0x5C, d] else [d])"
    using char_lower_meta(1) [of "CHR 0x5C"] by (simp add: char_lower_meta Let_def)
  with Cons show ?case by (simp add: str_lower_def escape_wildcard_def Let_def)
qed (simp add: str_lower_def escape_wildcard_def)

lemma text_pair_JStr: "text_pair v (JStr t) cs = map_option (\<lambda>s. (fold_if (\<not> cs) s, fold_if (\<not> cs) t)) (as_text v)"
  by (auto simp: text_pair_def as_text_def fold_if_def split: json.splits)

lemma related_text_JStr:
  "related_text R cs v (JStr t) \<longleftrightarrow> (\<exists>s. as_text v = Some s \<and> R (fold_if (\<not> cs) s) (fold_if (\<not> cs) t))"
  by (auto simp: related_text_def text_pair_JStr)

lemma same_value_plain:
  assumes "plain_text k"
  shows "same_value cs v k \<longleftrightarrow> (\<exists>t. k = JStr t \<and> (\<exists>s. as_text v = Some s \<and> fold_if (\<not> cs) s = fold_if (\<not> cs) t))"
proof -
  from assms obtain t where k: "k = JStr t" "number_of k = None" by (auto simp: plain_text_def)
  hence "same_value cs v k = equal_text cs v k" by (auto simp: same_value_def split: option.splits)
  moreover have "as_text v = None \<Longrightarrow> \<not> py_eq v (JStr t)" by (cases v) (auto simp: as_text_def)
  ultimately show ?thesis using k(1)
    by (auto simp: equal_text_def fold_if_def as_text_def [of "JStr t"] split: option.splits)
qed

lemma fold_star: "fold_if i (''*'' @ t) = ''*'' @ fold_if i t" "fold_if i (t @ ''*'') = fold_if i t @ ''*''"
  "fold_if i (escape_wildcard t) = escape_wildcard (fold_if i t)"
  using char_lower_meta(2) [of "CHR ''*''"] by (simp_all add: fold_if_def str_lower_def escape_lower [unfolded str_lower_def])

lemma should_one: "Suc 0 \<le> length (filter P cs) \<longleftrightarrow> (\<exists>c \<in> set cs. P c)"
  by (induction cs) auto

lemma leaves:
  assumes "documented_leaves ty leaf"
  shows leaf_exists: "leaf (ExistsQ f) doc \<longleftrightarrow> present f doc \<noteq> {}"
    and leaf_term: "kw_field ty f \<Longrightarrow> leaf (TermQ f t i) doc \<longleftrightarrow>
      (\<exists>v \<in> present f doc. \<exists>s. as_text v = Some s \<and> fold_if i s = fold_if i t)"
    and leaf_prefix: "kw_field ty f \<Longrightarrow> leaf (PrefixQ f t i) doc \<longleftrightarrow>
      (\<exists>v \<in> present f doc. \<exists>s. as_text v = Some s \<and> prefix (fold_if i t) (fold_if i s))"
    and leaf_wildcard: "kw_field ty f \<Longrightarrow> leaf (WildcardQ f p i) doc \<longleftrightarrow>
      (\<exists>v \<in> present f doc. \<exists>s. as_text v = Some s \<and> wild_match (fold_if i p) (fold_if i s))"
    and leaf_range: "num_field ty f \<Longrightarrow> oper \<in> {GT, GTE, LT, LTE} \<Longrightarrow> leaf (RangeQ f [(range_operator oper, x)]) doc \<longleftrightarrow>
      (\<exists>v \<in> present f doc. related_number (range_rel oper) v x)"
    and leaf_ip: "ip_field ty f \<Longrightarrow> leaf (PlainTerm f t) doc \<longleftrightarrow> (\<exists>v \<in> present f doc. cidr_match v (JStr t))"
  using assms unfolding documented_leaves_def by meson+

lemma cidr_match_texts:
  assumes "\<forall>k \<in> set (candidates w). \<exists>t. k = JStr t"
  shows "cidr_match v w \<longleftrightarrow> (\<exists>k \<in> set (candidates w). cidr_match v k)"
proof -
  have c: "k \<in> set (candidates w) \<Longrightarrow> candidates k = [k]" for k using assms by (auto simp: candidates_def)
  show ?thesis
  proof (cases "as_text v")
    case (Some s)
    with c show ?thesis by (cases "ip_address (str_strip s)") (simp_all add: cidr_match_def list_ex_iff)
  qed (simp add: cidr_match_def)
qed

lemma query_text_JStr [simp]: "query_text (JStr t) = t"
  by (simp add: query_text_def)

lemma range_rel_eq:
  "range_rel GT = (\<lambda>a b. f_lt b a)" "range_rel GTE = (\<lambda>a b. f_le b a)" "range_rel LT = f_lt" "range_rel LTE = f_le"
  by (auto intro!: ext)

lemma term_agrees:
  assumes "documented_leaves ty leaf" "kw_field ty f" "f \<notin> set non_textual_fields" "plain_text k"
  shows "leaf (TermQ f (query_text k) (case_insensitive_allowed f (\<not> cs))) doc \<longleftrightarrow> (\<exists>v \<in> present f doc. same_value cs v k)"
proof -
  from assms(4) obtain t where t: "k = JStr t" by (auto simp: plain_text_def)
  have "same_value cs v k \<longleftrightarrow> (\<exists>s. as_text v = Some s \<and> fold_if (\<not> cs) s = fold_if (\<not> cs) t)" for v
    using same_value_plain [OF assms(4)] t by simp
  thus ?thesis using assms(3) by (simp add: t leaf_term [OF assms(1,2)] case_insensitive_allowed_def)
qed

lemma positive_clause_agrees:
  assumes "documented_leaves ty leaf" "portable_condition ty doc c" "positive_clause c = Inr q" "op c \<noteq> EXISTS"
    and "negative_operator (op c) = None"
  shows "clause_sat leaf doc q \<longleftrightarrow> (\<exists>v \<in> present (field_path c) doc. value_sat rgx c v)"
proof -
  note d = portable_condition_def positive_clause_def Let_def value_sat_def
  have i: "f \<notin> set non_textual_fields \<Longrightarrow> case_insensitive_allowed f b = b" for f b
    by (simp add: case_insensitive_allowed_def)
  note l = leaves [OF assms(1)]
  show ?thesis
  proof (cases "op c")
    case EQUALS
    with assms(2,3) show ?thesis using term_agrees [OF assms(1)] by (auto simp: d)
  next
    case IN_OP
    let ?f = "field_path c"
    from IN_OP assms(2) have p: "kw_field ty ?f" "?f \<notin> set non_textual_fields"
      "\<forall>k \<in> set (candidates (cvalue c)). plain_text k" by (simp_all add: d)
    have "clause_sat leaf doc q \<longleftrightarrow> (\<exists>k \<in> set (candidates (cvalue c)).
        leaf (TermQ ?f (query_text k) (case_insensitive_allowed ?f (\<not> case_sensitive c))) doc)"
      using IN_OP assms(3) by (auto simp: d should_needed_def should_one)
    also have "\<dots> \<longleftrightarrow> (\<exists>k \<in> set (candidates (cvalue c)). \<exists>v \<in> present ?f doc. same_value (case_sensitive c) v k)"
      using p term_agrees [OF assms(1)] by blast
    finally show ?thesis using IN_OP by (auto simp: d)
  next
    case CONTAINS
    with assms(2,3) show ?thesis
      by (auto simp: d i l related_text_JStr fold_star wild_contains simp del: append_Cons append_Nil) blast
  next
    case STARTS_WITH
    with assms(2,3) show ?thesis by (auto simp: d i l related_text_JStr) blast
  next
    case ENDS_WITH
    with assms(2,3) show ?thesis
      by (auto simp: d i l related_text_JStr fold_star wild_ends simp del: append_Cons append_Nil) blast
  next
    case CIDR
    with assms(2,3) show ?thesis
      by (force simp: d l should_needed_def should_one cidr_match_texts)
  next
    case GT
    with assms(2,3) show ?thesis using l(5) [of "field_path c" GT] by (auto simp: d range_rel_eq)
  next
    case GTE
    with assms(2,3) show ?thesis using l(5) [of "field_path c" GTE] by (auto simp: d range_rel_eq)
  next
    case LT
    with assms(2,3) show ?thesis using l(5) [of "field_path c" LT] by (auto simp: d range_rel_eq)
  next
    case LTE
    with assms(2,3) show ?thesis using l(5) [of "field_path c" LTE] by (auto simp: d range_rel_eq)
  qed (use assms(2-5) in \<open>auto simp: d\<close>)
qed

lemma node_sat_Leaf:
  "node_sat rgx (Leaf c) doc \<longleftrightarrow> (if op c = EXISTS then (present (field_path c) doc \<noteq> {}) = (cvalue c = JBool True)
     else (\<exists>v \<in> present (field_path c) doc. value_sat rgx c v))"
  by (simp add: present_def Let_def)

text \<open>A negative operator on a field with at most one value is the negation of the positive one,
  given that there is a value.\<close>

lemma value_sat_negative:
  assumes "negative_operator (op c) = Some p"
  shows "value_sat rgx c v \<longleftrightarrow> \<not> value_sat rgx (c\<lparr>op := p\<rparr>) v"
  using assms by (cases "op c") (auto simp: value_sat_def)

lemma portable_negative:
  assumes "negative_operator (op c) = Some p" "portable_condition ty doc c"
  shows "portable_condition ty doc (c\<lparr>op := p\<rparr>) \<and> (\<exists>x. present (field_path c) doc \<subseteq> {x})"
  using assms by (cases "op c") (auto simp: portable_condition_def Let_def)

lemma compile_condition_agrees:
  assumes "documented_leaves ty leaf" "portable_condition ty doc c" "compile_condition c = Inr q"
  shows "clause_sat leaf doc q \<longleftrightarrow> node_sat rgx (Leaf c) doc"
proof (cases "negative_operator (op c)")
  case None
  with assms(3) have q: "positive_clause c = Inr q" by (simp add: compile_condition_def)
  show ?thesis
  proof (cases "op c = EXISTS")
    case True
    with assms(2) obtain b where "cvalue c = JBool b" by (auto simp: portable_condition_def)
    with True q show ?thesis
      by (cases b) (auto simp: positive_clause_def Let_def node_sat_Leaf leaf_exists [OF assms(1)] simp del: node_sat.simps)
  next
    case False
    with positive_clause_agrees [OF assms(1,2) q False None] show ?thesis by (simp add: node_sat_Leaf del: node_sat.simps)
  qed
next
  case (Some p)
  with assms(3) obtain q' where q': "positive_clause (c\<lparr>op := p\<rparr>) = Inr q'"
    "q = BoolQ [(Must, [ExistsQ (field_path c)]), (MustNot, [q'])] None"
    by (auto simp: compile_condition_def bind_res_Inr)
  from portable_negative [OF Some assms(2)] obtain x where
    p: "portable_condition ty doc (c\<lparr>op := p\<rparr>)" and x: "present (field_path c) doc \<subseteq> {x}" by blast
  have "p \<noteq> EXISTS" "negative_operator p = None" "op c \<noteq> EXISTS" using Some by (cases "op c"; auto)+
  with positive_clause_agrees [OF assms(1) p q'(1), of rgx]
  have "clause_sat leaf doc q' \<longleftrightarrow> (\<exists>v \<in> present (field_path c) doc. \<not> value_sat rgx c v)"
    by (simp add: value_sat_negative [OF Some])
  with x q'(2) \<open>op c \<noteq> EXISTS\<close> show ?thesis
    by (auto simp: node_sat_Leaf leaf_exists [OF assms(1)] simp del: node_sat.simps)
qed

lemma all2_sat:
  assumes "list_all2 (\<lambda>x q. compile_conditions x = Inr q) xs qs"
    and "\<And>x q. x \<in> set xs \<Longrightarrow> compile_conditions x = Inr q \<Longrightarrow> S q \<longleftrightarrow> N x"
  shows "(list_all S qs \<longleftrightarrow> (\<forall>x \<in> set xs. N x)) \<and> ((\<exists>q \<in> set qs. S q) \<longleftrightarrow> (\<exists>x \<in> set xs. N x))"
  using assms by (induction rule: list_all2_induct) auto

lemma compile_conditions_agrees:
  assumes "documented_leaves ty leaf" "portable ty doc n" "compile_conditions n = Inr q"
  shows "clause_sat leaf doc q \<longleftrightarrow> node_sat rgx n doc"
  using assms(2,3)
proof (induction n arbitrary: q rule: compile_conditions.induct)
  case (1 c)
  thus ?case using compile_condition_agrees [OF assms(1)] by (simp del: node_sat.simps)
next
  case (2 a b n)
  consider xs where "a = Some xs" | xs where "a = None" "b = Some xs" | x where "a = None" "b = None" "n = Some x"
    using 2(5) by (cases a; cases b; cases n) auto
  thus ?case
  proof cases
    case 1
    with 2(5) obtain qs where qs: "list_all2 (\<lambda>x q. compile_conditions x = Inr q) xs qs" "q = BoolQ [(Filter, qs)] None"
      by (auto simp: bind_res_Inr map_res_Inr)
    have "\<And>x q. x \<in> set xs \<Longrightarrow> compile_conditions x = Inr q \<Longrightarrow> clause_sat leaf doc q \<longleftrightarrow> node_sat rgx x doc"
      using 2(3) [OF 1] 2(4) 1 by (auto simp: list_all_iff)
    from all2_sat [OF qs(1) this] qs(2) 1 show ?thesis by simp
  next
    case c2: 2
    with 2(5) obtain qs where qs: "list_all2 (\<lambda>x q. compile_conditions x = Inr q) xs qs" "q = BoolQ [(Should, qs)] (Some 1)"
      by (auto simp: bind_res_Inr map_res_Inr)
    have "\<And>x q. x \<in> set xs \<Longrightarrow> compile_conditions x = Inr q \<Longrightarrow> clause_sat leaf doc q \<longleftrightarrow> node_sat rgx x doc"
      using 2(2) [OF c2] 2(4) c2 by (auto simp: list_all_iff)
    from all2_sat [OF qs(1) this] qs(2) c2 show ?thesis
      using should_one [of "clause_sat leaf doc" qs] by (simp add: should_needed_def)
  next
    case 3
    with 2(5) obtain q' where "compile_conditions x = Inr q'" "q = BoolQ [(MustNot, [q'])] None"
      by (auto simp: bind_res_Inr)
    with 3 2(1,4) show ?thesis by simp
  qed
qed

section \<open>What a run asks and returns\<close>

lemma finish_match_shape:
  assumes "finish_match e r tenant w bucket observed entity ws now st = (Inr (Some m), st')"
  shows "\<exists>n ids ss. m = build_match e n r tenant ids entity (window_evidence e w observed ws now ids ss)"
  using assms by (auto simp: finish_match_def split: sum.splits)

lemma bucket_match_shape:
  assumes "bucket_match e ev r tenant b ws now st = (Inr (Some m), st')"
  shows "\<exists>w observed entity n ids ss. window r = Some w \<and> threshold w \<le> observed \<and>
    m = build_match e n r tenant ids entity (window_evidence e w observed ws now ids ss)"
proof -
  obtain x y where st: "st = (x, y)" by (cases st)
  have "\<exists>w observed entity x y. window r = Some w \<and> threshold w \<le> observed \<and>
    finish_match e r tenant w b observed entity ws now (x, y) = (Inr (Some m), st')"
    using assms unfolding bucket_match_def window_of_def st
    by (auto simp: bind_res_Inr not_less split: sum.splits if_splits option.splits prod.splits)
  thus ?thesis using finish_match_shape by metis
qed

lemma bucket_matches_shape:
  "bucket_matches e ev r tenant bs ws now st = (Inr ms, st') \<Longrightarrow> m \<in> set ms \<Longrightarrow>
   \<exists>b st1 st2. bucket_match e ev r tenant b ws now st1 = (Inr (Some m), st2)"
proof (induction bs arbitrary: st ms)
  case (Cons b bs)
  obtain x st1 where x: "bucket_match e ev r tenant b ws now st = (Inr x, st1)"
    using Cons.prems(1) by (auto split: prod.splits sum.splits)
  obtain ns where ns: "bucket_matches e ev r tenant bs ws now st1 = (Inr ns, st')"
    "ms = (case x of None \<Rightarrow> ns | Some y \<Rightarrow> y # ns)"
    using Cons.prems(1) x by (auto split: prod.splits sum.splits)
  show ?case
  proof (cases "m \<in> set ns")
    case True
    with Cons.IH [OF ns(1)] show ?thesis by blast
  next
    case False
    with ns(2) Cons.prems(2) have "x = Some m" by (auto split: option.splits)
    with x show ?thesis by blast
  qed
qed simp

lemma collect_step:
  assumes "fetch_page ev r base exc page after = Inr (bs, after')"
    and "bucket_matches e ev r tenant bs ws now st = (Inr ms1, st1)"
  shows "collect e ev r tenant base exc ws now page after seen st =
    (if after' = None \<or> bs = [] \<or> max_buckets ev \<le> seen + int (length bs) then (Inr ms1, st1)
     else (case collect e ev r tenant base exc ws now (Suc page) after' (seen + int (length bs)) st1 of
         (Inl err, st2) \<Rightarrow> (Inl err, st2) | (Inr ms2, st2) \<Rightarrow> (Inr (ms1 @ ms2), st2)))"
  by (subst collect.simps) (simp add: assms Let_def)

lemma collect_Inr:
  assumes "collect e ev r tenant base exc ws now page after seen st = (Inr ms, st')"
  obtains bs after' ms1 st1 where "fetch_page ev r base exc page after = Inr (bs, after')"
    "bucket_matches e ev r tenant bs ws now st = (Inr ms1, st1)"
proof -
  obtain bs after' where f: "fetch_page ev r base exc page after = Inr (bs, after')"
    using assms by (subst (asm) collect.simps) (auto split: sum.splits)
  moreover obtain ms1 st1 where "bucket_matches e ev r tenant bs ws now st = (Inr ms1, st1)"
    using assms by (subst (asm) collect.simps) (auto simp: f split: sum.splits prod.splits)
  ultimately show thesis by (rule that)
qed

lemma collect_shape:
  "collect e ev r tenant base exc ws now page after seen st = (Inr ms, st') \<Longrightarrow> m \<in> set ms \<Longrightarrow>
   \<exists>b st1 st2. bucket_match e ev r tenant b ws now st1 = (Inr (Some m), st2)"
proof (induction "nat (max_buckets ev - seen)" arbitrary: page after seen st ms rule: less_induct)
  case less
  from less.prems(1) obtain bs after' ms1 st1 where f: "fetch_page ev r base exc page after = Inr (bs, after')"
    and b: "bucket_matches e ev r tenant bs ws now st = (Inr ms1, st1)" by (rule collect_Inr)
  let ?seen = "seen + int (length bs)"
  show ?case
  proof (cases "after' = None \<or> bs = [] \<or> max_buckets ev \<le> ?seen")
    case True
    with less.prems(1) have "ms = ms1" by (auto simp: collect_step [OF f b] split: if_splits)
    with b bucket_matches_shape less.prems(2) show ?thesis by metis
  next
    case False
    with less.prems(1) obtain ms2 where ms2: "collect e ev r tenant base exc ws now (Suc page) after' ?seen st1 = (Inr ms2, st')"
      "ms = ms1 @ ms2" by (auto simp: collect_step [OF f b] split: prod.splits sum.splits)
    have "nat (max_buckets ev - ?seen) < nat (max_buckets ev - seen)" using False by (cases bs) auto
    from less.hyps [OF this ms2(1)] bucket_matches_shape [OF b] less.prems(2) ms2(2) show ?thesis by auto
  qed
qed

text \<open>A search body that is restricted to one tenant.\<close>

definition tenant_scoped :: "string \<Rightarrow> json \<Rightarrow> bool" where
  "tenant_scoped tenant body \<longleftrightarrow> (\<exists>d base exc. body = JObj d \<and>
     get d ''query'' = clause_json (BoolQ [(Filter, PlainTerm ''tenant_id'' tenant # base), (MustNot, exc)] None))"

lemma aggregation_body_scoped:
  assumes "aggregation_body ev r (PlainTerm ''tenant_id'' tenant # base) exc after = Inr body"
  shows "tenant_scoped tenant body"
proof -
  from assms obtain d where d: "body = JObj d"
    "get d ''query'' = clause_json (BoolQ [(Filter, PlainTerm ''tenant_id'' tenant # base), (MustNot, exc)] None)"
    by (auto simp: aggregation_body_def bind_res_Inr Let_def simp del: clause_json.simps)
  thus ?thesis unfolding tenant_scoped_def by blast
qed

lemma aggregation_body_search: "aggregation_body (ev\<lparr>w_search := f\<rparr>) = aggregation_body ev"
  by (intro ext) (simp add: aggregation_body_def)

lemma bucket_match_search: "bucket_match e (ev\<lparr>w_search := f\<rparr>) r tenant b ws now st = bucket_match e ev r tenant b ws now st"
proof -
  have s: "w_suppression (ev\<lparr>w_search := f\<rparr>) = w_suppression ev" by simp
  show ?thesis unfolding bucket_match_def s ..
qed

lemma bucket_matches_search: "bucket_matches e (ev\<lparr>w_search := f\<rparr>) r tenant bs ws now st = bucket_matches e ev r tenant bs ws now st"
  by (induction bs arbitrary: st) (simp_all add: bucket_match_search split: prod.splits sum.splits)

lemma fetch_page_scoped:
  assumes "\<And>page body. tenant_scoped tenant body \<Longrightarrow> f page body = w_search ev page body"
  shows "fetch_page (ev\<lparr>w_search := f\<rparr>) r (PlainTerm ''tenant_id'' tenant # base) exc page after =
    fetch_page ev r (PlainTerm ''tenant_id'' tenant # base) exc page after"
proof (cases "aggregation_body ev r (PlainTerm ''tenant_id'' tenant # base) exc after")
  case (Inr body)
  have "f page body = w_search ev page body" by (rule assms [OF aggregation_body_scoped [OF Inr]])
  with Inr show ?thesis by (simp add: fetch_page_def aggregation_body_search)
qed (simp add: fetch_page_def aggregation_body_search)

lemma collect_agrees:
  assumes "\<And>page after. page < max 1 (nat (max_buckets ev)) \<Longrightarrow>
      fetch_page (ev\<lparr>w_search := f\<rparr>) r base exc page after = fetch_page ev r base exc page after"
    and "int page \<le> seen" "page = 0 \<or> seen < max_buckets ev"
  shows "collect e (ev\<lparr>w_search := f\<rparr>) r tn base exc ws now page after seen st =
    collect e ev r tn base exc ws now page after seen st"
  using assms(2,3)
proof (induction "nat (max_buckets ev - seen)" arbitrary: page after seen st rule: less_induct)
  case less
  have f: "fetch_page (ev\<lparr>w_search := f\<rparr>) r base exc page after = fetch_page ev r base exc page after"
    using assms(1) less.prems by fastforce
  show ?case
  proof (cases "fetch_page ev r base exc page after")
    case (Inl err)
    with f show ?thesis by (simp add: collect.simps [of e _ r tn base exc ws now page])
  next
    case (Inr p)
    obtain bs after' where p: "p = (bs, after')" by (cases p)
    obtain res st1 where b: "bucket_matches e ev r tn bs ws now st = (res, st1)"
      by (cases "bucket_matches e ev r tn bs ws now st") simp
    show ?thesis
    proof (cases res)
      case (Inl err)
      with b p Inr f show ?thesis
        by (simp add: collect.simps [of e _ r tn base exc ws now page] bucket_matches_search)
    next
      case res: (Inr ms1)
      let ?seen = "seen + int (length bs)"
      have "collect e (ev\<lparr>w_search := f\<rparr>) r tn base exc ws now (Suc page) after' ?seen st1
          = collect e ev r tn base exc ws now (Suc page) after' ?seen st1"
        if "\<not> (after' = None \<or> bs = [] \<or> max_buckets ev \<le> ?seen)"
        using that less.prems by (intro less.hyps) (cases bs; auto)+
      thus ?thesis
        using collect_step [OF Inr [unfolded p] b [unfolded res], of seen]
          collect_step [of "ev\<lparr>w_search := f\<rparr>" r base exc page after bs after' e tn ws now st ms1 st1 seen]
          f Inr p b res by (auto simp: bucket_matches_search)
    qed
  qed
qed

lemma run_agrees:
  assumes "\<And>rest exc page after. page < max 1 (nat (max_buckets ev)) \<Longrightarrow>
      fetch_page (ev\<lparr>w_search := f\<rparr>) r (PlainTerm ''tenant_id'' tenant # rest) exc page after
        = fetch_page ev r (PlainTerm ''tenant_id'' tenant # rest) exc page after"
  shows "run e (ev\<lparr>w_search := f\<rparr>) r tenant now st = run e ev r tenant now st"
proof -
  have c: "count_excepted (ev\<lparr>w_search := f\<rparr>) = count_excepted ev" by (intro ext) (simp add: count_excepted_def)
  have "base_filter e r tenant ws now = Inr base \<Longrightarrow>
      collect e (ev\<lparr>w_search := f\<rparr>) r tenant base exc ws now 0 None 0 st =
      collect e ev r tenant base exc ws now 0 None 0 st" for base exc ws
    by (rule collect_agrees) (auto simp: base_filter_def bind_res_Inr assms)
  thus ?thesis unfolding run_def c Let_def
    by (auto simp: bind_res_Inr split: sum.splits option.splits)
qed

lemma run_collect:
  assumes "run e ev r tenant now st = (Inr ms, st')" "ms \<noteq> []"
  obtains w base exc ws where "window r = Some w" "status r \<noteq> DISABLED"
    "collect e ev r tenant (PlainTerm ''tenant_id'' tenant # base) exc ws now 0 None 0 st = (Inr ms, st')"
  using assms unfolding run_def window_of_def base_filter_def
  by (auto simp: Let_def bind_res_Inr split: option.splits if_splits sum.splits)

section \<open>Properties\<close>

text \<open>A windowed rule that passed validation compiles to a query exactly when the loader's
  check finds no unsupported operator in it: the refusal happens when the rule is loaded, and
  never at match time.\<close>

theorem compiles_iff_supported:
  assumes "node_valid ok n"
  shows "(\<exists>q. compile_conditions n = Inr q) \<longleftrightarrow> unsupported_operators n = []"
  by (rule compile_conditions_ex [OF assms])

definition pattern_leaf :: condition_node where
  "pattern_leaf = Leaf \<lparr>field_path = ''url'', op = MATCHES, cvalue = JStr ''a+'', case_sensitive = False\<rparr>"

theorem compiles_iff_supported_witness:
  "(\<exists>q. compile_conditions (Group (Some [pattern_leaf]) None None) = Inr q)
     \<longleftrightarrow> unsupported_operators (Group (Some [pattern_leaf]) None None) = []"
  using compiles_iff_supported [of "\<lambda>p. True" "Group (Some [pattern_leaf]) None None"]
  by (simp add: pattern_leaf_def condition_valid_def check_value_present_def validate_regex_def MAX_PATTERN_LENGTH_def)


text \<open>A reading of the leaf queries that is as documented.\<close>

fun sample_leaf :: "clause \<Rightarrow> document \<Rightarrow> bool" where
  "sample_leaf (ExistsQ f) doc \<longleftrightarrow> present f doc \<noteq> {}"
| "sample_leaf (TermQ f t i) doc \<longleftrightarrow> (\<exists>v \<in> present f doc. \<exists>s. as_text v = Some s \<and> fold_if i s = fold_if i t)"
| "sample_leaf (PrefixQ f t i) doc \<longleftrightarrow> (\<exists>v \<in> present f doc. \<exists>s. as_text v = Some s \<and> prefix (fold_if i t) (fold_if i s))"
| "sample_leaf (WildcardQ f t i) doc \<longleftrightarrow> (\<exists>v \<in> present f doc. \<exists>s. as_text v = Some s \<and> wild_match (fold_if i t) (fold_if i s))"
| "sample_leaf (RangeQ f bs) doc \<longleftrightarrow> (\<exists>v \<in> present f doc. list_all (\<lambda>(k, x).
     related_number (if k = ''gt'' then range_rel GT else if k = ''gte'' then range_rel GTE
       else if k = ''lt'' then range_rel LT else range_rel LTE) v x) bs)"
| "sample_leaf (PlainTerm f t) doc \<longleftrightarrow> (\<exists>v \<in> present f doc. cidr_match v (JStr t))"
| "sample_leaf (BoolQ _ _) doc \<longleftrightarrow> False"

lemma sample_leaf_documented: "documented_leaves ty sample_leaf"
  by (auto simp: documented_leaves_def)

definition any_typing :: typing where
  "any_typing = \<lparr>kw_field = (\<lambda>f. f \<notin> set non_textual_fields), num_field = (\<lambda>f. False), ip_field = (\<lambda>f. False)\<rparr>"

definition user_leaf :: "operator \<Rightarrow> condition" where
  "user_leaf oper = \<lparr>field_path = ''hostname'', op = oper, cvalue = JStr ''web'', case_sensitive = True\<rparr>"

lemma hostname_textual: "''hostname'' \<notin> set non_textual_fields"
  by code_simp

lemma host_names:
  "str_strip ''web'' = ''web''" "str_strip ''db'' = ''db''" "float_of_str ''web'' = None" "float_of_str ''db'' = None"
proof -
  show s: "str_strip ''web'' = ''web''" "str_strip ''db'' = ''db''" by (rule strip_id; simp add: is_space_def)+
  show "float_of_str ''web'' = None" "float_of_str ''db'' = None"
    by (simp_all add: s float_of_str_def read_number_def read_sign_def str_lower_def char_lower_def is_digit_def)
qed

lemma web_plain: "plain_text (JStr ''web'')"
  by (simp add: plain_text_def number_of_def host_names)

lemma hostname_values: "resolve_path (JObj [(''hostname'', v)]) ''hostname'' = (case v of JList xs \<Rightarrow> xs | _ \<Rightarrow> [v])"
  by (simp add: resolve_path_def step_node_def flatten_terminal_def)


text \<open>On a field with several values the two paths part: the streaming evaluator accepts
  \<open>not_equals\<close> as soon as one value differs, the compiled query only if no value matches.\<close>

theorem negation_differs_on_lists:
  assumes "documented_leaves ty leaf" and "kw_field ty ''hostname''"
    and "compile_conditions (Leaf (user_leaf NOT_EQUALS)) = Inr q"
  shows "evaluate_node rgx (Leaf (user_leaf NOT_EQUALS)) [(''hostname'', JList [JStr ''web'', JStr ''db''])] = Inr True
    \<and> \<not> clause_sat leaf [(''hostname'', JList [JStr ''web'', JStr ''db''])] q"
proof
  show "evaluate_node rgx (Leaf (user_leaf NOT_EQUALS)) [(''hostname'', JList [JStr ''web'', JStr ''db''])] = Inr True"
    by (simp add: evaluate_condition_def user_leaf_def hostname_values matches_value_def equal_def as_number_def host_names
        equal_text_def Let_def)
  from assms(3) have q: "q = BoolQ [(Must, [ExistsQ ''hostname'']), (MustNot, [TermQ ''hostname'' ''web'' False])] None"
    by (simp add: compile_condition_def positive_clause_def user_leaf_def Let_def case_insensitive_allowed_def)
  show "\<not> clause_sat leaf [(''hostname'', JList [JStr ''web'', JStr ''db''])] q"
    by (auto simp: q leaf_term [OF assms(1,2)] present_def hostname_values fold_if_def)
qed

theorem negation_differs_on_lists_witness:
  "evaluate_node (\<lambda>p cs t. NotFound) (Leaf (user_leaf NOT_EQUALS)) [(''hostname'', JList [JStr ''web'', JStr ''db''])] = Inr True
    \<and> \<not> clause_sat sample_leaf [(''hostname'', JList [JStr ''web'', JStr ''db''])]
        (BoolQ [(Must, [ExistsQ ''hostname'']), (MustNot, [TermQ ''hostname'' ''web'' False])] None)"
  by (rule negation_differs_on_lists [OF sample_leaf_documented, of any_typing])
    (simp_all add: any_typing_def hostname_textual compile_condition_def positive_clause_def user_leaf_def Let_def
      case_insensitive_allowed_def)

text \<open>Every match a windowed run returns is for the tenant it was run for, carries the
  identity of the rule, reports an observed count that reaches the threshold of the rule's
  window, and is a dry run exactly when the rule is in testing; a disabled rule returns none.\<close>

theorem windowed_matches_reach_threshold:
  assumes "run e ev r tenant now st = (Inr ms, st')" and "m \<in> set ms"
  shows "\<exists>w observed. window r = Some w \<and> threshold w \<le> observed \<and>
    get (m_evidence m) ''observed'' = JInt observed \<and> get (m_evidence m) ''threshold'' = JInt (threshold w) \<and>
    m_tenant m = tenant \<and> m_rule_id m = rule_id r \<and> status r \<noteq> DISABLED \<and> (dry_run m \<longleftrightarrow> status r = TESTING)"
proof -
  from assms(2) have "ms \<noteq> []" by auto
  from assms(1) this obtain w base exc ws where "status r \<noteq> DISABLED"
    "collect e ev r tenant (PlainTerm ''tenant_id'' tenant # base) exc ws now 0 None 0 st = (Inr ms, st')"
    by (rule run_collect)
  with collect_shape [OF this(2) assms(2)] bucket_match_shape show ?thesis
    by (fastforce simp: build_match_def window_evidence_def)
qed


definition burst_rule :: detection_rule where
  "burst_rule = example_rule\<lparr>window := Some \<lparr>duration = ''5m'', threshold = 5, group_by = [''user''], distinct_field = None\<rparr>\<rparr>"

definition burst_bucket :: json where
  "burst_bucket = JObj [(''key'', JObj [(''user'', JStr ''root'')]), (''doc_count'', JInt 9)]"

definition one_page :: "nat \<Rightarrow> json \<Rightarrow> eval_error + json" where
  "one_page page body = Inr (JObj [(''aggregations'', JObj [(''entities'', JObj [(''buckets'', JList [burst_bucket])])])])"

definition burst_evaluator :: "(nat \<Rightarrow> json \<Rightarrow> eval_error + json) \<Rightarrow> mem_store evaluator" where
  "burst_evaluator search = \<lparr>w_search = search, w_count = (\<lambda>b. Inl (ClientError ''down'')), w_suppression = Some mem_claim,
     page_size = DEFAULT_PAGE_SIZE, max_buckets = DEFAULT_MAX_BUCKETS\<rparr>"

lemmas burst_defs = burst_rule_def burst_bucket_def burst_evaluator_def example_rule_def

lemma burst_seconds: "duration_seconds ''5m'' = Some 300"
  by (simp add: duration_seconds_def unit_seconds_def is_digit_def read_digits_def digit_val_def)

lemma burst_compiles: "compile_conditions (conditions burst_rule) = Inr (ExistsQ ''user'')"
  by (simp add: burst_defs compile_condition_def positive_clause_def Let_def)

lemma burst_page: "fetch_page (burst_evaluator one_page) burst_rule base exc 0 None = Inr ([burst_bucket], None)"
  by (simp add: fetch_page_def aggregation_body_def window_of_def Let_def burst_rule_def burst_evaluator_def one_page_def
      page_of_def obj_get_def py_iter_def)

lemma burst_bucket_match:
  "\<exists>m st'. bucket_match e (burst_evaluator search) burst_rule ''t1'' burst_bucket ws now (\<lparr>until = []\<rparr>, 0) = (Inr (Some m), st')
     \<and> st' = (snd (mem_claim \<lparr>until = []\<rparr> (monotonic e) (suppression_key burst_rule ''t1'' [(''user'', JStr ''root'')]) 300), 1)"
  by (simp add: bucket_match_def window_of_def burst_defs observed_in_def obj_get_def py_int_def py_dict_def
      suppression_seconds_def burst_seconds finish_match_def bucket_hits_def py_iter_def hit_sources_def mem_claim_def Let_def)

lemma burst_run: "\<exists>m st'. run (example_env 0) (burst_evaluator one_page) burst_rule ''t1'' now (\<lparr>until = []\<rparr>, 0) = (Inr [m], st')"
proof -
  obtain m st' where "bucket_match (example_env 0) (burst_evaluator one_page) burst_rule ''t1'' burst_bucket
      (now - 300000000) now (\<lparr>until = []\<rparr>, 0) = (Inr (Some m), st')" using burst_bucket_match by blast
  hence b: "bucket_matches (example_env 0) (burst_evaluator one_page) burst_rule ''t1'' [burst_bucket]
      (now - 300000000) now (\<lparr>until = []\<rparr>, 0) = (Inr [m], st')" by simp
  have "window burst_rule = Some \<lparr>duration = ''5m'', threshold = 5, group_by = [''user''], distinct_field = None\<rparr>"
    "status burst_rule = ENABLED" "exceptions burst_rule = []" by (simp_all add: burst_defs)
  thus ?thesis
    by (simp add: run_def window_of_def burst_seconds base_filter_def burst_compiles exception_clauses_def
        count_excepted_def collect_step [OF burst_page b] Let_def)
qed

theorem windowed_matches_reach_threshold_witness:
  "\<exists>m st'. run (example_env 0) (burst_evaluator one_page) burst_rule ''t1'' 0 (\<lparr>until = []\<rparr>, 0) = (Inr [m], st')
     \<and> m_tenant m = ''t1'' \<and> m_rule_id m = ''AUTH-001''"
proof -
  obtain m st' where r: "run (example_env 0) (burst_evaluator one_page) burst_rule ''t1'' 0 (\<lparr>until = []\<rparr>, 0) = (Inr [m], st')"
    using burst_run by blast
  from windowed_matches_reach_threshold [OF r, of m] r show ?thesis by (auto simp: burst_defs)
qed


text \<open>C7: Paging always stops. A windowed run asks the cluster for at most \<open>max_buckets\<close> pages (one, if the
  cap is not positive), even from a cluster that answers every request with another page and another \<open>after_key\<close>:
  what it would answer to a later request has no influence on the outcome.\<close>

theorem windowed_paging_stops:
  assumes "\<And>page body. page < max 1 (nat (max_buckets ev)) \<Longrightarrow> search' page body = w_search ev page body"
  shows "run e (ev\<lparr>w_search := search'\<rparr>) r tenant now st = run e ev r tenant now st"
proof -
  have b: "bind_res x (\<lambda>body. bind_res (search' page body) g) = bind_res x (\<lambda>body. bind_res (w_search ev page body) g)"
    if "page < max 1 (nat (max_buckets ev))" for page x and g :: "json \<Rightarrow> eval_error + json list \<times> json option"
    by (simp only: assms [OF that])
  show ?thesis by (rule run_agrees) (simp add: fetch_page_def aggregation_body_search b)
qed

definition endless_page :: "nat \<Rightarrow> json \<Rightarrow> eval_error + json" where
  "endless_page page body = Inr (JObj [(''aggregations'', JObj [(''entities'', JObj [(''buckets'', JList [burst_bucket]),
     (''after_key'', JObj [(''user'', JStr ''root'')])])])])"

theorem windowed_paging_stops_witness:
  "run (example_env 0) ((burst_evaluator endless_page)\<lparr>max_buckets := 3, w_search := \<lambda>page body.
       if page < 3 then endless_page page body else Inl (ClientError ''asked too often'')\<rparr>) burst_rule ''t1'' 0 (\<lparr>until = []\<rparr>, 0)
     = run (example_env 0) ((burst_evaluator endless_page)\<lparr>max_buckets := 3\<rparr>) burst_rule ''t1'' 0 (\<lparr>until = []\<rparr>, 0)"
  using windowed_paging_stops [of "(burst_evaluator endless_page)\<lparr>max_buckets := 3\<rparr>"
      "\<lambda>page body. if page < 3 then endless_page page body else Inl (ClientError ''asked too often'')"]
  by (simp add: burst_evaluator_def)

text \<open>A run that fails on a later page loses the matches of the earlier ones: the entity's
  suppression slot was claimed before the failure, nothing is returned, and until the slot
  expires a retry returns no match for that entity.\<close>

theorem failed_page_loses_matches:
  assumes "fetch_page ev r base exc 0 None = Inr ([b], Some k)" and "1 < max_buckets ev"
    and "fetch_page ev r base exc 1 (Some k) = Inl err"
    and "w_suppression ev = Some mem_claim" and "mem_wf s" and "suppression_seconds r = Some secs" and "0 < secs"
    and "bucket_match e ev r tenant b ws now (s, n) = (Inr (Some m), (s', n'))"
    and "monotonic e \<le> monotonic e2" and "monotonic e2 < fl (monotonic e + of_nat secs)"
  shows "collect e ev r tenant base exc ws now 0 None 0 (s, n) = (Inl err, (s', n')) \<and>
    (\<forall>m2 st2. bucket_match e2 ev r tenant b ws2 now2 (s', n') \<noteq> (Inr (Some m2), st2))"
proof
  have b: "bucket_matches e ev r tenant [b] ws now (s, n) = (Inr [m], (s', n'))" using assms(8) by simp
  show "collect e ev r tenant base exc ws now 0 None 0 (s, n) = (Inl err, (s', n'))"
    using assms(2,3) by (simp add: collect_step [OF assms(1) b] collect.simps [of e ev r tenant base exc ws now "Suc 0"])
  obtain entity where k: "bind_res (obj_get b ''key'' (JObj [])) py_dict = Inr entity"
    and c: "fst (mem_claim s (monotonic e) (suppression_key r tenant entity) secs)"
      "s' = snd (mem_claim s (monotonic e) (suppression_key r tenant entity) secs)"
    using assms(4,6,7,8) by (auto simp: bucket_match_def finish_match_def split: sum.splits if_splits prod.splits)
  have "\<not> fst (mem_claim s' (monotonic e2) (suppression_key r tenant entity) secs)"
    using mem.second_claim_refused [OF assms(5) c(1) assms(9,10)] c(2) by simp
  thus "\<forall>m2 st2. bucket_match e2 ev r tenant b ws2 now2 (s', n') \<noteq> (Inr (Some m2), st2)"
    using assms(4,6,7) k by (auto simp: bucket_match_def split: sum.splits if_splits prod.splits)
qed

definition failing_second_page :: "nat \<Rightarrow> json \<Rightarrow> eval_error + json" where
  "failing_second_page page body = (if page = 0 then Inr (JObj [(''aggregations'', JObj [(''entities'',
      JObj [(''buckets'', JList [burst_bucket]), (''after_key'', JObj [(''user'', JStr ''root'')])])])])
    else Inl (ClientError ''timeout''))"

theorem failed_page_loses_matches_witness:
  "\<exists>s' n'. collect (example_env 0) (burst_evaluator failing_second_page) burst_rule ''t1'' [] [] 0 0 0 None 0 (\<lparr>until = []\<rparr>, 0)
       = (Inl (ClientError ''timeout''), (s', n')) \<and>
     (\<forall>m2 st2. bucket_match (example_env 60) (burst_evaluator failing_second_page) burst_rule ''t1'' burst_bucket 0 0 (s', n')
        \<noteq> (Inr (Some m2), st2))"
proof -
  obtain m s' n' where m: "bucket_match (example_env 0) (burst_evaluator failing_second_page) burst_rule ''t1'' burst_bucket 0 0
      (\<lparr>until = []\<rparr>, 0) = (Inr (Some m), (s', n'))" using burst_bucket_match by blast
  have f: "fl 300 = 300" using fl_int [of 300] by simp
  have p: "fetch_page (burst_evaluator failing_second_page) burst_rule [] [] 0 None
      = Inr ([burst_bucket], Some (JObj [(''user'', JStr ''root'')]))"
    "fetch_page (burst_evaluator failing_second_page) burst_rule [] [] 1 (Some (JObj [(''user'', JStr ''root'')]))
      = Inl (ClientError ''timeout'')"
    by (simp_all add: fetch_page_def aggregation_body_def window_of_def Let_def burst_rule_def burst_evaluator_def
        failing_second_page_def page_of_def obj_get_def py_iter_def)
  have "suppression_seconds burst_rule = Some 300" by (simp add: suppression_seconds_def burst_defs burst_seconds)
  from failed_page_loses_matches [OF p(1) _ p(2) _ _ this _ m, of "example_env 60" 0 0]
  show ?thesis by (auto simp: burst_evaluator_def DEFAULT_MAX_BUCKETS_def mem_wf_def example_env_def f)
qed

end
