(* ===== verification/Rule_Service.thy ===== *)
theory Rule_Service
  imports Playbooks Windowed
begin

text \<open>
  The life of a detection rule (\<open>services/detection_rules.py\<close>, \<open>detection/loader.py\<close>,
  the validators of \<open>detection/schema.py\<close>, on the tables of \<open>models/detection.py\<close>): rules
  are written in YAML, parsed and checked, stored with columns derived from the parsed rule, versioned,
  switched on and off, given exceptions and loaded for the workers.

  YAML itself is not part of the repository: what a text holds and how a rule is written are given by
  the record \<open>yaml_lib\<close>, together with the patterns \<open>re.compile\<close> accepts.
\<close>

section \<open>Rules as they are written\<close>

record authored_rule =
  au_rule :: detection_rule
  au_description :: string
  au_author :: string
  au_notes :: string
  au_steps :: string
  au_references :: "string list"

datatype yaml_document = Bad_yaml string | No_mapping | Bad_shape string | Rule_document authored_rule

record yaml_lib =
  yaml_load :: "string \<Rightarrow> yaml_document"
  yaml_dump :: "authored_rule \<Rightarrow> string"
  re_compiles :: "string \<Rightarrow> bool"

text \<open>\<open>^[A-Z][A-Z0-9]*-\d{3,}$\<close>; pydantic's patterns do not accept a trailing newline.\<close>

definition is_upper_char :: "char \<Rightarrow> bool" where
  "is_upper_char c \<longleftrightarrow> (let n = (of_char c :: nat) in 65 \<le> n \<and> n \<le> 90)"

definition rule_id_ok :: "string \<Rightarrow> bool" where
  "rule_id_ok s \<longleftrightarrow> (case split_on (CHR ''-'') s of
     [a, b] \<Rightarrow> a \<noteq> [] \<and> is_upper_char (hd a) \<and> list_all (\<lambda>c. is_upper_char c \<or> is_digit c) a \<and> 3 \<le> length b \<and> list_all is_digit b
   | _ \<Rightarrow> False)"

definition duration_ok :: "string \<Rightarrow> bool" where
  "duration_ok s \<longleftrightarrow> duration_seconds s \<noteq> None \<and> last s \<noteq> CHR 0x0A"

definition window_valid :: "window_spec \<Rightarrow> bool" where
  "window_valid w \<longleftrightarrow> duration_ok (duration w) \<and> 1 \<le> threshold w \<and> 1 \<le> length (group_by w) \<and> length (group_by w) \<le> 5"

definition exception_valid :: "yaml_lib \<Rightarrow> rule_exception \<Rightarrow> bool" where
  "exception_valid y ex \<longleftrightarrow> 1 \<le> length (reason ex) \<and> length (reason ex) \<le> 500 \<and> node_valid (re_compiles y) (exc_conditions ex)"

text \<open>\<open>DetectionRule.model_validate\<close> on a document of the right shape.\<close>

definition rule_valid :: "yaml_lib \<Rightarrow> authored_rule \<Rightarrow> bool" where
  "rule_valid y a \<longleftrightarrow> (let r = au_rule a in
     rule_id_ok (rule_id r) \<and> 1 \<le> length (rname r) \<and> length (rname r) \<le> 200 \<and> 1 \<le> length (au_description a)
     \<and> 0 \<le> confidence r \<and> confidence r \<le> 100 \<and> 0 \<le> risk_score r \<and> risk_score r \<le> 100 \<and> 1 \<le> version r
     \<and> 1 \<le> length (au_author a) \<and> node_valid (re_compiles y) (conditions r) \<and> pred_option window_valid (window r)
     \<and> list_all (exception_valid y) (exceptions r) \<and> pred_option duration_ok (suppression r) \<and> length (suppress_by r) \<le> 5
     \<and> list_all technique_ok (mitre_attack r) \<and> 1 \<le> length (au_notes a) \<and> 1 \<le> length (au_steps a))"

section \<open>The loader\<close>

definition sorted_set :: "string list \<Rightarrow> string list" where
  "sorted_set xs = sort (remdups xs)"

fun check_exceptions :: "string \<Rightarrow> string \<Rightarrow> rule_exception list \<Rightarrow> service_error + unit" where
  "check_exceptions origin key [] = Inr ()"
| "check_exceptions origin key (ex # exs) =
     (let unsupported = sorted_set (unsupported_operators (exc_conditions ex)) in
      if unsupported \<noteq> [] then Inl (RuleLoadError (origin @ '': exception on windowed rule '' @ key @ '' uses operator(s) ''
        @ str_join '', '' unsupported @ '', which cannot be applied inside the aggregation query''))
      else check_exceptions origin key exs)"

definition check_execution_shape :: "detection_rule \<Rightarrow> string \<Rightarrow> service_error + unit" where
  "check_execution_shape r origin =
     (if rule_type r \<noteq> ''windowed'' then Inr ()
      else let unsupported = sorted_set (unsupported_operators (conditions r)) in
        if unsupported \<noteq> [] then Inl (RuleLoadError (origin @ '': windowed rule '' @ rule_id r @ '' uses operator(s) ''
          @ str_join '', '' unsupported @ '', which cannot be evaluated as an OpenSearch aggregation with the same meaning they have in the ''
          @ ''streaming evaluator. Use contains/starts_with/ends_with/in, or make this a streaming rule.''))
        else check_exceptions origin (rule_id r) (exceptions r))"

definition parse_rule :: "yaml_lib \<Rightarrow> string \<Rightarrow> string \<Rightarrow> service_error + authored_rule" where
  "parse_rule y source origin = (case yaml_load y source of
     Bad_yaml m \<Rightarrow> Inl (RuleLoadError (origin @ '': not valid YAML: '' @ m))
   | No_mapping \<Rightarrow> Inl (RuleLoadError (origin @ '': a rule must be a YAML mapping''))
   | Bad_shape m \<Rightarrow> Inl (RuleLoadError (origin @ '': invalid rule: '' @ m))
   | Rule_document a \<Rightarrow>
       if \<not> rule_valid y a then Inl (RuleLoadError (origin @ '': invalid rule''))
       else bind_res (check_execution_shape (au_rule a) origin) (\<lambda>_. Inr a))"

definition warnings_for :: "detection_rule \<Rightarrow> string \<Rightarrow> string list" where
  "warnings_for r origin =
     (if rule_type r = ''windowed'' \<and> suppression r = None then [origin @ '': windowed rule '' @ rule_id r
        @ '' has no suppression; overlapping scheduled runs will re-fire it for as long as its events remain in window''] else [])
     @ (if suppression r \<noteq> None \<and> suppression_fields r = [] then [origin @ '': rule '' @ rule_id r
        @ '' suppresses globally (no suppress_by), so one noisy entity will hide every other one''] else [])"

text \<open>A rule file is its path under the directory and its text, or what reading it raised.\<close>

datatype rule_file = Unreadable string | File_text string

record rule_load =
  ld_rules :: "authored_rule list"
  ld_errors :: "string list"
  ld_warnings :: "string list"

definition RULE_SUFFIXES :: "string list" where "RULE_SUFFIXES = [''.yml'', ''.yaml'']"

definition CORRELATION_DIRNAME :: string where "CORRELATION_DIRNAME = ''correlation''"

text \<open>The last dot of a name starts its suffix unless it is the first or the last character.\<close>

definition file_suffix :: "string \<Rightarrow> string" where
  "file_suffix name = (let r = rev name; ext = takeWhile (\<lambda>c. c \<noteq> CHR ''.'') r; stem = drop (Suc (length ext)) r
     in if length ext < length name \<and> ext \<noteq> [] \<and> list_ex (\<lambda>c. c \<noteq> CHR ''.'') stem then CHR ''.'' # rev ext else [])"

definition iter_rule_files :: "string list \<Rightarrow> (string list \<times> rule_file) list \<Rightarrow> (string \<times> rule_file) list" where
  "iter_rule_files skip_dirs files =
     map (\<lambda>(parts, f). (str_join ''/'' parts, f))
       (filter (\<lambda>(parts, f). parts \<noteq> [] \<and> str_lower (file_suffix (last parts)) \<in> set RULE_SUFFIXES
          \<and> \<not> list_ex (\<lambda>p. str_lower p \<in> set (map str_lower skip_dirs)) (butlast parts))
         (sort_key fst files))"

definition ld_error :: "string \<Rightarrow> rule_load \<Rightarrow> rule_load" where
  "ld_error m r = r\<lparr>ld_errors := ld_errors r @ [m]\<rparr>"

definition load_message :: "service_error \<Rightarrow> string" where
  "load_message err = (case err of RuleLoadError m \<Rightarrow> m | _ \<Rightarrow> [])"

fun load_rule_files :: "yaml_lib \<Rightarrow> (string \<times> rule_file) list \<Rightarrow> string dict \<Rightarrow> rule_load \<Rightarrow> rule_load" where
  "load_rule_files y [] seen r = r"
| "load_rule_files y ((origin, f) # fs) seen r = (case f of
     Unreadable m \<Rightarrow> load_rule_files y fs seen (ld_error m r)
   | File_text t \<Rightarrow> (case parse_rule y t origin of
        Inl err \<Rightarrow> load_rule_files y fs seen (ld_error (load_message err) r)
      | Inr a \<Rightarrow> let key = rule_id (au_rule a) in
          (case dict_get seen key of
             Some other \<Rightarrow> load_rule_files y fs seen (ld_error (origin @ '': duplicate rule_id '' @ key @ '' (already defined in '' @ other @ '')'') r)
           | None \<Rightarrow> load_rule_files y fs (dict_set key origin seen)
               (r\<lparr>ld_rules := ld_rules r @ [a], ld_warnings := ld_warnings r @ warnings_for (au_rule a) origin\<rparr>))))"

definition load_rules :: "yaml_lib \<Rightarrow> string \<Rightarrow> (string list \<times> rule_file) list option \<Rightarrow> rule_load" where
  "load_rules y directory files = (case files of
     None \<Rightarrow> \<lparr>ld_rules = [], ld_errors = [''rule directory does not exist: '' @ directory], ld_warnings = []\<rparr>
   | Some fs \<Rightarrow> load_rule_files y (iter_rule_files [CORRELATION_DIRNAME] fs) [] \<lparr>ld_rules = [], ld_errors = [], ld_warnings = []\<rparr>)"

definition load_rules_or_raise :: "yaml_lib \<Rightarrow> string \<Rightarrow> (string list \<times> rule_file) list option \<Rightarrow> service_error + authored_rule list" where
  "load_rules_or_raise y directory files = (let r = load_rules y directory files in
     if ld_errors r \<noteq> [] then Inl (RuleLoadError (show_nat (length (ld_errors r)) @ '' rule file(s) failed to load:'' @ [CHR 0x0A, CHR '' '', CHR '' '']
       @ str_join [CHR 0x0A, CHR '' '', CHR '' ''] (ld_errors r)))
     else Inr (ld_rules r))"

definition rule_to_yaml :: "yaml_lib \<Rightarrow> authored_rule \<Rightarrow> string" where
  "rule_to_yaml y a = yaml_dump y a"

section \<open>Tables\<close>

record rule_row =
  rr_id :: string
  rr_tenant :: string
  rr_key :: string
  rr_name :: string
  rr_description :: string
  rr_severity :: string
  rr_confidence :: int
  rr_risk :: int
  rr_status :: string
  rr_type :: string
  rr_yaml :: string
  rr_notes :: string
  rr_steps :: string
  rr_references :: "string list"
  rr_techniques :: "string list"
  rr_author :: string
  rr_version :: int

record version_row =
  rv_rule :: string
  rv_tenant :: string
  rv_version :: int
  rv_yaml :: string
  rv_by :: "string option"
  rv_summary :: "string option"

record exception_row =
  xr_rule :: string
  xr_tenant :: string
  xr_criteria :: condition_node
  xr_reason :: string
  xr_by :: "string option"
  xr_expires :: "int option"

record rule_db = playbook_db +
  detection_rules :: "rule_row list"
  rule_versions :: "version_row list"
  rule_exceptions :: "exception_row list"

definition RULE_STATUSES :: "string list" where "RULE_STATUSES = [''enabled'', ''disabled'', ''testing'']"

definition RULE_TYPES :: "string list" where "RULE_TYPES = [''streaming'', ''windowed'']"

definition RULE_SEVERITIES :: "string list" where
  "RULE_SEVERITIES = [''informational'', ''low'', ''medium'', ''high'', ''critical'']"

fun status_value :: "rule_status \<Rightarrow> string" where
  "status_value ENABLED = ''enabled''"
| "status_value DISABLED = ''disabled''"
| "status_value TESTING = ''testing''"

text \<open>\<open>RuleStatus(value)\<close>.\<close>

definition status_of :: "string \<Rightarrow> service_error + rule_status" where
  "status_of s = (if s = ''enabled'' then Inr ENABLED else if s = ''disabled'' then Inr DISABLED
     else if s = ''testing'' then Inr TESTING else Inl (Raised (ValueError ''not a valid RuleStatus'')))"

definition check_rule_row :: "'a rule_db_scheme \<Rightarrow> rule_row \<Rightarrow> service_error + unit" where
  "check_rule_row db r = require [fk_org db (rr_tenant r), (varchar 64 (rr_key r), DataError ''rule_key''),
     (varchar 200 (rr_name r), DataError ''name''), (list_all text_ok [rr_description r, rr_yaml r, rr_notes r, rr_steps r, rr_author r], DataError ''text''),
     (list_all text_ok (rr_references r @ rr_techniques r), DataError ''array''), (int4 (rr_version r), DataError ''current_version''),
     (rr_status r \<in> set RULE_STATUSES, IntegrityError ''ck_detection_rules_status''),
     (rr_type r \<in> set RULE_TYPES, IntegrityError ''ck_detection_rules_type''),
     (rr_severity r \<in> set RULE_SEVERITIES, IntegrityError ''ck_detection_rules_severity''),
     (0 \<le> rr_confidence r \<and> rr_confidence r \<le> 100, IntegrityError ''ck_detection_rules_confidence''),
     (0 \<le> rr_risk r \<and> rr_risk r \<le> 100, IntegrityError ''ck_detection_rules_risk'')]"

definition insert_rule_row :: "rule_row \<Rightarrow> 'a rule_db_scheme \<Rightarrow> service_error + 'a rule_db_scheme" where
  "insert_rule_row r db = bind_res (check_rule_row db r) (\<lambda>_. bind_res (require
     [(rr_id r \<notin> rr_id ` set (detection_rules db), IntegrityError ''detection_rules_pkey''),
      ((rr_tenant r, rr_key r) \<notin> (\<lambda>x. (rr_tenant x, rr_key x)) ` set (detection_rules db), IntegrityError ''uq_detection_rules_tenant_key'')])
     (\<lambda>_. Inr (db\<lparr>drawn := Suc (drawn db), detection_rules := detection_rules db @ [r]\<rparr>)))"

definition save_rule_row :: "rule_row \<Rightarrow> 'a rule_db_scheme \<Rightarrow> service_error + 'a rule_db_scheme" where
  "save_rule_row r db = bind_res (check_rule_row db r) (\<lambda>_.
     Inr (db\<lparr>detection_rules := update_rows (\<lambda>x. rr_id x = rr_id r) (\<lambda>_. r) (detection_rules db)\<rparr>))"

definition add_version :: "version_row \<Rightarrow> 'a rule_db_scheme \<Rightarrow> service_error + 'a rule_db_scheme" where
  "add_version v db = bind_res (require [fk_org db (rv_tenant v), fk_user db (rv_by v), (text_ok (rv_yaml v), DataError ''definition_yaml''),
       (pred_option text_ok (rv_summary v), DataError ''change_summary''), (int4 (rv_version v), DataError ''version''),
       (rv_rule v \<in> rr_id ` set (detection_rules db), IntegrityError ''foreign key: detection_rules''),
       (\<not> list_ex (\<lambda>x. rv_rule x = rv_rule v \<and> rv_version x = rv_version v) (rule_versions db),
        IntegrityError ''uq_detection_rule_versions_rule_version'')])
     (\<lambda>_. Inr (db\<lparr>drawn := Suc (drawn db), rule_versions := rule_versions db @ [v]\<rparr>))"

section \<open>The service\<close>

definition apply_rule_to_record :: "rule_row \<Rightarrow> authored_rule \<Rightarrow> string \<Rightarrow> rule_row" where
  "apply_rule_to_record row a text = (let r = au_rule a in
     row\<lparr>rr_key := rule_id r, rr_name := rname r, rr_description := au_description a, rr_severity := severity_value (severity r),
       rr_confidence := confidence r, rr_risk := risk_score r, rr_status := status_value (status r), rr_type := rule_type r,
       rr_yaml := text, rr_notes := au_notes a, rr_steps := au_steps a, rr_references := au_references a,
       rr_techniques := mitre_attack r, rr_author := au_author a\<rparr>)"

definition rule_by_key :: "string \<Rightarrow> string \<Rightarrow> 'a rule_db_scheme \<Rightarrow> rule_row option" where
  "rule_by_key tenant key db = find (\<lambda>r. rr_tenant r = tenant \<and> rr_key r = key) (detection_rules db)"

definition list_rules :: "string \<Rightarrow> 'a rule_db_scheme \<Rightarrow> rule_row list" where
  "list_rules tenant db = sort_key rr_key (filter (\<lambda>r. rr_tenant r = tenant) (detection_rules db))"

definition get_rule :: "string \<Rightarrow> string \<Rightarrow> 'a rule_db_scheme \<Rightarrow> service_error + rule_row" where
  "get_rule tenant key db = (case rule_by_key tenant key db of None \<Rightarrow> Inl (service_error.NotFoundError key) | Some r \<Rightarrow> Inr r)"

definition blank_row :: "string \<Rightarrow> string \<Rightarrow> int \<Rightarrow> rule_row" where
  "blank_row i tenant v = \<lparr>rr_id = i, rr_tenant = tenant, rr_key = [], rr_name = [], rr_description = [], rr_severity = [],
     rr_confidence = 50, rr_risk = 0, rr_status = ''disabled'', rr_type = [], rr_yaml = [], rr_notes = [], rr_steps = [],
     rr_references = [], rr_techniques = [], rr_author = [], rr_version = v\<rparr>"

definition create_rule ::
  "yaml_lib \<Rightarrow> 'b dbenv_scheme \<Rightarrow> string \<Rightarrow> string \<Rightarrow> string option \<Rightarrow> string option \<Rightarrow> string option \<Rightarrow> 'a rule_db_scheme \<Rightarrow>
   service_error + rule_row \<times> 'a rule_db_scheme" where
  "create_rule y e tenant text actor ip summ db =
     bind_res (parse_rule y text ''submitted rule'') (\<lambda>a.
     if rule_by_key tenant (rule_id (au_rule a)) db \<noteq> None then Inl (DuplicateError (rule_id (au_rule a)))
     else let row = apply_rule_to_record (blank_row (fresh_id e db) tenant (version (au_rule a))) a text in
       bind_res (insert_rule_row row db) (\<lambda>db1.
       bind_res (add_version \<lparr>rv_rule = rr_id row, rv_tenant = tenant, rv_version = rr_version row, rv_yaml = text, rv_by = actor,
            rv_summary = Some (if summ \<in> {None, Some []} then ''initial version'' else the summ)\<rparr> db1) (\<lambda>db2.
       bind_res (record_audit_event e tenant ''CREATE_DETECTION_RULE'' ''detection_rule'' ''success'' actor ip None (Some (rr_key row)) None
           (Some [(''status'', JStr (rr_status row)), (''version'', JInt (rr_version row))]) db2) (\<lambda>db3.
       Inr (row, db3)))))"

definition update_rule ::
  "yaml_lib \<Rightarrow> 'b dbenv_scheme \<Rightarrow> string \<Rightarrow> string \<Rightarrow> string \<Rightarrow> string option \<Rightarrow> string option \<Rightarrow> string option \<Rightarrow> 'a rule_db_scheme \<Rightarrow>
   service_error + rule_row \<times> 'a rule_db_scheme" where
  "update_rule y e tenant key text actor ip summ db =
     bind_res (get_rule tenant key db) (\<lambda>old.
     bind_res (parse_rule y text (''rule '' @ key)) (\<lambda>a.
     if rule_id (au_rule a) \<noteq> key then Inl (RuleLoadError (''rule_id cannot be changed on update ('' @ key @ '' -> '' @ rule_id (au_rule a)
       @ ''); create a new rule instead''))
     else let row = (apply_rule_to_record old a text)\<lparr>rr_version := rr_version old + 1\<rparr> in
       bind_res (save_rule_row row db) (\<lambda>db1.
       bind_res (add_version \<lparr>rv_rule = rr_id row, rv_tenant = tenant, rv_version = rr_version row, rv_yaml = text, rv_by = actor,
            rv_summary = summ\<rparr> db1) (\<lambda>db2.
       bind_res (record_audit_event e tenant ''UPDATE_DETECTION_RULE'' ''detection_rule'' ''success'' actor ip None (Some key)
           (Some [(''status'', JStr (rr_status old)), (''version'', JInt (rr_version old)), (''definition_yaml'', JStr (rr_yaml old))])
           (Some [(''status'', JStr (rr_status row)), (''version'', JInt (rr_version row)), (''definition_yaml'', JStr text)]) db2) (\<lambda>db3.
       Inr (row, db3))))))"

definition yaml_with_status :: "yaml_lib \<Rightarrow> string \<Rightarrow> rule_status \<Rightarrow> service_error + string" where
  "yaml_with_status y text st = bind_res (parse_rule y text ''stored rule'') (\<lambda>a.
     Inr (rule_to_yaml y (a\<lparr>au_rule := (au_rule a)\<lparr>status := st\<rparr>\<rparr>)))"

definition set_rule_status ::
  "yaml_lib \<Rightarrow> 'b dbenv_scheme \<Rightarrow> string \<Rightarrow> string \<Rightarrow> rule_status \<Rightarrow> string option \<Rightarrow> string option \<Rightarrow> 'a rule_db_scheme \<Rightarrow>
   service_error + rule_row \<times> 'a rule_db_scheme" where
  "set_rule_status y e tenant key st actor ip db =
     bind_res (get_rule tenant key db) (\<lambda>old.
     bind_res (yaml_with_status y (rr_yaml old) st) (\<lambda>text.
     let row = old\<lparr>rr_status := status_value st, rr_yaml := text\<rparr> in
     bind_res (save_rule_row row db) (\<lambda>db1.
     bind_res (record_audit_event e tenant (if st = DISABLED then ''DISABLE_DETECTION_RULE'' else ''ENABLE_DETECTION_RULE'')
         ''detection_rule'' ''success'' actor ip None (Some key) (Some [(''status'', JStr (rr_status old))])
         (Some [(''status'', JStr (rr_status row))]) db1) (\<lambda>db2.
     Inr (row, db2)))))"

definition opt_iso :: "'b dbenv_scheme \<Rightarrow> int option \<Rightarrow> string option" where
  "opt_iso e t = map_option (isoformat e) t"

definition add_exception ::
  "yaml_lib \<Rightarrow> 'b dbenv_scheme \<Rightarrow> string \<Rightarrow> string \<Rightarrow> string \<Rightarrow> condition_node \<Rightarrow> int option \<Rightarrow> string option \<Rightarrow> string option \<Rightarrow>
   'a rule_db_scheme \<Rightarrow> service_error + exception_row \<times> 'a rule_db_scheme" where
  "add_exception y e tenant key why criteria expires actor ip db =
     bind_res (get_rule tenant key db) (\<lambda>row.
     if \<not> exception_valid y \<lparr>reason = why, exc_conditions = criteria, expires_at = opt_iso e expires\<rparr> then Inl (ValidationError ''RuleException'')
     else let x = \<lparr>xr_rule = rr_id row, xr_tenant = tenant, xr_criteria = criteria, xr_reason = why, xr_by = actor, xr_expires = expires\<rparr> in
       bind_res (require [fk_org db tenant, fk_user db actor, (text_ok why, DataError ''reason'')]) (\<lambda>_.
       bind_res (record_audit_event e tenant ''CREATE_RULE_EXCEPTION'' ''detection_rule'' ''success'' actor ip None (Some key) None
           (Some [(''reason'', JStr why), (''expires_at'', opt_str (opt_iso e expires))])
           (db\<lparr>drawn := Suc (drawn db), rule_exceptions := rule_exceptions db @ [x]\<rparr>)) (\<lambda>db1.
       Inr (x, db1))))"

definition list_exceptions :: "string \<Rightarrow> string \<Rightarrow> 'a rule_db_scheme \<Rightarrow> exception_row list" where
  "list_exceptions tenant rule db = filter (\<lambda>x. xr_tenant x = tenant \<and> xr_rule x = rule) (rule_exceptions db)"

definition list_versions :: "string \<Rightarrow> string \<Rightarrow> 'a rule_db_scheme \<Rightarrow> version_row list" where
  "list_versions tenant rule db = sort_key (\<lambda>v. - rv_version v) (filter (\<lambda>v. rv_tenant v = tenant \<and> rv_rule v = rule) (rule_versions db))"

fun install_rules ::
  "yaml_lib \<Rightarrow> 'b dbenv_scheme \<Rightarrow> string \<Rightarrow> string option \<Rightarrow> authored_rule list \<Rightarrow> 'a rule_db_scheme \<Rightarrow>
   service_error + string list \<times> 'a rule_db_scheme" where
  "install_rules y e tenant actor [] db = Inr ([], db)"
| "install_rules y e tenant actor (a # as) db =
     (if rule_by_key tenant (rule_id (au_rule a)) db \<noteq> None then install_rules y e tenant actor as db
      else bind_res (create_rule y e tenant (rule_to_yaml y a) actor None (Some ''installed from the default rule pack'') db) (\<lambda>(_, db1).
           bind_res (install_rules y e tenant actor as db1) (\<lambda>(ks, db2). Inr (rule_id (au_rule a) # ks, db2))))"

definition install_default_rules ::
  "yaml_lib \<Rightarrow> 'b dbenv_scheme \<Rightarrow> string \<Rightarrow> string option \<Rightarrow> rule_load \<Rightarrow> 'a rule_db_scheme \<Rightarrow> service_error + string list \<times> 'a rule_db_scheme" where
  "install_default_rules y e tenant actor r db =
     (if ld_errors r \<noteq> [] then Inl (RuleLoadError (str_join ''; '' (ld_errors r)))
      else install_rules y e tenant actor (ld_rules r) db)"

section \<open>What the workers load\<close>

text \<open>Stored exceptions are validated again; expired ones are left out before that.\<close>

fun as_schema_exceptions :: "yaml_lib \<Rightarrow> 'b dbenv_scheme \<Rightarrow> exception_row list \<Rightarrow> service_error + rule_exception list" where
  "as_schema_exceptions y e [] = Inr []"
| "as_schema_exceptions y e (x # xs) =
     (if (case xr_expires x of None \<Rightarrow> False | Some t \<Rightarrow> t \<le> utcnow e) then as_schema_exceptions y e xs
      else let ex = \<lparr>reason = xr_reason x, exc_conditions = xr_criteria x, expires_at = opt_iso e (xr_expires x)\<rparr> in
        if \<not> exception_valid y ex then Inl (ValidationError ''RuleException'')
        else bind_res (as_schema_exceptions y e xs) (\<lambda>exs. Inr (ex # exs)))"

definition merged_rule :: "rule_status \<Rightarrow> int \<Rightarrow> rule_exception list \<Rightarrow> detection_rule \<Rightarrow> detection_rule" where
  "merged_rule st v exs r = r\<lparr>status := st, version := v, exceptions := exceptions r @ exs\<rparr>"

fun load_rows :: "yaml_lib \<Rightarrow> 'b dbenv_scheme \<Rightarrow> string \<Rightarrow> rule_row list \<Rightarrow> 'a rule_db_scheme \<Rightarrow> service_error + detection_rule list" where
  "load_rows y e tenant [] db = Inr []"
| "load_rows y e tenant (row # rest) db = (case parse_rule y (rr_yaml row) (''rule '' @ rr_key row) of
     Inl _ \<Rightarrow> load_rows y e tenant rest db
   | Inr a \<Rightarrow> bind_res (as_schema_exceptions y e (list_exceptions tenant (rr_id row) db)) (\<lambda>exs.
       bind_res (status_of (rr_status row)) (\<lambda>st.
       bind_res (load_rows y e tenant rest db) (\<lambda>rs. Inr (merged_rule st (rr_version row) exs (au_rule a) # rs)))))"

definition load_active_rules :: "yaml_lib \<Rightarrow> 'b dbenv_scheme \<Rightarrow> string \<Rightarrow> 'a rule_db_scheme \<Rightarrow> service_error + detection_rule list" where
  "load_active_rules y e tenant db =
     load_rows y e tenant (filter (\<lambda>r. rr_tenant r = tenant \<and> rr_status r \<noteq> ''disabled'') (detection_rules db)) db"

section \<open>Rows agree with their YAML\<close>

definition shape_ok :: "detection_rule \<Rightarrow> bool" where
  "shape_ok r \<longleftrightarrow> window r = None \<or> unsupported_operators (conditions r) = [] \<and> list_all (\<lambda>ex. unsupported_operators (exc_conditions ex) = []) (exceptions r)"

lemma sorted_set_Nil [simp]: "sorted_set xs = [] \<longleftrightarrow> xs = []"
  by (simp add: sorted_set_def) (metis length_0_conv length_sort remdups_eq_nil_iff)

lemma check_exceptions_Inr: "check_exceptions origin key exs = Inr u \<longleftrightarrow> list_all (\<lambda>ex. unsupported_operators (exc_conditions ex) = []) exs"
  by (induction exs) (auto simp: Let_def)

lemma check_execution_shape_Inr: "check_execution_shape r origin = Inr u \<longleftrightarrow> shape_ok r"
  by (auto simp: check_execution_shape_def shape_ok_def rule_type_def Let_def check_exceptions_Inr)

lemma parse_rule_Inr: "parse_rule y t origin = Inr a \<longleftrightarrow> yaml_load y t = Rule_document a \<and> rule_valid y a \<and> shape_ok (au_rule a)"
  by (auto simp: parse_rule_def bind_res_Inr check_execution_shape_Inr split: yaml_document.splits if_splits)

text \<open>A row agrees with its YAML when the text parses and every derived column is what the parsed rule says.\<close>

definition row_agrees :: "yaml_lib \<Rightarrow> rule_row \<Rightarrow> bool" where
  "row_agrees y r \<longleftrightarrow> (\<exists>a. parse_rule y (rr_yaml r) [] = Inr a \<and> apply_rule_to_record r a (rr_yaml r) = r)"

text \<open>What the code relies on in YAML: a rule read from a text and written with another status reads
  back as that rule.\<close>

definition faithful_yaml :: "yaml_lib \<Rightarrow> bool" where
  "faithful_yaml y \<longleftrightarrow> (\<forall>t a st. yaml_load y t = Rule_document a \<longrightarrow>
     (let b = a\<lparr>au_rule := (au_rule a)\<lparr>status := st\<rparr>\<rparr> in yaml_load y (yaml_dump y b) = Rule_document b))"

lemma apply_rule_idem: "apply_rule_to_record (apply_rule_to_record r a t) a t = apply_rule_to_record r a t"
  by (simp add: apply_rule_to_record_def Let_def)

lemma apply_rule_yaml [simp]: "rr_yaml (apply_rule_to_record r a t) = t"
  by (simp add: apply_rule_to_record_def Let_def)

lemma apply_rule_keeps [simp]:
  "rr_id (apply_rule_to_record r a t) = rr_id r" "rr_tenant (apply_rule_to_record r a t) = rr_tenant r"
  "rr_version (apply_rule_to_record r a t) = rr_version r" "rr_key (apply_rule_to_record r a t) = rule_id (au_rule a)"
  by (simp_all add: apply_rule_to_record_def Let_def)

lemma row_agrees_applied: "parse_rule y t origin = Inr a \<Longrightarrow> row_agrees y ((apply_rule_to_record r a t)\<lparr>rr_version := v\<rparr>)"
  unfolding row_agrees_def by (intro exI [of _ a]) (simp add: parse_rule_Inr apply_rule_to_record_def Let_def)

lemma rule_valid_status [simp]: "rule_valid y (a\<lparr>au_rule := (au_rule a)\<lparr>status := st\<rparr>\<rparr>) = rule_valid y a"
  by (simp add: rule_valid_def Let_def)

lemma row_agrees_status:
  assumes f: "faithful_yaml y" and r: "row_agrees y r" and t: "yaml_with_status y (rr_yaml r) st = Inr t"
  shows "row_agrees y (r\<lparr>rr_status := status_value st, rr_yaml := t\<rparr>)"
proof -
  obtain a where a: "parse_rule y (rr_yaml r) [] = Inr a" "apply_rule_to_record r a (rr_yaml r) = r"
    using r by (auto simp: row_agrees_def)
  let ?b = "a\<lparr>au_rule := (au_rule a)\<lparr>status := st\<rparr>\<rparr>"
  have t': "t = yaml_dump y ?b" using t a(1) by (auto simp: yaml_with_status_def bind_res_Inr parse_rule_Inr rule_to_yaml_def)
  have "yaml_load y t = Rule_document ?b" using f a(1) by (auto simp: faithful_yaml_def t' parse_rule_Inr Let_def)
  hence p: "parse_rule y t [] = Inr ?b" using a(1) by (simp add: parse_rule_Inr shape_ok_def)
  have "apply_rule_to_record (r\<lparr>rr_status := status_value st, rr_yaml := t\<rparr>) ?b t = r\<lparr>rr_status := status_value st, rr_yaml := t\<rparr>"
  proof -
    have "apply_rule_to_record (r\<lparr>rr_status := status_value st, rr_yaml := t\<rparr>) ?b t
        = (apply_rule_to_record r a (rr_yaml r))\<lparr>rr_status := status_value st, rr_yaml := t\<rparr>"
      by (simp add: apply_rule_to_record_def Let_def rule_type_def)
    thus ?thesis unfolding a(2) .
  qed
  thus ?thesis using p unfolding row_agrees_def by (intro exI [of _ ?b]) simp
qed

section \<open>The invariant of the rule tables\<close>

definition versions_of :: "string \<Rightarrow> version_row list \<Rightarrow> int list" where
  "versions_of i vs = map rv_version (filter (\<lambda>v. rv_rule v = i) vs)"

definition row_wf :: "yaml_lib \<Rightarrow> version_row list \<Rightarrow> rule_row \<Rightarrow> bool" where
  "row_wf y vs r \<longleftrightarrow> row_agrees y r \<and> (\<exists>v0 \<le> rr_version r. versions_of (rr_id r) vs = [v0..rr_version r])"

definition stored_valid :: "yaml_lib \<Rightarrow> exception_row \<Rightarrow> bool" where
  "stored_valid y x \<longleftrightarrow> 1 \<le> length (xr_reason x) \<and> length (xr_reason x) \<le> 500 \<and> node_valid (re_compiles y) (xr_criteria x)"

definition rules_wf :: "yaml_lib \<Rightarrow> 'a rule_db_scheme \<Rightarrow> bool" where
  "rules_wf y db \<longleftrightarrow> distinct (map rr_id (detection_rules db)) \<and> distinct (map (\<lambda>r. (rr_tenant r, rr_key r)) (detection_rules db))
     \<and> list_all (row_wf y (rule_versions db)) (detection_rules db) \<and> rv_rule ` set (rule_versions db) \<subseteq> rr_id ` set (detection_rules db)
     \<and> list_all (stored_valid y) (rule_exceptions db)"

lemma insert_rule_row_Inr:
  "insert_rule_row r db = Inr db' \<longleftrightarrow> check_rule_row db r = Inr () \<and> rr_id r \<notin> rr_id ` set (detection_rules db)
     \<and> (rr_tenant r, rr_key r) \<notin> (\<lambda>x. (rr_tenant x, rr_key x)) ` set (detection_rules db)
     \<and> db' = db\<lparr>drawn := Suc (drawn db), detection_rules := detection_rules db @ [r]\<rparr>"
  by (auto simp: insert_rule_row_def bind_res_Inr)

lemma save_rule_row_Inr:
  "save_rule_row r db = Inr db' \<longleftrightarrow> check_rule_row db r = Inr ()
     \<and> db' = db\<lparr>detection_rules := update_rows (\<lambda>x. rr_id x = rr_id r) (\<lambda>_. r) (detection_rules db)\<rparr>"
  by (auto simp: save_rule_row_def bind_res_Inr)

lemma add_version_Inr:
  "add_version v db = Inr db' \<Longrightarrow> db' = db\<lparr>drawn := Suc (drawn db), rule_versions := rule_versions db @ [v]\<rparr>
     \<and> rv_rule v \<in> rr_id ` set (detection_rules db)"
  by (auto simp: add_version_def bind_res_Inr)

lemma rule_by_key_Some:
  "rule_by_key t k db = Some r \<Longrightarrow> r \<in> set (detection_rules db) \<and> rr_tenant r = t \<and> rr_key r = k"
  unfolding rule_by_key_def by (auto dest: find_Some_mem)

lemma get_rule_Inr: "get_rule t k db = Inr r \<Longrightarrow> r \<in> set (detection_rules db) \<and> rr_tenant r = t \<and> rr_key r = k"
  by (auto simp: get_rule_def split: option.splits dest: rule_by_key_Some)

text \<open>Every operation in one form: what its tables are afterwards.\<close>

lemma create_rule_Inr:
  assumes "create_rule y e t text actor ip summ db = Inr (r, db')"
  obtains a v where "parse_rule y text ''submitted rule'' = Inr a" "r = apply_rule_to_record (blank_row (fresh_id e db) t (version (au_rule a))) a text"
    "rr_id r \<notin> rr_id ` set (detection_rules db)" "(t, rr_key r) \<notin> (\<lambda>x. (rr_tenant x, rr_key x)) ` set (detection_rules db)"
    "detection_rules db' = detection_rules db @ [r]" "rule_versions db' = rule_versions db @ [v]" "rv_rule v = rr_id r"
    "rv_version v = rr_version r" "rv_yaml v = text" "rv_by v = actor" "rule_exceptions db' = rule_exceptions db" "rr_tenant r = t"
proof -
  obtain a db1 db2 s where a: "parse_rule y text ''submitted rule'' = Inr a"
    and i: "insert_rule_row (apply_rule_to_record (blank_row (fresh_id e db) t (version (au_rule a))) a text) db = Inr db1"
    and r: "r = apply_rule_to_record (blank_row (fresh_id e db) t (version (au_rule a))) a text"
    and v: "add_version \<lparr>rv_rule = rr_id r, rv_tenant = t, rv_version = rr_version r, rv_yaml = text, rv_by = actor, rv_summary = s\<rparr> db1 = Inr db2"
    and x: "record_audit_event e t ''CREATE_DETECTION_RULE'' ''detection_rule'' ''success'' actor ip None (Some (rr_key r)) None
           (Some [(''status'', JStr (rr_status r)), (''version'', JInt (rr_version r))]) db2 = Inr db'"
    using assms by (auto simp: create_rule_def bind_res_Inr Let_def split: if_splits)
  show ?thesis
    using a r i add_version_Inr [OF v] record_audit_event_Inr [OF x]
    by (intro that [of a "\<lparr>rv_rule = rr_id r, rv_tenant = t, rv_version = rr_version r, rv_yaml = text, rv_by = actor, rv_summary = s\<rparr>"])
      (auto simp: insert_rule_row_Inr blank_row_def)
qed

lemma update_rule_Inr:
  assumes "update_rule y e t key text actor ip summ db = Inr (r, db')"
  obtains old a v where "get_rule t key db = Inr old" "parse_rule y text (''rule '' @ key) = Inr a" "rule_id (au_rule a) = key"
    "r = (apply_rule_to_record old a text)\<lparr>rr_version := rr_version old + 1\<rparr>"
    "detection_rules db' = update_rows (\<lambda>x. rr_id x = rr_id r) (\<lambda>_. r) (detection_rules db)"
    "rule_versions db' = rule_versions db @ [v]" "rv_rule v = rr_id r" "rv_version v = rr_version r" "rv_yaml v = text" "rv_by v = actor"
    "rule_exceptions db' = rule_exceptions db"
proof -
  obtain old a db1 db2 where g: "get_rule t key db = Inr old" and a: "parse_rule y text (''rule '' @ key) = Inr a" "rule_id (au_rule a) = key"
    and r: "r = (apply_rule_to_record old a text)\<lparr>rr_version := rr_version old + 1\<rparr>" and s: "save_rule_row r db = Inr db1"
    and v: "add_version \<lparr>rv_rule = rr_id r, rv_tenant = t, rv_version = rr_version r, rv_yaml = text, rv_by = actor, rv_summary = summ\<rparr> db1 = Inr db2"
    and x: "record_audit_event e t ''UPDATE_DETECTION_RULE'' ''detection_rule'' ''success'' actor ip None (Some key)
           (Some [(''status'', JStr (rr_status old)), (''version'', JInt (rr_version old)), (''definition_yaml'', JStr (rr_yaml old))])
           (Some [(''status'', JStr (rr_status r)), (''version'', JInt (rr_version r)), (''definition_yaml'', JStr text)]) db2 = Inr db'"
    using assms by (auto simp: update_rule_def bind_res_Inr Let_def split: if_splits)
  show ?thesis
    using g a r s add_version_Inr [OF v] record_audit_event_Inr [OF x]
    by (intro that [of old a "\<lparr>rv_rule = rr_id r, rv_tenant = t, rv_version = rr_version r, rv_yaml = text, rv_by = actor, rv_summary = summ\<rparr>"])
      (auto simp: save_rule_row_Inr)
qed

lemma set_rule_status_Inr:
  assumes "set_rule_status y e t key st actor ip db = Inr (r, db')"
  obtains old src where "get_rule t key db = Inr old" "yaml_with_status y (rr_yaml old) st = Inr src"
    "r = old\<lparr>rr_status := status_value st, rr_yaml := src\<rparr>"
    "detection_rules db' = update_rows (\<lambda>x. rr_id x = rr_id r) (\<lambda>_. r) (detection_rules db)"
    "rule_versions db' = rule_versions db" "rule_exceptions db' = rule_exceptions db"
proof -
  obtain old src db1 where g: "get_rule t key db = Inr old" "yaml_with_status y (rr_yaml old) st = Inr src"
    and r: "r = old\<lparr>rr_status := status_value st, rr_yaml := src\<rparr>" and s: "save_rule_row r db = Inr db1"
    and x: "record_audit_event e t (if st = DISABLED then ''DISABLE_DETECTION_RULE'' else ''ENABLE_DETECTION_RULE'')
         ''detection_rule'' ''success'' actor ip None (Some key) (Some [(''status'', JStr (rr_status old))])
         (Some [(''status'', JStr (rr_status r))]) db1 = Inr db'"
    using assms by (auto simp: set_rule_status_def bind_res_Inr Let_def)
  show ?thesis using g r s record_audit_event_Inr [OF x] by (intro that [of old src]) (auto simp: save_rule_row_Inr)
qed

lemma add_exception_Inr:
  assumes "add_exception y e t key why c x actor ip db = Inr (r, db')"
  shows "detection_rules db' = detection_rules db \<and> rule_versions db' = rule_versions db \<and> rule_exceptions db' = rule_exceptions db @ [r]
     \<and> xr_tenant r = t \<and> xr_criteria r = c \<and> xr_reason r = why \<and> xr_expires r = x
     \<and> (\<exists>row. get_rule t key db = Inr row \<and> xr_rule r = rr_id row) \<and> node_valid (re_compiles y) c \<and> 1 \<le> length why \<and> length why \<le> 500"
proof -
  obtain row where g: "get_rule t key db = Inr row" and v: "exception_valid y \<lparr>reason = why, exc_conditions = c, expires_at = opt_iso e x\<rparr>"
    and r: "r = \<lparr>xr_rule = rr_id row, xr_tenant = t, xr_criteria = c, xr_reason = why, xr_by = actor, xr_expires = x\<rparr>"
    and a: "record_audit_event e t ''CREATE_RULE_EXCEPTION'' ''detection_rule'' ''success'' actor ip None (Some key) None
           (Some [(''reason'', JStr why), (''expires_at'', opt_str (opt_iso e x))])
           (db\<lparr>drawn := Suc (drawn db), rule_exceptions := rule_exceptions db @ [r]\<rparr>) = Inr db'"
    using assms by (auto simp: add_exception_def bind_res_Inr Let_def split: if_splits)
  show ?thesis using g v r record_audit_event_Inr [OF a] by (auto simp: exception_valid_def)
qed

lemma versions_of_snoc: "versions_of i (vs @ [v]) = (if rv_rule v = i then versions_of i vs @ [rv_version v] else versions_of i vs)"
  by (simp add: versions_of_def)

lemma versions_of_none: "i \<notin> rv_rule ` set vs \<Longrightarrow> versions_of i vs = []"
  by (auto simp: versions_of_def filter_empty_conv)

lemma row_wf_other: "row_wf y vs x \<Longrightarrow> rv_rule v \<noteq> rr_id x \<Longrightarrow> row_wf y (vs @ [v]) x"
  by (simp add: row_wf_def versions_of_snoc)

lemma rules_wf_cong:
  "rules_wf y db \<Longrightarrow> detection_rules db' = detection_rules db \<Longrightarrow> rule_versions db' = rule_versions db \<Longrightarrow>
   list_all (stored_valid y) (rule_exceptions db') \<Longrightarrow> rules_wf y db'"
  by (simp add: rules_wf_def)

lemma rules_wf_exceptions: "rules_wf y db \<Longrightarrow> list_all (stored_valid y) (rule_exceptions db)"
  by (simp add: rules_wf_def)

lemma rules_wf_create [inv_intros]:
  assumes "create_rule y e t text actor ip summ db = Inr (r, db')" and wf: "rules_wf y db"
  shows "rules_wf y db'"
  using assms(1)
proof (cases rule: create_rule_Inr)
  case (1 a v)
  have "rr_id r \<notin> rv_rule ` set (rule_versions db)" using wf 1(3) by (auto simp: rules_wf_def)
  hence vs: "versions_of (rr_id r) (rule_versions db') = [rr_version r..rr_version r]"
    using 1 by (simp add: versions_of_snoc versions_of_none)
  have "row_agrees y (r\<lparr>rr_version := rr_version r\<rparr>)" unfolding 1(2) by (rule row_agrees_applied [OF 1(1)])
  hence "row_wf y (rule_versions db') r" using vs by (auto simp: row_wf_def)
  moreover have "list_all (row_wf y (rule_versions db')) (detection_rules db)"
    using wf 1 row_wf_other [of y "rule_versions db" _ v] by (fastforce simp: rules_wf_def list_all_iff)
  ultimately show ?thesis using wf 1 by (auto simp: rules_wf_def)
qed

lemma distinct_keys_update:
  assumes "distinct (map key xs)" "old \<in> set xs" "idk old = idk r" "key r = key old" "distinct (map idk xs)"
  shows "map key (update_rows (\<lambda>x. idk x = idk r) (\<lambda>_. r) xs) = map key xs"
proof -
  have "key (if idk x = idk r then r else x) = key x" if "x \<in> set xs" for x
    using update_rows_key_eq [of idk xs old x] assms that by auto
  thus ?thesis by (simp add: update_rows_def)
qed

lemma rules_wf_saved:
  assumes wf: "rules_wf y db" and old: "old \<in> set (detection_rules db)"
    and r: "rr_id r = rr_id old" "rr_tenant r = rr_tenant old" "rr_key r = rr_key old" "row_wf y vs r"
    and rows: "detection_rules db' = update_rows (\<lambda>x. rr_id x = rr_id r) (\<lambda>_. r) (detection_rules db)"
    and vs: "rule_versions db' = vs" "rv_rule ` set vs \<subseteq> rr_id ` set (detection_rules db)"
    and others: "\<And>x. row_wf y (rule_versions db) x \<Longrightarrow> rr_id x \<noteq> rr_id r \<Longrightarrow> row_wf y vs x"
    and xs: "rule_exceptions db' = rule_exceptions db"
  shows "rules_wf y db'"
proof -
  have d: "distinct (map rr_id (detection_rules db))" "distinct (map (\<lambda>r. (rr_tenant r, rr_key r)) (detection_rules db))"
    "list_all (row_wf y (rule_versions db)) (detection_rules db)" using wf by (simp_all add: rules_wf_def)
  have ids: "map rr_id (detection_rules db') = map rr_id (detection_rules db)"
    unfolding rows by (rule distinct_keys_update [OF d(1) old _ _ d(1)]) (simp_all add: r)
  have keys: "map (\<lambda>r. (rr_tenant r, rr_key r)) (detection_rules db') = map (\<lambda>r. (rr_tenant r, rr_key r)) (detection_rules db)"
    unfolding rows by (rule distinct_keys_update [OF d(2) old _ _ d(1)]) (simp_all add: r)
  have "rr_id ` set (detection_rules db') = rr_id ` set (detection_rules db)" using arg_cong [OF ids, of set] by simp
  moreover have "list_all (row_wf y vs) (detection_rules db')"
    using d(3) others r(4) unfolding rows by (auto simp: list_all_iff set_update_rows)
  ultimately show ?thesis using d ids keys vs xs wf by (simp add: rules_wf_def)
qed

lemma rules_wf_update [inv_intros]:
  assumes "update_rule y e t key text actor ip summ db = Inr (r, db')" and wf: "rules_wf y db"
  shows "rules_wf y db'"
  using assms(1)
proof (cases rule: update_rule_Inr)
  case (1 old a v)
  have old: "old \<in> set (detection_rules db)" "rr_tenant old = t" "rr_key old = key" using get_rule_Inr [OF 1(1)] by auto
  have id: "rr_id r = rr_id old" "rr_tenant r = rr_tenant old" "rr_key r = rr_key old" "rr_version r = rr_version old + 1"
    using 1 old by simp_all
  obtain v0 where v0: "v0 \<le> rr_version old" "versions_of (rr_id old) (rule_versions db) = [v0..rr_version old]"
    using wf old(1) by (auto simp: rules_wf_def list_all_iff row_wf_def)
  have "versions_of (rr_id r) (rule_versions db @ [v]) = [v0..rr_version r]"
    using v0 1 id upto_rec2 [of v0 "rr_version r"] by (simp add: versions_of_snoc)
  moreover have "row_agrees y r" unfolding 1(4) by (rule row_agrees_applied [OF 1(2)])
  ultimately have "row_wf y (rule_versions db @ [v]) r" using v0(1) id(4) unfolding row_wf_def by (intro conjI exI [of _ v0]) simp_all
  thus ?thesis
    using rules_wf_saved [OF wf old(1) id(1,2,3) _ 1(5) 1(6) _ _ 1(11)] 1(7) old(1) wf row_wf_other [of y "rule_versions db" _ v] id(1)
    by (auto simp: rules_wf_def)
qed

lemma rules_wf_status [inv_intros]:
  assumes "set_rule_status y e t key st actor ip db = Inr (r, db')" and wf: "rules_wf y db" and "faithful_yaml y"
  shows "rules_wf y db'"
  using assms(1)
proof (cases rule: set_rule_status_Inr)
  case (1 old src)
  have old: "old \<in> set (detection_rules db)" using get_rule_Inr [OF 1(1)] by auto
  hence w: "row_wf y (rule_versions db) old" using wf by (auto simp: rules_wf_def list_all_iff)
  hence "row_wf y (rule_versions db) r"
    using row_agrees_status [OF assms(3) _ 1(2)] 1(3) by (auto simp: row_wf_def)
  thus ?thesis using rules_wf_saved [OF wf old _ _ _ _ 1(4) 1(5) _ _ 1(6)] 1(3) wf by (auto simp: rules_wf_def)
qed

lemma rules_wf_exception [inv_intros]:
  assumes "add_exception y e t key why c x actor ip db = Inr (r, db')" and wf: "rules_wf y db"
  shows "rules_wf y db'"
  using add_exception_Inr [OF assms(1)] rules_wf_exceptions [OF wf] by (intro rules_wf_cong [OF wf]) (auto simp: stored_valid_def)

lemma rules_wf_install [inv_intros]:
  "install_rules y e t actor as db = Inr (ks, db') \<Longrightarrow> rules_wf y db \<Longrightarrow> rules_wf y db'"
  by (induction "as" arbitrary: db ks) (auto simp: bind_res_Inr split: if_splits dest!: rules_wf_create)

inductive rule_step :: "yaml_lib \<Rightarrow> 'a rule_db_scheme \<Rightarrow> 'a rule_db_scheme \<Rightarrow> bool" for y where
  rule_created: "create_rule y (e :: dbenv) t src actor ip summ db = Inr (r, db') \<Longrightarrow> rule_step y db db'"
| rule_updated: "update_rule y (e :: dbenv) t key src actor ip summ db = Inr (r, db') \<Longrightarrow> rule_step y db db'"
| rule_switched: "set_rule_status y (e :: dbenv) t key st actor ip db = Inr (r, db') \<Longrightarrow> rule_step y db db'"
| rule_excepted: "add_exception y (e :: dbenv) t key why c x actor ip db = Inr (r, db') \<Longrightarrow> rule_step y db db'"
| rules_installed: "install_default_rules y (e :: dbenv) t actor ld db = Inr (ks, db') \<Longrightarrow> rule_step y db db'"

definition no_rules :: "'a rule_db_scheme \<Rightarrow> bool" where
  "no_rules db \<longleftrightarrow> detection_rules db = [] \<and> rule_versions db = [] \<and> rule_exceptions db = []"

lemma rules_wf_step: "rule_step y db db' \<Longrightarrow> faithful_yaml y \<Longrightarrow> rules_wf y db \<Longrightarrow> rules_wf y db'"
  by (induction rule: rule_step.induct) (auto intro: inv_intros simp: install_default_rules_def split: if_splits)

lemma rules_wf_empty: "no_rules db \<Longrightarrow> rules_wf y db"
  by (simp add: no_rules_def rules_wf_def)

lemma rules_wf_reachable: "(rule_step y)\<^sup>*\<^sup>* db0 db \<Longrightarrow> no_rules db0 \<Longrightarrow> faithful_yaml y \<Longrightarrow> rules_wf y db"
  by (induction rule: rtranclp_induct) (auto intro: rules_wf_step rules_wf_empty)

text \<open>The history of the rules only grows.\<close>

lemma history_grows: "rule_step y db db' \<Longrightarrow> prefix (rule_versions db) (rule_versions db')"
proof (induction rule: rule_step.induct)
  case (rule_created e t src actor ip summ db r db')
  thus ?case by (cases rule: create_rule_Inr) simp
next
  case (rule_updated e t key src actor ip summ db r db')
  thus ?case by (cases rule: update_rule_Inr) simp
next
  case (rule_switched e t key st actor ip db r db')
  thus ?case by (cases rule: set_rule_status_Inr) simp
next
  case (rule_excepted e t key why c x actor ip db r db')
  thus ?case by (auto dest: add_exception_Inr)
next
  case (rules_installed e t actor ld db ks db')
  have "install_rules y e t actor as db = Inr (ks, db') \<Longrightarrow> prefix (rule_versions db) (rule_versions db')" for "as" ks db
  proof (induction "as" arbitrary: db ks)
    case (Cons a "as")
    show ?case
    proof (cases "rule_by_key t (rule_id (au_rule a)) db")
      case None
      then obtain r db1 ks1 where c: "create_rule y e t (rule_to_yaml y a) actor None (Some ''installed from the default rule pack'') db = Inr (r, db1)"
        and "install_rules y e t actor as db1 = Inr (ks1, db')" using Cons.prems by (auto simp: bind_res_Inr)
      hence "prefix (rule_versions db1) (rule_versions db')" using Cons.IH by blast
      moreover have "prefix (rule_versions db) (rule_versions db1)" using c by (cases rule: create_rule_Inr) simp
      ultimately show ?thesis by (rule prefix_order.trans [rotated])
    qed (use Cons in simp)
  qed simp
  thus ?case using rules_installed by (auto simp: install_default_rules_def split: if_splits)
qed

section \<open>What the workers execute\<close>

lemma list_all2_map_eq: "list_all2 (\<lambda>x y. f x = g y) xs ys \<Longrightarrow> map f xs = map g ys"
  by (induction rule: list_all2_induct) simp_all

lemma as_schema_exceptions_ok:
  "list_all (stored_valid y) xs \<Longrightarrow> \<exists>exs. as_schema_exceptions y e xs = Inr exs"
  by (induction xs) (auto simp: stored_valid_def exception_valid_def Let_def)

text \<open>An exception that has not expired is among them.\<close>

lemma as_schema_exceptions_mem:
  assumes "as_schema_exceptions y e xs = Inr exs" "x \<in> set xs" "xr_expires x = None"
  shows "\<lparr>reason = xr_reason x, exc_conditions = xr_criteria x, expires_at = None\<rparr> \<in> set exs"
  using assms
proof (induction xs arbitrary: exs)
  case (Cons a xs)
  show ?case
  proof (cases "case xr_expires a of None \<Rightarrow> False | Some t \<Rightarrow> t \<le> utcnow e")
    case True
    hence "as_schema_exceptions y e xs = Inr exs" "a \<noteq> x" using Cons.prems by auto
    thus ?thesis using Cons by auto
  next
    case False
    then obtain exs1 where "as_schema_exceptions y e xs = Inr exs1"
      and "exs = \<lparr>reason = xr_reason a, exc_conditions = xr_criteria a, expires_at = opt_iso e (xr_expires a)\<rparr> # exs1"
      using Cons.prems(1) by (auto simp: bind_res_Inr Let_def split: if_splits)
    thus ?thesis using Cons by (auto simp: opt_iso_def)
  qed
qed simp

lemma status_of_value: "status_of (status_value st) = Inr st"
  by (cases st) (simp_all add: status_of_def)

lemma apply_rule_columns:
  assumes "apply_rule_to_record r a t = r"
  shows "rule_id (au_rule a) = rr_key r \<and> severity_value (severity (au_rule a)) = rr_severity r \<and> status_value (status (au_rule a)) = rr_status r
    \<and> rule_type (au_rule a) = rr_type r"
proof -
  have "rr_key (apply_rule_to_record r a t) = rr_key r" "rr_severity (apply_rule_to_record r a t) = rr_severity r"
    "rr_status (apply_rule_to_record r a t) = rr_status r" "rr_type (apply_rule_to_record r a t) = rr_type r" by (simp_all add: assms)
  thus ?thesis by (simp add: apply_rule_to_record_def Let_def)
qed

lemma load_rows_ok:
  assumes "list_all (row_agrees y) rows" "list_all (stored_valid y) (rule_exceptions db)"
  shows "\<exists>rs. load_rows y e t rows db = Inr rs \<and>
    list_all2 (\<lambda>r row. rule_id r = rr_key row \<and> severity_value (severity r) = rr_severity row \<and> status_value (status r) = rr_status row
      \<and> version r = rr_version row \<and> rule_type r = rr_type row
      \<and> (\<exists>exs. as_schema_exceptions y e (list_exceptions t (rr_id row) db) = Inr exs \<and> suffix exs (exceptions r))) rs rows"
  using assms(1)
proof (induction rows)
  case (Cons row rows)
  obtain a where a: "parse_rule y (rr_yaml row) [] = Inr a" "apply_rule_to_record row a (rr_yaml row) = row"
    using Cons.prems by (auto simp: row_agrees_def)
  have p: "parse_rule y (rr_yaml row) (''rule '' @ rr_key row) = Inr a" using a(1) by (simp add: parse_rule_Inr)
  have c: "rule_id (au_rule a) = rr_key row" "severity_value (severity (au_rule a)) = rr_severity row"
    "status_value (status (au_rule a)) = rr_status row" "rule_type (au_rule a) = rr_type row" using apply_rule_columns [OF a(2)] by auto
  obtain exs where x: "as_schema_exceptions y e (list_exceptions t (rr_id row) db) = Inr exs"
    using as_schema_exceptions_ok [of y "list_exceptions t (rr_id row) db"] assms(2) by (auto simp: list_exceptions_def list_all_iff)
  have s: "status_of (rr_status row) = Inr (status (au_rule a))" using status_of_value [of "status (au_rule a)"] c(3) by simp
  show ?case using Cons p c x s by (auto simp: merged_rule_def suffix_def rule_type_def)
qed simp

lemma list_all2_mem1: "list_all2 P xs ys \<Longrightarrow> x \<in> set xs \<Longrightarrow> \<exists>y \<in> set ys. P x y"
  by (induction rule: list_all2_induct) auto

text \<open>The row a loaded rule comes from.\<close>

lemma loaded_rule_row:
  assumes wf: "rules_wf y db" and load: "load_active_rules y e t db = Inr rs" and r: "r \<in> set rs"
  obtains row exs where "row \<in> set (detection_rules db)" "rr_tenant row = t" "rr_status row \<noteq> ''disabled''" "rule_id r = rr_key row"
    "severity_value (severity r) = rr_severity row" "status_value (status r) = rr_status row" "rule_type r = rr_type row"
    "as_schema_exceptions y e (list_exceptions t (rr_id row) db) = Inr exs" "suffix exs (exceptions r)"
proof -
  let ?rows = "filter (\<lambda>r. rr_tenant r = t \<and> rr_status r \<noteq> ''disabled'') (detection_rules db)"
  have "list_all (row_agrees y) ?rows" "list_all (stored_valid y) (rule_exceptions db)"
    using wf by (auto simp: rules_wf_def row_wf_def list_all_iff)
  from load_rows_ok [OF this, of e t] load list_all2_mem1 [OF _ r] obtain row where "row \<in> set ?rows" "rule_id r = rr_key row"
    "severity_value (severity r) = rr_severity row" "status_value (status r) = rr_status row" "rule_type r = rr_type row"
    "\<exists>exs. as_schema_exceptions y e (list_exceptions t (rr_id row) db) = Inr exs \<and> suffix exs (exceptions r)"
    unfolding load_active_rules_def by fastforce
  thus thesis by (auto intro: that)
qed

text \<open>C25: the workers execute exactly what is enabled. In every state the rule service reaches from empty
  tables, given a YAML library that reads back what it writes, loading the rules of a tenant neither fails
  nor skips a row: the loaded rules are the tenant's rows that are not disabled, in order, each with
  the key, severity, status, version and execution shape its columns show.\<close>

theorem loaded_rules_are_the_enabled_rows:
  assumes "(rule_step y)\<^sup>*\<^sup>* db0 db" and "no_rules db0" and "faithful_yaml y"
  shows "\<exists>rs. load_active_rules y e t db = Inr rs
    \<and> map (\<lambda>r. (rule_id r, severity_value (severity r), status_value (status r), version r, rule_type r)) rs
      = map (\<lambda>r. (rr_key r, rr_severity r, rr_status r, rr_version r, rr_type r))
          (filter (\<lambda>r. rr_tenant r = t \<and> rr_status r \<noteq> ''disabled'') (detection_rules db))"
proof -
  let ?rows = "filter (\<lambda>r. rr_tenant r = t \<and> rr_status r \<noteq> ''disabled'') (detection_rules db)"
  have wf: "rules_wf y db" by (rule rules_wf_reachable [OF assms])
  hence "list_all (row_agrees y) ?rows" "list_all (stored_valid y) (rule_exceptions db)"
    by (auto simp: rules_wf_def row_wf_def list_all_iff)
  from load_rows_ok [OF this, of e t] obtain rs where l: "load_rows y e t ?rows db = Inr rs"
    and l2: "list_all2 (\<lambda>r row. rule_id r = rr_key row \<and> severity_value (severity r) = rr_severity row \<and> status_value (status r) = rr_status row
      \<and> version r = rr_version row \<and> rule_type r = rr_type row
      \<and> (\<exists>exs. as_schema_exceptions y e (list_exceptions t (rr_id row) db) = Inr exs \<and> suffix exs (exceptions r))) rs ?rows"
    by blast
  have a: "list_all2 (\<lambda>r row. rule_id r = rr_key row \<and> severity_value (severity r) = rr_severity row
      \<and> status_value (status r) = rr_status row \<and> version r = rr_version row \<and> rule_type r = rr_type row) rs ?rows"
    by (rule list_all2_mono [OF l2]) simp
  have "map (\<lambda>r. (rule_id r, severity_value (severity r), status_value (status r), version r, rule_type r)) rs
      = map (\<lambda>r. (rr_key r, rr_severity r, rr_status r, rr_version r, rr_type r)) ?rows"
    by (rule list_all2_map_eq [OF list_all2_mono [OF a]]) simp
  thus ?thesis using l by (auto simp: load_active_rules_def)
qed

text \<open>A rule's history is complete. In every reachable state the versions of a rule are consecutive numbers
  that end with its current version, each stored once, and no later operation removes or rewrites a stored
  version.\<close>

theorem rule_history_complete:
  assumes "(rule_step y)\<^sup>*\<^sup>* db0 db" and "no_rules db0" and "faithful_yaml y" and "r \<in> set (detection_rules db)" and "rule_step y db db'"
  shows "\<exists>v0 \<le> rr_version r. map rv_version (filter (\<lambda>v. rv_rule v = rr_id r) (rule_versions db)) = [v0..rr_version r]
    \<and> prefix (rule_versions db) (rule_versions db')"
  using rules_wf_reachable [OF assms(1-3)] assms(4) history_grows [OF assms(5)]
  by (auto simp: rules_wf_def row_wf_def versions_of_def list_all_iff)

text \<open>An exception the query compiler cannot express stops the whole rule.\<close>

lemma map_res_err: "x \<in> set xs \<Longrightarrow> f x = Inl err \<Longrightarrow> \<exists>err'. map_res f xs = Inl err'"
  by (induction xs) (auto simp: bind_res_def split: sum.splits)

lemma exception_clauses_err:
  assumes "ex \<in> set (exceptions r)" "expires_at ex = None" "node_valid ok (exc_conditions ex)" "unsupported_operators (exc_conditions ex) \<noteq> []"
  shows "\<exists>err. exception_clauses e r now = Inl err"
proof -
  obtain err where "compile_conditions (exc_conditions ex) = Inl err"
    using compile_conditions_ex [OF assms(3)] assms(4) by (cases "compile_conditions (exc_conditions ex)") auto
  moreover have "ex \<in> set (filter (\<lambda>x. exception_is_active e x now) (exceptions r))"
    using assms(1,2) by (simp add: exception_is_active_def)
  ultimately show ?thesis unfolding exception_clauses_def by (rule map_res_err [rotated])
qed

lemma run_exception_err:
  assumes "exception_clauses e r now = Inl err" "status r \<noteq> DISABLED"
  shows "\<exists>err'. run e ev r t now st = (Inl err', st)"
  using assms by (auto simp: run_def bind_res_def Let_def split: sum.splits option.splits)

text \<open>An exception can silence its rule. The API accepts for a windowed rule an exception with an
  operator the aggregation query cannot express, which the loader would refuse in the rule's own text.
  From then on the rule, loaded as enabled, fails every scheduled run: it reports nothing, excepted or not.\<close>

theorem exception_silences_windowed_rule:
  assumes "(rule_step y)\<^sup>*\<^sup>* db0 db" and "no_rules db0" and "faithful_yaml y"
    and "add_exception y e t key why c None actor ip db = Inr (x, db')"
    and "unsupported_operators c \<noteq> []"
    and "load_active_rules y e' t db' = Inr rs" and "r \<in> set rs" and "rule_id r = key"
  shows "\<exists>err. run env ev r t now st = (Inl err, st)"
proof -
  have wf: "rules_wf y db'" by (rule rules_wf_exception [OF assms(4) rules_wf_reachable [OF assms(1-3)]])
  from loaded_rule_row [OF wf assms(6,7)] obtain row exs where
    row: "row \<in> set (detection_rules db')" "rr_tenant row = t" "rr_status row \<noteq> ''disabled''" "rule_id r = rr_key row" "status_value (status r) = rr_status row"
    and exs: "as_schema_exceptions y e' (list_exceptions t (rr_id row) db') = Inr exs" "suffix exs (exceptions r)" by metis
  obtain row' where g: "get_rule t key db = Inr row'" "xr_rule x = rr_id row'" "detection_rules db' = detection_rules db"
    "xr_tenant x = t" "xr_criteria x = c" "xr_expires x = None" "x \<in> set (rule_exceptions db')" "node_valid (re_compiles y) c"
    using add_exception_Inr [OF assms(4)] by auto
  have "row' = row"
    using get_rule_Inr [OF g(1)] row assms(8) wf g(3) by (auto simp: rules_wf_def distinct_map inj_on_def)
  hence "x \<in> set (list_exceptions t (rr_id row) db')" using g by (simp add: list_exceptions_def)
  hence "\<lparr>reason = xr_reason x, exc_conditions = c, expires_at = None\<rparr> \<in> set (exceptions r)"
    using as_schema_exceptions_mem [OF exs(1) _ g(6)] g(5) exs(2) by (auto simp: suffix_def)
  from exception_clauses_err [OF this, of "re_compiles y" env now] obtain err where "exception_clauses env r now = Inl err"
    using g(8) assms(5) by auto
  moreover have "status r \<noteq> DISABLED" using row by auto
  ultimately show ?thesis by (rule run_exception_err)
qed

section \<open>A concrete rule\<close>

definition written_rule :: "detection_rule \<Rightarrow> rule_status \<Rightarrow> authored_rule" where
  "written_rule r st = \<lparr>au_rule = r\<lparr>status := st\<rparr>, au_description = ''many logons'', au_author = ''soc'', au_notes = ''n'',
     au_steps = ''s'', au_references = []\<rparr>"

definition yaml_of :: "detection_rule \<Rightarrow> yaml_lib" where
  "yaml_of r = \<lparr>yaml_load = (\<lambda>t. if t = ''enabled'' then Rule_document (written_rule r ENABLED)
       else if t = ''disabled'' then Rule_document (written_rule r DISABLED)
       else if t = ''testing'' then Rule_document (written_rule r TESTING) else No_mapping),
     yaml_dump = (\<lambda>a. status_value (status (au_rule a))), re_compiles = (\<lambda>p. True)\<rparr>"

lemma yaml_of_faithful: "faithful_yaml (yaml_of r)"
  unfolding faithful_yaml_def
proof (intro allI impI)
  fix t a st
  assume "yaml_load (yaml_of r) t = Rule_document a"
  hence "(au_rule a)\<lparr>status := st\<rparr> = r\<lparr>status := st\<rparr> \<and> a\<lparr>au_rule := r\<lparr>status := st\<rparr>\<rparr> = written_rule r st"
    by (auto simp: yaml_of_def written_rule_def split: if_splits)
  thus "let b = a\<lparr>au_rule := (au_rule a)\<lparr>status := st\<rparr>\<rparr> in yaml_load (yaml_of r) (yaml_dump (yaml_of r) b) = Rule_document b"
    by (cases st) (simp_all add: yaml_of_def written_rule_def)
qed

definition sample_yaml :: yaml_lib where
  "sample_yaml = yaml_of burst_rule"

lemma sample_yaml_faithful: "faithful_yaml sample_yaml"
  unfolding sample_yaml_def by (rule yaml_of_faithful)

definition sample_rules0 :: rule_db where
  "sample_rules0 = playbook_db.extend sample_playbooks \<lparr>detection_rules = [], rule_versions = [], rule_exceptions = []\<rparr>"

definition sample_rules1 :: rule_db where
  "sample_rules1 = (case create_rule sample_yaml (sample_dbenv 1) ''t1'' ''testing'' (Some ''u1'') None None sample_rules0 of
     Inr (_, db) \<Rightarrow> db | Inl _ \<Rightarrow> sample_rules0)"

definition sample_rules2 :: rule_db where
  "sample_rules2 = (case update_rule sample_yaml (sample_dbenv 2) ''t1'' ''AUTH-001'' ''enabled'' (Some ''u2'') None None sample_rules1 of
     Inr (_, db) \<Rightarrow> db | Inl _ \<Rightarrow> sample_rules1)"

lemma sample_rule_created: "create_rule sample_yaml (sample_dbenv 1) ''t1'' ''testing'' (Some ''u1'') None None sample_rules0
    = Inr (hd (detection_rules sample_rules1), sample_rules1)"
  by code_simp

lemma sample_rule_updated: "update_rule sample_yaml (sample_dbenv 2) ''t1'' ''AUTH-001'' ''enabled'' (Some ''u2'') None None sample_rules1
    = Inr (hd (detection_rules sample_rules2), sample_rules2)"
  by code_simp

lemma sample_rules_reached: "(rule_step sample_yaml)\<^sup>*\<^sup>* sample_rules0 sample_rules2" "no_rules sample_rules0"
proof -
  show "(rule_step sample_yaml)\<^sup>*\<^sup>* sample_rules0 sample_rules2"
    by (rule converse_rtranclp_into_rtranclp [OF rule_created [OF sample_rule_created] r_into_rtranclp [where r = "rule_step sample_yaml", OF rule_updated [OF sample_rule_updated]]])
qed code_simp

theorem loaded_rules_are_the_enabled_rows_witness:
  "\<exists>rs. load_active_rules sample_yaml (sample_dbenv 4) ''t1'' sample_rules2 = Inr rs
    \<and> map (\<lambda>r. (rule_id r, severity_value (severity r), status_value (status r), version r, rule_type r)) rs
      = [(''AUTH-001'', ''high'', ''enabled'', 2, ''windowed'')]"
proof -
  have "map (\<lambda>r. (rr_key r, rr_severity r, rr_status r, rr_version r, rr_type r))
      (filter (\<lambda>r. rr_tenant r = ''t1'' \<and> rr_status r \<noteq> ''disabled'') (detection_rules sample_rules2)) = [(''AUTH-001'', ''high'', ''enabled'', 2, ''windowed'')]"
    by code_simp
  thus ?thesis using loaded_rules_are_the_enabled_rows [OF sample_rules_reached sample_yaml_faithful, of "sample_dbenv 4" "''t1''"] by simp
qed

section \<open>Rule packs\<close>

definition pack_ok :: "yaml_lib \<Rightarrow> authored_rule list \<Rightarrow> bool" where
  "pack_ok y pack \<longleftrightarrow> distinct (map (\<lambda>a. rule_id (au_rule a)) pack) \<and> (\<forall>a \<in> set pack. rule_valid y a \<and> shape_ok (au_rule a))"

lemma pack_ok_Nil [simp]: "pack_ok y []"
  by (simp add: pack_ok_def)

lemma ld_error_rules [simp]: "ld_rules (ld_error m r) = ld_rules r"
  by (simp add: ld_error_def)

lemma pack_ok_snoc:
  "pack_ok y pack \<Longrightarrow> (\<forall>b \<in> set pack. dict_get seen (rule_id (au_rule b)) \<noteq> None) \<Longrightarrow> dict_get seen (rule_id (au_rule a)) = None \<Longrightarrow>
   rule_valid y a \<Longrightarrow> shape_ok (au_rule a) \<Longrightarrow> pack_ok y (pack @ [a])"
  by (auto simp: pack_ok_def)

lemma load_rule_files_ok:
  "pack_ok y (ld_rules r) \<Longrightarrow> (\<forall>b \<in> set (ld_rules r). dict_get seen (rule_id (au_rule b)) \<noteq> None) \<Longrightarrow>
   pack_ok y (ld_rules (load_rule_files y fs seen r))"
proof (induction y fs seen r rule: load_rule_files.induct)
  case (2 y origin f fs seen r)
  show ?case
  proof (cases f)
    case (Unreadable m)
    thus ?thesis using 2(1) [OF Unreadable] 2(5,6) by simp
  next
    case (File_text t)
    show ?thesis
    proof (cases "parse_rule y t origin")
      case (Inl err)
      thus ?thesis using 2(2) [OF File_text Inl] 2(5,6) File_text by simp
    next
      case (Inr a)
      show ?thesis
      proof (cases "dict_get seen (rule_id (au_rule a))")
        case None
        have "pack_ok y (ld_rules r @ [a])" using pack_ok_snoc [OF 2(5,6) None] Inr by (simp add: parse_rule_Inr)
        moreover have "\<forall>b \<in> set (ld_rules r @ [a]). dict_get (dict_set (rule_id (au_rule a)) origin seen) (rule_id (au_rule b)) \<noteq> None"
          using 2(6) by (auto simp: dict_get_set)
        ultimately show ?thesis using 2(3) [OF File_text Inr refl None] None File_text Inr by (simp add: Let_def)
      next
        case (Some other)
        thus ?thesis using 2(4) [OF File_text Inr refl Some] 2(5,6) File_text Inr by (simp add: Let_def)
      qed
    qed
  qed
qed simp

text \<open>C26: what loads can run. A directory that loads without an error gives rules with pairwise different
  identifiers, each valid; and the conditions and exceptions of its windowed rules all compile
  to query clauses.\<close>

theorem loaded_pack_compiles:
  assumes "load_rules_or_raise y directory files = Inr pack"
  shows "distinct (map (\<lambda>a. rule_id (au_rule a)) pack)
    \<and> (\<forall>a \<in> set pack. rule_valid y a \<and> (rule_type (au_rule a) = ''windowed'' \<longrightarrow>
        (\<exists>q. compile_conditions (conditions (au_rule a)) = Inr q)
        \<and> (\<forall>ex \<in> set (exceptions (au_rule a)). \<exists>q. compile_conditions (exc_conditions ex) = Inr q)))"
proof -
  have p: "pack = ld_rules (load_rules y directory files)" using assms by (auto simp: load_rules_or_raise_def Let_def split: if_splits)
  have "pack_ok y pack" unfolding p load_rules_def by (cases files) (simp_all add: load_rule_files_ok)
  hence ok: "distinct (map (\<lambda>a. rule_id (au_rule a)) pack) \<and> (\<forall>a \<in> set pack. rule_valid y a \<and> shape_ok (au_rule a))"
    by (simp add: pack_ok_def)
  have "(\<exists>q. compile_conditions (conditions (au_rule a)) = Inr q) \<and> (\<forall>ex \<in> set (exceptions (au_rule a)). \<exists>q. compile_conditions (exc_conditions ex) = Inr q)"
    if "a \<in> set pack" "rule_type (au_rule a) = ''windowed''" for a
  proof -
    have "rule_valid y a" "shape_ok (au_rule a)" "window (au_rule a) \<noteq> None" using ok that by (auto simp: rule_type_def split: if_splits)
    thus ?thesis using compile_conditions_ex [of "re_compiles y"]
      by (auto simp: rule_valid_def shape_ok_def exception_valid_def list_all_iff Let_def)
  qed
  thus ?thesis using ok by blast
qed

theorem loaded_pack_compiles_witness:
  "\<exists>pack. load_rules_or_raise sample_yaml ''rules'' (Some [([''auth.YML''], File_text ''enabled'')]) = Inr pack
    \<and> map (\<lambda>a. rule_type (au_rule a)) pack = [''windowed''] \<and> (\<exists>q. compile_conditions (conditions (au_rule (hd pack))) = Inr q)"
proof -
  let ?files = "Some [([''auth.YML''], File_text ''enabled'')]"
  have l: "load_rules_or_raise sample_yaml ''rules'' ?files = Inr [written_rule burst_rule ENABLED]"
  proof -
    have "str_lower (file_suffix ''auth.YML'') = ''.yml''" by code_simp
    hence "iter_rule_files [CORRELATION_DIRNAME] [([''auth.YML''], File_text ''enabled'')] = [(''auth.YML'', File_text ''enabled'')]"
      by (simp add: iter_rule_files_def RULE_SUFFIXES_def)
    moreover have "parse_rule sample_yaml ''enabled'' ''auth.YML'' = Inr (written_rule burst_rule ENABLED)" by code_simp
    ultimately show ?thesis by (simp add: load_rules_or_raise_def load_rules_def Let_def)
  qed
  moreover have "rule_type (au_rule (written_rule burst_rule ENABLED)) = ''windowed''" by code_simp
  ultimately show ?thesis using loaded_pack_compiles [OF l] by simp
qed

end
