(* ===== verification/Eventbus.thy ===== *)
theory Eventbus
  imports Database
begin

text \<open>
  The event bus (\<open>core/eventbus.py\<close>): the message, the topics, and the in-memory
  implementation of the interface every worker is written against. A payload is given by what
  \<open>json.loads\<close> makes of it: \<open>Inl\<close> the text of the decoding error, \<open>Inr\<close> the
  decoded value. Acknowledgements, which the in-memory bus ignores, are kept as a list of what the
  broker is told, so that the workers' promises about them can be stated. Trace headers are left
  out.
\<close>

definition TOPIC_EVENTS_RAW :: string where "TOPIC_EVENTS_RAW = ''events.raw''"
definition TOPIC_EVENTS_NORMALIZED :: string where "TOPIC_EVENTS_NORMALIZED = ''events.normalized''"
definition TOPIC_DETECTIONS_CREATED :: string where "TOPIC_DETECTIONS_CREATED = ''detections.created''"
definition TOPIC_CORRELATIONS_CREATED :: string where "TOPIC_CORRELATIONS_CREATED = ''correlations.created''"
definition TOPIC_ALERTS_CREATED :: string where "TOPIC_ALERTS_CREATED = ''alerts.created''"

record bus_message =
  bm_tenant :: string
  bm_key :: string
  bm_payload :: "string + json"
  bm_headers :: "string dict"
  bm_id :: "string option"

record bus =
  topics :: "(string \<times> bus_message) list dict"
  next_id :: nat
  acked :: "(string \<times> string \<times> string) list"

definition new_bus :: bus where
  "new_bus = \<lparr>topics = [], next_id = 0, acked = []\<rparr>"

definition stream :: "bus \<Rightarrow> string \<Rightarrow> (string \<times> bus_message) list" where
  "stream b t = (case dict_get (topics b) t of None \<Rightarrow> [] | Some ms \<Rightarrow> ms)"

definition publish :: "string \<Rightarrow> bus_message \<Rightarrow> bus \<Rightarrow> string \<times> bus" where
  "publish t m b = (let n = Suc (next_id b); i = show_nat n @ ''-0''
     in (i, b\<lparr>next_id := n, topics := dict_set t (stream b t @ [(i, m)]) (topics b)\<rparr>))"

definition ack :: "string \<Rightarrow> string \<Rightarrow> string \<Rightarrow> bus \<Rightarrow> bus" where
  "ack t g i b = b\<lparr>acked := acked b @ [(t, g, i)]\<rparr>"

definition dead_letter :: "string \<Rightarrow> bus_message \<Rightarrow> string \<Rightarrow> bus \<Rightarrow> bus" where
  "dead_letter t m why b = snd (publish (t @ ''.deadletter'')
     \<lparr>bm_tenant = bm_tenant m, bm_key = bm_key m, bm_payload = bm_payload m,
      bm_headers = dict_merge (bm_headers m) [(''dead_letter_reason'', why), (''original_topic'', t)], bm_id = None\<rparr> b)"

definition subscribe :: "bus \<Rightarrow> string \<Rightarrow> bus_message list" where
  "subscribe b t = map (\<lambda>(i, m). m\<lparr>bm_id := Some i\<rparr>) (stream b t)"

definition peek :: "bus \<Rightarrow> string \<Rightarrow> nat \<Rightarrow> bus_message list" where
  "peek b t n = map snd (take n (stream b t))"

text \<open>What the workers do after a message, on every path: acknowledge it if it came off the bus.\<close>

definition ack_message :: "string \<Rightarrow> string \<Rightarrow> bus_message \<Rightarrow> bus \<Rightarrow> bus" where
  "ack_message t g m b = (case bm_id m of None \<Rightarrow> b | Some i \<Rightarrow> ack t g i b)"

definition reject_message :: "string \<Rightarrow> string \<Rightarrow> bus_message \<Rightarrow> string \<Rightarrow> bus \<Rightarrow> bus" where
  "reject_message t g m why b = ack_message t g m (dead_letter t m why b)"

text \<open>The contract of a bus: a published message is appended to its topic, under an identifier the
  topic does not have yet, and nothing else moves; an acknowledgement moves no message.\<close>

definition bus_wf :: "bus \<Rightarrow> bool" where
  "bus_wf b \<longleftrightarrow> (\<forall>t. \<forall>(i, m) \<in> set (stream b t). \<exists>k. 0 < k \<and> k \<le> next_id b \<and> i = show_nat k @ ''-0'')"

locale event_bus =
  fixes wf :: "'b \<Rightarrow> bool" and read :: "'b \<Rightarrow> string \<Rightarrow> (string \<times> bus_message) list"
    and pub :: "string \<Rightarrow> bus_message \<Rightarrow> 'b \<Rightarrow> string \<times> 'b" and acknowledge :: "string \<Rightarrow> string \<Rightarrow> string \<Rightarrow> 'b \<Rightarrow> 'b"
  assumes pub_read: "read (snd (pub t m b)) t' = (if t' = t then read b t @ [(fst (pub t m b), m)] else read b t')"
    and pub_fresh: "wf b \<Longrightarrow> fst (pub t m b) \<notin> fst ` set (read b t')"
    and pub_wf: "wf b \<Longrightarrow> wf (snd (pub t m b))"
    and ack_read: "read (acknowledge t g i b) t' = read b t'"
    and ack_wf: "wf b \<Longrightarrow> wf (acknowledge t g i b)"
begin

lemma pub_keeps: "x \<in> set (read b t') \<Longrightarrow> x \<in> set (read (snd (pub t m b)) t')"
  by (auto simp: pub_read)

lemma pub_distinct:
  "wf b \<Longrightarrow> distinct (map fst (read b t')) \<Longrightarrow> distinct (map fst (read (snd (pub t m b)) t'))"
  using pub_fresh [of b t m t'] by (auto simp: pub_read)

text \<open>Messages published one after the other arrive in that order.\<close>

primrec publish_all :: "string \<Rightarrow> bus_message list \<Rightarrow> 'b \<Rightarrow> 'b" where
  "publish_all t [] b = b"
| "publish_all t (m # ms) b = publish_all t ms (snd (pub t m b))"

lemma publish_all_order: "map snd (read (publish_all t ms b) t) = map snd (read b t) @ ms"
  by (induction ms arbitrary: b) (auto simp: pub_read)

end

lemma stream_publish:
  "stream (snd (publish t m b)) t' = (if t' = t then stream b t @ [(fst (publish t m b), m)] else stream b t')"
  by (simp add: publish_def Let_def stream_def update_conv')

lemma publish_next [simp]: "next_id (snd (publish t m b)) = Suc (next_id b)"
  by (simp add: publish_def Let_def)

lemma publish_acked [simp]: "acked (snd (publish t m b)) = acked b"
  by (simp add: publish_def Let_def)

lemma stream_ack [simp]: "stream (ack t g i b) t' = stream b t'"
  by (simp add: ack_def stream_def)

lemma next_ack [simp]: "next_id (ack t g i b) = next_id b"
  by (simp add: ack_def)

lemma publish_id_fresh: "bus_wf b \<Longrightarrow> fst (publish t m b) \<notin> fst ` set (stream b t')"
  unfolding bus_wf_def by (fastforce simp: publish_def Let_def dest: show_nat_inj)

lemma publish_id: "fst (publish t m b) = show_nat (Suc (next_id b)) @ ''-0''"
  by (simp add: publish_def Let_def)

lemma publish_wf:
  assumes "bus_wf b"
  shows "bus_wf (snd (publish t m b))"
proof -
  have old: "\<exists>k. 0 < k \<and> k \<le> Suc (next_id b) \<and> i = show_nat k @ ''-0''" if "(i, x) \<in> set (stream b u)" for i x u
    using assms that unfolding bus_wf_def by (blast intro: le_SucI)
  have new: "\<exists>k. 0 < k \<and> k \<le> Suc (next_id b) \<and> fst (publish t m b) = show_nat k @ ''-0''"
    unfolding publish_id by blast
  show ?thesis unfolding bus_wf_def using old new by (auto simp: stream_publish)
qed

lemma ack_wf: "bus_wf b \<Longrightarrow> bus_wf (ack t g i b)"
  by (simp add: bus_wf_def)

interpretation membus: event_bus bus_wf stream publish ack
  by unfold_locales (simp_all add: stream_publish publish_id_fresh publish_wf ack_wf)

lemma stream_dead_letter:
  "t' \<noteq> t @ ''.deadletter'' \<Longrightarrow> stream (dead_letter t m why b) t' = stream b t'"
  by (simp add: dead_letter_def stream_publish)

lemma dead_letter_acked [simp]: "acked (dead_letter t m why b) = acked b"
  by (simp add: dead_letter_def)

lemma stream_ack_message [simp]: "stream (ack_message t g m b) t' = stream b t'"
  by (simp add: ack_message_def split: option.splits)

lemma acked_ack_message: "bm_id m = Some i \<Longrightarrow> (t, g, i) \<in> set (acked (ack_message t g m b))"
  by (simp add: ack_message_def ack_def)

lemma stream_reject_message: "t' \<noteq> t @ ''.deadletter'' \<Longrightarrow> stream (reject_message t g m why b) t' = stream b t'"
  by (simp add: reject_message_def stream_dead_letter)

lemma acked_reject_message: "bm_id m = Some i \<Longrightarrow> (t, g, i) \<in> set (acked (reject_message t g m why b))"
  by (simp add: reject_message_def acked_ack_message)

text \<open>A rejected message is kept, with its payload and the reason, on the dead-letter topic, and it
  is acknowledged.\<close>

lemma reject_message_kept:
  assumes "bm_id m = Some i"
  shows "\<exists>n. peek (reject_message t g m why b) (t @ ''.deadletter'') n =
     map snd (stream b (t @ ''.deadletter'')) @ [\<lparr>bm_tenant = bm_tenant m, bm_key = bm_key m, bm_payload = bm_payload m,
      bm_headers = dict_merge (bm_headers m) [(''dead_letter_reason'', why), (''original_topic'', t)], bm_id = None\<rparr>]
     \<and> (t, g, i) \<in> set (acked (reject_message t g m why b))"
proof -
  have "map snd (stream (reject_message t g m why b) (t @ ''.deadletter'')) =
     map snd (stream b (t @ ''.deadletter'')) @ [\<lparr>bm_tenant = bm_tenant m, bm_key = bm_key m, bm_payload = bm_payload m,
      bm_headers = dict_merge (bm_headers m) [(''dead_letter_reason'', why), (''original_topic'', t)], bm_id = None\<rparr>]"
    by (simp add: reject_message_def dead_letter_def stream_publish)
  moreover have "(t, g, i) \<in> set (acked (reject_message t g m why b))"
    using assms by (simp add: reject_message_def ack_message_def ack_def)
  ultimately show ?thesis
    unfolding peek_def by (intro exI [of _ "length (stream (reject_message t g m why b) (t @ ''.deadletter''))"]) simp
qed

end
