(* ===== verification/Py_Uuid.thy ===== *)
theory Py_Uuid
  imports Py_Value
begin

text \<open>
  \<open>uuid.UUID(text)\<close> and the text of the result: which spellings of an identifier the standard
  library reads, and the canonical one it prints. Tenant identifiers of documents and credentials
  pass through it.
\<close>

function remove_all :: "string \<Rightarrow> string \<Rightarrow> string" where
  "remove_all sub s = (if sub = [] \<or> s = [] then s
     else if prefix sub s then remove_all sub (drop (length sub) s) else hd s # remove_all sub (tl s))"
  by pat_completeness auto
termination by (relation "measure (\<lambda>(sub, s). length s)") (auto simp: neq_Nil_conv)

declare remove_all.simps [simp del]

definition strip_chars :: "string \<Rightarrow> string \<Rightarrow> string" where
  "strip_chars cs s = rev (dropWhile (\<lambda>c. c \<in> set cs) (rev (dropWhile (\<lambda>c. c \<in> set cs) s)))"

definition hex_val :: "char \<Rightarrow> nat option" where
  "hex_val c = (if is_digit c then Some (digit_val c)
     else if of_char c \<ge> (97::nat) \<and> of_char c \<le> (102::nat) then Some (of_char c - 87)
     else if of_char c \<ge> (65::nat) \<and> of_char c \<le> (70::nat) then Some (of_char c - 55) else None)"

text \<open>\<open>int(text, 16)\<close>: blanks around, a sign, an optional \<open>0x\<close>, digits with single
  underscores between them.\<close>

definition read_hex :: "string \<Rightarrow> int option" where
  "read_hex t = (let s = str_strip t;
      (neg, r) = (case s of c # cs \<Rightarrow> if c = CHR ''-'' then (True, cs) else if c = CHR ''+'' then (False, cs)
        else (False, s) | [] \<Rightarrow> (False, []));
      r' = (if prefix ''0x'' r \<or> prefix ''0X'' r then (case drop 2 r of c # cs \<Rightarrow> if c = CHR ''_'' then cs else c # cs | [] \<Rightarrow> [])
            else r);
      ps = split_on (CHR ''_'') r'
    in if list_all (\<lambda>p. p \<noteq> [] \<and> list_all (\<lambda>c. hex_val c \<noteq> None) p) ps
       then Some ((if neg then -1 else 1) * int (foldl (\<lambda>n c. 16 * n + the (hex_val c)) 0 (List.concat ps))) else None)"

fun show_hex :: "nat \<Rightarrow> nat \<Rightarrow> string" where
  "show_hex 0 n = []"
| "show_hex (Suc w) n = show_hex w (n div 16) @ [hex_digit (n mod 16)]"

definition uuid_text :: "nat \<Rightarrow> string" where
  "uuid_text n = (let h = show_hex 32 n in
     take 8 h @ ''-'' @ take 4 (drop 8 h) @ ''-'' @ take 4 (drop 12 h) @ ''-'' @ take 4 (drop 16 h) @ ''-'' @ drop 20 h)"

definition parse_uuid :: "string \<Rightarrow> string option" where
  "parse_uuid s = (let h = remove_all ''-'' (strip_chars ''{}'' (remove_all ''uuid:'' (remove_all ''urn:'' s)))
     in if length h \<noteq> 32 then None
        else case read_hex h of None \<Rightarrow> None | Some i \<Rightarrow> if 0 \<le> i then Some (uuid_text (nat i)) else None)"

lemma length_show_hex [simp]: "length (show_hex w n) = w"
  by (induction w n rule: show_hex.induct) auto

lemma hex_val_digit [simp]: "d < 16 \<Longrightarrow> hex_val (hex_digit d) = Some d"
  by (auto simp: hex_val_def hex_digit_def is_digit_def digit_val_def)

text \<open>The canonical text has 36 characters, and different numbers have different texts.\<close>

lemma length_uuid_text: "length (uuid_text n) = 36"
  by (simp add: uuid_text_def Let_def)

lemma show_hex_inj: "m < 16 ^ w \<Longrightarrow> n < 16 ^ w \<Longrightarrow> show_hex w m = show_hex w n \<Longrightarrow> m = n"
proof (induction w arbitrary: m n)
  case (Suc w)
  have "m div 16 < 16 ^ w" "n div 16 < 16 ^ w" using Suc.prems by (simp_all add: less_mult_imp_div_less mult.commute)
  hence "m div 16 = n div 16" using Suc by simp
  moreover have "m mod 16 = n mod 16" using Suc.prems(3) hex_digit_inj [of "m mod 16" "n mod 16"] by simp
  ultimately show ?case by (metis div_mult_mod_eq)
qed simp

lemma uuid_text_inj:
  assumes "m < 2 ^ 128" "n < 2 ^ 128" "uuid_text m = uuid_text n"
  shows "m = n"
proof -
  have glue: "drop b x = drop b y" if "take a (drop b x) = take a (drop b y)" "drop (a + b) x = drop (a + b) y"
    for a b and x y :: string
    using that by (metis append_take_drop_id drop_drop)
  let ?x = "show_hex 32 m" and ?y = "show_hex 32 n"
  have t: "take 8 ?x = take 8 ?y" "take 4 (drop 8 ?x) = take 4 (drop 8 ?y)" "take 4 (drop 12 ?x) = take 4 (drop 12 ?y)"
    "take 4 (drop 16 ?x) = take 4 (drop 16 ?y)" "drop 20 ?x = drop 20 ?y"
    using assms(3) by (auto simp: uuid_text_def Let_def)
  have "drop 16 ?x = drop 16 ?y" using glue [of 4 16 ?x ?y] t by simp
  hence "drop 12 ?x = drop 12 ?y" using glue [of 4 12 ?x ?y] t by simp
  hence "drop 8 ?x = drop 8 ?y" using glue [of 4 8 ?x ?y] t by simp
  hence "drop 0 ?x = drop 0 ?y" using glue [of 8 0 ?x ?y] t by simp
  hence "show_hex 32 m = show_hex 32 n" by simp
  thus ?thesis using assms(1,2) show_hex_inj [of m 32 n] by simp
qed

end
