(* ===== verification/Correlation.thy ===== *)
theory Correlation
  imports Detection "HOL-Library.Multiset"
begin

text \<open>
  The correlation engine (\<open>correlation/schema.py\<close>, \<open>correlation/state.py\<close>,
  \<open>correlation/engine.py\<close>): inputs and the time they are judged on, the entity they belong
  to, the bounded state kept per rule and entity, completion of ordered and unordered chains, and
  the engine's loop. The contract of a state store is the locale \<open>state_store\<close>,
  interpreted on the in-memory store; the Redis script meets it too. Times are integers in
  milliseconds; \<open>datetime\<close> arithmetic goes through doubles exactly where the code's does.
  An operation that may raise after it changed state returns the state with the exception.
\<close>

section \<open>Rules\<close>

datatype input_kind = EVENT_KIND | DETECTION_KIND | ANY_KIND

record correlation_stage =
  st_name :: string
  matches :: input_kind
  st_conditions :: condition_node
  min_count :: nat
  required :: bool

record correlation_rule =
  correlation_id :: string
  cr_name :: string
  cr_severity :: severity
  cr_confidence :: int
  cr_risk_score :: int
  cr_status :: rule_status
  cr_version :: int
  cr_window :: string
  correlate_by :: "string list"
  ordered :: bool
  stages :: "correlation_stage list"
  cr_suppression :: "string option"
  cr_mitre :: "string list"

definition MAX_WINDOW_SECONDS :: nat where "MAX_WINDOW_SECONDS = 86400"

definition required_stages :: "correlation_rule \<Rightarrow> correlation_stage list" where
  "required_stages r = filter required (stages r)"

text \<open>\<open>window_seconds\<close> and \<open>suppression_seconds\<close>; \<open>None\<close> is the
  \<open>ValueError\<close> on a duration the pattern does not match.\<close>

definition window_seconds :: "correlation_rule \<Rightarrow> nat option" where
  "window_seconds r = duration_seconds (cr_window r)"

definition cr_suppression_seconds :: "correlation_rule \<Rightarrow> nat option" where
  "cr_suppression_seconds r = (case cr_suppression r of None \<Rightarrow> Some 0
     | Some s \<Rightarrow> if s = [] then Some 0 else duration_seconds s)"

text \<open>\<open>_validate_techniques\<close> and \<open>_check_shape\<close>, with the field bounds of the schema.\<close>

definition check_shape :: "correlation_rule \<Rightarrow> bool" where
  "check_shape r \<longleftrightarrow>
     list_all technique_ok (cr_mitre r) \<and>
     distinct (map st_name (stages r)) \<and>
     list_ex required (stages r) \<and>
     2 \<le> length (required_stages r) \<and>
     (case window_seconds r of None \<Rightarrow> False | Some s \<Rightarrow> s \<le> MAX_WINDOW_SECONDS)"

definition stage_bounds :: "correlation_stage \<Rightarrow> bool" where
  "stage_bounds s \<longleftrightarrow> 1 \<le> min_count s \<and> min_count s \<le> 1000"

definition correlation_rule_valid :: "correlation_rule \<Rightarrow> bool" where
  "correlation_rule_valid r \<longleftrightarrow> list_all stage_bounds (stages r) \<and>
     2 \<le> length (stages r) \<and> length (stages r) \<le> 10 \<and>
     1 \<le> length (correlate_by r) \<and> length (correlate_by r) \<le> 3 \<and> check_shape r"

section \<open>State\<close>

definition DEFAULT_MAX_HITS :: nat where "DEFAULT_MAX_HITS = 500"

record stage_hit =
  stage :: string
  occurred_at_ms :: int
  claimed_at_ms :: int
  ingested_at_ms :: int
  time_source :: string
  kind :: string
  event_id :: string
  summary :: document

type_synonym hit_store = "stage_hit list dict"

text \<open>\<open>InMemoryCorrelationStateStore\<close>.\<close>

definition read_hits :: "hit_store \<Rightarrow> string \<Rightarrow> stage_hit list" where
  "read_hits s key = (case dict_get s key of Some hs \<Rightarrow> hs | None \<Rightarrow> [])"

definition append_hit :: "hit_store \<Rightarrow> string \<Rightarrow> stage_hit \<Rightarrow> nat \<Rightarrow> stage_hit list \<times> hit_store" where
  "append_hit s key hit max_hits =
     (let held = read_hits s key @ [hit];
          held' = (if length held > max_hits then drop (length held - max_hits) held else held)
      in (held', dict_set key held' s))"

definition clear_hits :: "hit_store \<Rightarrow> string \<Rightarrow> hit_store" where
  "clear_hits s key = filter (\<lambda>(k, v). k \<noteq> key) s"

text \<open>\<open>RedisCorrelationStateStore\<close>: the script pushes the encoded hit, trims the list from
  the left and returns it with the number of trimmed elements; \<open>enc\<close> and \<open>dec\<close> are
  \<open>to_json\<close> and \<open>from_json\<close>.\<close>

definition append_script :: "string list dict \<Rightarrow> string \<Rightarrow> string \<Rightarrow> nat \<Rightarrow> (nat \<times> string list) \<times> string list dict" where
  "append_script s key raw max_hits =
     (let pushed = (case dict_get s key of Some l \<Rightarrow> l | None \<Rightarrow> []) @ [raw]; n = length pushed;
          trimmed = (if n > max_hits then n - max_hits else 0);
          kept = (if n > max_hits then drop (n - max_hits) pushed else pushed)
      in ((trimmed, kept), dict_set key kept s))"

definition redis_key :: "string \<Rightarrow> string \<Rightarrow> string" where
  "redis_key pre key = pre @ key"

definition redis_append ::
  "(stage_hit \<Rightarrow> string) \<Rightarrow> (string \<Rightarrow> stage_hit) \<Rightarrow> string \<Rightarrow> string list dict \<Rightarrow> string \<Rightarrow> stage_hit \<Rightarrow> nat
    \<Rightarrow> stage_hit list \<times> string list dict" where
  "redis_append enc dec pre s key hit max_hits =
     (case append_script s (redis_key pre key) (enc hit) max_hits of ((trimmed, raws), s') \<Rightarrow> (map dec raws, s'))"

definition redis_read :: "(string \<Rightarrow> stage_hit) \<Rightarrow> string \<Rightarrow> string list dict \<Rightarrow> string \<Rightarrow> stage_hit list" where
  "redis_read dec pre s key = map dec (case dict_get s (redis_key pre key) of Some l \<Rightarrow> l | None \<Rightarrow> [])"

definition redis_clear :: "string \<Rightarrow> string list dict \<Rightarrow> string \<Rightarrow> string list dict" where
  "redis_clear pre s key = filter (\<lambda>(k, v). k \<noteq> redis_key pre key) s"

section \<open>Inputs and their time\<close>

definition DEFAULT_MAX_CLOCK_SKEW_SECONDS :: int where "DEFAULT_MAX_CLOCK_SKEW_SECONDS = 900"

record correlation_input =
  ci_kind :: string
  ci_tenant :: string
  ci_event_id :: string
  ci_document :: document
  ci_claimed :: int
  ci_ingested :: int
  ci_occurred :: int
  ci_time_source :: string

definition replace_Z :: "string \<Rightarrow> string" where
  "replace_Z s = List.concat (map (\<lambda>c. if c = CHR ''Z'' then ''+00:00'' else [c]) s)"

text \<open>\<open>int(parsed.timestamp() * 1000)\<close>: seconds as a double, scaled as a double.\<close>

definition timestamp_ms :: "int \<Rightarrow> int" where
  "timestamp_ms us = trunc (fl (fl (of_int us / 1000000) * 1000))"

definition int_of_float :: "pyfloat \<Rightarrow> eval_error + int" where
  "int_of_float f = (case f of Fin x \<Rightarrow> Inr (trunc x)
     | NaN \<Rightarrow> Inl (ValueError ''cannot convert float NaN to integer'') | _ \<Rightarrow> Inl OverflowError)"

definition parse_number_time :: "json \<Rightarrow> eval_error + int" where
  "parse_number_time v = (case v of
     JInt i \<Rightarrow> Inr (if i > 100000000000 then i else i * 1000)
   | JBool b \<Rightarrow> Inr (bool_int b * 1000)
   | JFloat f \<Rightarrow> int_of_float (if f_lt (Fin 100000000000) f then f else f_mul f (Fin 1000))
   | _ \<Rightarrow> Inl TypeError)"

definition parse_time :: "env \<Rightarrow> json \<Rightarrow> eval_error + int option" where
  "parse_time e v = (case v of
     JInt _ \<Rightarrow> bind_res (parse_number_time v) (\<lambda>t. Inr (Some t))
   | JBool _ \<Rightarrow> bind_res (parse_number_time v) (\<lambda>t. Inr (Some t))
   | JFloat _ \<Rightarrow> bind_res (parse_number_time v) (\<lambda>t. Inr (Some t))
   | JStr s \<Rightarrow> if s = [] then Inr None
       else (case fromiso e (replace_Z s) of None \<Rightarrow> Inr None
         | Some (Naive us) \<Rightarrow> Inr (Some (timestamp_ms us)) | Some (Aware us) \<Rightarrow> Inr (Some (timestamp_ms us)))
   | _ \<Rightarrow> Inr None)"

text \<open>\<open>int(time.time() * 1000)\<close> and \<open>_iso\<close>; \<open>fromtimestamp\<close> rounds the fraction
  half to even and refuses years outside 1 to 9999.\<close>

definition now_ms :: "env \<Rightarrow> int" where
  "now_ms e = timestamp_ms (utcnow e)"

definition microseconds :: "rat \<Rightarrow> int" where
  "microseconds x = trunc x * 1000000 + round_half_even (fl ((x - of_int (trunc x)) * 1000000))"

definition iso :: "env \<Rightarrow> int \<Rightarrow> eval_error + string" where
  "iso e ms = (let us = microseconds (fl (of_int ms / 1000)) in
     if - 62135596800000000 \<le> us \<and> us < 253402300800000000 then Inr (isoformat e us)
     else Inl (ValueError ''year is out of range''))"

definition effective_time :: "int \<Rightarrow> int \<Rightarrow> int \<Rightarrow> int \<times> string" where
  "effective_time claimed ingested max_skew =
     (if \<bar>claimed - ingested\<bar> \<le> max_skew * 1000 then (claimed, ''event'') else (ingested, ''ingestion''))"

definition event_input :: "env \<Rightarrow> int \<Rightarrow> document \<Rightarrow> eval_error + correlation_input option" where
  "event_input e max_skew doc =
     (let tenant = str_or (get doc ''tenant_id'') []; event = str_or (get doc ''event_id'') [] in
      if tenant = [] \<or> event = [] then Inr None
      else bind_res (parse_time e (get doc ''ingestion_timestamp'')) (\<lambda>ing.
           bind_res (parse_time e (get doc ''timestamp'')) (\<lambda>cl.
           let ingested = (case ing of Some i \<Rightarrow> i | None \<Rightarrow> (case cl of Some c \<Rightarrow> c | None \<Rightarrow> now_ms e));
               claimed = (case cl of Some c \<Rightarrow> c | None \<Rightarrow> ingested);
               (occurred, source) = effective_time claimed ingested max_skew
           in Inr (Some \<lparr>ci_kind = ''event'', ci_tenant = tenant, ci_event_id = event, ci_document = doc,
                ci_claimed = claimed, ci_ingested = ingested, ci_occurred = occurred, ci_time_source = source\<rparr>))))"

definition blank :: "json \<Rightarrow> bool" where
  "blank v \<longleftrightarrow> v = JNull \<or> v = JStr []"

text \<open>Writing one dotted path: intermediate values that are not dictionaries are replaced, an
  existing leaf is kept.\<close>

fun graft_path :: "string list \<Rightarrow> json \<Rightarrow> document \<Rightarrow> document" where
  "graft_path [] v d = d"
| "graft_path [leaf] v d = (if dict_get d leaf \<noteq> None then d else dict_set leaf v d)"
| "graft_path (part # p # ps) v d = (let child = (case get d part of JObj c \<Rightarrow> c | _ \<Rightarrow> [])
     in dict_set part (JObj (graft_path (p # ps) v child)) d)"

definition graft_entity :: "document \<Rightarrow> document \<Rightarrow> document" where
  "graft_entity doc entity = fold (\<lambda>(path, v) d. if blank v then d else graft_path (split_on (CHR ''.'') path) v d) entity doc"

text \<open>\<open>d.get(k) or {}\<close> followed by \<open>.items()\<close>.\<close>

definition dict_or_empty :: "json \<Rightarrow> eval_error + document" where
  "dict_or_empty v = (if \<not> py_truthy v then Inr [] else case v of JObj d \<Rightarrow> Inr d | _ \<Rightarrow> Inl AttributeError)"

definition first_event_id :: "json \<Rightarrow> string \<Rightarrow> eval_error + string" where
  "first_event_id v dflt = (if \<not> py_truthy v then Inr dflt else case v of
     JList (x # _) \<Rightarrow> Inr (py_str x) | JStr (c # _) \<Rightarrow> Inr [c] | JObj _ \<Rightarrow> Inl (KeyError ''0'') | _ \<Rightarrow> Inl TypeError)"

definition or_time :: "int option \<Rightarrow> int \<Rightarrow> int" where
  "or_time t dflt = (case t of Some i \<Rightarrow> if i = 0 then dflt else i | None \<Rightarrow> dflt)"

definition detection_fields :: "document \<Rightarrow> json" where
  "detection_fields d = JObj [(''rule_id'', get d ''rule_id''), (''rule_name'', get d ''rule_name''),
     (''severity'', get d ''severity''), (''confidence'', get d ''confidence''), (''risk_score'', get d ''risk_score''),
     (''mitre_attack'', if py_truthy (get d ''mitre_attack'') then get d ''mitre_attack'' else JList [])]"

definition detection_input :: "env \<Rightarrow> int \<Rightarrow> document \<Rightarrow> eval_error + correlation_input option" where
  "detection_input e max_skew d =
     (let tenant = str_or (get d ''tenant_id'') []; detection = str_or (get d ''detection_id'') [] in
      if tenant = [] \<or> detection = [] \<or> py_truthy (get d ''dry_run'') then Inr None
      else
        let ev = (case get d ''evidence'' of JObj x \<Rightarrow> x | _ \<Rightarrow> []);
            doc0 = dict_set ''detection'' (detection_fields d) (dict_set ''tenant_id'' (JStr tenant) ev)
        in bind_res (dict_or_empty (get d ''entity'')) (\<lambda>entity.
           let doc = graft_entity doc0 entity in
           bind_res (parse_time e (get d ''matched_at'')) (\<lambda>mt.
           let matched = or_time mt (now_ms e) in
           bind_res (parse_time e (get doc ''timestamp'')) (\<lambda>cl.
           let claimed = or_time cl matched;
               (occurred, source) = effective_time claimed matched max_skew
           in bind_res (first_event_id (get d ''event_ids'') detection) (\<lambda>event.
              Inr (Some \<lparr>ci_kind = ''detection'', ci_tenant = tenant, ci_event_id = event, ci_document = doc,
                ci_claimed = claimed, ci_ingested = matched, ci_occurred = occurred, ci_time_source = source\<rparr>))))))"

section \<open>Entities and completion\<close>

fun entity_values :: "string list \<Rightarrow> document \<Rightarrow> document \<Rightarrow> document option" where
  "entity_values [] doc entity = Some entity"
| "entity_values (path # paths) doc entity =
     (case filter (\<lambda>v. \<not> blank v) (resolve_path (JObj doc) path) of
        [] \<Rightarrow> None | v # _ \<Rightarrow> entity_values paths doc (dict_set path v entity))"

definition entity_of :: "correlation_rule \<Rightarrow> document \<Rightarrow> document option" where
  "entity_of r doc = entity_values (correlate_by r) doc []"

fun kind_value :: "input_kind \<Rightarrow> string" where
  "kind_value EVENT_KIND = ''event''" | "kind_value DETECTION_KIND = ''detection''" | "kind_value ANY_KIND = ''any''"

definition stage_accepts :: "correlation_stage \<Rightarrow> string \<Rightarrow> bool" where
  "stage_accepts s k \<longleftrightarrow> matches s = ANY_KIND \<or> kind_value (matches s) = k"

definition state_key :: "correlation_rule \<Rightarrow> string \<Rightarrow> document \<Rightarrow> string" where
  "state_key r tenant entity =
     tenant @ '':'' @ correlation_id r @ '':v'' @ show_int (cr_version r) @ '':''
       @ str_join ''|'' (map (key_part entity) (sorted_keys entity))"

text \<open>The dictionary \<open>hits_by_stage\<close> built with \<open>setdefault(...).append\<close>.\<close>

definition group_hits :: "stage_hit list \<Rightarrow> stage_hit list dict" where
  "group_hits hits = fold (\<lambda>h d. dict_set (stage h) (read_hits d (stage h) @ [h]) d) hits []"

fun ordered_from :: "correlation_stage list \<Rightarrow> stage_hit list dict \<Rightarrow> int \<Rightarrow> stage_hit list option" where
  "ordered_from [] by_stage cursor = Some []"
| "ordered_from (s # ss) by_stage cursor =
     (let candidates = filter (\<lambda>h. occurred_at_ms h \<ge> cursor) (read_hits by_stage (st_name s)) in
      if length candidates < min_count s then None
      else let taken = take (min_count s) candidates in
        (case ordered_from ss by_stage (occurred_at_ms (last taken)) of
           None \<Rightarrow> None | Some rest \<Rightarrow> Some (taken @ rest)))"

definition ordered_completion :: "correlation_rule \<Rightarrow> stage_hit list dict \<Rightarrow> stage_hit list option" where
  "ordered_completion r by_stage = ordered_from (required_stages r) by_stage (-1)"

fun unordered_from :: "correlation_stage list \<Rightarrow> stage_hit list dict \<Rightarrow> stage_hit list option" where
  "unordered_from [] by_stage = Some []"
| "unordered_from (s # ss) by_stage =
     (let hits = read_hits by_stage (st_name s) in
      if length hits < min_count s then None
      else (case unordered_from ss by_stage of None \<Rightarrow> None | Some rest \<Rightarrow> Some (take (min_count s) hits @ rest)))"

definition unordered_completion :: "correlation_rule \<Rightarrow> stage_hit list dict \<Rightarrow> stage_hit list option" where
  "unordered_completion r by_stage = unordered_from (required_stages r) by_stage"

definition timeline_entry :: "env \<Rightarrow> stage_hit \<Rightarrow> eval_error + document" where
  "timeline_entry e h =
     bind_res (iso e (occurred_at_ms h)) (\<lambda>t. bind_res (iso e (claimed_at_ms h)) (\<lambda>c. Inr
       [(''time'', JStr t), (''stage'', JStr (stage h)), (''kind'', JStr (kind h)), (''event_id'', JStr (event_id h)),
        (''time_source'', JStr (time_source h)), (''claimed_time'', JStr c), (''summary'', JObj (summary h))]))"

definition build_timeline :: "env \<Rightarrow> stage_hit list \<Rightarrow> eval_error + document list" where
  "build_timeline e hits = map_res (timeline_entry e) (sort_key occurred_at_ms hits)"

section \<open>The engine\<close>

record correlation_match =
  correlation_uid :: string
  cm_correlation_id :: string
  cm_name :: string
  cm_tenant :: string
  cm_severity :: string
  cm_confidence :: int
  cm_risk_score :: int
  cm_mitre :: "string list"
  cm_entity :: document
  stages_matched :: "string list"
  cm_event_ids :: "string list"
  first_seen :: string
  last_seen :: string
  span_seconds :: int
  timeline :: "document list"

definition match_document :: "correlation_match \<Rightarrow> document" where
  "match_document m =
    [(''correlation_uid'', JStr (correlation_uid m)), (''correlation_id'', JStr (cm_correlation_id m)),
     (''name'', JStr (cm_name m)), (''tenant_id'', JStr (cm_tenant m)), (''severity'', JStr (cm_severity m)),
     (''confidence'', JInt (cm_confidence m)), (''risk_score'', JInt (cm_risk_score m)),
     (''mitre_attack'', JList (map JStr (cm_mitre m))), (''entity'', JObj (cm_entity m)),
     (''stages_matched'', JList (map JStr (stages_matched m))), (''event_ids'', JList (map JStr (cm_event_ids m))),
     (''first_seen'', JStr (first_seen m)), (''last_seen'', JStr (last_seen m)),
     (''span_seconds'', JInt (span_seconds m)), (''timeline'', JList (map JObj (timeline m)))]"

definition SUMMARY_FIELDS :: "string list" where
  "SUMMARY_FIELDS = [''class'', ''event_code'', ''hostname'', ''source_ip'', ''destination_ip'', ''user'', ''process'',
     ''authentication'', ''severity'']"

definition summarize :: "document \<Rightarrow> document" where
  "summarize doc = (let s = excerpt SUMMARY_FIELDS doc in
     case get doc ''detection'' of
       JObj d \<Rightarrow> if py_truthy (get d ''rule_id'') then dict_set ''detection_rule'' (get d ''rule_id'') s else s
     | _ \<Rightarrow> s)"

record cstate =
  hits :: hit_store
  claims :: "mem_store option"
  drawn :: nat

record correlation_engine =
  ce_rules :: "correlation_rule list"
  ce_state :: cstate

definition replace_correlation_rules :: "correlation_rule list \<Rightarrow> correlation_engine \<Rightarrow> correlation_engine" where
  "replace_correlation_rules rs g = g\<lparr>ce_rules := filter (\<lambda>r. cr_status r \<noteq> DISABLED) rs\<rparr>"

definition new_correlation_engine :: "correlation_rule list \<Rightarrow> mem_store option \<Rightarrow> correlation_engine" where
  "new_correlation_engine rs st = replace_correlation_rules rs
     \<lparr>ce_rules = [], ce_state = \<lparr>hits = [], claims = st, drawn = 0\<rparr>\<rparr>"

definition newest :: "stage_hit list \<Rightarrow> int" where
  "newest held = fold (\<lambda>h t. max (occurred_at_ms h) t) (tl held) (occurred_at_ms (hd held))"

definition in_window :: "stage_hit list \<Rightarrow> nat \<Rightarrow> stage_hit list" where
  "in_window held secs = sort_key occurred_at_ms
     (filter (\<lambda>h. occurred_at_ms h \<ge> newest held - int secs * 1000) held)"

definition completion :: "correlation_rule \<Rightarrow> stage_hit list \<Rightarrow> stage_hit list option" where
  "completion r window_hits = (if ordered r then ordered_completion r (group_hits window_hits)
     else unordered_completion r (group_hits window_hits))"

text \<open>The match built from a completed chain; rendering a time may raise.\<close>

definition build_correlation ::
  "env \<Rightarrow> nat \<Rightarrow> correlation_rule \<Rightarrow> string \<Rightarrow> document \<Rightarrow> stage_hit list \<Rightarrow> stage_hit list \<Rightarrow> eval_error + correlation_match" where
  "build_correlation e n r tenant entity window_hits selected =
     (let a = occurred_at_ms (hd window_hits); b = occurred_at_ms (last window_hits) in
      bind_res (build_timeline e window_hits) (\<lambda>tl. bind_res (iso e a) (\<lambda>fs. bind_res (iso e b) (\<lambda>ls.
      Inr \<lparr>correlation_uid = uuid4 e n, cm_correlation_id = correlation_id r, cm_name = cr_name r, cm_tenant = tenant,
        cm_severity = severity_value (cr_severity r), cm_confidence = cr_confidence r, cm_risk_score = cr_risk_score r,
        cm_mitre = cr_mitre r, cm_entity = entity, stages_matched = map stage selected,
        cm_event_ids = dict_fromkeys (map event_id window_hits), first_seen = fs, last_seen = ls,
        span_seconds = round_half_even (fl (of_int (b - a) / 1000)), timeline = tl\<rparr>))))"

definition finish_correlation ::
  "env \<Rightarrow> correlation_rule \<Rightarrow> string \<Rightarrow> document \<Rightarrow> stage_hit list \<Rightarrow> stage_hit list \<Rightarrow> cstate
    \<Rightarrow> (eval_error + correlation_match option) \<times> cstate" where
  "finish_correlation e r tenant entity window_hits selected s =
     (case build_correlation e (drawn s) r tenant entity window_hits selected of
        Inl err \<Rightarrow> (Inl err, s) | Inr m \<Rightarrow> (Inr (Some m), s\<lparr>drawn := Suc (drawn s)\<rparr>))"

definition evaluate_chain ::
  "env \<Rightarrow> correlation_rule \<Rightarrow> string \<Rightarrow> document \<Rightarrow> string \<Rightarrow> stage_hit list \<Rightarrow> cstate
    \<Rightarrow> (eval_error + correlation_match option) \<times> cstate" where
  "evaluate_chain e r tenant entity key held s =
     (if held = [] then (Inr None, s)
      else (case window_seconds r of None \<Rightarrow> (Inl (ValueError ''invalid duration''), s)
      | Some secs \<Rightarrow> let window_hits = in_window held secs in
          (case completion r window_hits of None \<Rightarrow> (Inr None, s)
          | Some selected \<Rightarrow> (case cr_suppression_seconds r of None \<Rightarrow> (Inl (ValueError ''invalid duration''), s)
            | Some ttl \<Rightarrow> (case claims s of
                Some st \<Rightarrow>
                  if 0 < ttl then
                    (case mem_claim st (monotonic e) (''correlation:'' @ key) ttl of
                       (granted, st') \<Rightarrow>
                         if granted then finish_correlation e r tenant entity window_hits selected (s\<lparr>claims := Some st'\<rparr>)
                         else (Inr None, s\<lparr>claims := Some st'\<rparr>))
                  else finish_correlation e r tenant entity window_hits selected s
              | None \<Rightarrow> finish_correlation e r tenant entity window_hits selected s)))))"

definition hit_of :: "correlation_input \<Rightarrow> correlation_stage \<Rightarrow> stage_hit" where
  "hit_of i s = \<lparr>stage = st_name s, occurred_at_ms = ci_occurred i, claimed_at_ms = ci_claimed i,
     ingested_at_ms = ci_ingested i, time_source = ci_time_source i, kind = ci_kind i, event_id = ci_event_id i,
     summary = summarize (ci_document i)\<rparr>"

text \<open>The stages the input satisfies: a comprehension whose filter may raise.\<close>

fun matching_stages :: "env \<Rightarrow> correlation_input \<Rightarrow> correlation_stage list \<Rightarrow> eval_error + correlation_stage list" where
  "matching_stages e i [] = Inr []"
| "matching_stages e i (s # ss) =
     (if \<not> stage_accepts s (ci_kind i) then matching_stages e i ss
      else bind_res (evaluate_node (rx e) (st_conditions s) (ci_document i)) (\<lambda>b.
        bind_res (matching_stages e i ss) (\<lambda>rest. Inr (if b then s # rest else rest))))"

fun record_hits :: "string \<Rightarrow> stage_hit list \<Rightarrow> stage_hit list \<Rightarrow> hit_store \<Rightarrow> stage_hit list \<times> hit_store" where
  "record_hits key held [] st = (held, st)"
| "record_hits key held (h # hs) st = (case append_hit st key h DEFAULT_MAX_HITS of
     (held', st') \<Rightarrow> record_hits key held' hs st')"

definition process_rule ::
  "env \<Rightarrow> correlation_rule \<Rightarrow> correlation_input \<Rightarrow> cstate \<Rightarrow> (eval_error + correlation_match option) \<times> cstate" where
  "process_rule e r i s = (case matching_stages e i (stages r) of
     Inl err \<Rightarrow> (Inl err, s)
   | Inr [] \<Rightarrow> (Inr None, s)
   | Inr ss \<Rightarrow> (case entity_of r (ci_document i) of
       None \<Rightarrow> (Inr None, s)
     | Some entity \<Rightarrow> (case window_seconds r of None \<Rightarrow> (Inl (ValueError ''invalid duration''), s)
       | Some _ \<Rightarrow>
           let key = state_key r (ci_tenant i) entity in
           (case record_hits key [] (map (hit_of i) ss) (hits s) of
              (held, st') \<Rightarrow> evaluate_chain e r (ci_tenant i) entity key held (s\<lparr>hits := st'\<rparr>)))))"

fun process_rules ::
  "env \<Rightarrow> correlation_rule list \<Rightarrow> correlation_input \<Rightarrow> cstate \<Rightarrow> correlation_match list \<times> cstate" where
  "process_rules e [] i s = ([], s)"
| "process_rules e (r # rs) i s = (case process_rule e r i s of
     (Inl _, s') \<Rightarrow> process_rules e rs i s'
   | (Inr m, s') \<Rightarrow> (case process_rules e rs i s' of (ms, s'') \<Rightarrow> ((case m of None \<Rightarrow> ms | Some x \<Rightarrow> x # ms), s'')))"

definition process :: "env \<Rightarrow> correlation_engine \<Rightarrow> correlation_input \<Rightarrow> correlation_match list \<times> correlation_engine" where
  "process e g i = (case process_rules e (ce_rules g) i (ce_state g) of (ms, s) \<Rightarrow> (ms, g\<lparr>ce_state := s\<rparr>))"

section \<open>The contract of a state store\<close>

locale state_store =
  fixes read :: "'s \<Rightarrow> string \<Rightarrow> 'h list"
    and append :: "'s \<Rightarrow> string \<Rightarrow> 'h \<Rightarrow> nat \<Rightarrow> 'h list \<times> 's"
  assumes append_returns: "fst (append s k h m) = take_last m (read s k @ [h])"
    and append_read: "read (snd (append s k h m)) k = fst (append s k h m)"
    and append_frame: "k' \<noteq> k \<Longrightarrow> read (snd (append s k h m)) k' = read s k'"
begin

lemma append_bounded: "length (fst (append s k h m)) \<le> m"
  by (simp add: append_returns)

lemma append_own_write: "0 < m \<Longrightarrow> fst (append s k h m) \<noteq> [] \<and> last (fst (append s k h m)) = h"
  by (simp add: append_returns take_last_def last_drop)

text \<open>A key that has room loses nothing.\<close>

lemma append_room: "length (read s k) < m \<Longrightarrow> fst (append s k h m) = read s k @ [h]"
  by (simp add: append_returns take_last_def)

lemma append_keeps_order: "suffix (fst (append s k h m)) (read s k @ [h])"
  using take_last_append_suffix [of m "read s k @ [h]"] by (simp only: append_returns)

end

lemma append_hit_returns: "fst (append_hit s k h m) = take_last m (read_hits s k @ [h])"
  by (simp add: append_hit_def Let_def take_last_def)

lemma append_hit_store: "snd (append_hit s k h m) = dict_set k (fst (append_hit s k h m)) s"
  by (simp add: append_hit_def Let_def)

interpretation memory: state_store read_hits append_hit
  by unfold_locales (simp_all add: append_hit_returns append_hit_store, simp_all add: read_hits_def dict_get_set)

lemma redis_state_store:
  assumes "\<And>h. dec (enc h) = h"
  shows "state_store (redis_read dec pre) (redis_append enc dec pre)"
  by unfold_locales
    (simp_all add: redis_append_def redis_read_def redis_key_def append_script_def Let_def take_last_def assms dict_get_set
      drop_map [symmetric] split: option.splits)

lemma record_hits_memory:
  "length (read_hits st key) + length hs \<le> DEFAULT_MAX_HITS \<Longrightarrow> hs \<noteq> [] \<Longrightarrow>
   fst (record_hits key held hs st) = read_hits st key @ hs"
proof (induction hs arbitrary: held st)
  case (Cons h hs)
  let ?st = "snd (append_hit st key h DEFAULT_MAX_HITS)"
  have r: "fst (append_hit st key h DEFAULT_MAX_HITS) = read_hits st key @ [h]"
    by (rule memory.append_room) (use Cons.prems in simp)
  have "record_hits key held (h # hs) st = record_hits key (read_hits st key @ [h]) hs ?st"
    using r by (cases "append_hit st key h DEFAULT_MAX_HITS") simp
  moreover have "read_hits ?st key = read_hits st key @ [h]" using memory.append_read r by metis
  ultimately show ?case using Cons by (cases hs) auto
qed simp

section \<open>Grouping and windows\<close>

lemma read_group_hits: "read_hits (group_hits hs) n = filter (\<lambda>h. stage h = n) hs"
proof -
  have "read_hits (fold (\<lambda>h d. dict_set (stage h) (read_hits d (stage h) @ [h]) d) hs d) n
      = read_hits d n @ filter (\<lambda>h. stage h = n) hs" for d
    by (induction hs arbitrary: d) (auto simp: read_hits_def dict_get_set)
  from this [of "[]"] show ?thesis by (simp add: group_hits_def read_hits_def)
qed

lemma newest_Max: "held \<noteq> [] \<Longrightarrow> newest held = Max (occurred_at_ms ` set held)"
proof -
  have "fold (\<lambda>h t. max (occurred_at_ms h) t) hs a = Max (insert a (occurred_at_ms ` set hs))" for hs a
  proof (induction hs arbitrary: a)
    case (Cons h hs)
    have "insert (max (occurred_at_ms h) a) (occurred_at_ms ` set hs) \<noteq> {}" by simp
    with Cons show ?case by (simp add: max.assoc max.left_commute max.commute) (cases hs; simp add: max.assoc max.left_commute)
  qed simp
  thus "held \<noteq> [] \<Longrightarrow> ?thesis" by (cases held) (simp_all add: newest_def)
qed

lemma mset_in_window:
  "mset (in_window held secs) = filter_mset (\<lambda>h. occurred_at_ms h \<ge> newest held - int secs * 1000) (mset held)"
  by (simp add: in_window_def)

lemma sorted_in_window: "sorted (map occurred_at_ms (in_window held secs))"
  by (simp add: in_window_def)

section \<open>Chains\<close>

text \<open>What an ordered correlation is about: for every stage a selection of as many hits of that
  stage as it needs, none of them before the last hit selected for the stage before it.\<close>

fun chain :: "correlation_stage list \<Rightarrow> stage_hit list \<Rightarrow> int \<Rightarrow> stage_hit list list \<Rightarrow> bool" where
  "chain [] hs cursor picks \<longleftrightarrow> picks = []"
| "chain (s # ss) hs cursor [] \<longleftrightarrow> False"
| "chain (s # ss) hs cursor (p # ps) \<longleftrightarrow>
     length p = min_count s \<and> mset p \<subseteq># mset (filter (\<lambda>h. stage h = st_name s) hs) \<and>
     (\<forall>h \<in> set p. cursor \<le> occurred_at_ms h) \<and> chain ss hs (Max (occurred_at_ms ` set p)) ps"

lemma chain_mset: "mset hs = mset hs' \<Longrightarrow> chain ss hs c ps = chain ss hs' c ps"
proof (induction ss hs c ps rule: chain.induct)
  case (3 s ss hs cursor p ps)
  hence "mset (filter (\<lambda>h. stage h = st_name s) hs) = mset (filter (\<lambda>h. stage h = st_name s) hs')" by simp
  with 3 show ?case by simp
qed simp_all

lemma chain_mono: "chain ss hs c ps \<Longrightarrow> c' \<le> c \<Longrightarrow> chain ss hs c' ps"
  by (cases ss; cases ps) auto

lemma fewer_earlier:
  assumes "sorted (map f ys)" "k < length ys"
  shows "length (filter (\<lambda>y. f y < f (ys ! k)) ys) \<le> k"
proof -
  have "filter (\<lambda>y. f y < f (ys ! k)) (drop k ys) = []"
  proof (rule filter_False, clarify)
    fix y assume "y \<in> set (drop k ys)" "f y < f (ys ! k)"
    then obtain i where "i < length ys - k" "y = ys ! (k + i)" by (auto simp: in_set_conv_nth)
    moreover have "f (ys ! k) \<le> f (ys ! (k + i))"
      using assms sorted_nth_mono [OF assms(1), of k "k + i"] \<open>i < length ys - k\<close> by simp
    ultimately show False using \<open>f y < f (ys ! k)\<close> by simp
  qed
  hence "length (filter (\<lambda>y. f y < f (ys ! k)) ys) = length (filter (\<lambda>y. f y < f (ys ! k)) (take k ys))"
    by (metis append_Nil2 append_take_drop_id filter_append)
  also have "\<dots> \<le> length (take k ys)" by (rule length_filter_le)
  also have "\<dots> \<le> k" by simp
  finally show ?thesis .
qed

text \<open>The earliest feasible selection ends no later than any other.\<close>

lemma earliest_selection:
  assumes "sorted (map occurred_at_ms xs)" "0 < length p" "mset p \<subseteq># mset xs" "\<forall>h \<in> set p. c \<le> occurred_at_ms h"
  defines "ys \<equiv> filter (\<lambda>h. occurred_at_ms h \<ge> c) xs"
  shows "length p \<le> length ys \<and> occurred_at_ms (last (take (length p) ys)) \<le> Max (occurred_at_ms ` set p)"
proof -
  have sub: "mset p \<subseteq># mset ys"
  proof -
    have "filter_mset (\<lambda>h. c \<le> occurred_at_ms h) (mset p) = mset p" using assms(4) by (simp add: filter_mset_eq_conv)
    with multiset_filter_mono [OF assms(3), of "\<lambda>h. c \<le> occurred_at_ms h"] show ?thesis by (simp add: ys_def)
  qed
  hence len: "length p \<le> length ys" using size_mset_mono [OF sub] by simp
  let ?k = "length p - 1" and ?y = "ys ! (length p - 1)"
  have k: "?k < length ys" using len assms(2) by linarith
  have sorted: "sorted (map occurred_at_ms ys)" using assms(1) by (simp add: ys_def sorted_filter)
  have "take (length p) ys \<noteq> []" using len assms(2) by auto
  hence last: "last (take (length p) ys) = ?y" using len assms(2) by (simp add: last_conv_nth min_absorb2)
  have "occurred_at_ms ?y \<le> Max (occurred_at_ms ` set p)"
  proof (rule ccontr)
    assume "\<not> ?thesis"
    moreover have "set p \<noteq> {}" using assms(2) by auto
    ultimately have "\<forall>h \<in> set p. occurred_at_ms h < occurred_at_ms ?y" by (simp add: not_le)
    hence "filter_mset (\<lambda>h. occurred_at_ms h < occurred_at_ms ?y) (mset p) = mset p" by (simp add: filter_mset_eq_conv)
    with multiset_filter_mono [OF sub, of "\<lambda>h. occurred_at_ms h < occurred_at_ms ?y"]
    have "mset p \<subseteq># mset (filter (\<lambda>h. occurred_at_ms h < occurred_at_ms ?y) ys)" by simp
    from size_mset_mono [OF this] have "length p \<le> length (filter (\<lambda>h. occurred_at_ms h < occurred_at_ms ?y) ys)"
      by (simp only: size_mset)
    with fewer_earlier [OF sorted k] assms(2) show False by linarith
  qed
  with len last show ?thesis by simp
qed

lemma ordered_from_complete:
  assumes "sorted (map occurred_at_ms hs)" "\<forall>s \<in> set ss. 0 < min_count s" "chain ss hs c picks"
  shows "ordered_from ss (group_hits hs) c \<noteq> None"
  using assms(2,3)
proof (induction ss arbitrary: c picks)
  case (Cons s ss)
  from Cons.prems(2) obtain p ps where picks: "picks = p # ps" by (cases picks) auto
  let ?xs = "filter (\<lambda>h. stage h = st_name s) hs"
  let ?ys = "filter (\<lambda>h. occurred_at_ms h \<ge> c) ?xs"
  from Cons.prems picks have p: "length p = min_count s" "mset p \<subseteq># mset ?xs" "\<forall>h \<in> set p. c \<le> occurred_at_ms h"
    "chain ss hs (Max (occurred_at_ms ` set p)) ps" by auto
  have "sorted (map occurred_at_ms ?xs)" using assms(1) by (simp add: sorted_filter)
  moreover have "0 < length p" using p(1) Cons.prems(1) by simp
  ultimately have e: "length p \<le> length ?ys" "occurred_at_ms (last (take (length p) ?ys)) \<le> Max (occurred_at_ms ` set p)"
    using earliest_selection [of ?xs p c] p(2,3) by auto
  have "chain ss hs (occurred_at_ms (last (take (length p) ?ys))) ps" using chain_mono [OF p(4) e(2)] .
  hence "ordered_from ss (group_hits hs) (occurred_at_ms (last (take (length p) ?ys))) \<noteq> None"
    using Cons.IH Cons.prems(1) by simp
  with e(1) p(1) show ?case by (auto simp: read_group_hits Let_def)
qed simp

lemma Max_last:
  assumes "sorted (map f ys)" "ys \<noteq> []"
  shows "Max (f ` set ys) = f (last ys)"
proof (rule Max_eqI)
  fix y assume "y \<in> f ` set ys"
  then obtain i where "i < length ys" "y = f (ys ! i)" by (auto simp: in_set_conv_nth)
  thus "y \<le> f (last ys)" using assms sorted_nth_mono [OF assms(1), of i "length ys - 1"] by (simp add: last_conv_nth)
qed (use assms in auto)

lemma mset_take_filter: "mset (take k (filter P xs)) \<subseteq># mset xs"
proof -
  have "mset (filter P xs) = mset (take k (filter P xs)) + mset (drop k (filter P xs))"
    by (metis append_take_drop_id mset_append)
  hence "mset (take k (filter P xs)) \<subseteq># mset (filter P xs)" by simp
  also have "\<dots> \<subseteq># mset xs" by (simp add: multiset_filter_subset)
  finally show ?thesis .
qed

lemma ordered_from_sound:
  assumes "sorted (map occurred_at_ms hs)" "\<forall>s \<in> set ss. 0 < min_count s"
    and "ordered_from ss (group_hits hs) c = Some sel"
  shows "\<exists>picks. chain ss hs c picks \<and> sel = List.concat picks"
  using assms(2,3)
proof (induction ss arbitrary: c sel)
  case (Cons s ss)
  define xs where "xs = filter (\<lambda>h. stage h = st_name s) hs"
  define ys where "ys = filter (\<lambda>h. occurred_at_ms h \<ge> c) xs"
  define p where "p = take (min_count s) ys"
  have eq: "ordered_from (s # ss) (group_hits hs) c = (if length ys < min_count s then None
      else case ordered_from ss (group_hits hs) (occurred_at_ms (last p)) of None \<Rightarrow> None | Some rest \<Rightarrow> Some (p @ rest))"
    unfolding ordered_from.simps read_group_hits Let_def xs_def ys_def p_def ..
  from Cons.prems(2) eq have len: "min_count s \<le> length ys" by (simp split: if_splits)
  with Cons.prems(2) eq obtain rest where rest: "ordered_from ss (group_hits hs) (occurred_at_ms (last p)) = Some rest"
    "sel = p @ rest" by (auto split: option.splits)
  have lp: "length p = min_count s" using len by (simp add: p_def)
  hence ne: "p \<noteq> []" using Cons.prems(1) by auto
  have "sorted (map occurred_at_ms xs)" using assms(1) by (simp add: xs_def sorted_filter)
  hence "sorted (map occurred_at_ms ys)" by (simp add: ys_def sorted_filter)
  hence "sorted (map occurred_at_ms p)" by (simp add: p_def take_map [symmetric] sorted_wrt_take)
  hence m: "Max (occurred_at_ms ` set p) = occurred_at_ms (last p)" by (rule Max_last [OF _ ne])
  from Cons.IH [OF _ rest(1)] Cons.prems(1) obtain picks where
    picks: "chain ss hs (occurred_at_ms (last p)) picks" "rest = List.concat picks" by auto
  have sub: "mset p \<subseteq># mset xs" unfolding p_def ys_def by (rule mset_take_filter)
  have "\<forall>h \<in> set p. c \<le> occurred_at_ms h" unfolding p_def ys_def using in_set_takeD by fastforce
  with lp m picks(1) sub have "chain (s # ss) hs c (p # picks)" by (simp add: xs_def)
  with picks(2) rest(2) show ?case by (intro exI [of _ "p # picks"]) simp
qed simp

lemma unordered_from_iff:
  "unordered_from ss (group_hits hs) \<noteq> None \<longleftrightarrow> (\<forall>s \<in> set ss. min_count s \<le> size (filter_mset (\<lambda>h. stage h = st_name s) (mset hs)))"
  by (induction ss) (auto simp: read_group_hits Let_def mset_filter [symmetric] simp del: mset_filter split: option.splits)

definition counts_positive :: "correlation_rule \<Rightarrow> bool" where
  "counts_positive r \<longleftrightarrow> (\<forall>s \<in> set (stages r). 0 < min_count s)"

lemma valid_counts: "correlation_rule_valid r \<Longrightarrow> counts_positive r"
  by (auto simp: correlation_rule_valid_def counts_positive_def list_all_iff stage_bounds_def)

lemma ordered_completion_iff:
  assumes "counts_positive r" "sorted (map occurred_at_ms hs)"
  shows "ordered_completion r (group_hits hs) \<noteq> None \<longleftrightarrow> (\<exists>picks. chain (required_stages r) hs (-1) picks)"
proof -
  have p: "\<forall>s \<in> set (required_stages r). 0 < min_count s" using assms(1) by (auto simp: counts_positive_def required_stages_def)
  show ?thesis unfolding ordered_completion_def
    using ordered_from_complete [OF assms(2) p] ordered_from_sound [OF assms(2) p] by blast
qed

lemma newest_mset: "mset held = mset held' \<Longrightarrow> newest held = newest held'"
proof (cases "held = []")
  case False
  assume m: "mset held = mset held'"
  hence "held' \<noteq> []" using False by auto
  thus ?thesis using False mset_eq_setD [OF m] by (simp add: newest_Max)
qed simp

lemma in_window_mset: "mset held = mset held' \<Longrightarrow> mset (in_window held secs) = mset (in_window held' secs)"
  using newest_mset [of held held'] by (simp add: mset_in_window)

lemma completion_mset:
  assumes "counts_positive r" "mset held = mset held'"
  shows "completion r (in_window held secs) = None \<longleftrightarrow> completion r (in_window held' secs) = None"
proof (cases "ordered r")
  case True
  have "chain ss (in_window held secs) c ps = chain ss (in_window held' secs) c ps" for ss c ps
    using chain_mset [OF in_window_mset [OF assms(2)]] .
  hence "ordered_completion r (group_hits (in_window held secs)) \<noteq> None \<longleftrightarrow>
      ordered_completion r (group_hits (in_window held' secs)) \<noteq> None"
    using ordered_completion_iff [OF assms(1) sorted_in_window, of held secs]
      ordered_completion_iff [OF assms(1) sorted_in_window, of held' secs] by blast
  with True show ?thesis unfolding completion_def by (simp only: if_True) blast
next
  case False
  have "unordered_from (required_stages r) (group_hits (in_window held secs)) \<noteq> None \<longleftrightarrow>
      unordered_from (required_stages r) (group_hits (in_window held' secs)) \<noteq> None"
    unfolding unordered_from_iff in_window_mset [OF assms(2), of secs] ..
  with False show ?thesis unfolding completion_def unordered_completion_def by (simp only: if_False) blast
qed

section \<open>What the engine emits\<close>

definition refused :: "env \<Rightarrow> correlation_rule \<Rightarrow> string \<Rightarrow> cstate \<Rightarrow> bool" where
  "refused e r key s \<longleftrightarrow> (\<exists>ttl st. cr_suppression_seconds r = Some ttl \<and> claims s = Some st \<and> 0 < ttl \<and>
     \<not> fst (mem_claim st (monotonic e) (''correlation:'' @ key) ttl))"

lemma finish_correlation_not_None: "fst (finish_correlation e r tenant entity w selected s) \<noteq> Inr None"
  by (simp add: finish_correlation_def split: sum.splits)

lemma evaluate_chain_silent:
  assumes "held \<noteq> []" "window_seconds r = Some secs"
  shows "fst (evaluate_chain e r tenant entity key held s) = Inr None \<longleftrightarrow>
    completion r (in_window held secs) = None \<or> refused e r key s"
proof (cases "completion r (in_window held secs)")
  case (Some selected)
  show ?thesis
  proof (cases "cr_suppression_seconds r")
    case None
    with Some assms show ?thesis by (simp add: evaluate_chain_def refused_def)
  next
    case (Some ttl)
    with \<open>completion _ _ = Some _\<close> assms show ?thesis
      using finish_correlation_not_None
      by (cases "claims s"; cases "0 < ttl") (auto simp: evaluate_chain_def refused_def Let_def split: prod.splits)
  qed
qed (use assms in \<open>simp add: evaluate_chain_def\<close>)

lemma newest_in: "held \<noteq> [] \<Longrightarrow> \<exists>h \<in> set held. occurred_at_ms h = newest held"
proof -
  assume ne: "held \<noteq> []"
  hence "Max (occurred_at_ms ` set held) \<in> occurred_at_ms ` set held" by (intro Max_in) auto
  thus ?thesis unfolding newest_Max [OF ne] by (metis imageE)
qed

lemma le_newest: "h \<in> set held \<Longrightarrow> occurred_at_ms h \<le> newest held"
  using newest_Max [of held] by (cases "held = []") auto

lemma set_in_window: "set (in_window held secs) = {h \<in> set held. newest held - int secs * 1000 \<le> occurred_at_ms h}"
  by (auto simp: in_window_def)

lemma in_window_nonempty: "held \<noteq> [] \<Longrightarrow> in_window held secs \<noteq> []"
proof -
  assume "held \<noteq> []"
  then obtain h where "h \<in> set held" "occurred_at_ms h = newest held" using newest_in by blast
  hence "h \<in> set (in_window held secs)" by (simp add: set_in_window)
  thus ?thesis by auto
qed

lemma span_bounds:
  assumes "held \<noteq> []" "secs \<le> 2 ^ 53"
  defines "w \<equiv> in_window held secs"
  defines "d \<equiv> occurred_at_ms (last w) - occurred_at_ms (hd w)"
  shows "0 \<le> round_half_even (fl (of_int d / 1000)) \<and> round_half_even (fl (of_int d / 1000)) \<le> int secs"
proof -
  have ne: "w \<noteq> []" using in_window_nonempty [OF assms(1)] by (simp add: w_def)
  hence m: "last w \<in> set w" "hd w \<in> set w" by auto
  have "occurred_at_ms (last w) \<le> newest held" "newest held - int secs * 1000 \<le> occurred_at_ms (hd w)"
    using m le_newest by (auto simp: w_def set_in_window)
  hence "d \<le> int secs * 1000" by (simp add: d_def)
  hence hi: "of_int d / 1000 \<le> (of_int (int secs) :: rat)"
    by (metis divide_le_eq of_int_le_iff of_int_mult of_int_numeral zero_less_numeral)
  have "0 \<le> d"
    using sorted_in_window [of held secs] ne Max_last [of occurred_at_ms w] Max_ge [of "occurred_at_ms ` set w" "occurred_at_ms (hd w)"] m
    by (simp add: w_def d_def)
  hence "0 \<le> fl (of_int d / 1000)" by (intro fl_nonneg) simp
  moreover have "fl (of_int d / 1000) \<le> of_int (int secs)"
    by (rule fl_le_int [OF hi]) (use assms(2) in simp)
  ultimately show ?thesis
    using round_half_even_mono [of 0 "fl (of_int d / 1000)"] round_half_even_mono [of "fl (of_int d / 1000)" "of_int (int secs)"]
      round_half_even_of_int [of "int secs"] by simp
qed

lemma evaluate_chain_match:
  assumes "evaluate_chain e r tenant entity key held s = (Inr (Some m), s')"
  obtains secs selected n where "held \<noteq> []" "window_seconds r = Some secs" "completion r (in_window held secs) = Some selected"
    "build_correlation e n r tenant entity (in_window held secs) selected = Inr m"
  using assms unfolding evaluate_chain_def finish_correlation_def
  by (auto simp: Let_def split: if_splits option.splits prod.splits sum.splits)

lemma process_rule_match:
  assumes "process_rule e r i s = (Inr (Some m), s')"
  obtains entity key held s1 where "entity_of r (ci_document i) = Some entity"
    "evaluate_chain e r (ci_tenant i) entity key held s1 = (Inr (Some m), s')"
  using assms unfolding process_rule_def
  by (auto simp: Let_def split: sum.splits list.splits option.splits prod.splits)

lemma process_rules_match:
  "m \<in> set (fst (process_rules e rs i s)) \<Longrightarrow> \<exists>r \<in> set rs. \<exists>s1 s2. process_rule e r i s1 = (Inr (Some m), s2)"
proof (induction rs arbitrary: s)
  case (Cons r rs)
  obtain x s1 where p: "process_rule e r i s = (x, s1)" by (cases "process_rule e r i s")
  show ?case
  proof (cases "x = Inr (Some m)")
    case True
    with p show ?thesis by auto
  next
    case False
    with Cons.prems p have "m \<in> set (fst (process_rules e rs i s1))"
      by (cases x) (auto split: prod.splits option.splits)
    from Cons.IH [OF this] show ?thesis by auto
  qed
qed simp

lemma build_correlation_fields:
  assumes "build_correlation e n r tenant entity w selected = Inr m"
  shows "cm_correlation_id m = correlation_id r" "cm_tenant m = tenant" "cm_entity m = entity"
    "stages_matched m = map stage selected" "cm_event_ids m = dict_fromkeys (map event_id w)"
    "span_seconds m = round_half_even (fl (of_int (occurred_at_ms (last w) - occurred_at_ms (hd w)) / 1000))"
  using assms by (auto simp: build_correlation_def Let_def bind_res_Inr)

section \<open>Properties\<close>


text \<open>C9: whether a correlation fires does not depend on the order in which the hits arrived:
  two lists of held hits with the same elements give the same verdict, with or without
  suppression.\<close>

theorem arrival_order_irrelevant:
  assumes "correlation_rule_valid r" and "mset held = mset held'"
  shows "fst (evaluate_chain e r tenant entity key held s) = Inr None \<longleftrightarrow>
    fst (evaluate_chain e r tenant entity key held' s) = Inr None"
proof -
  have e: "held = [] \<longleftrightarrow> held' = []" using assms(2) by auto
  consider "held = []" | "held \<noteq> []" "window_seconds r = None" | secs where "held \<noteq> []" "window_seconds r = Some secs"
    by (cases "window_seconds r") auto
  thus ?thesis
  proof cases
    case 3
    hence "held' \<noteq> []" using e by simp
    with 3 show ?thesis using completion_mset [OF valid_counts [OF assms(1)] assms(2)]
      by (simp add: evaluate_chain_silent)
  qed (use e in \<open>simp_all add: evaluate_chain_def\<close>)
qed

text \<open>C10: every correlation the engine emits belongs to one of its rules, to the tenant and the
  entity of the input, cites each event once, and spans at most the window of its rule.\<close>

theorem correlation_match_sound:
  assumes "m \<in> set (fst (process e g i))" and "\<forall>r \<in> set (ce_rules g). correlation_rule_valid r"
  shows "\<exists>r \<in> set (ce_rules g). \<exists>secs. cm_correlation_id m = correlation_id r \<and> cm_tenant m = ci_tenant i \<and>
    entity_of r (ci_document i) = Some (cm_entity m) \<and> distinct (cm_event_ids m) \<and>
    window_seconds r = Some secs \<and> 0 \<le> span_seconds m \<and> span_seconds m \<le> int secs"
proof -
  have "m \<in> set (fst (process_rules e (ce_rules g) i (ce_state g)))"
    using assms(1) by (simp add: process_def split: prod.splits)
  from process_rules_match [OF this] obtain r s1 s2 where r: "r \<in> set (ce_rules g)"
    "process_rule e r i s1 = (Inr (Some m), s2)" by blast
  from r(2) obtain entity key held s3 where ent: "entity_of r (ci_document i) = Some entity"
    and ch: "evaluate_chain e r (ci_tenant i) entity key held s3 = (Inr (Some m), s2)" by (rule process_rule_match)
  from ch obtain secs selected n where h: "held \<noteq> []" "window_seconds r = Some secs"
    "build_correlation e n r (ci_tenant i) entity (in_window held secs) selected = Inr m"
    by (rule evaluate_chain_match)
  have "secs \<le> 2 ^ 53" using assms(2) r(1) h(2) by (auto simp: correlation_rule_valid_def check_shape_def MAX_WINDOW_SECONDS_def)
  from span_bounds [OF h(1) this] build_correlation_fields [OF h(3)] r(1) ent h(2) show ?thesis
    by (intro bexI [of _ r] exI [of _ secs]) simp_all
qed

text \<open>No source clock can move an input further than the tolerated skew away from the time
  it was ingested, an input always has a tenant, and a detection that is a dry run never
  becomes an input.\<close>

theorem correlation_input_bounded:
  assumes "event_input e skew d = Inr (Some i) \<or> detection_input e skew d = Inr (Some i)" and "0 \<le> skew"
  shows "\<bar>ci_occurred i - ci_ingested i\<bar> \<le> skew * 1000 \<and> ci_tenant i \<noteq> [] \<and>
    (ci_kind i = ''detection'' \<longrightarrow> \<not> py_truthy (get d ''dry_run''))"
  using assms
  by (auto simp: event_input_def detection_input_def Let_def bind_res_Inr effective_time_def split: if_splits)

text \<open>The window hangs on the newest hit, so the outcome does depend on when evaluation
  happens: a two-stage chain that lies inside its window, and fires when its second hit arrives
  last, stays silent if a hit later than the end of that window was recorded in between. The
  late arrival of one stage can hide a chain that really happened.\<close>

theorem newest_hit_hides_older_chain:
  assumes "correlation_rule_valid r" and "ordered r" and "window_seconds r = Some secs" and "claims s = None"
    and "required_stages r = [s1, s2]" and "min_count s1 = 1" and "min_count s2 = 1"
    and "stage a = st_name s1" and "stage b = st_name s2"
    and "0 \<le> occurred_at_ms a" and "occurred_at_ms a \<le> occurred_at_ms b"
    and "occurred_at_ms b \<le> occurred_at_ms a + int secs * 1000"
    and "occurred_at_ms b + int secs * 1000 < occurred_at_ms z"
  shows "fst (evaluate_chain e r tenant entity key [a, b] s) \<noteq> Inr None \<and>
    fst (evaluate_chain e r tenant entity key [a, z, b] s) = Inr None"
proof
  have nb: "newest [a, b] = occurred_at_ms b" using assms(11) by (simp add: newest_def)
  have "chain [s1, s2] [a, b] (-1) [[a], [b]]" using assms(6-11) by simp
  moreover have "mset (in_window [a, b] secs) = mset [a, b]" using assms(12) by (simp add: mset_in_window nb)
  ultimately have "chain (required_stages r) (in_window [a, b] secs) (-1) [[a], [b]]" using chain_mset assms(5) by metis
  hence "ordered_completion r (group_hits (in_window [a, b] secs)) \<noteq> None"
    using ordered_completion_iff [OF valid_counts [OF assms(1)] sorted_in_window] by blast
  hence "completion r (in_window [a, b] secs) \<noteq> None" using assms(2) by (simp add: completion_def)
  thus "fst (evaluate_chain e r tenant entity key [a, b] s) \<noteq> Inr None"
    by (simp add: evaluate_chain_silent [OF _ assms(3)] refused_def assms(4))
  have d: "st_name s1 \<noteq> st_name s2"
  proof -
    have "distinct (map st_name (required_stages r))"
      using assms(1) by (simp add: correlation_rule_valid_def check_shape_def required_stages_def distinct_map_filter)
    thus ?thesis using assms(5) by simp
  qed
  have "newest [a, z, b] = occurred_at_ms z" using assms(11,13) by (simp add: newest_def)
  hence w: "in_window [a, z, b] secs = [z]" using assms(11,13) by (simp add: in_window_def)
  have "ordered_from [s1, s2] (group_hits [z]) c = None" for c
    using assms(6,7) d by (auto simp: read_group_hits Let_def)
  hence "completion r (in_window [a, z, b] secs) = None"
    using assms(2,5) by (simp only: completion_def w ordered_completion_def if_True)
  thus "fst (evaluate_chain e r tenant entity key [a, z, b] s) = Inr None"
    by (simp add: evaluate_chain_silent [OF _ assms(3)])
qed

section \<open>Two details the comments tell otherwise\<close>

lemma missing_ingestion_time_recorded_as_event:
  assumes "event_input e skew doc = Inr (Some i)" "get doc ''ingestion_timestamp'' = JNull" "0 \<le> skew"
  shows "ci_time_source i = ''event''"
  using assms
  by (auto simp: event_input_def Let_def bind_res_Inr parse_time_def [of e JNull] effective_time_def split: if_splits option.splits)

lemma graft_replaces_scalar_parent:
  "graft_entity [(''user'', JStr ''alice'')] [(''user.name'', JStr ''bob'')] = [(''user'', JObj [(''name'', JStr ''bob'')])]"
  by (simp add: graft_entity_def blank_def)

section \<open>Instances\<close>

definition sample_stage :: "string \<Rightarrow> correlation_stage" where
  "sample_stage n = \<lparr>st_name = n, matches = ANY_KIND, st_conditions = Leaf \<lparr>field_path = n, op = EXISTS,
     cvalue = JBool True, case_sensitive = False\<rparr>, min_count = 1, required = True\<rparr>"

definition sample_rule :: correlation_rule where
  "sample_rule = \<lparr>correlation_id = ''COR-001'', cr_name = ''Takeover'', cr_severity = HIGH, cr_confidence = 80,
     cr_risk_score = 70, cr_status = ENABLED, cr_version = 1, cr_window = ''5m'', correlate_by = [''user''],
     ordered = True, stages = [sample_stage ''fail'', sample_stage ''ok''], cr_suppression = None, cr_mitre = []\<rparr>"

definition sample_hit :: "string \<Rightarrow> int \<Rightarrow> stage_hit" where
  "sample_hit n t = \<lparr>stage = n, occurred_at_ms = t, claimed_at_ms = t, ingested_at_ms = t, time_source = ''event'',
     kind = ''event'', event_id = n, summary = []\<rparr>"

definition sample_state :: cstate where
  "sample_state = \<lparr>hits = [], claims = None, drawn = 0\<rparr>"

lemma sample_stage_sel: "st_name (sample_stage n) = n" "min_count (sample_stage n) = 1"
  by (simp_all add: sample_stage_def)

lemma sample_window: "window_seconds sample_rule = Some 300"
  by (simp add: window_seconds_def sample_rule_def duration_seconds_def unit_seconds_def is_digit_def read_digits_def digit_val_def)

lemma sample_valid: "correlation_rule_valid sample_rule"
  using sample_window
  by (simp add: correlation_rule_valid_def check_shape_def stage_bounds_def required_stages_def MAX_WINDOW_SECONDS_def)
    (simp add: sample_rule_def sample_stage_def stage_bounds_def)

lemma sample_required: "required_stages sample_rule = [sample_stage ''fail'', sample_stage ''ok'']" "ordered sample_rule"
  by (simp_all add: required_stages_def sample_rule_def sample_stage_def)


theorem arrival_order_irrelevant_witness:
  "fst (evaluate_chain (example_env 0) sample_rule ''t1'' [] ''k'' [sample_hit ''ok'' 2000, sample_hit ''fail'' 1000] sample_state) = Inr None
   \<longleftrightarrow> fst (evaluate_chain (example_env 0) sample_rule ''t1'' [] ''k'' [sample_hit ''fail'' 1000, sample_hit ''ok'' 2000] sample_state) = Inr None"
  by (rule arrival_order_irrelevant [OF sample_valid]) simp

theorem newest_hit_hides_older_chain_witness:
  "fst (evaluate_chain (example_env 0) sample_rule ''t1'' [] ''k'' [sample_hit ''fail'' 1000, sample_hit ''ok'' 2000] sample_state) \<noteq> Inr None \<and>
   fst (evaluate_chain (example_env 0) sample_rule ''t1'' [] ''k''
     [sample_hit ''fail'' 1000, sample_hit ''fail'' 900000, sample_hit ''ok'' 2000] sample_state) = Inr None"
  by (rule newest_hit_hides_older_chain [OF sample_valid sample_required(2) sample_window _ sample_required(1)])
    (simp_all add: sample_state_def sample_stage_def sample_hit_def)

definition sample_input :: "string \<Rightarrow> correlation_input" where
  "sample_input n = \<lparr>ci_kind = ''event'', ci_tenant = ''t1'', ci_event_id = n, ci_document = [(n, JInt 1), (''user'', JStr ''root'')],
     ci_claimed = 0, ci_ingested = 0, ci_occurred = 0, ci_time_source = ''event''\<rparr>"

theorem correlation_input_bounded_witness:
  "\<exists>i. event_input (example_env 0) 900 [(''tenant_id'', JStr ''t1''), (''event_id'', JStr ''e1''), (''timestamp'', JInt 900000000000),
        (''ingestion_timestamp'', JInt 800000000000)] = Inr (Some i) \<and> \<bar>ci_occurred i - ci_ingested i\<bar> \<le> 900 * 1000 \<and> ci_tenant i \<noteq> []"
proof -
  let ?d = "[(''tenant_id'', JStr ''t1''), (''event_id'', JStr ''e1''), (''timestamp'', JInt 900000000000),
        (''ingestion_timestamp'', JInt 800000000000)]"
  obtain i where i: "event_input (example_env 0) 900 ?d = Inr (Some i)"
    by (simp add: event_input_def str_or_def parse_time_def parse_number_time_def Let_def effective_time_def)
  from correlation_input_bounded [OF disjI1 [OF i]] i show ?thesis by auto
qed

lemma sample_matching:
  "n \<in> {''fail'', ''ok''} \<Longrightarrow> matching_stages e (sample_input n) (stages sample_rule) = Inr [sample_stage n]"
  by (auto simp: sample_rule_def sample_input_def sample_stage_def stage_accepts_def evaluate_condition_def
      resolve_path_def step_node_def flatten_terminal_def)

lemma sample_entity: "n \<in> {''fail'', ''ok''} \<Longrightarrow> entity_of sample_rule (ci_document (sample_input n)) = Some [(''user'', JStr ''root'')]"
  by (auto simp: entity_of_def sample_rule_def sample_input_def blank_def resolve_path_def step_node_def flatten_terminal_def)

lemma sample_hits: "hit_of (sample_input n) (sample_stage n) = (sample_hit n 0)\<lparr>summary := summarize (ci_document (sample_input n))\<rparr>"
  by (simp add: hit_of_def sample_input_def sample_stage_def sample_hit_def)

definition after_first :: cstate where
  "after_first = snd (process_rule (example_env 0) sample_rule (sample_input ''fail'') sample_state)"

lemma after_first_hits:
  "read_hits (hits after_first) (state_key sample_rule ''t1'' [(''user'', JStr ''root'')]) = [hit_of (sample_input ''fail'') (sample_stage ''fail'')]
   \<and> claims after_first = None"
proof -
  let ?k = "state_key sample_rule ''t1'' [(''user'', JStr ''root'')]" and ?h = "hit_of (sample_input ''fail'') (sample_stage ''fail'')"
  have t: "ci_tenant (sample_input ''fail'') = ''t1''" by (simp add: sample_input_def)
  have r: "record_hits ?k [] [?h] [] = ([?h], [(?k, [?h])])"
    by (simp add: append_hit_def read_hits_def Let_def DEFAULT_MAX_HITS_def)
  have "in_window [?h] 300 = [?h]" by (simp add: in_window_def newest_def)
  moreover have "ordered_completion sample_rule (group_hits [?h]) = None"
    by (simp add: ordered_completion_def sample_required read_group_hits Let_def hit_of_def sample_stage_def)
  ultimately have "completion sample_rule (in_window [?h] 300) = None" by (simp add: completion_def sample_required)
  hence e: "after_first = sample_state\<lparr>hits := [(?k, [?h])]\<rparr>"
    by (simp add: after_first_def process_rule_def sample_matching sample_entity sample_window t Let_def evaluate_chain_def
        sample_state_def r del: record_hits.simps)
  show ?thesis unfolding e by (simp add: read_hits_def sample_state_def)
qed

lemma sample_completes:
  "\<exists>m s. process_rule (example_env 0) sample_rule (sample_input ''ok'') after_first = (Inr (Some m), s)"
proof -
  let ?k = "state_key sample_rule ''t1'' [(''user'', JStr ''root'')]"
  let ?a = "hit_of (sample_input ''fail'') (sample_stage ''fail'')" and ?b = "hit_of (sample_input ''ok'') (sample_stage ''ok'')"
  have t: "ci_tenant (sample_input ''ok'') = ''t1''" by (simp add: sample_input_def)
  have "fst (record_hits ?k [] [?b] (hits after_first)) = read_hits (hits after_first) ?k @ [?b]"
    by (rule record_hits_memory) (simp_all add: after_first_hits DEFAULT_MAX_HITS_def)
  then obtain st where r: "record_hits ?k [] [?b] (hits after_first) = ([?a, ?b], st)"
    using after_first_hits by (cases "record_hits ?k [] [?b] (hits after_first)") auto
  have o: "occurred_at_ms ?a = 0" "occurred_at_ms ?b = 0" "claimed_at_ms ?a = 0" "claimed_at_ms ?b = 0"
    by (simp_all add: hit_of_def sample_input_def)
  have w: "in_window [?a, ?b] 300 = [?a, ?b]" by (simp add: in_window_def newest_def o)
  have n: "stage ?a = ''fail''" "stage ?b = ''ok''" by (simp_all add: hit_of_def sample_stage_def)
  have g: "group_hits [?a, ?b] = [(''fail'', [?a]), (''ok'', [?b])]" by (simp add: group_hits_def n read_hits_def)
  have c: "completion sample_rule [?a, ?b] = Some [?a, ?b]"
    unfolding completion_def g ordered_completion_def sample_required
    by (simp add: sample_required read_hits_def sample_stage_sel Let_def o)
  have i: "\<exists>x. iso (example_env 0) 0 = Inr x" by (simp add: iso_def microseconds_def trunc_def)
  then obtain x where x: "iso (example_env 0) 0 = Inr x" ..
  have "\<exists>m. build_correlation (example_env 0) k sample_rule ''t1'' entity [?a, ?b] [?a, ?b] = Inr m" for k entity
    by (simp add: build_correlation_def build_timeline_def timeline_entry_def o x Let_def)
  hence "\<exists>m s'. finish_correlation (example_env 0) sample_rule ''t1'' entity [?a, ?b] [?a, ?b] s = (Inr (Some m), s')" for entity s
    by (auto simp: finish_correlation_def split: sum.splits) (metis Inr_Inl_False)
  moreover have "cr_suppression_seconds sample_rule = Some 0" by (simp add: cr_suppression_seconds_def sample_rule_def)
  ultimately show ?thesis using after_first_hits
    by (simp add: process_rule_def sample_matching sample_entity sample_window t Let_def r evaluate_chain_def
        w c del: record_hits.simps)
qed

theorem correlation_match_sound_witness:
  "\<exists>m. m \<in> set (fst (process (example_env 0) \<lparr>ce_rules = [sample_rule], ce_state = after_first\<rparr> (sample_input ''ok'')))
     \<and> cm_correlation_id m = ''COR-001'' \<and> cm_tenant m = ''t1'' \<and> span_seconds m \<le> 300"
proof -
  let ?g = "\<lparr>ce_rules = [sample_rule], ce_state = after_first\<rparr>"
  obtain m s where "process_rule (example_env 0) sample_rule (sample_input ''ok'') after_first = (Inr (Some m), s)"
    using sample_completes by blast
  hence m: "m \<in> set (fst (process (example_env 0) ?g (sample_input ''ok'')))" by (simp add: process_def)
  from correlation_match_sound [OF m] m sample_valid show ?thesis
    by (auto simp: sample_window) (auto simp: sample_rule_def sample_input_def)
qed

end
