(* ===== verification/Risk.thy ===== *)
theory Risk
  imports Correlation Py_Ops
begin

text \<open>
  The risk engine (\<open>risk/model.py\<close>, \<open>risk/factors.py\<close>, \<open>risk/engine.py\<close>):
  the weight table, the seven factors with their reasons and inputs, the weighted mean with its
  floored denominator, the explanation and the stamping of detections and correlations. All
  arithmetic is on doubles, with the rounding steps of the code in the code's order; \<open>sum\<close>
  is CPython's compensated summation. \<open>WEIGHTS_FINGERPRINT\<close>, a SHA-256 over the table, is
  an argument.
\<close>

section \<open>The weight table\<close>

datatype risk_bucket = R_LOW | R_MEDIUM | R_HIGH | R_CRITICAL

fun bucket_value :: "risk_bucket \<Rightarrow> string" where
  "bucket_value R_LOW = ''LOW''" | "bucket_value R_MEDIUM = ''MEDIUM''"
| "bucket_value R_HIGH = ''HIGH''" | "bucket_value R_CRITICAL = ''CRITICAL''"

definition BUCKET_BOUNDARIES :: "(int \<times> risk_bucket) list" where
  "BUCKET_BOUNDARIES = [(75, R_CRITICAL), (50, R_HIGH), (25, R_MEDIUM), (0, R_LOW)]"

definition bucket_for :: "int \<Rightarrow> risk_bucket" where
  "bucket_for score = (case find (\<lambda>(t, b). score \<ge> t) BUCKET_BOUNDARIES of Some (t, b) \<Rightarrow> b | None \<Rightarrow> R_LOW)"

datatype factor = SEVERITY_F | CONFIDENCE_F | ASSET_CRITICALITY_F | USER_RISK_F | THREAT_INTEL_F | MITRE_CONTEXT_F | BEHAVIORAL_ANOMALY_F

fun factor_value :: "factor \<Rightarrow> string" where
  "factor_value SEVERITY_F = ''severity''" | "factor_value CONFIDENCE_F = ''confidence''"
| "factor_value ASSET_CRITICALITY_F = ''asset_criticality''" | "factor_value USER_RISK_F = ''user_risk''"
| "factor_value THREAT_INTEL_F = ''threat_intel''" | "factor_value MITRE_CONTEXT_F = ''mitre_context''"
| "factor_value BEHAVIORAL_ANOMALY_F = ''behavioral_anomaly''"

fun WEIGHTS :: "factor \<Rightarrow> rat" where
  "WEIGHTS SEVERITY_F = 30" | "WEIGHTS CONFIDENCE_F = 15" | "WEIGHTS ASSET_CRITICALITY_F = 20" | "WEIGHTS USER_RISK_F = 10"
| "WEIGHTS THREAT_INTEL_F = 15" | "WEIGHTS MITRE_CONTEXT_F = 7" | "WEIGHTS BEHAVIORAL_ANOMALY_F = 3"

definition ALL_FACTORS :: "factor list" where
  "ALL_FACTORS = [SEVERITY_F, CONFIDENCE_F, ASSET_CRITICALITY_F, USER_RISK_F, THREAT_INTEL_F, MITRE_CONTEXT_F, BEHAVIORAL_ANOMALY_F]"

definition MINIMUM_DENOMINATOR :: rat where "MINIMUM_DENOMINATOR = 60"
definition FORMULA_VERSION :: string where "FORMULA_VERSION = ''risk-v1''"

record factor_score =
  fs_factor :: factor
  fs_value :: rat
  fs_weight :: rat
  fs_points :: rat
  fs_available :: bool
  fs_reason :: string
  fs_inputs :: document

record risk_assessment =
  ra_score :: int
  ra_bucket :: risk_bucket
  formula_version :: string
  weights_fingerprint :: string
  factors :: "factor_score list"

section \<open>Factors\<close>

definition SEVERITY_VALUES :: "rat dict" where
  "SEVERITY_VALUES = [(''informational'', 0), (''low'', 1/4), (''medium'', 1/2), (''high'', 3/4), (''critical'', 1)]"

definition CRITICALITY_VALUES :: "rat dict" where
  "CRITICALITY_VALUES = [(''LOW'', 1/4), (''MEDIUM'', 1/2), (''HIGH'', 3/4), (''CRITICAL'', 1)]"

definition IOC_CLASSIFICATION_VALUES :: "rat dict" where
  "IOC_CLASSIFICATION_VALUES = [(''malicious'', 1), (''suspicious'', fl (6/10)), (''unknown'', fl (3/10)), (''benign'', 0)]"

definition TECHNIQUE_IMPACT :: "rat dict" where
  "TECHNIQUE_IMPACT = [(''T1003'', 1), (''T1486'', 1), (''T1490'', fl (9/10)), (''T1041'', fl (9/10)), (''T1567'', fl (9/10)),
     (''T1078'', fl (8/10)), (''T1098'', fl (8/10)), (''T1021'', fl (7/10)), (''T1543'', fl (7/10)), (''T1547'', fl (6/10)),
     (''T1053'', fl (6/10)), (''T1070'', fl (6/10)), (''T1059'', 1/2), (''T1566'', 1/2), (''T1110'', fl (4/10)),
     (''T1027'', fl (4/10))]"

definition DEFAULT_TECHNIQUE_IMPACT :: rat where "DEFAULT_TECHNIQUE_IMPACT = fl (4/10)"

fun fin_of :: "pyfloat \<Rightarrow> rat" where
  "fin_of (Fin x) = x" | "fin_of _ = 0"

text \<open>\<open>max(0.0, min(1.0, value))\<close>, which is always finite; a NaN becomes 1.\<close>

definition clamp :: "pyfloat \<Rightarrow> rat" where
  "clamp v = fin_of (f_max (Fin 0) (f_min (Fin 1) v))"

definition score_factor :: "factor \<Rightarrow> pyfloat option \<Rightarrow> string \<Rightarrow> document \<Rightarrow> factor_score" where
  "score_factor f v why inputs = (case v of
     None \<Rightarrow> \<lparr>fs_factor = f, fs_value = 0, fs_weight = WEIGHTS f, fs_points = 0, fs_available = False,
               fs_reason = why, fs_inputs = inputs\<rparr>
   | Some x \<Rightarrow> \<lparr>fs_factor = f, fs_value = round_dec 4 (clamp x), fs_weight = WEIGHTS f,
               fs_points = round_dec 4 (fl (WEIGHTS f * clamp x)), fs_available = True,
               fs_reason = why, fs_inputs = inputs\<rparr>)"

definition severity_factor :: "json \<Rightarrow> eval_error + factor_score" where
  "severity_factor s =
     (if \<not> py_truthy s then Inr (score_factor SEVERITY_F None ''no severity on the detection'' [(''severity'', s)])
      else bind_res (py_text s) (\<lambda>t. case dict_get SEVERITY_VALUES (str_lower t) of
          None \<Rightarrow> Inr (score_factor SEVERITY_F None ''no severity on the detection'' [(''severity'', s)])
        | Some v \<Rightarrow> Inr (score_factor SEVERITY_F (Some (Fin v)) (''rule severity is '' @ str_lower t) [(''severity'', s)])))"

definition confidence_factor :: "json \<Rightarrow> eval_error + factor_score" where
  "confidence_factor c =
     (if c = JNull then Inr (score_factor CONFIDENCE_F None ''no confidence recorded'' [])
      else bind_res (py_float c) (\<lambda>x. bind_res (py_int c) (\<lambda>i.
        Inr (score_factor CONFIDENCE_F (Some (f_div x 100)) (''rule confidence is '' @ show_int i @ ''%'') [(''confidence'', c)]))))"

definition asset_criticality_factor :: "string option \<Rightarrow> factor_score" where
  "asset_criticality_factor c =
     (let unknown = score_factor ASSET_CRITICALITY_F None ''asset unknown to the inventory''
            [(''criticality'', case c of None \<Rightarrow> JNull | Some s \<Rightarrow> JStr s)] in
      case c of None \<Rightarrow> unknown
      | Some s \<Rightarrow> (case dict_get CRITICALITY_VALUES (str_upper s) of None \<Rightarrow> unknown
          | Some v \<Rightarrow> score_factor ASSET_CRITICALITY_F (Some (Fin v)) (''asset criticality is '' @ str_upper s)
              [(''criticality'', JStr (str_upper s))]))"

definition user_risk_factor :: "pyfloat option \<Rightarrow> factor_score" where
  "user_risk_factor u = (case u of None \<Rightarrow> score_factor USER_RISK_F None ''no user risk score available'' []
     | Some x \<Rightarrow> score_factor USER_RISK_F (Some (f_div x 100)) (''user risk score is '' @ show_fixed 0 x @ ''/100'')
         [(''user_risk_score'', JFloat x)])"

text \<open>One indicator match: its weighted value and what is reported of it.\<close>

definition ioc_match_value :: "json \<Rightarrow> eval_error + rat \<times> document" where
  "ioc_match_value m = (case m of
     JObj d \<Rightarrow>
       let classification = str_lower (py_str (get_default d ''classification'' (JStr ''unknown''))) in
       bind_res (py_float (get_default d ''confidence'' (JInt 100))) (\<lambda>x.
         Inr (fl ((case dict_get IOC_CLASSIFICATION_VALUES classification of Some v \<Rightarrow> v | None \<Rightarrow> fl (3/10)) * clamp (f_div x 100)),
           [(''value'', get d ''value''), (''classification'', JStr classification),
            (''confidence'', get_default d ''confidence'' (JInt 100)), (''source'', get d ''source'')]))
   | _ \<Rightarrow> Inr (fl (fl (3/10) * clamp (Fin 1)), [(''value'', JStr (py_str m)), (''classification'', JStr ''unknown'')]))"

fun best_match :: "json list \<Rightarrow> rat \<times> document \<Rightarrow> eval_error + rat \<times> document" where
  "best_match [] best = Inr best"
| "best_match (m # ms) best = bind_res (ioc_match_value m) (\<lambda>(v, detail).
     best_match ms (if v > fst best then (v, detail) else best))"

definition threat_intel_factor :: "json list option \<Rightarrow> bool \<Rightarrow> eval_error + factor_score" where
  "threat_intel_factor found enrichment_ran = (case found of
     None \<Rightarrow> Inr (score_factor THREAT_INTEL_F None ''threat intel not consulted'' [])
   | Some ms \<Rightarrow>
       if \<not> enrichment_ran then Inr (score_factor THREAT_INTEL_F None ''threat intel not consulted'' [])
       else if ms = [] then Inr (score_factor THREAT_INTEL_F (Some (Fin 0)) ''no indicator matched'' [(''matches'', JInt 0)])
       else bind_res (best_match ms (0, [])) (\<lambda>(best, detail).
         Inr (score_factor THREAT_INTEL_F (Some (Fin best))
           (show_nat (length ms) @ '' indicator match(es), strongest ''
              @ py_str (get_default detail ''classification'' (JStr ''unknown'')) @ '' at ''
              @ py_str (get_default detail ''confidence'' (JInt 100)) @ ''% confidence'')
           [(''matches'', JInt (int (length ms))), (''strongest'', JObj detail)])))"

definition technique_impact :: "string \<Rightarrow> rat" where
  "technique_impact technique = (case dict_get TECHNIQUE_IMPACT (hd (split_on (CHR ''.'') technique)) of
     Some v \<Rightarrow> v
   | None \<Rightarrow> (case dict_get TECHNIQUE_IMPACT technique of Some v \<Rightarrow> v | None \<Rightarrow> DEFAULT_TECHNIQUE_IMPACT))"

text \<open>\<open>max(impacts, key=...)\<close>: the first key with the largest impact.\<close>

fun worst_technique :: "string list \<Rightarrow> string" where
  "worst_technique [] = []"
| "worst_technique (t # ts) = fold (\<lambda>u best. if technique_impact u > technique_impact best then u else best) ts t"

definition mitre_context_factor :: "json list \<Rightarrow> eval_error + factor_score" where
  "mitre_context_factor techniques =
     (if techniques = [] then Inr (score_factor MITRE_CONTEXT_F None ''no ATT&CK technique mapped'' [])
      else bind_res (map_res py_text techniques) (\<lambda>ts. let worst = worst_technique ts in
        Inr (score_factor MITRE_CONTEXT_F (Some (Fin (technique_impact worst))) (''highest-impact technique is '' @ worst)
          [(''techniques'', JList techniques), (''worst'', JStr worst)])))"

definition behavioral_anomaly_factor :: "json \<Rightarrow> eval_error + factor_score" where
  "behavioral_anomaly_factor anomaly =
     (if \<not> py_truthy anomaly then Inr (score_factor BEHAVIORAL_ANOMALY_F None ''no behavioural baseline yet'' [])
      else bind_res (obj_get anomaly ''score'' (JFloat (Fin 0))) (\<lambda>s. bind_res (py_float s) (\<lambda>score.
        bind_res (obj_get anomaly ''confidence'' (JInt 100)) (\<lambda>c. bind_res (py_float c) (\<lambda>conf.
        Inr (score_factor BEHAVIORAL_ANOMALY_F (Some (f_mul score (Fin (clamp (f_div conf 100)))))
          (''anomaly score '' @ show_fixed 2 score @ '' at '' @ py_str c @ ''% confidence'') [(''anomaly'', anomaly)]))))))"

section \<open>The engine\<close>

record risk_context =
  rc_severity :: json
  rc_confidence :: json
  rc_asset :: "string option"
  rc_user_risk :: "pyfloat option"
  rc_ioc_matches :: "json list option"
  rc_enrichment_ran :: bool
  rc_mitre :: "json list"
  rc_anomaly :: json

definition available_of :: "factor_score list \<Rightarrow> factor_score list" where
  "available_of fs = filter fs_available fs"

definition score_of :: "factor_score list \<Rightarrow> int" where
  "score_of fs = (let available = available_of fs; weight = float_sum (map fs_weight available);
      raw = (if weight \<le> 0 then 0
             else round_half_even (fl (fl (100 * float_sum (map fs_points available)) / max weight MINIMUM_DENOMINATOR)))
    in max 0 (min 100 raw))"

definition assess :: "string \<Rightarrow> risk_context \<Rightarrow> eval_error + risk_assessment" where
  "assess fingerprint c =
     bind_res (severity_factor (rc_severity c)) (\<lambda>f1.
     bind_res (confidence_factor (rc_confidence c)) (\<lambda>f2.
     let f3 = asset_criticality_factor (rc_asset c); f4 = user_risk_factor (rc_user_risk c) in
     bind_res (threat_intel_factor (rc_ioc_matches c) (rc_enrichment_ran c)) (\<lambda>f5.
     bind_res (mitre_context_factor (rc_mitre c)) (\<lambda>f6.
     bind_res (behavioral_anomaly_factor (rc_anomaly c)) (\<lambda>f7.
     let fs = [f1, f2, f3, f4, f5, f6, f7]; score = score_of fs in
     Inr \<lparr>ra_score = score, ra_bucket = bucket_for score, formula_version = FORMULA_VERSION,
       weights_fingerprint = fingerprint, factors = fs\<rparr>)))))"

definition factor_document :: "factor_score \<Rightarrow> document" where
  "factor_document f = [(''factor'', JStr (factor_value (fs_factor f))), (''value'', JFloat (Fin (fs_value f))),
     (''weight'', JFloat (Fin (fs_weight f))), (''points'', JFloat (Fin (fs_points f))), (''available'', JBool (fs_available f)),
     (''reason'', JStr (fs_reason f)), (''inputs'', JObj (fs_inputs f))]"

definition risk_summary :: "risk_assessment \<Rightarrow> string" where
  "risk_summary a = (let contributing = sort_key (\<lambda>f. - fs_points f) (filter (\<lambda>f. fs_points f > 0) (available_of (factors a)));
      head = show_int (ra_score a) @ ''/100 ('' @ bucket_value (ra_bucket a) @ '')'' in
     if contributing = [] then head @ '': no factor contributed''
     else head @ '' driven by '' @ str_join '', '' (map (\<lambda>f. factor_value (fs_factor f) @ '' ''
            @ show_fixed_rat 1 (fs_points f) @ ''pts ('' @ fs_reason f @ '')'') (take 3 contributing)))"

definition explanation :: "risk_assessment \<Rightarrow> document" where
  "explanation a = (let available = available_of (factors a); weight = float_sum (map fs_weight available) in
    [(''score'', JInt (ra_score a)), (''bucket'', JStr (bucket_value (ra_bucket a))),
     (''formula_version'', JStr (formula_version a)), (''weights_fingerprint'', JStr (weights_fingerprint a)),
     (''available_weight'', if available = [] then JInt 0 else JFloat (Fin (round_dec 2 weight))),
     (''denominator'', JFloat (Fin (if available = [] then 0 else round_dec 2 (max weight MINIMUM_DENOMINATOR)))),
     (''total_weight'', JFloat (Fin (round_dec 2 (float_sum (map WEIGHTS ALL_FACTORS))))),
     (''factors'', JList (map (\<lambda>f. JObj (factor_document f)) (factors a))),
     (''summary'', JStr (risk_summary a))])"

definition asset_criticality_of :: "document \<Rightarrow> string option" where
  "asset_criticality_of doc =
     (let from_context = (case get doc ''risk_context'' of
            JObj rc \<Rightarrow> if py_truthy (get rc ''asset_criticality'') then Some (py_str (get rc ''asset_criticality'')) else None
          | _ \<Rightarrow> None) in
      case get doc ''asset'' of
        JObj a \<Rightarrow> if py_truthy (get a ''criticality'') then Some (py_str (get a ''criticality'')) else from_context
      | _ \<Rightarrow> from_context)"

definition user_risk_of :: "document \<Rightarrow> eval_error + pyfloat option" where
  "user_risk_of doc = (case get doc ''risk_context'' of
     JObj rc \<Rightarrow> if get rc ''user_risk_score'' \<noteq> JNull
       then bind_res (py_float (get rc ''user_risk_score'')) (\<lambda>x. Inr (Some x)) else Inr None
   | _ \<Rightarrow> Inr None)"

definition intel_of :: "document \<Rightarrow> eval_error + json list option \<times> bool" where
  "intel_of doc = (if py_truthy (get doc ''enrichment_partial'') then Inr (None, False)
     else if get doc ''ioc_matches'' = JNull then Inr (None, False)
     else bind_res (py_iter (get doc ''ioc_matches'')) (\<lambda>ms. Inr (Some ms, True)))"

text \<open>\<open>{**(v or {})}\<close>: unpacking needs a mapping.\<close>

definition unpack :: "json \<Rightarrow> eval_error + document" where
  "unpack v = (if \<not> py_truthy v then Inr [] else case v of JObj d \<Rightarrow> Inr d | _ \<Rightarrow> Inl TypeError)"

definition list_or_empty :: "json \<Rightarrow> eval_error + json list" where
  "list_or_empty v = py_iter (py_or v (JList []))"

definition context_from_detection :: "document \<Rightarrow> document option \<Rightarrow> eval_error + risk_context" where
  "context_from_detection d event =
     bind_res (unpack (get d ''evidence'')) (\<lambda>ev.
     let source = dict_merge ev (case event of None \<Rightarrow> [] | Some e \<Rightarrow> e) in
     bind_res (intel_of source) (\<lambda>(found, ran).
     bind_res (user_risk_of source) (\<lambda>user.
     bind_res (list_or_empty (get d ''mitre_attack'')) (\<lambda>mitre.
     Inr \<lparr>rc_severity = get d ''severity'', rc_confidence = get d ''confidence'', rc_asset = asset_criticality_of source,
       rc_user_risk = user, rc_ioc_matches = found, rc_enrichment_ran = ran, rc_mitre = mitre,
       rc_anomaly = get source ''anomaly''\<rparr>))))"

definition criticality_rank :: "string \<Rightarrow> int" where
  "criticality_rank s = (case dict_get [(''LOW'', 0), (''MEDIUM'', 1), (''HIGH'', 2), (''CRITICAL'', 3)] (str_upper s) of
     Some n \<Rightarrow> n | None \<Rightarrow> -1)"

fun worst_criticality :: "string list \<Rightarrow> string option" where
  "worst_criticality [] = None"
| "worst_criticality (c # cs) = Some (fold (\<lambda>d best. if criticality_rank d > criticality_rank best then d else best) cs c)"

text \<open>\<open>entry.get("summary", {})\<close> of the timeline entries that are dictionaries; every later
  use of a summary needs it to be a dictionary.\<close>

definition timeline_summaries :: "document \<Rightarrow> eval_error + document list" where
  "timeline_summaries c = bind_res (py_iter (get_default c ''timeline'' (JList []))) (\<lambda>entries.
     map_res (\<lambda>s. case s of JObj d \<Rightarrow> Inr d | _ \<Rightarrow> Inl AttributeError)
       (List.map_filter (\<lambda>en. case en of JObj d \<Rightarrow> Some (get_default d ''summary'' (JObj [])) | _ \<Rightarrow> None) entries))"

fun gather_matches :: "document list \<Rightarrow> eval_error + json list" where
  "gather_matches [] = Inr []"
| "gather_matches (s # ss) = bind_res (intel_of s) (\<lambda>(found, ran). bind_res (gather_matches ss) (\<lambda>rest.
     Inr ((case found of Some ms \<Rightarrow> if ran then ms else [] | None \<Rightarrow> []) @ rest)))"

text \<open>\<open>next((v for v in ... if v), None)\<close>: the first user risk that is not zero.\<close>

fun first_user_risk :: "document list \<Rightarrow> eval_error + pyfloat option" where
  "first_user_risk [] = Inr None"
| "first_user_risk (s # ss) = bind_res (user_risk_of s) (\<lambda>u. case u of
     Some x \<Rightarrow> if x \<noteq> Fin 0 then Inr (Some x) else first_user_risk ss
   | None \<Rightarrow> first_user_risk ss)"

definition context_from_correlation :: "document \<Rightarrow> eval_error + risk_context" where
  "context_from_correlation c =
     bind_res (timeline_summaries c) (\<lambda>summaries.
     bind_res (gather_matches summaries) (\<lambda>matches.
     bind_res (first_user_risk summaries) (\<lambda>user.
     bind_res (list_or_empty (get c ''mitre_attack'')) (\<lambda>mitre.
     Inr \<lparr>rc_severity = get c ''severity'', rc_confidence = get c ''confidence'',
       rc_asset = worst_criticality (List.map_filter asset_criticality_of summaries), rc_user_risk = user,
       rc_ioc_matches = (if matches = [] then None else Some matches), rc_enrichment_ran = (matches \<noteq> []),
       rc_mitre = mitre, rc_anomaly = JNull\<rparr>))))"

definition stamp :: "document \<Rightarrow> risk_assessment \<Rightarrow> document" where
  "stamp d a = dict_merge d [(''rule_risk_score'', get d ''risk_score''), (''risk_score'', JInt (ra_score a)),
     (''risk_bucket'', JStr (bucket_value (ra_bucket a))), (''risk_explanation'', JObj (explanation a))]"

definition apply_to_detection :: "string \<Rightarrow> document \<Rightarrow> document option \<Rightarrow> eval_error + document" where
  "apply_to_detection fingerprint d event = bind_res (context_from_detection d event) (\<lambda>c.
     bind_res (assess fingerprint c) (\<lambda>a. Inr (stamp d a)))"

definition apply_to_correlation :: "string \<Rightarrow> document \<Rightarrow> eval_error + document" where
  "apply_to_correlation fingerprint c = bind_res (context_from_correlation c) (\<lambda>rc.
     bind_res (assess fingerprint rc) (\<lambda>a. Inr (stamp c a)))"

section \<open>Bounds of a factor\<close>

lemma clamp_bounds: "0 \<le> clamp v" "clamp v \<le> 1"
  by (cases v; simp add: clamp_def f_max_def f_min_def)+

lemma weights_int: "\<exists>n. WEIGHTS f = of_int n \<and> 0 < n \<and> n \<le> 30"
proof (cases f)
  case SEVERITY_F
  thus ?thesis by (intro exI [of _ 30]) simp
next
  case CONFIDENCE_F
  thus ?thesis by (intro exI [of _ 15]) simp
next
  case ASSET_CRITICALITY_F
  thus ?thesis by (intro exI [of _ 20]) simp
next
  case USER_RISK_F
  thus ?thesis by (intro exI [of _ 10]) simp
next
  case THREAT_INTEL_F
  thus ?thesis by (intro exI [of _ 15]) simp
next
  case MITRE_CONTEXT_F
  thus ?thesis by (intro exI [of _ 7]) simp
next
  case BEHAVIORAL_ANOMALY_F
  thus ?thesis by (intro exI [of _ 3]) simp
qed

lemma round_dec_between:
  assumes "of_int a \<le> x" "x \<le> of_int b" "\<bar>a\<bar> \<le> 2 ^ 53" "\<bar>b\<bar> \<le> 2 ^ 53"
  shows "of_int a \<le> round_dec n x" "round_dec n x \<le> of_int b"
  using round_dec_mono [OF assms(1), of n] round_dec_mono [OF assms(2), of n] round_dec_int assms(3,4) by auto

definition factor_ok :: "factor_score \<Rightarrow> bool" where
  "factor_ok f \<longleftrightarrow> fs_weight f = WEIGHTS (fs_factor f) \<and> 0 \<le> fs_value f \<and> fs_value f \<le> 1 \<and>
     0 \<le> fs_points f \<and> fs_points f \<le> fs_weight f \<and> (\<not> fs_available f \<longrightarrow> fs_points f = 0)"

lemma factor_ok_weight: "factor_ok f \<Longrightarrow> \<exists>n. fs_weight f = of_int n \<and> 0 \<le> n \<and> n \<le> 30"
  using weights_int [of "fs_factor f"] by (auto simp: factor_ok_def)

lemma score_factor_ok: "factor_ok (score_factor f v why inputs)"
proof (cases v)
  case None
  thus ?thesis using weights_int [of f] by (auto simp: factor_ok_def score_factor_def)
next
  case (Some x)
  obtain n where n: "WEIGHTS f = of_int n" "0 < n" "n \<le> 30" using weights_int by blast
  have "0 \<le> WEIGHTS f * clamp x" "WEIGHTS f * clamp x \<le> of_int n"
    using clamp_bounds [of x] n(1,2) by (simp_all add: mult_left_le)
  hence p: "of_int 0 \<le> fl (WEIGHTS f * clamp x)" "fl (WEIGHTS f * clamp x) \<le> of_int n"
    using fl_nonneg fl_le_int [of _ n] n(2,3) by simp_all
  have "of_int 0 \<le> round_dec 4 (fl (WEIGHTS f * clamp x))" "round_dec 4 (fl (WEIGHTS f * clamp x)) \<le> of_int n"
    using round_dec_between [OF p] n(2,3) by simp_all
  moreover have "of_int 0 \<le> round_dec 4 (clamp x)" "round_dec 4 (clamp x) \<le> of_int 1"
    using round_dec_between [of 0 "clamp x" 1 4] clamp_bounds [of x] by simp_all
  ultimately show ?thesis using Some n(1) by (simp add: factor_ok_def score_factor_def)
qed

lemma score_factor_factor [simp]: "fs_factor (score_factor f v why inputs) = f"
  by (simp add: score_factor_def split: option.splits)

lemma factor_shapes:
  shows "severity_factor s = Inr f \<Longrightarrow> \<exists>v w i. f = score_factor SEVERITY_F v w i"
    and "confidence_factor c = Inr f \<Longrightarrow> \<exists>v w i. f = score_factor CONFIDENCE_F v w i"
    and "\<exists>v w i. asset_criticality_factor a = score_factor ASSET_CRITICALITY_F v w i"
    and "\<exists>v w i. user_risk_factor u = score_factor USER_RISK_F v w i"
    and "threat_intel_factor ms ok = Inr f \<Longrightarrow> \<exists>v w i. f = score_factor THREAT_INTEL_F v w i"
    and "mitre_context_factor ts = Inr f \<Longrightarrow> \<exists>v w i. f = score_factor MITRE_CONTEXT_F v w i"
    and "behavioral_anomaly_factor an = Inr f \<Longrightarrow> \<exists>v w i. f = score_factor BEHAVIORAL_ANOMALY_F v w i"
  by (auto simp: severity_factor_def confidence_factor_def asset_criticality_factor_def user_risk_factor_def
      threat_intel_factor_def mitre_context_factor_def behavioral_anomaly_factor_def Let_def bind_res_Inr
      split: if_splits option.splits prod.splits)

lemma assess_factors:
  assumes "assess fp c = Inr a"
  shows "map fs_factor (factors a) = ALL_FACTORS" "\<forall>f \<in> set (factors a). factor_ok f"
    "ra_score a = score_of (factors a)" "ra_bucket a = bucket_for (ra_score a)"
proof -
  obtain f1 f2 f5 f6 f7 where f: "severity_factor (rc_severity c) = Inr f1" "confidence_factor (rc_confidence c) = Inr f2"
    "threat_intel_factor (rc_ioc_matches c) (rc_enrichment_ran c) = Inr f5" "mitre_context_factor (rc_mitre c) = Inr f6"
    "behavioral_anomaly_factor (rc_anomaly c) = Inr f7"
    and a: "factors a = [f1, f2, asset_criticality_factor (rc_asset c), user_risk_factor (rc_user_risk c), f5, f6, f7]"
      "ra_score a = score_of (factors a)" "ra_bucket a = bucket_for (ra_score a)"
    using assms by (auto simp: assess_def Let_def bind_res_Inr)
  note sh = factor_shapes(1) [OF f(1)] factor_shapes(2) [OF f(2)] factor_shapes(3) [of "rc_asset c"]
    factor_shapes(4) [of "rc_user_risk c"] factor_shapes(5) [OF f(3)] factor_shapes(6) [OF f(4)] factor_shapes(7) [OF f(5)]
  show "map fs_factor (factors a) = ALL_FACTORS" using sh by (auto simp: a(1) ALL_FACTORS_def)
  show "\<forall>f \<in> set (factors a). factor_ok f" using sh score_factor_ok by (auto simp: a(1))
  show "ra_score a = score_of (factors a)" "ra_bucket a = bucket_for (ra_score a)" using a(2,3) .
qed

section \<open>The weighted mean\<close>

lemma score_of_range: "0 \<le> score_of fs" "score_of fs \<le> 100"
  by (simp_all add: score_of_def Let_def)

lemma neumaier_ints:
  "list_all (\<lambda>n. 0 \<le> n) ns \<Longrightarrow> 0 \<le> s \<Longrightarrow> s + sum_list ns \<le> 2 ^ 53 \<Longrightarrow>
   neumaier (of_int s) 0 (map of_int ns) = of_int (s + sum_list ns)"
proof (induction ns arbitrary: s)
  case (Cons n ns)
  have nn: "0 \<le> sum_list ns" using Cons.prems(1) by (intro sum_list_nonneg) (simp add: list_all_iff)
  have t: "fl (of_int s + of_int n) = of_int (s + n)"
    using fl_int [of "s + n"] Cons.prems nn by simp
  have d: "fl (fl (of_int s - of_int (s + n)) + of_int n) = 0" "fl (fl (of_int n - of_int (s + n)) + of_int s) = 0"
    using fl_int [of "- n"] fl_int [of "- s"] Cons.prems nn by simp_all
  have "neumaier (of_int s) 0 (map of_int (n # ns)) = neumaier (of_int (s + n)) 0 (map of_int ns)"
    by (simp only: list.map neumaier.simps t Let_def d) simp
  also have "\<dots> = of_int ((s + n) + sum_list ns)" by (rule Cons.IH) (use Cons.prems in auto)
  finally show ?case by (simp add: add.assoc)
qed simp

lemma float_sum_ints:
  assumes "list_all (\<lambda>n. 0 \<le> n) ns" "sum_list ns \<le> 2 ^ 53"
  shows "float_sum (map of_int ns) = of_int (sum_list ns)"
proof (cases ns)
  case (Cons n rest)
  have "0 \<le> sum_list rest" using assms(1) Cons by (intro sum_list_nonneg) (simp add: list_all_iff)
  hence "fl (of_int n) = of_int n" using fl_int [of n] assms Cons by simp
  with neumaier_ints [of rest n] assms Cons show ?thesis by (simp add: float_sum_def)
qed (simp add: float_sum_def)

lemma score_of_single:
  assumes "available_of fs = [f]" "factor_ok f" "fs_factor f = BEHAVIORAL_ANOMALY_F"
  shows "score_of fs \<le> 5"
proof -
  have w: "fs_weight f = 3" "0 \<le> fs_points f" "fs_points f \<le> 3" using assms(2,3) by (auto simp: factor_ok_def)
  have "fl (3::rat) = 3" using fl_int [of 3] by simp
  hence sw: "float_sum (map fs_weight (available_of fs)) = 3" using assms(1) w(1) by (simp add: float_sum_def)
  have sp: "float_sum (map fs_points (available_of fs)) = fl (fs_points f)" using assms(1) by (simp add: float_sum_def)
  have "fl (fs_points f) \<le> 3" using fl_le_int [of "fs_points f" 3] w(3) by simp
  hence "fl (100 * fl (fs_points f)) \<le> 300" using fl_le_int [of "100 * fl (fs_points f)" 300] by simp
  hence "fl (fl (100 * fl (fs_points f)) / 60) \<le> 5" using fl_le_int [of "fl (100 * fl (fs_points f)) / 60" 5] by simp
  hence "round_half_even (fl (fl (100 * fl (fs_points f)) / 60)) \<le> 5"
    using round_half_even_mono [of _ "5::rat"] by fastforce
  thus ?thesis by (simp add: score_of_def Let_def sw sp MINIMUM_DENOMINATOR_def)
qed

lemma score_of_none: "available_of fs = [] \<Longrightarrow> score_of fs = 0"
  by (simp add: score_of_def float_sum_def)

lemma score_of_full:
  assumes "\<forall>f \<in> set (available_of fs). \<exists>n. fs_weight f = of_int n \<and> 0 \<le> n \<and> fs_points f = fs_weight f"
    and "60 \<le> (\<Sum>f \<leftarrow> available_of fs. fs_weight f)" and "(\<Sum>f \<leftarrow> available_of fs. fs_weight f) \<le> 1000"
  shows "score_of fs = 100"
proof -
  define ns where "ns = map (\<lambda>f. \<lfloor>fs_weight f\<rfloor>) (available_of fs)"
  have w: "map fs_weight (available_of fs) = map of_int ns" unfolding ns_def using assms(1) by (auto simp: o_def)
  have p: "map fs_points (available_of fs) = map of_int ns" unfolding ns_def using assms(1) by (auto simp: o_def)
  have nn: "list_all (\<lambda>n. 0 \<le> n) ns" using assms(1) by (auto simp: ns_def list_all_iff)
  have "sum_list (map of_int ns) = (of_int (sum_list ns) :: rat)" by (induction ns) auto
  hence "of_int 60 \<le> (of_int (sum_list ns) :: rat)" "(of_int (sum_list ns) :: rat) \<le> of_int 1000"
    using assms(2,3) unfolding w by simp_all
  hence b: "60 \<le> sum_list ns" "sum_list ns \<le> 1000" by (simp_all only: of_int_le_iff)
  have sum: "float_sum (map of_int ns) = of_int (sum_list ns)" using float_sum_ints [OF nn] b(2) by simp
  have "fl (100 * of_int (sum_list ns)) = of_int (100 * sum_list ns)" using fl_int [of "100 * sum_list ns"] b by simp
  hence "fl (fl (100 * of_int (sum_list ns)) / of_int (sum_list ns)) = 100" using b fl_int [of 100] by simp
  moreover have "max (of_int (sum_list ns)) 60 = (of_int (sum_list ns) :: rat)"
    using b(1) by (metis max.absorb1 of_int_le_iff of_int_numeral)
  ultimately show ?thesis using b(1) by (simp add: score_of_def Let_def w p sum MINIMUM_DENOMINATOR_def)
qed

section \<open>Properties\<close>

text \<open>C11: whatever the document holds, an assessment scores all seven factors, in their order,
  each with its own weight; no factor's value leaves [0, 1], none contributes less than nothing
  or more than its weight, an unavailable one contributes nothing, the score is between 0 and
  100 and the bucket is the one the boundaries give it.\<close>

theorem assessment_within_bounds:
  assumes "assess fp c = Inr a"
  shows "map fs_factor (factors a) = ALL_FACTORS \<and> (\<forall>f \<in> set (factors a). factor_ok f) \<and>
    0 \<le> ra_score a \<and> ra_score a \<le> 100 \<and> ra_bucket a = bucket_for (ra_score a)"
  using assess_factors [OF assms] score_of_range by simp

text \<open>A statistical anomaly alone never raises an alarm: if no other factor had data, the
  score is at most 5 and the bucket is LOW, whatever score and confidence the anomaly detector
  reports.\<close>

theorem anomaly_alone_stays_low:
  assumes "assess fp c = Inr a" and "\<forall>f \<in> set (factors a). fs_available f \<longrightarrow> fs_factor f = BEHAVIORAL_ANOMALY_F"
  shows "ra_score a \<le> 5 \<and> ra_bucket a = R_LOW"
proof -
  note f = assess_factors [OF assms(1)]
  have d: "distinct (map fs_factor (factors a))" by (simp add: f(1) ALL_FACTORS_def)
  have sub: "set (map fs_factor (available_of (factors a))) \<subseteq> {BEHAVIORAL_ANOMALY_F}"
    using assms(2) by (auto simp: available_of_def)
  have "distinct (map fs_factor (available_of (factors a)))" using d by (simp add: available_of_def distinct_map_filter)
  hence "length (available_of (factors a)) \<le> 1"
    using sub card_mono [OF _ sub] distinct_card [of "map fs_factor (available_of (factors a))"] by simp
  then consider "available_of (factors a) = []" | g where "available_of (factors a) = [g]"
    by (cases "available_of (factors a)") auto
  hence "score_of (factors a) \<le> 5"
  proof cases
    case (2 g)
    have "set (available_of (factors a)) \<subseteq> set (factors a)" by (simp add: available_of_def)
    with 2 have "g \<in> set (factors a)" "fs_factor g = BEHAVIORAL_ANOMALY_F" using sub by auto
    with f(2) 2 score_of_single show ?thesis by blast
  qed (simp add: score_of_none)
  thus ?thesis using f(3,4) score_of_range(1) [of "factors a"]
    by (simp add: bucket_for_def BUCKET_BOUNDARIES_def)
qed

text \<open>The scale is used in full and starts at nothing: without any data the score is 0, and
  when every available factor is at its maximum and they carry at least the minimum weight, the
  score is 100.\<close>

theorem risk_scale_ends:
  assumes "assess fp c = Inr a"
  shows "((\<forall>f \<in> set (factors a). \<not> fs_available f) \<longrightarrow> ra_score a = 0) \<and>
    ((\<forall>f \<in> set (available_of (factors a)). fs_points f = fs_weight f) \<and>
      60 \<le> (\<Sum>f \<leftarrow> available_of (factors a). fs_weight f) \<longrightarrow> ra_score a = 100)"
proof (intro conjI impI)
  note f = assess_factors [OF assms]
  assume "\<forall>f \<in> set (factors a). \<not> fs_available f"
  hence "available_of (factors a) = []" by (simp add: available_of_def filter_False)
  thus "ra_score a = 0" by (simp add: f(3) score_of_none)
next
  note f = assess_factors [OF assms]
  assume h: "(\<forall>f \<in> set (available_of (factors a)). fs_points f = fs_weight f) \<and>
      60 \<le> (\<Sum>f \<leftarrow> available_of (factors a). fs_weight f)"
  have ok: "\<forall>g \<in> set (available_of (factors a)). factor_ok g" using f(2) by (auto simp: available_of_def)
  hence "\<forall>g \<in> set (available_of (factors a)). \<exists>n. fs_weight g = of_int n \<and> 0 \<le> n \<and> fs_points g = fs_weight g"
    using h factor_ok_weight by blast
  moreover have "(\<Sum>f \<leftarrow> available_of (factors a). fs_weight f) \<le> 1000"
  proof -
    have "(\<Sum>f \<leftarrow> available_of (factors a). fs_weight f) \<le> (\<Sum>f \<leftarrow> available_of (factors a). 30)"
      using ok factor_ok_weight by (intro sum_list_mono) force
    also have "\<dots> \<le> 30 * rat_of_nat (length (factors a))"
      by (simp add: sum_list_triv available_of_def)
    also have "length (factors a) = 7" using arg_cong [OF f(1), of length] by (simp add: ALL_FACTORS_def)
    finally show ?thesis by simp
  qed
  ultimately have "score_of (factors a) = 100" using conjunct2 [OF h] by (intro score_of_full)
  thus "ra_score a = 100" by (simp only: f(3))
qed

text \<open>Scoring a detection keeps what the rule said: the stamped document carries the score,
  its bucket, the explanation, and the rule's own score under its own name; every other field is
  the one of the detection.\<close>

theorem stamped_detection:
  assumes "apply_to_detection fp d event = Inr d'"
  shows "\<exists>a. 0 \<le> ra_score a \<and> ra_score a \<le> 100 \<and> get d' ''risk_score'' = JInt (ra_score a) \<and>
    get d' ''risk_bucket'' = JStr (bucket_value (bucket_for (ra_score a))) \<and>
    get d' ''risk_explanation'' = JObj (explanation a) \<and> get d' ''rule_risk_score'' = get d ''risk_score'' \<and>
    (\<forall>k. k \<notin> {''risk_score'', ''risk_bucket'', ''risk_explanation'', ''rule_risk_score''} \<longrightarrow> get d' k = get d k)"
proof -
  obtain c a where a: "assess fp c = Inr a" "d' = stamp d a"
    using assms by (auto simp: apply_to_detection_def bind_res_Inr)
  have "get d' k = (case dict_get [(''rule_risk_score'', get d ''risk_score''), (''risk_score'', JInt (ra_score a)),
     (''risk_bucket'', JStr (bucket_value (ra_bucket a))), (''risk_explanation'', JObj (explanation a))] k of
       Some v \<Rightarrow> v | None \<Rightarrow> get d k)" for k
    unfolding a(2) stamp_def get_def by (subst dict_merge_get) (auto split: option.splits)
  with assess_factors(3,4) [OF a(1)] score_of_range [of "factors a"] show ?thesis by (intro exI [of _ a]) simp
qed

lemma get_excerpt: "k \<notin> set names \<Longrightarrow> get (excerpt names doc) k = JNull"
  by (induction names) (auto simp: excerpt_def map_filter_simps get_def split: option.splits)

lemma get_dict_set: "get (dict_set k v d) k' = (if k' = k then v else get d k')"
  by (simp add: get_def dict_get_set)

lemma summarize_blind:
  "get (summarize doc) ''asset'' = JNull" "get (summarize doc) ''risk_context'' = JNull"
  "get (summarize doc) ''ioc_matches'' = JNull" "get (summarize doc) ''enrichment_partial'' = JNull"
  by (auto simp: summarize_def Let_def get_dict_set get_excerpt SUMMARY_FIELDS_def split: json.splits)

lemma blind_summaries:
  assumes "\<forall>s \<in> set ss. \<exists>doc. s = summarize doc"
  shows "gather_matches ss = Inr []" "first_user_risk ss = Inr None" "List.map_filter asset_criticality_of ss = []"
  using assms
  by (induction ss) (auto simp: intel_of_def user_risk_of_def asset_criticality_of_def summarize_blind map_filter_simps)

lemma timeline_of_match:
  assumes "build_correlation e n r tenant entity w selected = Inr m"
  shows "timeline_summaries (match_document m) = Inr (map summary (sort_key occurred_at_ms w))"
proof -
  have "build_timeline e w = Inr (timeline m)" using assms by (auto simp: build_correlation_def Let_def bind_res_Inr)
  hence "list_all2 (\<lambda>h en. timeline_entry e h = Inr en) (sort_key occurred_at_ms w) (timeline m)"
    by (simp add: build_timeline_def map_res_Inr)
  moreover have "timeline_entry e h = Inr en \<Longrightarrow> get_default en ''summary'' (JObj []) = JObj (summary h)" for h en
    by (auto simp: timeline_entry_def bind_res_Inr get_default_def)
  ultimately have "map (\<lambda>en. get_default en ''summary'' (JObj [])) (timeline m) = map (\<lambda>h. JObj (summary h)) (sort_key occurred_at_ms w)"
    by (induction rule: list_all2_induct) auto
  moreover have "List.map_filter (\<lambda>en. case en of JObj d \<Rightarrow> Some (get_default d ''summary'' (JObj [])) | _ \<Rightarrow> None) (map JObj ts)
      = map (\<lambda>en. get_default en ''summary'' (JObj [])) ts" for ts
    by (induction ts) (auto simp: map_filter_simps)
  moreover have "map_res (\<lambda>s. case s of JObj d \<Rightarrow> Inr d | _ \<Rightarrow> Inl AttributeError) (map (\<lambda>h. JObj (summary h)) hs)
      = Inr (map summary hs)" for hs by (induction hs) auto
  ultimately show ?thesis
    by (simp add: timeline_summaries_def match_document_def get_default_def [of "_ # _"] py_iter_def)
qed

text \<open>The timeline of a correlation never carries the enrichment the risk engine looks for
  in it: for every correlation the engine can emit, the asset criticality, the user risk and the
  indicator matches of its risk context are absent, so its score rests on severity, confidence
  and technique alone.\<close>

theorem correlation_risk_lacks_context:
  assumes "build_correlation e n r tenant entity w selected = Inr m"
    and "\<forall>h \<in> set w. \<exists>doc. summary h = summarize doc"
  shows "\<exists>c. context_from_correlation (match_document m) = Inr c \<and>
    rc_asset c = None \<and> rc_user_risk c = None \<and> rc_ioc_matches c = None"
proof -
  have b: "\<forall>s \<in> set (map summary (sort_key occurred_at_ms w)). \<exists>doc. s = summarize doc" using assms(2) by auto
  have "get (match_document m) ''mitre_attack'' = JList (map JStr (cm_mitre m))" by (simp add: match_document_def)
  hence "\<exists>ts. list_or_empty (get (match_document m) ''mitre_attack'') = Inr ts" by (simp add: list_or_empty_def py_or_def py_iter_def)
  thus ?thesis
    by (auto simp: context_from_correlation_def timeline_of_match [OF assms(1)] blind_summaries [OF b])
qed

section \<open>Instances\<close>

definition sample_context :: "json \<Rightarrow> string option \<Rightarrow> pyfloat option \<Rightarrow> json \<Rightarrow> risk_context" where
  "sample_context sev asset user anomaly = \<lparr>rc_severity = sev, rc_confidence = JNull, rc_asset = asset, rc_user_risk = user,
     rc_ioc_matches = None, rc_enrichment_ran = False, rc_mitre = [], rc_anomaly = anomaly\<rparr>"

definition loud_anomaly :: json where
  "loud_anomaly = JObj [(''score'', JFloat PInf), (''confidence'', JFloat PInf)]"

lemmas factor_defs = severity_factor_def confidence_factor_def asset_criticality_factor_def user_risk_factor_def
  threat_intel_factor_def mitre_context_factor_def behavioral_anomaly_factor_def score_factor_def

lemma anomaly_assessed:
  "\<exists>a. assess [] (sample_context JNull None None loud_anomaly) = Inr a \<and>
     (\<forall>f \<in> set (factors a). fs_available f \<longrightarrow> fs_factor f = BEHAVIORAL_ANOMALY_F)"
  by (simp add: assess_def sample_context_def factor_defs loud_anomaly_def obj_get_def py_float_def Let_def)

theorem assessment_within_bounds_witness:
  "\<exists>a. assess [] (sample_context JNull None None loud_anomaly) = Inr a \<and> ra_score a \<le> 100 \<and>
     map fs_factor (factors a) = ALL_FACTORS"
  using anomaly_assessed assessment_within_bounds by blast

theorem anomaly_alone_stays_low_witness:
  "\<exists>a. assess [] (sample_context JNull None None loud_anomaly) = Inr a \<and> ra_score a \<le> 5 \<and> ra_bucket a = R_LOW"
  using anomaly_assessed anomaly_alone_stays_low by blast

theorem risk_scale_ends_witness:
  "\<exists>a. assess [] (sample_context (JStr ''critical'') (Some ''critical'') (Some PInf) JNull) = Inr a \<and> ra_score a = 100"
proof -
  have r: "round_dec 4 30 = 30" "round_dec 4 20 = 20" "round_dec 4 10 = 10" "fl 30 = 30" "fl 20 = 20" "fl 10 = 10"
    using round_dec_int [of 30 4] round_dec_int [of 20 4] round_dec_int [of 10 4] fl_int [of 30] fl_int [of 20] fl_int [of 10]
    by simp_all
  have l: "str_lower ''critical'' = ''critical''" "str_upper ''critical'' = ''CRITICAL''" by code_simp+
  have "\<exists>a. assess [] (sample_context (JStr ''critical'') (Some ''critical'') (Some PInf) JNull) = Inr a \<and>
     (\<forall>f \<in> set (available_of (factors a)). fs_points f = fs_weight f) \<and> 60 \<le> (\<Sum>f \<leftarrow> available_of (factors a). fs_weight f)"
    by (simp add: assess_def sample_context_def factor_defs py_text_def Let_def l SEVERITY_VALUES_def CRITICALITY_VALUES_def
        available_of_def clamp_def f_max_def f_min_def r) auto
  thus ?thesis using risk_scale_ends by blast
qed

theorem stamped_detection_witness:
  "\<exists>d'. apply_to_detection [] [(''risk_score'', JInt 70)] None = Inr d' \<and> get d' ''rule_risk_score'' = JInt 70"
proof -
  have "\<exists>d'. apply_to_detection [] [(''risk_score'', JInt 70)] None = Inr d'"
    by (simp add: apply_to_detection_def context_from_detection_def unpack_def dict_merge_def intel_of_def user_risk_of_def
        list_or_empty_def py_or_def py_iter_def assess_def factor_defs asset_criticality_of_def Let_def)
  then obtain d' where d': "apply_to_detection [] [(''risk_score'', JInt 70)] None = Inr d'" ..
  from stamped_detection [OF d'] d' show ?thesis by auto
qed

theorem correlation_risk_lacks_context_witness:
  "\<exists>m c. build_correlation (example_env 0) 0 sample_rule ''t1'' [] [sample_hit ''fail'' 0] [sample_hit ''fail'' 0] = Inr m \<and>
     context_from_correlation (match_document m) = Inr c \<and> rc_asset c = None \<and> rc_ioc_matches c = None"
proof -
  obtain x where "iso (example_env 0) 0 = Inr x" by (auto simp: iso_def microseconds_def trunc_def)
  hence "\<exists>m. build_correlation (example_env 0) 0 sample_rule ''t1'' [] [sample_hit ''fail'' 0] [sample_hit ''fail'' 0] = Inr m"
    by (simp add: build_correlation_def build_timeline_def timeline_entry_def sample_hit_def Let_def)
  then obtain m where m: "build_correlation (example_env 0) 0 sample_rule ''t1'' [] [sample_hit ''fail'' 0] [sample_hit ''fail'' 0] = Inr m" ..
  have "summary (sample_hit ''fail'' 0) = summarize []" by (simp add: sample_hit_def summarize_def excerpt_def map_filter_def Let_def)
  hence "\<forall>h \<in> set [sample_hit ''fail'' 0]. \<exists>doc. summary h = summarize doc" by auto
  from correlation_risk_lacks_context [OF m this] m show ?thesis by auto
qed

end
