(* ===== verification/Alert_Worker.thy ===== *)
theory Alert_Worker
  imports Alerts Eventbus Py_Uuid Py_Ops Risk
begin

text \<open>
  The alert worker (\<open>workers/alert_worker.py\<close>): how a detection or a correlation read off the
  bus becomes an alert. The lemmas show that a dry-run detection never becomes one, that only a new
  alert is announced, and what an identifier the database refuses does to the worker.
\<close>

section \<open>Documents to inputs\<close>

definition tenant_of :: "document \<Rightarrow> string option" where
  "tenant_of d = parse_uuid (py_str (get d ''tenant_id''))"

text \<open>\<open>entity.items()\<close>, sorted, as \<open>key=value\<close> texts; keys are unique, so the values are
  never compared.\<close>

definition dict_items :: "json \<Rightarrow> eval_error + document" where
  "dict_items v = (case v of JObj d \<Rightarrow> Inr d | _ \<Rightarrow> Inl AttributeError)"

definition entity_text :: "document \<Rightarrow> string" where
  "entity_text d = str_join '', '' (map (\<lambda>(k, v). k @ ''='' @ py_str v) (sort_key fst d))"

definition str_list :: "json \<Rightarrow> eval_error + string list" where
  "str_list v = bind_res (py_iter (py_or v (JList []))) (\<lambda>xs. Inr (map py_str xs))"

fun walk_path :: "json \<Rightarrow> string list \<Rightarrow> json" where
  "walk_path v [] = v"
| "walk_path v (p # ps) = (case v of JObj d \<Rightarrow> walk_path (get d p) ps | _ \<Rightarrow> JNull)"

definition entity_value :: "document \<Rightarrow> json \<Rightarrow> string \<Rightarrow> string list \<Rightarrow> json" where
  "entity_value entity evid key path =
     (if py_truthy (get entity key) then JStr (py_str (get entity key))
      else let v = walk_path evid path in if py_truthy v then JStr (py_str v) else JNull)"

definition describe_detection :: "document \<Rightarrow> document \<Rightarrow> eval_error + string" where
  "describe_detection d entity = bind_res (str_list (get d ''mitre_attack'')) (\<lambda>ts.
     let techniques = str_join '', '' ts;
         parts = [py_str (py_or (get d ''rule_name'') (get d ''rule_id'')) @ '' fired'']
           @ (if entity_text entity = [] then [] else [''for '' @ entity_text entity])
           @ (if techniques = [] then [] else [''('' @ techniques @ '')''])
     in Inr (str_join '' '' parts @ ''.''))"

definition detection_to_alert :: "document \<Rightarrow> eval_error + alert_input option" where
  "detection_to_alert d =
     (if py_truthy (get d ''dry_run'') then Inr None
      else case tenant_of d of None \<Rightarrow> Inr None
      | Some tenant \<Rightarrow>
        let evid = py_or (get d ''evidence'') (JObj []); rule_key = str_or (get d ''rule_id'') ''unknown'' in
        bind_res (dict_items (py_or (get d ''entity'') (JObj []))) (\<lambda>entity.
        bind_res (describe_detection d entity) (\<lambda>description.
        bind_res (py_int (py_or (get d ''confidence'') (JInt 50))) (\<lambda>confidence.
        bind_res (py_int (py_or (get d ''risk_score'') (JInt 0))) (\<lambda>score.
        bind_res (str_list (get d ''event_ids'')) (\<lambda>events.
        bind_res (str_list (get d ''mitre_attack'')) (\<lambda>techniques.
        Inr (Some \<lparr>ai_tenant = tenant, ai_source = ''detection'',
          ai_title = take 300 (str_or (get d ''rule_name'') rule_key), ai_description = description,
          ai_severity = str_or (get d ''severity'') ''medium'', ai_confidence = confidence, ai_risk_score = score,
          ai_risk_bucket = get d ''risk_bucket'', ai_risk_explanation = py_or (get d ''risk_explanation'') (JObj []),
          ai_dedup_key = ''detection:'' @ rule_key @ '':'' @ str_or (get d ''entity_summary'') [],
          ai_event_ids = events,
          ai_detection_ids = (if py_truthy (get d ''detection_id'') then [py_str (get d ''detection_id'')] else []),
          ai_evidence = (case evid of JObj _ \<Rightarrow> evid | _ \<Rightarrow> JObj []), ai_mitre_techniques = techniques,
          ai_rule_key = Some rule_key, ai_correlation_id = None,
          ai_affected_user = entity_value entity evid ''user.name'' [''user'', ''name''],
          ai_affected_host = entity_value entity evid ''hostname'' [''hostname''],
          ai_source_ip = entity_value entity evid ''source_ip'' [''source_ip''],
          ai_destination_ip = entity_value entity evid ''destination_ip'' [''destination_ip'']\<rparr>))))))))"

text \<open>The arrow of the description, in UTF-8.\<close>

definition arrow :: string where
  "arrow = [CHR '' '', CHR 0xE2, CHR 0x86, CHR 0x92, CHR '' '']"

definition correlation_to_alert :: "document \<Rightarrow> eval_error + alert_input option" where
  "correlation_to_alert d =
     (case tenant_of d of None \<Rightarrow> Inr None
      | Some tenant \<Rightarrow>
        let correlation_id = str_or (get d ''correlation_id'') ''unknown''; stages = py_or (get d ''stages_matched'') (JList []) in
        bind_res (dict_items (py_or (get d ''entity'') (JObj []))) (\<lambda>entity.
        bind_res (py_iter stages) (\<lambda>stage_list.
        bind_res (py_int (py_or (get d ''confidence'') (JInt 50))) (\<lambda>confidence.
        bind_res (py_int (py_or (get d ''risk_score'') (JInt 0))) (\<lambda>score.
        bind_res (str_list (get d ''event_ids'')) (\<lambda>events.
        bind_res (str_list (get d ''mitre_attack'')) (\<lambda>techniques.
        Inr (Some \<lparr>ai_tenant = tenant, ai_source = ''correlation'', ai_title = take 300 (str_or (get d ''name'') correlation_id),
          ai_description = correlation_id @ '' matched for ''
            @ (if entity_text entity = [] then ''an unidentified entity'' else entity_text entity) @ '': ''
            @ str_join arrow (map py_str stage_list) @ '' over '' @ py_str (get_default d ''span_seconds'' (JInt 0)) @ ''s.'',
          ai_severity = str_or (get d ''severity'') ''high'', ai_confidence = confidence, ai_risk_score = score,
          ai_risk_bucket = get d ''risk_bucket'', ai_risk_explanation = py_or (get d ''risk_explanation'') (JObj []),
          ai_dedup_key = ''correlation:'' @ correlation_id @ '':'' @ entity_text entity, ai_event_ids = events,
          ai_detection_ids = [],
          ai_evidence = JObj [(''timeline'', py_or (get d ''timeline'') (JList [])), (''first_seen'', get d ''first_seen''),
            (''last_seen'', get d ''last_seen''), (''stages_matched'', stages)],
          ai_mitre_techniques = techniques, ai_rule_key = None, ai_correlation_id = Some correlation_id,
          ai_affected_user = get entity ''user.name'', ai_affected_host = get entity ''hostname'',
          ai_source_ip = get entity ''source_ip'', ai_destination_ip = JNull\<rparr>)))))))) "

section \<open>The worker\<close>

definition ALERTING_GROUP :: string where "ALERTING_GROUP = ''alerting''"

record alert_worker =
  output_topic :: string
  dedup_window :: int
  min_risk_score :: int

definition new_alert_worker :: "int option \<Rightarrow> int option \<Rightarrow> int \<Rightarrow> int \<Rightarrow> alert_worker" where
  "new_alert_worker window_arg score_arg window_setting score_setting = \<lparr>output_topic = TOPIC_ALERTS_CREATED,
     dedup_window = (case window_arg of Some w \<Rightarrow> w | None \<Rightarrow> window_setting),
     min_risk_score = (case score_arg of Some s \<Rightarrow> s | None \<Rightarrow> score_setting)\<rparr>"

definition alert_summary :: "alert \<Rightarrow> document" where
  "alert_summary a = [(''alert_id'', JStr (al_id a)), (''display_id'', JStr (al_display_id a)),
     (''tenant_id'', JStr (al_tenant a)), (''title'', JStr (al_title a)), (''severity'', JStr (al_severity a)),
     (''risk_score'', JInt (al_risk_score a)), (''risk_bucket'', al_risk_bucket a), (''status'', JStr (al_status a)),
     (''source'', JStr (al_source a)), (''mitre_techniques'', JList (map JStr (al_mitre_techniques a))),
     (''occurrence_count'', JInt (al_occurrence_count a))]"

definition publish_alert :: "alert_worker \<Rightarrow> alert \<Rightarrow> bus \<Rightarrow> bus" where
  "publish_alert w a b = snd (publish (output_topic w)
     \<lparr>bm_tenant = al_tenant a, bm_key = al_id a, bm_payload = Inr (JObj (alert_summary a)),
      bm_headers = [(''severity'', al_severity a), (''risk_bucket'', str_or (al_risk_bucket a) [])], bm_id = None\<rparr> b)"

definition to_alert :: "string \<Rightarrow> document \<Rightarrow> eval_error + alert_input option" where
  "to_alert topic d = (if topic = TOPIC_CORRELATIONS_CREATED then correlation_to_alert d else detection_to_alert d)"

definition raised :: "eval_error + 'a \<Rightarrow> service_error + 'a" where
  "raised r = (case r of Inl err \<Rightarrow> Inl (Raised err) | Inr x \<Rightarrow> Inr x)"

definition accept ::
  "dbenv \<Rightarrow> alert_worker \<Rightarrow> string \<Rightarrow> bus_message \<Rightarrow> 'a alert_db_scheme \<times> bus \<Rightarrow> service_error + 'a alert_db_scheme \<times> bus" where
  "accept e w topic m s = (case bm_payload m of
     Inl why \<Rightarrow> Inr (fst s, reject_message topic ALERTING_GROUP m (''undecodable payload: '' @ why) (snd s))
   | Inr (JObj d) \<Rightarrow> bind_res (raised (to_alert topic d)) (\<lambda>payload.
       bind_res (case payload of
           Some p \<Rightarrow> if ai_risk_score p \<ge> min_risk_score w
             then bind_res (create_or_update e p (dedup_window w) (fst s)) (\<lambda>((a, created), db).
               Inr (db, if created then publish_alert w a (snd s) else snd s))
             else Inr s
         | None \<Rightarrow> Inr s)
         (\<lambda>(db, b). Inr (db, ack_message topic ALERTING_GROUP m b)))
   | Inr _ \<Rightarrow> Inr (fst s, reject_message topic ALERTING_GROUP m ''payload is not an object'' (snd s)))"

section \<open>Detections of the engine\<close>

lemma get_stamp:
  "get (stamp d a) k = (if k = ''risk_explanation'' then JObj (explanation a) else if k = ''risk_bucket'' then JStr (bucket_value (ra_bucket a))
     else if k = ''risk_score'' then JInt (ra_score a) else if k = ''rule_risk_score'' then get d ''risk_score'' else get d k)"
  by (auto simp: stamp_def get_def dict_merge_get split: option.splits)

lemma apply_to_detection_Inr:
  "apply_to_detection fp d ev = Inr doc \<Longrightarrow> \<exists>a. doc = stamp d a \<and> 0 \<le> ra_score a \<and> ra_score a \<le> 100"
  by (auto simp: apply_to_detection_def assess_def bind_res_Inr Let_def score_of_range)

lemma str_list_JList [simp]: "str_list (JList xs) = Inr (map py_str xs)"
  by (simp add: str_list_def py_or_def py_iter_def)

lemma detection_of_match:
  assumes "apply_to_detection fp (to_document rm) ev = Inr doc" "\<not> dry_run rm" "parse_uuid (m_tenant rm) = Some t"
  shows "\<exists>p. detection_to_alert doc = Inr (Some p) \<and> ai_tenant p = t \<and> 0 \<le> ai_risk_score p \<and> ai_risk_score p \<le> 100
    \<and> ai_event_ids p = map py_str (m_event_ids rm)
    \<and> ai_severity p = (if m_severity rm = [] then ''medium'' else m_severity rm)
    \<and> ai_confidence p = (if m_confidence rm = 0 then 50 else m_confidence rm)
    \<and> ai_dedup_key p = ''detection:'' @ (if m_rule_id rm = [] then ''unknown'' else m_rule_id rm) @ '':'' @ entity_summary (m_entity rm)"
proof -
  obtain a where doc: "doc = stamp (to_document rm) a" and a: "0 \<le> ra_score a" "ra_score a \<le> 100"
    using apply_to_detection_Inr [OF assms(1)] by blast
  have g: "get doc ''dry_run'' = JBool (dry_run rm)" "get doc ''tenant_id'' = JStr (m_tenant rm)" "get doc ''entity'' = JObj (m_entity rm)"
    "get doc ''confidence'' = JInt (m_confidence rm)" "get doc ''risk_score'' = JInt (ra_score a)"
    "get doc ''event_ids'' = JList (m_event_ids rm)" "get doc ''mitre_attack'' = JList (map JStr (m_mitre rm))"
    "get doc ''rule_id'' = JStr (m_rule_id rm)" "get doc ''severity'' = JStr (m_severity rm)"
    "get doc ''entity_summary'' = JStr (entity_summary (m_entity rm))"
    by (simp_all add: doc get_stamp to_document_def)
  have t: "tenant_of doc = Some t" using g assms(3) by (simp add: tenant_of_def)
  have e: "dict_items (py_or (JObj (m_entity rm)) (JObj [])) = Inr (m_entity rm)"
    by (simp add: py_or_def dict_items_def)
  have c: "py_int (py_or (JInt (m_confidence rm)) (JInt 50)) = Inr (if m_confidence rm = 0 then 50 else m_confidence rm)"
    "py_int (py_or (JInt (ra_score a)) (JInt 0)) = Inr (ra_score a)"
    by (simp_all add: py_or_def py_int_def)
  obtain desc where d: "describe_detection doc (m_entity rm) = Inr desc"
    by (simp add: describe_detection_def g Let_def)
  show ?thesis
    using assms(2) a unfolding detection_to_alert_def g t option.case Let_def e c d str_list_JList bind_res_simps
    by (simp add: str_or_def)
qed

lemma accept_payload:
  assumes "bm_payload m = Inr (JObj d)" "to_alert topic d = Inr (Some p)" "min_risk_score w \<le> ai_risk_score p"
  shows "accept e w topic m s = bind_res (create_or_update e p (dedup_window w) (fst s)) (\<lambda>((a, created), db).
    Inr (db, ack_message topic ALERTING_GROUP m (if created then publish_alert w a (snd s) else snd s)))"
  using assms by (auto simp: accept_def raised_def bind_res_def split: sum.splits prod.splits)

lemma stream_publish_alert:
  "output_topic w = T \<Longrightarrow> map snd (stream (publish_alert w a b) T) = map snd (stream b T) @
     [\<lparr>bm_tenant = al_tenant a, bm_key = al_id a, bm_payload = Inr (JObj (alert_summary a)),
       bm_headers = [(''severity'', al_severity a), (''risk_bucket'', str_or (al_risk_bucket a) [])], bm_id = None\<rparr>]"
  by (simp add: publish_alert_def stream_publish)

lemma acked_publish_alert [simp]: "acked (publish_alert w a b) = acked b"
  by (simp add: publish_alert_def)

text \<open>What one message may do to the alert table and to the topic of new alerts.\<close>

definition announced :: "string \<Rightarrow> 'a alert_db_scheme \<times> bus \<Rightarrow> 'a alert_db_scheme \<times> bus \<Rightarrow> bool" where
  "announced T s s' \<longleftrightarrow>
     (map al_id (alerts (fst s')) = map al_id (alerts (fst s)) \<and> stream (snd s') T = stream (snd s) T)
   \<or> (\<exists>a x. alerts (fst s') = alerts (fst s) @ [a] \<and> map snd (stream (snd s') T) = map snd (stream (snd s) T) @ [x]
        \<and> bm_tenant x = al_tenant a \<and> bm_key x = al_id a \<and> bm_payload x = Inr (JObj (alert_summary a)))"

lemma announced_same: "fst s' = fst s \<Longrightarrow> stream (snd s') T = stream (snd s) T \<Longrightarrow> announced T s s'"
  by (simp add: announced_def)

lemma create_or_update_announced:
  assumes "create_or_update e p mn (fst s) = Inr ((a, created), db')" "output_topic w = T"
  shows "announced T s (db', ack_message t g m (if created then publish_alert w a (snd s) else snd s))"
proof (cases "find_duplicate e (ai_tenant p) (ai_dedup_key p) mn (fst s)")
  case None
  hence "record_input e p None (fst s) = Inr ((a, created), db')"
    using assms(1) by (auto simp: create_or_update_def bind_res_Inr)
  hence "created" "alerts db' = alerts (fst s) @ [a]" using record_input_create by fastforce+
  thus ?thesis using stream_publish_alert [OF assms(2), of a "snd s"] by (simp add: announced_def)
next
  case (Some y)
  hence k: "record_input e p (Some y) (fst s) = Inr ((a, created), db')"
    using assms(1) by (auto simp: create_or_update_def bind_res_Inr)
  have "map al_id (alerts db') = map al_id (alerts (fst s))"
    using record_input_fold [OF k] by (auto simp: update_rows_def list.map_comp)
  thus ?thesis using record_input_fold [OF k] by (simp add: announced_def)
qed

lemma accept_cases:
  assumes "accept e w topic m s = Inr s'"
  obtains (rejected) why where "s' = (fst s, reject_message topic ALERTING_GROUP m why (snd s))"
  | (dropped) "s' = (fst s, ack_message topic ALERTING_GROUP m (snd s))"
  | (recorded) p a created db where "create_or_update e p (dedup_window w) (fst s) = Inr ((a, created), db)"
      "s' = (db, ack_message topic ALERTING_GROUP m (if created then publish_alert w a (snd s) else snd s))"
proof (cases "bm_payload m")
  case (Inl why)
  with assms show thesis by (intro rejected) (auto simp: accept_def)
next
  case (Inr v)
  show thesis
  proof (cases "\<exists>d. v = JObj d")
    case False
    with assms Inr show thesis by (intro rejected) (auto simp: accept_def split: json.splits)
  next
    case True
    then obtain d where v: "v = JObj d" by blast
    obtain payload where p: "to_alert topic d = Inr payload"
      using assms Inr v by (cases "to_alert topic d") (auto simp: accept_def raised_def)
    consider "payload = None" | q where "payload = Some q" "ai_risk_score q < min_risk_score w"
      | q where "payload = Some q" "min_risk_score w \<le> ai_risk_score q" by (metis not_le option.exhaust)
    thus thesis
    proof cases
      case 3
      with assms accept_payload [of m d topic q w e s] Inr v p
      have "bind_res (create_or_update e q (dedup_window w) (fst s)) (\<lambda>((a, created), db).
          Inr (db, ack_message topic ALERTING_GROUP m (if created then publish_alert w a (snd s) else snd s))) = Inr s'" by simp
      then obtain a created db where "create_or_update e q (dedup_window w) (fst s) = Inr ((a, created), db)"
        "s' = (db, ack_message topic ALERTING_GROUP m (if created then publish_alert w a (snd s) else snd s))"
        by (auto simp: bind_res_Inr)
      thus thesis by (rule recorded)
    qed (use assms Inr v p in \<open>auto simp: accept_def raised_def split: prod.splits intro: dropped\<close>)
  qed
qed

section \<open>Properties\<close>

text \<open>A message the worker finishes is acknowledged, and it announces exactly the alerts it
  creates: either the table keeps its alerts and the topic its messages, or one alert is added and its
  summary published under its tenant and identifier. Repeats are never announced.\<close>

theorem only_new_alerts_announced:
  assumes "accept e w topic m s = Inr s'" and "bm_id m = Some i" and "output_topic w \<noteq> topic @ ''.deadletter''"
  shows "announced (output_topic w) s s' \<and> (topic, ALERTING_GROUP, i) \<in> set (acked (snd s'))"
  using assms(1)
proof (cases rule: accept_cases)
  case (rejected why)
  thus ?thesis using assms(2,3) by (simp add: announced_same stream_reject_message acked_reject_message)
next
  case dropped
  thus ?thesis using assms(2) by (simp add: announced_same acked_ack_message)
next
  case (recorded p a created db)
  thus ?thesis using create_or_update_announced [OF recorded(1) refl] assms(2) by (simp add: acked_ack_message)
qed

text \<open>From a rule's match to the alert queue. A scored detection of a rule under test never
  becomes an alert; any other detection whose tenant is an identifier does, for that tenant, with a score from 0 to 100,
  its events, and a key made of its rule and entity. A confidence of 0 arrives as 50.\<close>

theorem detection_reaches_alerting:
  assumes "apply_to_detection fp (to_document rm) ev = Inr doc"
  shows "if dry_run rm then detection_to_alert doc = Inr None
    else case parse_uuid (m_tenant rm) of None \<Rightarrow> detection_to_alert doc = Inr None
    | Some t \<Rightarrow> (\<exists>p. detection_to_alert doc = Inr (Some p) \<and> ai_tenant p = t \<and> 0 \<le> ai_risk_score p \<and> ai_risk_score p \<le> 100
        \<and> ai_event_ids p = map py_str (m_event_ids rm) \<and> ai_confidence p = (if m_confidence rm = 0 then 50 else m_confidence rm)
        \<and> ai_dedup_key p = ''detection:'' @ (if m_rule_id rm = [] then ''unknown'' else m_rule_id rm) @ '':'' @ entity_summary (m_entity rm))"
proof -
  obtain a where "doc = stamp (to_document rm) a" using apply_to_detection_Inr [OF assms] by blast
  hence "dry_run rm \<Longrightarrow> detection_to_alert doc = Inr None" "parse_uuid (m_tenant rm) = None \<Longrightarrow> detection_to_alert doc = Inr None"
    by (simp_all add: detection_to_alert_def get_stamp to_document_def tenant_of_def)
  thus ?thesis
    using detection_of_match [OF assms] by (auto split: option.splits)
qed

text \<open>A NUL in an entity's value loses the alert. When the entity of a match holds one, as a
  user name or host name taken from a log can, the worker raises on the detection: nothing is
  stored, nothing is published and the message is not acknowledged.\<close>

theorem nul_in_entity_raises:
  assumes "apply_to_detection fp (to_document rm) ev = Inr doc" and "\<not> dry_run rm" and "parse_uuid (m_tenant rm) = Some t"
    and "CHR 0x00 \<in> set (entity_summary (m_entity rm))" and "bm_payload m = Inr (JObj doc)"
    and "min_risk_score w \<le> 0" and "topic \<noteq> TOPIC_CORRELATIONS_CREATED"
  shows "accept e w topic m s = Inl (DataError ''dedup_key'')"
proof -
  obtain p where p: "detection_to_alert doc = Inr (Some p)" "0 \<le> ai_risk_score p"
    and k: "ai_dedup_key p = ''detection:'' @ (if m_rule_id rm = [] then ''unknown'' else m_rule_id rm) @ '':'' @ entity_summary (m_entity rm)"
    using detection_of_match [OF assms(1-3)] by blast
  have "\<not> text_ok (ai_dedup_key p)" using assms(4) k by (simp add: text_ok_def)
  hence "create_or_update e p (dedup_window w) (fst s) = Inl (DataError ''dedup_key'')"
    by (simp add: create_or_update_def require.simps)
  thus ?thesis using accept_payload [of m doc topic p w e s] assms(5-7) p by (simp add: to_alert_def)
qed

section \<open>Witnesses\<close>

definition sample_tenant :: string where "sample_tenant = ''00000000-0000-0000-0000-000000000001''"

definition sample_match :: "bool \<Rightarrow> string \<Rightarrow> rule_match" where
  "sample_match dry name = \<lparr>detection_id = ''d1'', m_tenant = sample_tenant, m_rule_id = ''R'', m_rule_name = ''brute force'',
     m_rule_type = ''streaming'', m_severity = ''low'', m_confidence = 0, m_risk_score = 20, m_mitre = [], m_event_ids = [JStr ''e1''],
     m_entity = [(''user.name'', JStr name)], matched_at = ''now'', dry_run = dry, m_evidence = []\<rparr>"

lemma sample_tenant_parsed: "parse_uuid sample_tenant = Some sample_tenant"
  unfolding sample_tenant_def by code_simp

lemma sample_match_scored: "\<exists>doc. apply_to_detection [] (to_document (sample_match dry name)) None = Inr doc"
proof -
  obtain f1 where f1: "severity_factor (JStr ''low'') = Inr f1"
    by (cases "dict_get SEVERITY_VALUES (str_lower ''low'')") (simp_all add: severity_factor_def py_text_def)
  have "to_float 0 = Fin 0" using fl_int [of 0] by (simp add: to_float_def float_max_def)
  then obtain f2 where f2: "confidence_factor (JInt 0) = Inr f2"
    by (auto simp: confidence_factor_def py_float_def py_int_def)
  show ?thesis
    by (simp add: apply_to_detection_def context_from_detection_def unpack_def dict_merge_def intel_of_def user_risk_of_def
      list_or_empty_def py_or_def py_iter_def assess_def asset_criticality_of_def Let_def to_document_def sample_match_def f1 f2
      asset_criticality_factor_def user_risk_factor_def threat_intel_factor_def mitre_context_factor_def behavioral_anomaly_factor_def)
qed

theorem only_new_alerts_announced_witness:
  "\<exists>s'. accept (sample_dbenv 0) (new_alert_worker None None 60 0) TOPIC_DETECTIONS_CREATED
       \<lparr>bm_tenant = [], bm_key = [], bm_payload = Inr JNull, bm_headers = [], bm_id = Some ''7-0''\<rparr> (sample_db, new_bus) = Inr s'
     \<and> (TOPIC_DETECTIONS_CREATED, ALERTING_GROUP, ''7-0'') \<in> set (acked (snd s'))"
proof -
  let ?w = "new_alert_worker None None 60 0" and ?t = TOPIC_DETECTIONS_CREATED
  let ?m = "\<lparr>bm_tenant = [], bm_key = [], bm_payload = Inr JNull, bm_headers = [], bm_id = Some ''7-0''\<rparr>"
  obtain s' where a: "accept (sample_dbenv 0) ?w ?t ?m (sample_db, new_bus) = Inr s'" by (simp add: accept_def)
  have o: "output_topic ?w \<noteq> ?t @ ''.deadletter''"
    by (simp add: new_alert_worker_def TOPIC_ALERTS_CREATED_def TOPIC_DETECTIONS_CREATED_def)
  from only_new_alerts_announced [OF a _ o] a show ?thesis by simp
qed

theorem detection_reaches_alerting_witness:
  "\<exists>doc p. apply_to_detection [] (to_document (sample_match False ''root'')) None = Inr doc
     \<and> detection_to_alert doc = Inr (Some p) \<and> ai_tenant p = sample_tenant \<and> ai_confidence p = 50"
proof -
  obtain doc where d: "apply_to_detection [] (to_document (sample_match False ''root'')) None = Inr doc" using sample_match_scored by blast
  have "m_tenant (sample_match False ''root'') = sample_tenant" "\<not> dry_run (sample_match False ''root'')"
    "m_confidence (sample_match False ''root'') = 0" by (simp_all add: sample_match_def)
  with detection_reaches_alerting [OF d] d show ?thesis by (auto simp: sample_tenant_parsed)
qed

theorem nul_in_entity_raises_witness:
  "\<exists>doc. apply_to_detection [] (to_document (sample_match False [CHR ''a'', CHR 0x00])) None = Inr doc
     \<and> accept (sample_dbenv 0) (new_alert_worker None None 60 0) TOPIC_DETECTIONS_CREATED
       \<lparr>bm_tenant = [], bm_key = [], bm_payload = Inr (JObj doc), bm_headers = [], bm_id = Some ''7-0''\<rparr> (sample_db, new_bus)
       = Inl (DataError ''dedup_key'')"
proof -
  let ?rm = "sample_match False [CHR ''a'', CHR 0x00]" and ?w = "new_alert_worker None None 60 0"
  obtain doc where d: "apply_to_detection [] (to_document ?rm) None = Inr doc" using sample_match_scored by blast
  have t: "parse_uuid (m_tenant ?rm) = Some sample_tenant" by (simp add: sample_match_def sample_tenant_parsed)
  have n: "CHR 0x00 \<in> set (entity_summary (m_entity ?rm))" by (simp add: sample_match_def entity_summary_def sorted_keys_def)
  have k: "\<not> dry_run ?rm" "min_risk_score ?w \<le> 0" "TOPIC_DETECTIONS_CREATED \<noteq> TOPIC_CORRELATIONS_CREATED"
    by (simp_all add: sample_match_def new_alert_worker_def TOPIC_CORRELATIONS_CREATED_def TOPIC_DETECTIONS_CREATED_def)
  show ?thesis using d nul_in_entity_raises [where s = "(sample_db, new_bus)", OF d k(1) t n _ k(2,3)] by simp
qed

end
