(* ===== verification/Workers.thy ===== *)
theory Workers
  imports Rule_Service Alert_Worker
begin

text \<open>
  The workers between the normalised events and the alert queue: the detection worker with its rule
  cache and the scheduler of the windowed rules (\<open>workers/detection_worker.py\<close>), and the
  correlation worker (\<open>workers/correlation_worker.py\<close>). They compose the rule service, the
  engines, the risk engine and the bus. A handler that raises keeps what it did before: the result is
  the exception or \<open>()\<close>, paired with the state.

  The engines of a worker share one suppression store when the registry is given one, as \<open>build\<close>
  does; otherwise each engine has its own.
\<close>

section \<open>The rule cache\<close>

record registry =
  refresh_seconds :: rat
  shared_store :: "mem_store option"
  engines :: "engine dict"
  windowed_rules :: "detection_rule list dict"
  loaded_at :: "rat dict"

definition new_registry :: "rat \<Rightarrow> mem_store option \<Rightarrow> registry" where
  "new_registry secs st = \<lparr>refresh_seconds = secs, shared_store = st, engines = [], windowed_rules = [], loaded_at = []\<rparr>"

definition fresh_rules :: "'b dbenv_scheme \<Rightarrow> string \<Rightarrow> registry \<Rightarrow> bool" where
  "fresh_rules e t g \<longleftrightarrow> (case dict_get (loaded_at g) t of None \<Rightarrow> False | Some l \<Rightarrow> fl (monotonic e - l) < refresh_seconds g)"

definition load_tenant :: "yaml_lib \<Rightarrow> 'b dbenv_scheme \<Rightarrow> 'a rule_db_scheme \<Rightarrow> string \<Rightarrow> registry \<Rightarrow> service_error + registry" where
  "load_tenant y e db t g = bind_res (load_active_rules y e t db) (\<lambda>rs.
     let eng = (case dict_get (engines g) t of None \<Rightarrow> new_engine rs | Some x \<Rightarrow> replace_rules rs x)
     in Inr (g\<lparr>engines := dict_set t eng (engines g),
          windowed_rules := dict_set t (filter (\<lambda>r. rule_type r = ''windowed'') rs) (windowed_rules g),
          loaded_at := dict_set t (monotonic e) (loaded_at g)\<rparr>))"

definition refresh_if_stale :: "yaml_lib \<Rightarrow> 'b dbenv_scheme \<Rightarrow> 'a rule_db_scheme \<Rightarrow> string \<Rightarrow> registry \<Rightarrow> service_error + registry" where
  "refresh_if_stale y e db t g = (if fresh_rules e t g then Inr g else load_tenant y e db t g)"

text \<open>The engine of a tenant; \<open>self._engines[tenant_id]\<close> raises when there is none.\<close>

definition engine_for :: "yaml_lib \<Rightarrow> 'b dbenv_scheme \<Rightarrow> 'a rule_db_scheme \<Rightarrow> string \<Rightarrow> registry \<Rightarrow> service_error + engine \<times> registry" where
  "engine_for y e db t g = bind_res (refresh_if_stale y e db t g) (\<lambda>g'. case dict_get (engines g') t of
     None \<Rightarrow> Inl (Raised (KeyError t)) | Some x \<Rightarrow> Inr (x, g'))"

definition windowed_rules_for ::
  "yaml_lib \<Rightarrow> 'b dbenv_scheme \<Rightarrow> 'a rule_db_scheme \<Rightarrow> string \<Rightarrow> registry \<Rightarrow> service_error + detection_rule list \<times> registry" where
  "windowed_rules_for y e db t g = bind_res (refresh_if_stale y e db t g) (\<lambda>g'.
     Inr (case dict_get (windowed_rules g') t of None \<Rightarrow> [] | Some rs \<Rightarrow> rs, g'))"

text \<open>Evaluation writes the suppression store back to where it is kept.\<close>

definition with_store :: "registry \<Rightarrow> engine \<Rightarrow> engine" where
  "with_store g x = (case shared_store g of None \<Rightarrow> x | Some s \<Rightarrow> x\<lparr>store := s\<rparr>)"

definition keep_engine :: "string \<Rightarrow> engine \<Rightarrow> registry \<Rightarrow> registry" where
  "keep_engine t x g = g\<lparr>engines := dict_set t x (engines g), shared_store := map_option (\<lambda>_. store x) (shared_store g)\<rparr>"

section \<open>The detection worker\<close>

definition DETECTION_GROUP :: string where "DETECTION_GROUP = ''detection''"

record detection_worker =
  dw_topic :: string
  dw_output :: string
  dw_fingerprint :: string

definition new_detection_worker :: "string \<Rightarrow> detection_worker" where
  "new_detection_worker fp = \<lparr>dw_topic = TOPIC_EVENTS_NORMALIZED, dw_output = TOPIC_DETECTIONS_CREATED, dw_fingerprint = fp\<rparr>"

definition detection_message :: "rule_match \<Rightarrow> document \<Rightarrow> bus_message" where
  "detection_message m d = \<lparr>bm_tenant = m_tenant m, bm_key = detection_id m, bm_payload = Inr (JObj d),
     bm_headers = [(''rule_id'', m_rule_id m), (''severity'', m_severity m), (''risk_bucket'', py_str (get d ''risk_bucket'')),
       (''dry_run'', if dry_run m then ''true'' else ''false'')], bm_id = None\<rparr>"

fun publish_detections :: "detection_worker \<Rightarrow> rule_match list \<Rightarrow> document option \<Rightarrow> bus \<Rightarrow> (eval_error + unit) \<times> bus" where
  "publish_detections w [] event b = (Inr (), b)"
| "publish_detections w (m # ms) event b = (case apply_to_detection (dw_fingerprint w) (to_document m) event of
     Inl err \<Rightarrow> (Inl err, b)
   | Inr d \<Rightarrow> publish_detections w ms event (snd (publish (dw_output w) (detection_message m d) b)))"

definition detection_accept ::
  "yaml_lib \<Rightarrow> dbenv \<Rightarrow> 'a rule_db_scheme \<Rightarrow> detection_worker \<Rightarrow> bus_message \<Rightarrow> registry \<times> bus \<Rightarrow> (service_error + unit) \<times> (registry \<times> bus)" where
  "detection_accept y e db w m s = (let reject = (\<lambda>why. (Inr (), (fst s, reject_message (dw_topic w) DETECTION_GROUP m why (snd s)))) in
     case bm_payload m of
       Inl why \<Rightarrow> reject (''undecodable normalized document: '' @ why)
     | Inr (JObj d) \<Rightarrow> (case parse_uuid (py_str (get d ''tenant_id'')) of
         None \<Rightarrow> reject ''normalized document has no usable tenant_id''
       | Some t \<Rightarrow> (case engine_for y e db t (fst s) of
           Inl err \<Rightarrow> (Inl err, s)
         | Inr (x, g) \<Rightarrow> (case evaluate (env.truncate e) (with_store g x) d of (ms, x') \<Rightarrow>
             (case publish_detections w ms (Some d) (snd s) of
                (Inl err, b) \<Rightarrow> (Inl (Raised err), (keep_engine t x' g, b))
              | (Inr _, b) \<Rightarrow> (Inr (), (keep_engine t x' g, ack_message (dw_topic w) DETECTION_GROUP m b))))))
     | Inr _ \<Rightarrow> reject ''normalized document is not an object'')"

section \<open>The scheduler of windowed rules\<close>

definition active_tenants :: "'a rule_db_scheme \<Rightarrow> string list" where
  "active_tenants db = map org_id (filter org_active (organizations db))"

text \<open>One pass: what is thrown by a rule is logged and the pass goes on; what publishing throws ends it.\<close>

fun run_rules ::
  "env \<Rightarrow> mem_store evaluator \<Rightarrow> detection_worker \<Rightarrow> string \<Rightarrow> int \<Rightarrow> detection_rule list \<Rightarrow> mem_store wstate \<times> bus \<Rightarrow>
   (eval_error + nat) \<times> (mem_store wstate \<times> bus)" where
  "run_rules e ev w t now [] s = (Inr 0, s)"
| "run_rules e ev w t now (r # rs) s = (case run e ev r t now (fst s) of
     (Inl _, st) \<Rightarrow> run_rules e ev w t now rs (st, snd s)
   | (Inr ms, st) \<Rightarrow> (case publish_detections w ms None (snd s) of
       (Inl err, b) \<Rightarrow> (Inl err, (st, b))
     | (Inr _, b) \<Rightarrow> (case run_rules e ev w t now rs (st, b) of
         (Inl err, s') \<Rightarrow> (Inl err, s') | (Inr n, s') \<Rightarrow> (Inr (length ms + n), s'))))"

fun run_tenants ::
  "yaml_lib \<Rightarrow> dbenv \<Rightarrow> 'a rule_db_scheme \<Rightarrow> mem_store evaluator \<Rightarrow> detection_worker \<Rightarrow> string list \<Rightarrow>
   registry \<times> mem_store wstate \<times> bus \<Rightarrow> (eval_error + nat) \<times> (registry \<times> mem_store wstate \<times> bus)" where
  "run_tenants y e db ev w [] s = (Inr 0, s)"
| "run_tenants y e db ev w (t # ts) (g, s) = (case windowed_rules_for y e db t g of
     Inl _ \<Rightarrow> run_tenants y e db ev w ts (g, s)
   | Inr (rs, g') \<Rightarrow> (case run_rules (env.truncate e) ev w t (utcnow e) rs s of
       (Inl err, s') \<Rightarrow> (Inl err, (g', s'))
     | (Inr n, s') \<Rightarrow> (case run_tenants y e db ev w ts (g', s') of
         (Inl err, s'') \<Rightarrow> (Inl err, s'') | (Inr k, s'') \<Rightarrow> (Inr (n + k), s''))))"

definition run_once ::
  "yaml_lib \<Rightarrow> dbenv \<Rightarrow> 'a rule_db_scheme \<Rightarrow> mem_store evaluator \<Rightarrow> detection_worker \<Rightarrow>
   registry \<times> mem_store wstate \<times> bus \<Rightarrow> (eval_error + nat) \<times> (registry \<times> mem_store wstate \<times> bus)" where
  "run_once y e db ev w s = run_tenants y e db ev w (active_tenants db) s"

section \<open>The correlation worker\<close>

definition CORRELATION_GROUP :: string where "CORRELATION_GROUP = ''correlation''"

record correlation_worker =
  cw_output :: string
  cw_fingerprint :: string
  cw_max_skew :: int

definition to_input :: "env \<Rightarrow> correlation_worker \<Rightarrow> string \<Rightarrow> document \<Rightarrow> eval_error + correlation_input option" where
  "to_input e w topic d = (if topic = TOPIC_DETECTIONS_CREATED then detection_input e (cw_max_skew w) d
     else event_input e (cw_max_skew w) d)"

definition correlation_message :: "correlation_match \<Rightarrow> document \<Rightarrow> bus_message" where
  "correlation_message m d = \<lparr>bm_tenant = cm_tenant m, bm_key = correlation_uid m, bm_payload = Inr (JObj d),
     bm_headers = [(''correlation_id'', cm_correlation_id m), (''severity'', cm_severity m), (''risk_bucket'', py_str (get d ''risk_bucket''))],
     bm_id = None\<rparr>"

fun publish_correlations :: "correlation_worker \<Rightarrow> correlation_match list \<Rightarrow> bus \<Rightarrow> (eval_error + unit) \<times> bus" where
  "publish_correlations w [] b = (Inr (), b)"
| "publish_correlations w (m # ms) b = (case apply_to_correlation (cw_fingerprint w) (match_document m) of
     Inl err \<Rightarrow> (Inl err, b)
   | Inr d \<Rightarrow> publish_correlations w ms (snd (publish (cw_output w) (correlation_message m d) b)))"

definition correlation_accept ::
  "env \<Rightarrow> correlation_worker \<Rightarrow> string \<Rightarrow> bus_message \<Rightarrow> correlation_engine \<times> bus \<Rightarrow> (eval_error + unit) \<times> (correlation_engine \<times> bus)" where
  "correlation_accept e w topic m s = (let reject = (\<lambda>why. (Inr (), (fst s, reject_message topic CORRELATION_GROUP m why (snd s)))) in
     case bm_payload m of
       Inl why \<Rightarrow> reject (''undecodable payload: '' @ why)
     | Inr (JObj d) \<Rightarrow> (case to_input e w topic d of
         Inl err \<Rightarrow> (Inl err, s)
       | Inr None \<Rightarrow> (Inr (), (fst s, ack_message topic CORRELATION_GROUP m (snd s)))
       | Inr (Some i) \<Rightarrow> (case process e (fst s) i of (ms, g) \<Rightarrow>
           (case publish_correlations w ms (snd s) of
              (Inl err, b) \<Rightarrow> (Inl err, (g, b))
            | (Inr _, b) \<Rightarrow> (Inr (), (g, ack_message topic CORRELATION_GROUP m b)))))
     | Inr _ \<Rightarrow> reject ''payload is not an object'')"

section \<open>What publishing leaves on the bus\<close>

definition announces :: "detection_worker \<Rightarrow> document option \<Rightarrow> rule_match \<Rightarrow> bus_message \<Rightarrow> bool" where
  "announces w event m n \<longleftrightarrow> (\<exists>d. apply_to_detection (dw_fingerprint w) (to_document m) event = Inr d \<and> n = detection_message m d)"

lemma publish_detections_stream:
  assumes "publish_detections w ms event b = (res, b')"
  shows "\<exists>done news. prefix done ms \<and> (res = Inr () \<longleftrightarrow> done = ms) \<and> acked b' = acked b
    \<and> map snd (stream b' (dw_output w)) = map snd (stream b (dw_output w)) @ news \<and> list_all2 (announces w event) done news"
  using assms
proof (induction ms arbitrary: b)
  case (Cons m ms)
  show ?case
  proof (cases "apply_to_detection (dw_fingerprint w) (to_document m) event")
    case (Inl err)
    with Cons.prems show ?thesis by (intro exI [of _ "[]"]) auto
  next
    case (Inr d)
    let ?b = "snd (publish (dw_output w) (detection_message m d) b)"
    from Cons.IH [of ?b] Cons.prems Inr obtain "done" news where k: "prefix done ms" "res = Inr () \<longleftrightarrow> done = ms" "acked b' = acked b"
      "map snd (stream b' (dw_output w)) = map snd (stream ?b (dw_output w)) @ news" "list_all2 (announces w event) done news" by auto
    have "announces w event m (detection_message m d)" using Inr by (auto simp: announces_def)
    thus ?thesis using k by (intro exI [of _ "m # done"] exI [of _ "detection_message m d # news"]) (simp add: stream_publish)
  qed
qed simp

text \<open>The three ways a message can end.\<close>

lemma detection_accept_cases:
  assumes "detection_accept y e db w m s = (res, (g', b'))"
  obtains (rejected) why where "res = Inr ()" "g' = fst s" "b' = reject_message (dw_topic w) DETECTION_GROUP m why (snd s)"
      "\<nexists>d t. bm_payload m = Inr (JObj d) \<and> parse_uuid (py_str (get d ''tenant_id'')) = Some t"
  | (no_rules) err d t where "bm_payload m = Inr (JObj d)" "parse_uuid (py_str (get d ''tenant_id'')) = Some t"
      "engine_for y e db t (fst s) = Inl err" "res = Inl err" "g' = fst s" "b' = snd s"
  | (evaluated) d t x g ms x' b r where "bm_payload m = Inr (JObj d)" "parse_uuid (py_str (get d ''tenant_id'')) = Some t"
      "engine_for y e db t (fst s) = Inr (x, g)" "evaluate (env.truncate e) (with_store g x) d = (ms, x')" "g' = keep_engine t x' g"
      "publish_detections w ms (Some d) (snd s) = (r, b)"
      "(res = Inr () \<longleftrightarrow> r = Inr ())" "b' = (if r = Inr () then ack_message (dw_topic w) DETECTION_GROUP m b else b)"
proof (cases "\<exists>d t. bm_payload m = Inr (JObj d) \<and> parse_uuid (py_str (get d ''tenant_id'')) = Some t")
  case False
  with assms have "\<exists>why. res = Inr () \<and> g' = fst s \<and> b' = reject_message (dw_topic w) DETECTION_GROUP m why (snd s)"
    by (auto simp: detection_accept_def Let_def split: sum.splits json.splits option.splits)
  thus thesis using False by (elim exE conjE) (rule rejected)
next
  case True
  then obtain d t where d: "bm_payload m = Inr (JObj d)" "parse_uuid (py_str (get d ''tenant_id'')) = Some t" by blast
  show thesis
  proof (cases "engine_for y e db t (fst s)")
    case (Inl err)
    with assms d show thesis by (intro no_rules [OF d]) (auto simp: detection_accept_def Let_def)
  next
    case (Inr p)
    obtain x g ms x' r b where p: "p = (x, g)" "evaluate (env.truncate e) (with_store g x) d = (ms, x')"
      "publish_detections w ms (Some d) (snd s) = (r, b)" by (metis prod.exhaust)
    have "g' = keep_engine t x' g \<and> (res = Inr () \<longleftrightarrow> r = Inr ()) \<and> b' = (if r = Inr () then ack_message (dw_topic w) DETECTION_GROUP m b else b)"
      using assms d Inr p by (cases r) (auto simp: detection_accept_def Let_def)
    thus thesis using p Inr by (elim conjE) (rule evaluated [OF d, of x g ms x' r b], simp_all)
  qed
qed

section \<open>Properties\<close>


text \<open>A usable tenant identifier is a value \<open>str(... or "")\<close> keeps.\<close>

lemma length_remove_all: "length (remove_all sub s) \<le> length s"
proof (induction sub s rule: remove_all.induct)
  case (1 sub s)
  show ?case
    by (subst remove_all.simps) (use 1 in \<open>auto simp: neq_Nil_conv intro: le_SucI order.trans\<close>)
qed

lemma length_strip_chars: "length (strip_chars cs s) \<le> length s"
  unfolding strip_chars_def by (metis length_dropWhile_le length_rev order.trans)

lemma parse_uuid_long: "parse_uuid s = Some t \<Longrightarrow> 32 \<le> length s"
  using length_remove_all [of "''-''" "strip_chars ''{}'' (remove_all ''uuid:'' (remove_all ''urn:'' s))"]
    length_strip_chars [of "''{}''" "remove_all ''uuid:'' (remove_all ''urn:'' s)"]
    length_remove_all [of "''uuid:''" "remove_all ''urn:'' s"] length_remove_all [of "''urn:''" s]
  by (auto simp: parse_uuid_def Let_def split: if_splits)

lemma falsy_text_short: "\<not> py_truthy v \<Longrightarrow> length (py_str v) < 32"
  by (cases v) (auto simp: py_str_def show_int_def show_nat_0)

lemma parse_uuid_str_or:
  assumes "parse_uuid (py_str v) = Some t"
  shows "str_or v [] = py_str v"
  using parse_uuid_long [OF assms] falsy_text_short [of v] by (auto simp: str_or_def)

section \<open>The engine after a refresh\<close>

lemma engine_for_stale:
  assumes "engine_for y e db t g = Inr (x, g')" "\<not> fresh_rules e t g"
  obtains rs where "load_active_rules y e t db = Inr rs" "rules x = filter (\<lambda>r. rule_type r = ''streaming'' \<and> status r \<noteq> DISABLED) rs"
proof -
  obtain rs where "load_active_rules y e t db = Inr rs"
    "x = (case dict_get (engines g) t of None \<Rightarrow> new_engine rs | Some z \<Rightarrow> replace_rules rs z)"
    using assms by (auto simp: engine_for_def refresh_if_stale_def load_tenant_def bind_res_Inr Let_def dict_get_set)
  thus thesis by (intro that) (auto simp: new_engine_def replace_rules_def split: option.splits)
qed

lemma with_store_rules [simp]: "rules (with_store g x) = rules x"
  by (simp add: with_store_def split: option.splits)

lemma list_all2_mem2: "list_all2 P xs ys \<Longrightarrow> v \<in> set ys \<Longrightarrow> \<exists>u \<in> set xs. P u v"
  by (induction rule: list_all2_induct) auto

text \<open>What a match of the refreshed engine says of the row its rule comes from.\<close>

lemma match_of_row:
  assumes wf: "rules_wf y db" and load: "load_active_rules y e t db = Inr rs"
    and rules: "rules x = filter (\<lambda>r. rule_type r = ''streaming'' \<and> status r \<noteq> DISABLED) rs"
    and m: "m \<in> set (fst (evaluate e' x d))"
  obtains row where "row \<in> set (detection_rules db)" "rr_tenant row = t" "rr_status row \<noteq> ''disabled''" "rr_type row = ''streaming''"
    "m_rule_id m = rr_key row" "m_severity m = rr_severity row" "dry_run m \<longleftrightarrow> rr_status row = ''testing''"
    "m_tenant m = str_or (get d ''tenant_id'') []" "m_severity m \<noteq> []"
proof -
  obtain r n where r: "r \<in> set rs" "rule_type r = ''streaming''"
    and mr: "m = build_match e' n r (str_or (get d ''tenant_id'') []) (if str_or (get d ''event_id'') [] \<noteq> [] then [JStr (str_or (get d ''event_id'') [])] else [])
      (entity_key r d) (evidence d)"
    using evaluate_rules_sound [OF m [unfolded evaluate_def]] rules by auto
  from loaded_rule_row [OF wf load r(1)] obtain row where row: "row \<in> set (detection_rules db)" "rr_tenant row = t" "rr_status row \<noteq> ''disabled''"
    "rule_id r = rr_key row" "severity_value (severity r) = rr_severity row" "status_value (status r) = rr_status row" "rule_type r = rr_type row" by metis
  have "dry_run m \<longleftrightarrow> rr_status row = ''testing''" using row(6) by (cases "status r") (auto simp: mr build_match_def)
  moreover have "m_severity m \<noteq> []" by (cases "severity r") (simp_all add: mr build_match_def)
  ultimately show thesis using row r(2) by (intro that [of row]) (simp_all add: mr build_match_def)
qed

text \<open>C27: from the enabled rules to the alert queue. When the rules of a tenant are due for a refresh, what
  the worker publishes for a message comes from the rows that are enabled or in testing at that moment, of
  the message's tenant, and says so: key, severity and dry-run flag are those of the row. The alert worker reads
  each published detection as an input for the same tenant and severity when its rule is enabled, and
  drops it when its rule is in testing; a disabled rule is silent.\<close>

theorem detections_follow_the_enabled_rules:
  assumes "(rule_step y)\<^sup>*\<^sup>* db0 db" and "no_rules db0" and "faithful_yaml y"
    and "detection_accept y e db w m s = (res, (g', b'))" and "bm_payload m = Inr (JObj d)"
    and "parse_uuid (py_str (get d ''tenant_id'')) = Some t" and "\<not> fresh_rules e t (fst s)"
  shows "\<exists>news. map snd (stream b' (dw_output w)) = map snd (stream (snd s) (dw_output w)) @ news
    \<and> (\<forall>n \<in> set news. \<exists>row doc. row \<in> set (detection_rules db) \<and> rr_tenant row = t \<and> rr_status row \<noteq> ''disabled'' \<and> rr_type row = ''streaming''
        \<and> dict_get (bm_headers n) ''rule_id'' = Some (rr_key row) \<and> dict_get (bm_headers n) ''severity'' = Some (rr_severity row)
        \<and> dict_get (bm_headers n) ''dry_run'' = Some (if rr_status row = ''testing'' then ''true'' else ''false'')
        \<and> bm_payload n = Inr (JObj doc)
        \<and> (if rr_status row = ''testing'' then to_alert TOPIC_DETECTIONS_CREATED doc = Inr None
           else \<exists>p. to_alert TOPIC_DETECTIONS_CREATED doc = Inr (Some p) \<and> ai_tenant p = t \<and> ai_severity p = rr_severity row))"
  using assms(4)
proof (cases rule: detection_accept_cases)
  case (evaluated d' t' x g ms x' b r)
  have d: "d' = d" "t' = t" using evaluated(1,2) assms(5,6) by simp_all
  obtain rs where rs: "load_active_rules y e t db = Inr rs" "rules x = filter (\<lambda>r. rule_type r = ''streaming'' \<and> status r \<noteq> DISABLED) rs"
    using engine_for_stale [OF evaluated(3)] assms(7) d by blast
  have wf: "rules_wf y db" by (rule rules_wf_reachable [OF assms(1-3)])
  obtain "done" news where k: "prefix done ms" "map snd (stream b (dw_output w)) = map snd (stream (snd s) (dw_output w)) @ news"
    "list_all2 (announces w (Some d)) done news" using publish_detections_stream [OF evaluated(6)] d by blast
  have tenant: "str_or (get d ''tenant_id'') [] = py_str (get d ''tenant_id'')" by (rule parse_uuid_str_or [OF assms(6)])
  show ?thesis
  proof (intro exI [of _ news] conjI ballI)
    show "map snd (stream b' (dw_output w)) = map snd (stream (snd s) (dw_output w)) @ news" using k(2) evaluated(8) by simp
    fix n assume n: "n \<in> set news"
    obtain mt doc where mt: "mt \<in> set done" "apply_to_detection (dw_fingerprint w) (to_document mt) (Some d) = Inr doc" "n = detection_message mt doc"
      using list_all2_mem2 [OF k(3) n] by (auto simp: announces_def)
    have "mt \<in> set (fst (evaluate (env.truncate e) (with_store g x) d))"
      using mt(1) k(1) evaluated(4) d by (auto dest: set_mono_prefix)
    from match_of_row [OF wf rs(1) _ this] rs(2) obtain row where row: "row \<in> set (detection_rules db)" "rr_tenant row = t" "rr_status row \<noteq> ''disabled''"
      "rr_type row = ''streaming''" "m_rule_id mt = rr_key row" "m_severity mt = rr_severity row" "dry_run mt \<longleftrightarrow> rr_status row = ''testing''"
      "m_tenant mt = str_or (get d ''tenant_id'') []" "m_severity mt \<noteq> []" by auto
    have "parse_uuid (m_tenant mt) = Some t" using row(8) tenant assms(6) by simp
    hence "if rr_status row = ''testing'' then to_alert TOPIC_DETECTIONS_CREATED doc = Inr None
        else \<exists>p. to_alert TOPIC_DETECTIONS_CREATED doc = Inr (Some p) \<and> ai_tenant p = t \<and> ai_severity p = rr_severity row"
      using detection_reaches_alerting [OF mt(2)] detection_of_match [OF mt(2)] row
      by (auto simp: to_alert_def TOPIC_DETECTIONS_CREATED_def TOPIC_CORRELATIONS_CREATED_def)
    thus "\<exists>row doc. row \<in> set (detection_rules db) \<and> rr_tenant row = t \<and> rr_status row \<noteq> ''disabled'' \<and> rr_type row = ''streaming''
        \<and> dict_get (bm_headers n) ''rule_id'' = Some (rr_key row) \<and> dict_get (bm_headers n) ''severity'' = Some (rr_severity row)
        \<and> dict_get (bm_headers n) ''dry_run'' = Some (if rr_status row = ''testing'' then ''true'' else ''false'')
        \<and> bm_payload n = Inr (JObj doc)
        \<and> (if rr_status row = ''testing'' then to_alert TOPIC_DETECTIONS_CREATED doc = Inr None
           else \<exists>p. to_alert TOPIC_DETECTIONS_CREATED doc = Inr (Some p) \<and> ai_tenant p = t \<and> ai_severity p = rr_severity row)"
      using row mt(3) by (intro exI [of _ row] exI [of _ doc]) (simp add: detection_message_def)
  qed
qed (use assms(5,6) in \<open>auto intro: exI [of _ "[]"]\<close>)

section \<open>A concrete message\<close>

definition logon_yaml :: yaml_lib where "logon_yaml = yaml_of example_rule"

definition logon_rules0 :: rule_db where
  "logon_rules0 = sample_rules0\<lparr>organizations := [\<lparr>org_id = sample_tenant, org_name = ''Acme'', org_slug = ''acme'', org_active = True\<rparr>]\<rparr>"

definition logon_rules1 :: rule_db where
  "logon_rules1 = (case create_rule logon_yaml (sample_dbenv 1) sample_tenant ''enabled'' None None None logon_rules0 of
     Inr (_, db) \<Rightarrow> db | Inl _ \<Rightarrow> logon_rules0)"

definition logon_message :: bus_message where
  "logon_message = \<lparr>bm_tenant = sample_tenant, bm_key = ''e1'', bm_payload = Inr (JObj [(''tenant_id'', JStr sample_tenant),
     (''event_id'', JStr ''e1''), (''user'', JStr ''root'')]), bm_headers = [], bm_id = Some ''1-0''\<rparr>"

definition logon_worker :: detection_worker where "logon_worker = new_detection_worker []"

lemma logon_created: "create_rule logon_yaml (sample_dbenv 1) sample_tenant ''enabled'' None None None logon_rules0
    = Inr (hd (detection_rules logon_rules1), logon_rules1)"
  by code_simp

lemma logon_reached: "(rule_step logon_yaml)\<^sup>*\<^sup>* logon_rules0 logon_rules1" "no_rules logon_rules0"
proof -
  show "(rule_step logon_yaml)\<^sup>*\<^sup>* logon_rules0 logon_rules1"
    by (rule r_into_rtranclp [where r = "rule_step logon_yaml", OF rule_created [OF logon_created]])
qed code_simp

lemma logon_yaml_faithful: "faithful_yaml logon_yaml"
  unfolding logon_yaml_def by (rule yaml_of_faithful)

definition logon_event :: document where
  "logon_event = [(''tenant_id'', JStr sample_tenant), (''event_id'', JStr ''e1''), (''user'', JStr ''root'')]"

definition logon_match :: rule_match where
  "logon_match = \<lparr>detection_id = ''0'', m_tenant = sample_tenant, m_rule_id = ''AUTH-001'', m_rule_name = ''Root logon'', m_rule_type = ''streaming'',
     m_severity = ''high'', m_confidence = 80, m_risk_score = 70, m_mitre = [], m_event_ids = [JStr ''e1''], m_entity = [(''user'', JStr ''root'')],
     matched_at = ''5'', dry_run = False, m_evidence = [(''user'', JStr ''root'')]\<rparr>"

definition logon_engine :: "engine \<times> registry" where
  "logon_engine = (case engine_for logon_yaml (sample_dbenv 5) logon_rules1 sample_tenant (new_registry 60 None) of
     Inr r \<Rightarrow> r | Inl _ \<Rightarrow> (new_engine [], new_registry 0 None))"

lemma logon_engine: "engine_for logon_yaml (sample_dbenv 5) logon_rules1 sample_tenant (new_registry 60 None) = Inr (fst logon_engine, snd logon_engine)"
  by code_simp

lemma logon_evaluated: "fst (evaluate (env.truncate (sample_dbenv 5)) (with_store (snd logon_engine) (fst logon_engine)) logon_event) = [logon_match]"
  by code_simp

lemma logon_scored: "\<exists>doc. apply_to_detection [] (to_document logon_match) (Some logon_event) = Inr doc"
proof -
  obtain f1 where f1: "severity_factor (JStr ''high'') = Inr f1"
    by (cases "dict_get SEVERITY_VALUES (str_lower ''high'')") (simp_all add: severity_factor_def py_text_def)
  have "to_float 80 = Fin 80" using fl_int [of 80] by (simp add: to_float_def float_max_def)
  then obtain f2 where f2: "confidence_factor (JInt 80) = Inr f2"
    by (auto simp: confidence_factor_def py_float_def py_int_def)
  show ?thesis
    by (simp add: apply_to_detection_def context_from_detection_def unpack_def dict_merge_def intel_of_def user_risk_of_def
      list_or_empty_def py_or_def py_iter_def assess_def asset_criticality_of_def Let_def to_document_def logon_match_def logon_event_def f1 f2
      asset_criticality_factor_def user_risk_factor_def threat_intel_factor_def mitre_context_factor_def behavioral_anomaly_factor_def)
qed

lemma logon_accepted:
  "\<exists>g doc. detection_accept logon_yaml (sample_dbenv 5) logon_rules1 logon_worker logon_message (new_registry 60 None, new_bus)
     = (Inr (), (g, ack TOPIC_EVENTS_NORMALIZED DETECTION_GROUP ''1-0''
         (snd (publish TOPIC_DETECTIONS_CREATED (detection_message logon_match doc) new_bus))))"
proof -
  obtain doc where doc: "apply_to_detection [] (to_document logon_match) (Some logon_event) = Inr doc" using logon_scored by blast
  obtain x g where lg: "logon_engine = (x, g)" by (cases logon_engine)
  obtain x' where ev: "evaluate (env.truncate (sample_dbenv 5)) (with_store g x) logon_event = ([logon_match], x')"
    using logon_evaluated unfolding lg by (cases "evaluate (env.truncate (sample_dbenv 5)) (with_store g x) logon_event") auto
  have "parse_uuid (py_str (get logon_event ''tenant_id'')) = Some sample_tenant" by (simp add: logon_event_def sample_tenant_parsed)
  moreover have "bm_payload logon_message = Inr (JObj logon_event)" "bm_id logon_message = Some ''1-0''" by (simp_all add: logon_message_def logon_event_def)
  ultimately show ?thesis using doc ev logon_engine [unfolded lg]
    by (auto simp: detection_accept_def Let_def logon_worker_def new_detection_worker_def ack_message_def)
qed

theorem detections_follow_the_enabled_rules_witness:
  "\<exists>g b n row doc p. detection_accept logon_yaml (sample_dbenv 5) logon_rules1 logon_worker logon_message (new_registry 60 None, new_bus) = (Inr (), (g, b))
     \<and> map snd (stream b TOPIC_DETECTIONS_CREATED) = [n] \<and> row \<in> set (detection_rules logon_rules1)
     \<and> dict_get (bm_headers n) ''rule_id'' = Some (rr_key row) \<and> bm_payload n = Inr (JObj doc)
     \<and> to_alert TOPIC_DETECTIONS_CREATED doc = Inr (Some p) \<and> ai_tenant p = sample_tenant \<and> ai_severity p = rr_severity row"
proof -
  obtain g b doc where a: "detection_accept logon_yaml (sample_dbenv 5) logon_rules1 logon_worker logon_message (new_registry 60 None, new_bus) = (Inr (), (g, b))"
    and b: "b = ack TOPIC_EVENTS_NORMALIZED DETECTION_GROUP ''1-0'' (snd (publish TOPIC_DETECTIONS_CREATED (detection_message logon_match doc) new_bus))"
    using logon_accepted by blast
  have "stream new_bus TOPIC_DETECTIONS_CREATED = []" by (simp add: new_bus_def stream_def)
  hence n: "map snd (stream b TOPIC_DETECTIONS_CREATED) = [detection_message logon_match doc]" "stream new_bus TOPIC_DETECTIONS_CREATED = []"
    by (simp_all add: b stream_publish)
  have p: "bm_payload logon_message = Inr (JObj logon_event)" "parse_uuid (py_str (get logon_event ''tenant_id'')) = Some sample_tenant"
    "\<not> fresh_rules (sample_dbenv 5) sample_tenant (fst (new_registry 60 None, new_bus))" "dw_output logon_worker = TOPIC_DETECTIONS_CREATED"
    by (simp_all add: logon_message_def logon_event_def sample_tenant_parsed fresh_rules_def new_registry_def logon_worker_def new_detection_worker_def)
  have "dict_get (bm_headers (detection_message logon_match doc)) ''dry_run'' = Some ''false''"
    by (simp add: detection_message_def logon_match_def)
  with detections_follow_the_enabled_rules [OF logon_reached logon_yaml_faithful a p(1-3)] n obtain row doc' p where
    k: "row \<in> set (detection_rules logon_rules1)" "rr_status row \<noteq> ''testing''" "dict_get (bm_headers (detection_message logon_match doc)) ''rule_id'' = Some (rr_key row)"
    "bm_payload (detection_message logon_match doc) = Inr (JObj doc')" "to_alert TOPIC_DETECTIONS_CREATED doc' = Inr (Some p)" "ai_tenant p = sample_tenant" "ai_severity p = rr_severity row"
    by (auto simp: p(4) split: if_splits)
  show ?thesis by (intro exI conjI) (rule a, rule n(1), rule k(1), rule k(3), rule k(4), rule k(5), rule k(6), rule k(7))
qed


section \<open>A pass of the scheduler\<close>

definition from_enabled_row :: "'a rule_db_scheme \<Rightarrow> string \<Rightarrow> string \<Rightarrow> bus_message \<Rightarrow> bool" where
  "from_enabled_row db shape t n \<longleftrightarrow> (\<exists>row \<in> set (detection_rules db). rr_tenant row = t \<and> rr_status row \<noteq> ''disabled'' \<and> rr_type row = shape
     \<and> bm_tenant n = t \<and> dict_get (bm_headers n) ''rule_id'' = Some (rr_key row) \<and> dict_get (bm_headers n) ''severity'' = Some (rr_severity row)
     \<and> dict_get (bm_headers n) ''dry_run'' = Some (if rr_status row = ''testing'' then ''true'' else ''false''))"

lemma run_match:
  assumes "run e ev r t now st = (Inr ms, st')" "m \<in> set ms"
  shows "m_tenant m = t \<and> m_rule_id m = rule_id r \<and> m_severity m = severity_value (severity r) \<and> (dry_run m \<longleftrightarrow> status r = TESTING)"
proof -
  from assms(2) have "ms \<noteq> []" by auto
  from assms(1) this obtain base exc ws where "collect e ev r t (PlainTerm ''tenant_id'' t # base) exc ws now 0 None 0 st = (Inr ms, st')"
    by (rule run_collect)
  from collect_shape [OF this assms(2)] obtain b st1 st2 where "bucket_match e ev r t b ws now st1 = (Inr (Some m), st2)" by blast
  from bucket_match_shape [OF this] show ?thesis by (auto simp: build_match_def)
qed

text \<open>The state of the cache after a refresh: what is fresh is what the tables hold.\<close>

definition cache_current :: "yaml_lib \<Rightarrow> 'b dbenv_scheme \<Rightarrow> 'a rule_db_scheme \<Rightarrow> registry \<Rightarrow> bool" where
  "cache_current y e db g \<longleftrightarrow> (\<forall>t. fresh_rules e t g \<longrightarrow> (\<exists>rs. load_active_rules y e t db = Inr rs
     \<and> dict_get (windowed_rules g) t = Some (filter (\<lambda>r. rule_type r = ''windowed'') rs)))"

lemma windowed_rules_for_current:
  assumes "windowed_rules_for y e db t g = Inr (rs, g')" "cache_current y e db g"
  shows "cache_current y e db g' \<and> (\<exists>all. load_active_rules y e t db = Inr all \<and> rs = filter (\<lambda>r. rule_type r = ''windowed'') all)"
proof (cases "fresh_rules e t g")
  case True
  thus ?thesis using assms by (fastforce simp: windowed_rules_for_def refresh_if_stale_def cache_current_def)
next
  case False
  obtain rules where l: "load_active_rules y e t db = Inr rules" and g': "windowed_rules g' = dict_set t (filter (\<lambda>r. rule_type r = ''windowed'') rules) (windowed_rules g)"
    "loaded_at g' = dict_set t (monotonic e) (loaded_at g)" "refresh_seconds g' = refresh_seconds g"
    and rs: "rs = filter (\<lambda>r. rule_type r = ''windowed'') rules"
    using assms(1) False by (auto simp: windowed_rules_for_def refresh_if_stale_def load_tenant_def bind_res_Inr Let_def dict_get_set)
  have "fresh_rules e u g' \<Longrightarrow> u \<noteq> t \<Longrightarrow> fresh_rules e u g" for u
    using g' by (simp add: fresh_rules_def dict_get_set split: option.splits)
  hence "cache_current y e db g'" using assms(2) l g'(1) unfolding cache_current_def by (metis dict_get_set)
  thus ?thesis using l rs by blast
qed

definition adds :: "string \<Rightarrow> (bus_message \<Rightarrow> bool) \<Rightarrow> bus \<Rightarrow> bus \<Rightarrow> bool" where
  "adds topic P b b' \<longleftrightarrow> (\<exists>news. map snd (stream b' topic) = map snd (stream b topic) @ news \<and> list_all P news)"

lemma adds_refl [simp]: "adds topic P b b"
  by (simp add: adds_def)

lemma adds_trans: "adds topic P a b \<Longrightarrow> adds topic P b c \<Longrightarrow> adds topic P a c"
  by (auto simp: adds_def)

lemma publish_detections_adds:
  assumes "publish_detections w ms event b = (res, b')" "\<And>m d. m \<in> set ms \<Longrightarrow> P (detection_message m d)"
  shows "adds (dw_output w) P b b'"
proof -
  obtain "done" news where k: "prefix done ms" "map snd (stream b' (dw_output w)) = map snd (stream b (dw_output w)) @ news"
    "list_all2 (announces w event) done news" using publish_detections_stream [OF assms(1)] by blast
  have "P n" if "n \<in> set news" for n
    using list_all2_mem2 [OF k(3) that] assms(2) set_mono_prefix [OF k(1)] by (auto simp: announces_def)
  thus ?thesis using k(2) by (auto simp: adds_def list_all_iff)
qed

lemma run_rules_adds:
  assumes "run_rules e ev w t now rs s = (res, s')"
    and "\<And>m d r. r \<in> set rs \<Longrightarrow> m_tenant m = t \<Longrightarrow> m_rule_id m = rule_id r \<Longrightarrow> m_severity m = severity_value (severity r) \<Longrightarrow>
      (dry_run m \<longleftrightarrow> status r = TESTING) \<Longrightarrow> P (detection_message m d)"
  shows "adds (dw_output w) P (snd s) (snd s')"
  using assms
proof (induction rs arbitrary: s res s')
  case (Cons r rs)
  obtain x st where r: "run e ev r t now (fst s) = (x, st)" by (cases "run e ev r t now (fst s)")
  show ?case
  proof (cases x)
    case (Inl err)
    with Cons.IH [of "(st, snd s)"] Cons.prems r show ?thesis by auto
  next
    case (Inr ms)
    obtain p b where p: "publish_detections w ms None (snd s) = (p, b)" by (cases "publish_detections w ms None (snd s)")
    have "adds (dw_output w) P (snd s) b"
      using run_match [of e ev r t now "fst s" ms st] r Inr Cons.prems(2) [of r] by (intro publish_detections_adds [OF p]) simp
    moreover have "adds (dw_output w) P b (snd s')"
    proof (cases p)
      case (Inl err)
      thus ?thesis using Cons.prems(1) r Inr p by auto
    next
      case (Inr u)
      obtain q s1 where q: "run_rules e ev w t now rs (st, b) = (q, s1)" by (cases "run_rules e ev w t now rs (st, b)")
      have "adds (dw_output w) P b (snd s1)" using Cons.IH [OF q] Cons.prems(2) by auto
      moreover have "s1 = s'" using Cons.prems(1) r \<open>x = Inr ms\<close> p Inr q by (cases q) auto
      ultimately show ?thesis by simp
    qed
    ultimately show ?thesis by (rule adds_trans)
  qed
qed simp

lemma run_tenants_adds:
  assumes "run_tenants y e db ev w ts (g, s) = (res, (g', s'))" "cache_current y e db g" "rules_wf y db"
  shows "adds (dw_output w) (\<lambda>n. \<exists>t \<in> set ts. from_enabled_row db ''windowed'' t n) (snd s) (snd s')"
  using assms
proof (induction ts arbitrary: g s res)
  case (Cons t ts)
  let ?P = "\<lambda>n. \<exists>t \<in> set (t # ts). from_enabled_row db ''windowed'' t n"
  have weak: "adds (dw_output w) (\<lambda>n. \<exists>t \<in> set ts. from_enabled_row db ''windowed'' t n) a b \<Longrightarrow> adds (dw_output w) ?P a b" for a b
    by (fastforce simp: adds_def list_all_iff)
  show ?case
  proof (cases "windowed_rules_for y e db t g")
    case (Inl err)
    thus ?thesis using Cons.IH [of g s res] Cons.prems weak by auto
  next
    case (Inr q)
    obtain rs g1 where q: "q = (rs, g1)" by (cases q)
    obtain all where c: "cache_current y e db g1" "load_active_rules y e t db = Inr all" "rs = filter (\<lambda>r. rule_type r = ''windowed'') all"
      using windowed_rules_for_current [OF Inr [unfolded q] Cons.prems(2)] by blast
    obtain x s1 where x: "run_rules (env.truncate e) ev w t (utcnow e) rs s = (x, s1)" by (cases "run_rules (env.truncate e) ev w t (utcnow e) rs s")
    have one: "adds (dw_output w) ?P (snd s) (snd s1)"
    proof (rule run_rules_adds [OF x])
      fix m :: rule_match and d r assume r: "r \<in> set rs" "m_tenant m = t" "m_rule_id m = rule_id r" "m_severity m = severity_value (severity r)" "dry_run m \<longleftrightarrow> status r = TESTING"
      hence "r \<in> set all" "rule_type r = ''windowed''" using c(3) by auto
      from loaded_rule_row [OF Cons.prems(3) c(2) this(1)] this(2) obtain row where "row \<in> set (detection_rules db)" "rr_tenant row = t"
        "rr_status row \<noteq> ''disabled''" "rule_id r = rr_key row" "severity_value (severity r) = rr_severity row" "status_value (status r) = rr_status row"
        "rr_type row = ''windowed''" by metis
      moreover from this(6) have "status r = TESTING \<longleftrightarrow> rr_status row = ''testing''" by (cases "status r") auto
      ultimately have "from_enabled_row db ''windowed'' t (detection_message m d)"
        unfolding from_enabled_row_def using r by (intro bexI [of _ row]) (simp_all add: detection_message_def)
      thus "?P (detection_message m d)" by simp
    qed
    show ?thesis
    proof (cases x)
      case (Inl err)
      thus ?thesis using one Cons.prems(1) Inr q x by auto
    next
      case (Inr n)
      obtain z s2 where z: "run_tenants y e db ev w ts (g1, s1) = (z, s2)" by (cases "run_tenants y e db ev w ts (g1, s1)")
      have "s2 = (g', s')" using Cons.prems(1) \<open>windowed_rules_for y e db t g = Inr q\<close> q x Inr z by (cases z) auto
      hence "run_tenants y e db ev w ts (g1, s1) = (z, (g', s'))" using z by simp
      from weak [OF Cons.IH [OF this c(1) Cons.prems(3)]] have "adds (dw_output w) ?P (snd s1) (snd s')" .
      with one show ?thesis by (rule adds_trans)
    qed
  qed
qed simp

text \<open>A pass over the windowed rules. However rules and tenants fail in it, and even when the pass itself
  ends early, a pass that starts with a stale cache only adds detections to the bus, each of an active
  tenant, for one of its windowed rules that is enabled or in testing, with the severity and the
  dry-run flag of that rule's row.\<close>

theorem scheduled_detections_sound:
  assumes "(rule_step y)\<^sup>*\<^sup>* db0 db" and "no_rules db0" and "faithful_yaml y" and "\<And>t. \<not> fresh_rules e t g"
    and "run_once y e db ev w (g, st, b) = (res, (g', st', b'))"
  shows "\<exists>news. map snd (stream b' (dw_output w)) = map snd (stream b (dw_output w)) @ news
    \<and> (\<forall>n \<in> set news. \<exists>t \<in> org_id ` {t \<in> set (organizations db). org_active t}. from_enabled_row db ''windowed'' t n)"
proof -
  have "cache_current y e db g" using assms(4) by (simp add: cache_current_def)
  from run_tenants_adds [OF assms(5) [unfolded run_once_def] this rules_wf_reachable [OF assms(1-3)]] show ?thesis
    by (auto simp: adds_def list_all_iff active_tenants_def)
qed


end
