(* ===== verification/Correlation_Loader.thy ===== *)
theory Correlation_Loader
  imports Rule_Service Correlation
begin

text \<open>
  Loading correlation rules from a directory (\<open>correlation/loader.py\<close>): parsing against the
  schema of \<open>correlation/schema.py\<close>, the warnings, duplicates, and the form the worker starts
  with, which refuses a directory with any error. What a text holds as YAML is an argument, with
  the patterns \<open>re.compile\<close> accepts.
\<close>

record authored_correlation =
  ac_rule :: correlation_rule
  ac_description :: string
  ac_author :: string
  ac_notes :: string
  ac_steps :: string

datatype correlation_yaml = Correlation_bad_yaml string | Correlation_no_mapping | Correlation_bad_shape string
  | Correlation_document authored_correlation

definition is_lower_char :: "char \<Rightarrow> bool" where
  "is_lower_char c \<longleftrightarrow> (let n = (of_char c :: nat) in 97 \<le> n \<and> n \<le> 122)"

definition stage_name_ok :: "string \<Rightarrow> bool" where
  "stage_name_ok s \<longleftrightarrow> 1 \<le> length s \<and> length s \<le> 64 \<and> is_lower_char (hd s)
     \<and> list_all (\<lambda>c. is_lower_char c \<or> is_digit c \<or> c = CHR ''_'') s"

definition stage_valid :: "(string \<Rightarrow> bool) \<Rightarrow> correlation_stage \<Rightarrow> bool" where
  "stage_valid compiles s \<longleftrightarrow> stage_name_ok (st_name s) \<and> stage_bounds s \<and> node_valid compiles (st_conditions s)"

definition authored_correlation_valid :: "(string \<Rightarrow> bool) \<Rightarrow> authored_correlation \<Rightarrow> bool" where
  "authored_correlation_valid compiles a \<longleftrightarrow> (let r = ac_rule a in
     rule_id_ok (correlation_id r) \<and> 1 \<le> length (cr_name r) \<and> length (cr_name r) \<le> 200 \<and> 1 \<le> length (ac_description a)
     \<and> 0 \<le> cr_confidence r \<and> cr_confidence r \<le> 100 \<and> 0 \<le> cr_risk_score r \<and> cr_risk_score r \<le> 100 \<and> 1 \<le> cr_version r
     \<and> 1 \<le> length (ac_author a) \<and> duration_ok (cr_window r) \<and> pred_option duration_ok (cr_suppression r)
     \<and> 1 \<le> length (ac_notes a) \<and> 1 \<le> length (ac_steps a)
     \<and> list_all (stage_valid compiles) (stages r) \<and> correlation_rule_valid r)"

definition parse_correlation_rule :: "(string \<Rightarrow> bool) \<times> (string \<Rightarrow> correlation_yaml) \<Rightarrow> string \<Rightarrow> string \<Rightarrow> service_error + correlation_rule" where
  "parse_correlation_rule y source origin = (case snd y source of
     Correlation_bad_yaml m \<Rightarrow> Inl (RuleLoadError (origin @ '': not valid YAML: '' @ m))
   | Correlation_no_mapping \<Rightarrow> Inl (RuleLoadError (origin @ '': a correlation rule must be a YAML mapping''))
   | Correlation_bad_shape m \<Rightarrow> Inl (RuleLoadError (origin @ '': invalid correlation rule: '' @ m))
   | Correlation_document a \<Rightarrow> if authored_correlation_valid (fst y) a then Inr (ac_rule a)
       else Inl (RuleLoadError (origin @ '': invalid correlation rule'')))"

definition correlation_warnings :: "correlation_rule \<Rightarrow> string \<Rightarrow> string list" where
  "correlation_warnings r origin =
     (if cr_suppression r = None then [origin @ '': '' @ correlation_id r
        @ '' has no suppression; it will re-fire on every subsequent input for the same entity while its window holds''] else [])
     @ (if \<not> ordered r then [origin @ '': '' @ correlation_id r @ '' is unordered - check that the chain really is order-independent, ''
        @ ''since ordering is most of what makes a correlation more specific than its parts''] else [])"

record correlation_load =
  cl_rules :: "correlation_rule list"
  cl_errors :: "string list"
  cl_warnings :: "string list"

definition cl_error :: "string \<Rightarrow> correlation_load \<Rightarrow> correlation_load" where
  "cl_error m r = r\<lparr>cl_errors := cl_errors r @ [m]\<rparr>"

fun load_correlation_files ::
  "(string \<Rightarrow> bool) \<times> (string \<Rightarrow> correlation_yaml) \<Rightarrow> (string \<times> rule_file) list \<Rightarrow> string dict \<Rightarrow> correlation_load \<Rightarrow> correlation_load" where
  "load_correlation_files y [] seen r = r"
| "load_correlation_files y ((origin, f) # fs) seen r = (case f of
     Unreadable m \<Rightarrow> load_correlation_files y fs seen (cl_error m r)
   | File_text t \<Rightarrow> (case parse_correlation_rule y t origin of
        Inl err \<Rightarrow> load_correlation_files y fs seen (cl_error (load_message err) r)
      | Inr c \<Rightarrow> (case dict_get seen (correlation_id c) of
          Some other \<Rightarrow> load_correlation_files y fs seen (cl_error (origin @ '': duplicate correlation_id '' @ correlation_id c
            @ '' (already defined in '' @ other @ '')'') r)
        | None \<Rightarrow> load_correlation_files y fs (dict_set (correlation_id c) origin seen)
            (r\<lparr>cl_rules := cl_rules r @ [c], cl_warnings := cl_warnings r @ correlation_warnings c origin\<rparr>))))"

definition load_correlation_rules :: "(string \<Rightarrow> bool) \<times> (string \<Rightarrow> correlation_yaml) \<Rightarrow> string \<Rightarrow> (string list \<times> rule_file) list option \<Rightarrow> correlation_load" where
  "load_correlation_rules y directory files = (case files of
     None \<Rightarrow> \<lparr>cl_rules = [], cl_errors = [''correlation rule directory does not exist: '' @ directory], cl_warnings = []\<rparr>
   | Some fs \<Rightarrow> load_correlation_files y (iter_rule_files [] fs) [] \<lparr>cl_rules = [], cl_errors = [], cl_warnings = []\<rparr>)"

definition load_correlation_rules_or_raise ::
  "(string \<Rightarrow> bool) \<times> (string \<Rightarrow> correlation_yaml) \<Rightarrow> string \<Rightarrow> (string list \<times> rule_file) list option \<Rightarrow> service_error + correlation_rule list" where
  "load_correlation_rules_or_raise y directory files = (let r = load_correlation_rules y directory files in
     if cl_errors r \<noteq> [] then Inl (RuleLoadError (show_nat (length (cl_errors r)) @ '' correlation rule file(s) failed to load:'' @ [CHR 0x0A, CHR '' '', CHR '' '']
       @ str_join [CHR 0x0A, CHR '' '', CHR '' ''] (cl_errors r)))
     else Inr (cl_rules r))"

text \<open>What loads is well formed: identifiers are pairwise different, and every rule passed the schema.\<close>

definition chains_ok :: "correlation_rule list \<Rightarrow> bool" where
  "chains_ok rs \<longleftrightarrow> distinct (map correlation_id rs) \<and> list_all correlation_rule_valid rs \<and> list_all (\<lambda>r. duration_ok (cr_window r)) rs"

lemma parse_correlation_Inr:
  "parse_correlation_rule y t origin = Inr r \<Longrightarrow> correlation_rule_valid r \<and> duration_ok (cr_window r)"
  by (auto simp: parse_correlation_rule_def authored_correlation_valid_def Let_def split: correlation_yaml.splits if_splits)

lemma load_correlation_files_ok:
  "chains_ok (cl_rules r) \<Longrightarrow> (\<forall>c \<in> set (cl_rules r). dict_get seen (correlation_id c) \<noteq> None) \<Longrightarrow>
   chains_ok (cl_rules (load_correlation_files y fs seen r))"
proof (induction y fs seen r rule: load_correlation_files.induct)
  case (2 y origin f fs seen r)
  show ?case
  proof (cases f)
    case (Unreadable m)
    thus ?thesis using 2(1) [OF Unreadable] 2(5,6) by (simp add: cl_error_def)
  next
    case (File_text t)
    show ?thesis
    proof (cases "parse_correlation_rule y t origin")
      case (Inl err)
      thus ?thesis using 2(2) [OF File_text Inl] 2(5,6) File_text by (simp add: cl_error_def)
    next
      case (Inr c)
      show ?thesis
      proof (cases "dict_get seen (correlation_id c)")
        case None
        have "chains_ok (cl_rules r @ [c])" using 2(5,6) None parse_correlation_Inr [OF Inr] by (auto simp: chains_ok_def)
        moreover have "\<forall>b \<in> set (cl_rules r @ [c]). dict_get (dict_set (correlation_id c) origin seen) (correlation_id b) \<noteq> None"
          using 2(6) by (auto simp: dict_get_set)
        ultimately show ?thesis using 2(3) [OF File_text Inr None] None File_text Inr by simp
      next
        case (Some other)
        thus ?thesis using 2(4) [OF File_text Inr Some] 2(5,6) File_text Inr by (simp add: cl_error_def)
      qed
    qed
  qed
qed simp

lemma load_correlation_rules_or_raise_ok:
  "load_correlation_rules_or_raise y directory files = Inr rs \<Longrightarrow> chains_ok rs"
  by (cases files) (auto simp: load_correlation_rules_or_raise_def load_correlation_rules_def Let_def load_correlation_files_ok
      chains_ok_def [of "[]"] split: if_splits)

end
