(* ===== verification/Enrichment.thy ===== *)
theory Enrichment
  imports Threat_Intel Py_Uuid
begin

text \<open>
  Enrichment (\<open>enrichment/base.py\<close>, \<open>enrichment/providers.py\<close>): the providers that add
  network, asset and indicator context to a normalized event, and the pipeline that contains their
  failures. A provider reads the document and the database and either gives fields or raises;
  which providers exceed their deadline is an argument of the pipeline.
\<close>

section \<open>Providers\<close>

type_synonym fields = document

text \<open>\<open>_is_private\<close>.\<close>

definition private_address :: "json \<Rightarrow> bool option" where
  "private_address v = (case v of JStr s \<Rightarrow> (if s = [] then None
       else map_option (\<lambda>a. is_private a \<or> is_loopback a \<or> is_link_local a) (ip_address s))
     | _ \<Rightarrow> None)"

definition network_context :: "document \<Rightarrow> fields" where
  "network_context d =
     (let geo = (case private_address (get d ''source_ip'') of None \<Rightarrow> [] | Some b \<Rightarrow> [(''source_is_private'', JBool b)])
            @ (case private_address (get d ''destination_ip'') of None \<Rightarrow> [] | Some b \<Rightarrow> [(''destination_is_private'', JBool b)])
      in if geo = [] then [] else [(''geo'', JObj geo)])"

text \<open>\<open>uuid.UUID(str(tenant_id))\<close>.\<close>

definition scope_tenant :: "json \<Rightarrow> service_error + string" where
  "scope_tenant v = (case parse_uuid (py_str v) of None \<Rightarrow> Inl (Raised (ValueError ''badly formed hexadecimal UUID string'')) | Some t \<Rightarrow> Inr t)"

text \<open>A value compared with a text column: the driver takes a text without NUL only; with an
  \<open>INET\<close> column: a text that is an address.\<close>

definition asset_query :: "'b dbenv_scheme \<Rightarrow> json \<Rightarrow> json \<Rightarrow> string \<Rightarrow> 'a core_db_scheme \<Rightarrow> service_error + asset option" where
  "asset_query e hostname source_ip tenant db =
     bind_res (require
       [(py_truthy hostname \<longrightarrow> (case hostname of JStr s \<Rightarrow> text_ok s | _ \<Rightarrow> False), DataError ''hostname''),
        (py_truthy source_ip \<longrightarrow> inet_ok e source_ip, DataError ''ip_address'')])
     (\<lambda>_. Inr (find (\<lambda>a. ast_tenant a = tenant
         \<and> ((py_truthy hostname \<and> (case hostname of JStr s \<Rightarrow> ast_hostname a = Some s | _ \<Rightarrow> False))
            \<or> (py_truthy source_ip \<and> (case source_ip of JStr s \<Rightarrow> same_inet s (ast_ip a) | _ \<Rightarrow> False)))) (assets db)))"

definition asset_fields :: "asset \<Rightarrow> fields" where
  "asset_fields a = [(''asset'', JObj [(''id'', JStr (ast_id a)), (''criticality'', JStr (ast_criticality a)),
       (''environment'', opt_str (ast_environment a)), (''owner'', opt_str (ast_owner a))]),
     (''device'', JObj [(''asset_id'', JStr (ast_id a))]),
     (''risk_context'', JObj [(''asset_criticality'', JStr (ast_criticality a))])]"

definition asset_context :: "'b dbenv_scheme \<Rightarrow> 'a core_db_scheme \<Rightarrow> document \<Rightarrow> service_error + fields" where
  "asset_context e db d =
     (let tenant = get d ''tenant_id''; hostname = get d ''hostname''; source_ip = get d ''source_ip'' in
      if \<not> py_truthy tenant \<or> \<not> (py_truthy hostname \<or> py_truthy source_ip) then Inr []
      else bind_res (scope_tenant tenant) (\<lambda>t. bind_res (asset_query e hostname source_ip t db) (\<lambda>found.
        Inr (case found of None \<Rightarrow> [] | Some a \<Rightarrow> asset_fields a))))"

definition CLASSIFICATION_RANK :: "nat dict" where
  "CLASSIFICATION_RANK = [(''benign'', 0), (''unknown'', 1), (''suspicious'', 2), (''malicious'', 3)]"

definition classification_rank :: "document \<Rightarrow> nat" where
  "classification_rank m = (case dict_get CLASSIFICATION_RANK (py_str (get m ''classification'')) of None \<Rightarrow> 0 | Some n \<Rightarrow> n)"

fun worst_match :: "document \<Rightarrow> document list \<Rightarrow> document" where
  "worst_match m [] = m"
| "worst_match m (x # xs) = worst_match (if classification_rank m < classification_rank x then x else m) xs"

definition match_fields :: "document list \<Rightarrow> fields" where
  "match_fields ms = (case ms of [] \<Rightarrow> [(''ioc_matches'', JList [])]
     | m # xs \<Rightarrow> [(''ioc_matches'', JList (map JObj ms)),
         (''risk_context'', JObj [(''ioc_classification'', get (worst_match m xs) ''classification'')])])"

definition ioc_match :: "'b dbenv_scheme \<Rightarrow> 'a core_db_scheme \<Rightarrow> document \<Rightarrow> service_error + fields" where
  "ioc_match e db d =
     (let tenant = get d ''tenant_id'' in
      if \<not> py_truthy tenant then Inr []
      else case observables_from_event d of Inl err \<Rightarrow> Inl (indicator_raised err)
      | Inr observables \<Rightarrow>
        if observables = [] then Inr []
        else bind_res (scope_tenant tenant) (\<lambda>t. bind_res (match_indicators e (Some t) observables db) (\<lambda>ms. Inr (match_fields ms))))"

section \<open>The pipeline\<close>

type_synonym provider = "string \<times> (document \<Rightarrow> service_error + fields)"

definition merge_value :: "json option \<Rightarrow> json \<Rightarrow> json" where
  "merge_value old new = (case (old, new) of (Some (JObj a), JObj b) \<Rightarrow> JObj (dict_merge a b) | _ \<Rightarrow> new)"

fun merge_fields :: "document \<Rightarrow> fields \<Rightarrow> document" where
  "merge_fields target [] = target"
| "merge_fields target ((k, v) # kvs) = merge_fields (dict_set k (merge_value (dict_get target k) v) target) kvs"

text \<open>\<open>_run_provider\<close>: a provider that raises or is late gives nothing.\<close>

definition run_provider :: "(string \<Rightarrow> bool) \<Rightarrow> document \<Rightarrow> provider \<Rightarrow> fields option" where
  "run_provider late d p = (if late (fst p) then None else case snd p d of Inl _ \<Rightarrow> None | Inr fs \<Rightarrow> Some fs)"

fun merge_results :: "(string \<times> fields option) list \<Rightarrow> document \<times> string list \<Rightarrow> document \<times> string list" where
  "merge_results [] s = s"
| "merge_results ((name, None) # rs) (d, failed) = merge_results rs (d, failed @ [name])"
| "merge_results ((name, Some fs) # rs) (d, failed) = merge_results rs (merge_fields d fs, failed)"

definition enrich :: "provider list \<Rightarrow> (string \<Rightarrow> bool) \<Rightarrow> document \<Rightarrow> document" where
  "enrich providers late d =
     (let (enriched, failed) = merge_results (map (\<lambda>p. (fst p, run_provider late d p)) providers) (d, [])
      in if failed = [] then enriched
         else dict_set ''enrichment_errors'' (JList (map JStr failed)) (dict_set ''enrichment_partial'' (JBool True) enriched))"

definition default_pipeline :: "'b dbenv_scheme \<Rightarrow> 'a core_db_scheme \<Rightarrow> provider list" where
  "default_pipeline e db = [(''network_context'', \<lambda>d. Inr (network_context d)), (''asset_context'', asset_context e db), (''ioc_match'', ioc_match e db)]"

section \<open>Merging\<close>

lemma merge_fields_other: "k \<notin> fst ` set fs \<Longrightarrow> dict_get (merge_fields d fs) k = dict_get d k"
  by (induction d fs rule: merge_fields.induct) (auto simp: dict_get_set)

lemma merge_results_frame:
  assumes "\<forall>(n, r) \<in> set rs. \<forall>fs. r = Some fs \<longrightarrow> k \<notin> fst ` set fs"
  shows "dict_get (fst (merge_results rs (d, failed))) k = dict_get d k"
  using assms by (induction rs "(d, failed)" arbitrary: d failed rule: merge_results.induct) (auto simp: merge_fields_other)

lemma merge_results_failed: "snd (merge_results rs (d, failed)) = failed @ map fst (filter (\<lambda>(n, r). r = None) rs)"
  by (induction rs "(d, failed)" arbitrary: d failed rule: merge_results.induct) auto

definition failed_providers :: "provider list \<Rightarrow> (string \<Rightarrow> bool) \<Rightarrow> document \<Rightarrow> string list" where
  "failed_providers ps late d = map fst (filter (\<lambda>p. run_provider late d p = None) ps)"

lemma enrich_failed: "snd (merge_results (map (\<lambda>p. (fst p, run_provider late d p)) ps) (d, [])) = failed_providers ps late d"
  by (simp add: merge_results_failed failed_providers_def filter_map comp_def)

lemma failed_mem: "p \<in> set ps \<Longrightarrow> run_provider late d p = None \<Longrightarrow> fst p \<in> set (failed_providers ps late d)"
  by (auto simp: failed_providers_def)

lemma ioc_match_in: "(''ioc_match'', ioc_match e db) \<in> set (default_pipeline e db)"
  by (simp add: default_pipeline_def)

definition CONTEXT_KEYS :: "string set" where
  "CONTEXT_KEYS = {''geo'', ''asset'', ''device'', ''risk_context'', ''ioc_matches''}"

definition ENRICHMENT_KEYS :: "string set" where
  "ENRICHMENT_KEYS = CONTEXT_KEYS \<union> {''enrichment_partial'', ''enrichment_errors''}"

lemma match_fields_keys: "fst ` set (match_fields ms) \<subseteq> CONTEXT_KEYS"
  by (cases ms) (simp_all add: match_fields_def CONTEXT_KEYS_def)

lemma network_keys: "fst ` set (network_context d) \<subseteq> {''geo''}"
  by (simp add: network_context_def Let_def)

lemma asset_keys: "asset_context e db d = Inr fs \<Longrightarrow> fst ` set fs \<subseteq> {''asset'', ''device'', ''risk_context''}"
  by (auto simp: asset_context_def Let_def bind_res_Inr asset_fields_def split: if_splits option.splits)

lemma provider_keys:
  assumes "p \<in> set (default_pipeline e db)" "run_provider late d p = Some fs"
  shows "fst ` set fs \<subseteq> CONTEXT_KEYS"
proof -
  have n: "fst ` set (network_context d) \<subseteq> CONTEXT_KEYS" using network_keys [of d] by (auto simp: CONTEXT_KEYS_def)
  have a: "fst ` set fs \<subseteq> CONTEXT_KEYS" if "asset_context e db d = Inr fs" for fs
    using asset_keys [OF that] by (auto simp: CONTEXT_KEYS_def)
  have i: "fst ` set fs \<subseteq> CONTEXT_KEYS" if "ioc_match e db d = Inr fs" for fs
    using that match_fields_keys by (auto simp: ioc_match_def Let_def bind_res_Inr split: if_splits sum.splits)
  from assms(1) consider "p = (''network_context'', \<lambda>d. Inr (network_context d))" | "p = (''asset_context'', asset_context e db)"
    | "p = (''ioc_match'', ioc_match e db)" by (auto simp: default_pipeline_def)
  thus ?thesis using assms(2) n a i by cases (simp_all add: run_provider_def split: if_splits sum.splits)
qed

lemma enrich_get:
  assumes "k \<noteq> ''enrichment_partial''" "k \<noteq> ''enrichment_errors''"
  shows "dict_get (enrich ps late d) k = dict_get (fst (merge_results (map (\<lambda>p. (fst p, run_provider late d p)) ps) (d, []))) k"
  using assms by (auto simp: enrich_def Let_def dict_get_set split: prod.splits)

lemma merge_results_last:
  "merge_results (rs @ [(n, Some fs)]) s = (merge_fields (fst (merge_results rs s)) fs, snd (merge_results rs s))"
  by (induction rs s rule: merge_results.induct) auto

lemma match_fields_get: "dict_get (merge_fields d (match_fields ms)) ''ioc_matches'' = Some (JList (map JObj ms))"
  by (cases ms) (auto simp: match_fields_def dict_get_set merge_value_def split: option.splits json.splits)

section \<open>Indicators of an event\<close>

definition observed :: "string list dict \<Rightarrow> string \<Rightarrow> string \<Rightarrow> bool" where
  "observed found t x \<longleftrightarrow> (\<exists>vs. (t, vs) \<in> set found \<and> x \<in> set vs)"

lemma add_observable_keeps:
  assumes "add_observable v k found = Inr found'" "observed found t x"
  shows "observed found' t x"
proof -
  have "observed (map (\<lambda>(t, vs). (t, if t = r then insort_insert c vs else vs)) found) t x" for r c
    using assms(2) by (fastforce simp: observed_def set_insort_insert)
  thus ?thesis using assms by (auto simp: add_observable_def split: json.splits if_splits sum.splits indicator_error.splits)
qed

lemma add_observables_keeps: "add_observables vs found = Inr found' \<Longrightarrow> observed found t x \<Longrightarrow> observed found' t x"
  by (induction vs found rule: add_observables.induct) (auto simp: bind_res_Inr dest: add_observable_keeps)

lemma add_observable_v4:
  assumes "add_observable (JStr (show_v4 w)) (ip_kind (JStr (show_v4 w))) found = Inr found'" "(''ipv4'', vs) \<in> set found"
  shows "observed found' ''ipv4'' (show_v4 w)"
proof -
  have k: "ip_kind (JStr (show_v4 w)) = ''ipv4''" using show_v4_no_colon by (simp add: ip_kind_def)
  have "found' = map (\<lambda>(t, vs). (t, if t = ''ipv4'' then insort_insert (show_v4 w) vs else vs)) found"
    using assms(1) by (simp add: k add_observable_def canonicalize_v4)
  thus ?thesis using assms(2) by (force simp: observed_def set_insort_insert)
qed

lemma source_ip_observed:
  assumes "observables_from_event d = Inr obs" "get d ''source_ip'' = JStr (show_v4 w)"
  shows "observed obs ''ipv4'' (show_v4 w)"
proof -
  obtain found where f: "add_observables (observable_fields d) (map (\<lambda>t. (t, [])) IOC_TYPES) = Inr found"
    and o: "obs = filter (\<lambda>(t, vs). vs \<noteq> []) found" using assms(1) by (auto simp: observables_from_event_def bind_res_Inr)
  obtain rest where "observable_fields d = (JStr (show_v4 w), ip_kind (JStr (show_v4 w))) # rest"
    using assms(2) by (simp add: observable_fields_def)
  then obtain f1 where f1: "add_observable (JStr (show_v4 w)) (ip_kind (JStr (show_v4 w))) (map (\<lambda>t. (t, [])) IOC_TYPES) = Inr f1"
    and r: "add_observables rest f1 = Inr found"
    using f by (auto simp: bind_res_Inr)
  have "observed f1 ''ipv4'' (show_v4 w)" by (rule add_observable_v4 [OF f1]) (simp add: IOC_TYPES_def)
  hence "observed found ''ipv4'' (show_v4 w)" by (rule add_observables_keeps [OF r])
  thus ?thesis unfolding o by (auto simp: observed_def)
qed

lemma match_indicators_complete:
  assumes "match_indicators e tenant obs db = Inr ms" "i \<in> set (iocs db)" "observed obs (ioc_kind i) (ioc_value i)"
    "visible_to tenant i" "not_expired (utcnow e) i"
  shows "ioc_document i \<in> set ms"
  using assms by (fastforce simp: match_indicators_def Let_def bind_res_Inr observed_def)

section \<open>Properties\<close>


definition sample_event :: "string \<Rightarrow> document" where
  "sample_event u = [(''event_id'', JStr ''e1''), (''tenant_id'', JStr (uuid_text 1)), (''source_ip'', JStr (show_v4 134744072)), (''url'', JStr u)]"


text \<open>No known indicator is missed silently. When the source address of an event is stored as an
  unexpired indicator the event's tenant sees, the enriched event lists that indicator with its
  classification, confidence and source, unless the event names the indicator provider among the
  providers that failed.\<close>

theorem known_indicator_is_matched:
  assumes "get d ''source_ip'' = JStr (show_v4 w)" and "scope_tenant (get d ''tenant_id'') = Inr t" and "py_truthy (get d ''tenant_id'')"
    and "i \<in> set (iocs db)" "ioc_kind i = ''ipv4''" "ioc_value i = show_v4 w" "visible_to (Some t) i" "not_expired (utcnow e) i"
    and "''ioc_match'' \<notin> set (failed_providers (default_pipeline e db) late d)"
  shows "\<exists>ms. dict_get (enrich (default_pipeline e db) late d) ''ioc_matches'' = Some (JList (map JObj ms)) \<and> ioc_document i \<in> set ms"
proof -
  let ?run = "run_provider late d"
  obtain fs where r: "?run (''ioc_match'', ioc_match e db) = Some fs"
    using assms(9) failed_mem [OF ioc_match_in [of e db], of late d] by fastforce
  hence m: "ioc_match e db d = Inr fs" by (auto simp: run_provider_def split: if_splits sum.splits)
  obtain obs where o: "observables_from_event d = Inr obs" using m assms(3) by (auto simp: ioc_match_def Let_def split: sum.splits)
  note obs = source_ip_observed [OF o assms(1)]
  hence "obs \<noteq> []" by (auto simp: observed_def)
  then obtain ms where ms: "match_indicators e (Some t) obs db = Inr ms" and fs: "fs = match_fields ms"
    using m assms(2,3) o by (auto simp: ioc_match_def Let_def bind_res_Inr)
  have i: "ioc_document i \<in> set ms"
    by (rule match_indicators_complete [OF ms assms(4)]) (use obs assms in simp_all)
  let ?rs = "[(''network_context'', ?run (''network_context'', \<lambda>d. Inr (network_context d))), (''asset_context'', ?run (''asset_context'', asset_context e db))]"
  have "map (\<lambda>p. (fst p, ?run p)) (default_pipeline e db) = ?rs @ [(''ioc_match'', Some fs)]" by (simp add: default_pipeline_def r)
  hence "dict_get (enrich (default_pipeline e db) late d) ''ioc_matches'' = dict_get (fst (merge_results (?rs @ [(''ioc_match'', Some fs)]) (d, []))) ''ioc_matches''"
    using enrich_get [of "''ioc_matches''" "default_pipeline e db" late d] by simp
  also have "\<dots> = Some (JList (map JObj ms))" unfolding merge_results_last fst_conv fs by (rule match_fields_get)
  finally have "dict_get (enrich (default_pipeline e db) late d) ''ioc_matches'' = Some (JList (map JObj ms))" .
  thus ?thesis using i by blast
qed

text \<open>The tenant of the sample event, and its database with one indicator on the event's source.\<close>

definition event_db :: core_db where
  "event_db = intel_db\<lparr>iocs := [intel_row\<lparr>ioc_tenant := None, ioc_value := show_v4 134744072\<rparr>]\<rparr>"

lemma sample_tenant_scope: "scope_tenant (JStr (uuid_text 1)) = Inr (uuid_text 1)"
proof -
  have "parse_uuid (uuid_text 1) = Some (uuid_text 1)" by code_simp
  thus ?thesis by (simp add: scope_tenant_def)
qed

lemma sample_tenant_truthy: "py_truthy (JStr (uuid_text 1))"
  by (simp add: uuid_text_def Let_def)

lemma url_error: "canonicalize ''http://['' (Some ''url'') = Inl UrlValueError"
  by code_simp

lemma sample_observables: "\<exists>obs. observables_from_event (sample_event []) = Inr obs \<and> concat (map (\<lambda>(t, vs). map (Pair t) vs) obs) = [(''ipv4'', show_v4 134744072)]"
proof -
  have k: "ip_kind (JStr (show_v4 w)) = ''ipv4''" for w using show_v4_no_colon by (simp add: ip_kind_def)
  have a: "add_observable (JStr (show_v4 w)) ''ipv4'' (map (\<lambda>t. (t, [])) IOC_TYPES)
      = Inr (map (\<lambda>t. (t, if t = ''ipv4'' then [show_v4 w] else [])) IOC_TYPES)" for w
    by (simp add: add_observable_def canonicalize_v4 comp_def insort_insert_key_def)
  have n: "add_observable JNull t found = Inr found" "add_observable (JStr []) t found = Inr found" for t found
    by (simp_all add: add_observable_def str_strip_def)
  show ?thesis
    by (simp add: observables_from_event_def observable_fields_def sample_event_def k a n sub_get_def) (simp add: IOC_TYPES_def)
qed

theorem known_indicator_is_matched_witness:
  "\<exists>ms. dict_get (enrich (default_pipeline (intel_env 0) event_db) (\<lambda>_. False) (sample_event [])) ''ioc_matches'' = Some (JList (map JObj ms))
     \<and> ms \<noteq> []"
proof -
  obtain obs where o: "observables_from_event (sample_event []) = Inr obs"
    and p: "concat (map (\<lambda>(t, vs). map (Pair t) vs) obs) = [(''ipv4'', show_v4 134744072)]" using sample_observables by blast
  have ne: "obs \<noteq> []" using p by auto
  have t: "text_ok (show_v4 w)" for w using v4_chars [of "CHR 0x00" w] by (auto simp: text_ok_def is_digit_def)
  obtain ms where "match_indicators (intel_env 0) (Some (uuid_text 1)) obs event_db = Inr ms"
    by (auto simp: match_indicators_def p Let_def require.simps t)
  hence "run_provider (\<lambda>_. False) (sample_event []) (''ioc_match'', ioc_match (intel_env 0) event_db) \<noteq> None"
    using o ne sample_tenant_scope sample_tenant_truthy by (simp add: run_provider_def ioc_match_def Let_def sample_event_def)
  hence "''ioc_match'' \<notin> set (failed_providers (default_pipeline (intel_env 0) event_db) (\<lambda>_. False) (sample_event []))"
    by (auto simp: failed_providers_def default_pipeline_def)
  thus ?thesis
    using known_indicator_is_matched [of "sample_event []" 134744072 "uuid_text 1" "intel_row\<lparr>ioc_tenant := None, ioc_value := show_v4 134744072\<rparr>"
        event_db "intel_env 0" "\<lambda>_. False"] sample_tenant_scope sample_tenant_truthy
    by (auto simp: sample_event_def event_db_def visible_to_def not_expired_def intel_row_def)
qed

text \<open>An event can hide from threat intelligence. A \<open>url\<close> field that the standard library
  refuses to split makes the indicator provider fail for the whole event: whatever indicators its
  addresses, domain and hashes match, none is attached, and the event is only marked partial.\<close>

theorem bad_url_hides_indicators:
  assumes "get d ''url'' = JStr u" and "str_strip u \<noteq> []" and "canonicalize u (Some ''url'') = Inl UrlValueError"
    and "py_truthy (get d ''tenant_id'')"
  shows "dict_get (enrich (default_pipeline e db) late d) ''ioc_matches'' = dict_get d ''ioc_matches''
    \<and> ''ioc_match'' \<in> set (failed_providers (default_pipeline e db) late d)"
proof -
  let ?run = "run_provider late d"
  have "ioc_match e db d = Inl (indicator_raised UrlValueError)"
    using observables_url_error [OF assms(1-3)] assms(4) by (simp add: ioc_match_def)
  hence r: "?run (''ioc_match'', ioc_match e db) = None" by (simp add: run_provider_def)
  have n: "''ioc_matches'' \<notin> fst ` set fs" if "?run (''network_context'', \<lambda>d. Inr (network_context d)) = Some fs" for fs
    using that network_keys [of d] by (auto simp: run_provider_def split: if_splits)
  have a: "''ioc_matches'' \<notin> fst ` set fs" if "?run (''asset_context'', asset_context e db) = Some fs" for fs
    using that asset_keys [of e db d fs] by (auto simp: run_provider_def split: if_splits sum.splits)
  have "dict_get (fst (merge_results (map (\<lambda>p. (fst p, ?run p)) (default_pipeline e db)) (d, []))) ''ioc_matches'' = dict_get d ''ioc_matches''"
    by (rule merge_results_frame) (simp add: default_pipeline_def r n a)
  thus ?thesis using enrich_get [of "''ioc_matches''" "default_pipeline e db" late d] failed_mem [OF ioc_match_in r] by simp
qed

theorem bad_url_hides_indicators_witness:
  "dict_get (enrich (default_pipeline (intel_env 0) event_db) (\<lambda>_. False) (sample_event ''http://['')) ''ioc_matches'' = None"
  using bad_url_hides_indicators [of "sample_event ''http://[''" "''http://[''" "intel_env 0" event_db "\<lambda>_. False"]
    url_error sample_tenant_truthy
  by (simp add: sample_event_def str_strip_def is_space_def)

end
