(* ===== verification/Indexer.thy ===== *)
theory Indexer
  imports Enrichment Eventbus Py_Ops
begin

text \<open>
  The bulk writer of the event store (\<open>services/indexing.py\<close>) and the worker around it
  (\<open>workers/indexer_worker.py\<close>): a message is decoded, enriched and queued, a batch is written
  with one bulk request, and its messages are acknowledged or dead-lettered by what the response
  says of each document. The OpenSearch client is an argument: it answers a bulk request or raises.
  An exception of \<open>flush\<close> is a result next to the state, because the batch has left the queue
  by then.
\<close>

section \<open>The bulk writer\<close>

type_synonym bulk_client = "json list \<Rightarrow> string + json"

record bulk_outcome =
  bo_indexed :: nat
  bo_rejected :: "(document \<times> string) list"

definition bulk_operations :: "string \<Rightarrow> (json \<times> document) list \<Rightarrow> json list" where
  "bulk_operations alias ds = concat (map (\<lambda>(i, d).
     [JObj [(''index'', JObj [(''_index'', JStr alias), (''_id'', i)])], JObj d]) ds)"

definition py_len :: "json \<Rightarrow> eval_error + nat" where
  "py_len v = (case v of JList xs \<Rightarrow> Inr (length xs) | JObj d \<Rightarrow> Inr (length d) | JStr s \<Rightarrow> Inr (length s) | _ \<Rightarrow> Inl TypeError)"

fun interpret_items :: "document list \<Rightarrow> json list \<Rightarrow> bulk_outcome \<Rightarrow> eval_error + bulk_outcome" where
  "interpret_items (d # ds) (x # xs) out =
     bind_res (obj_get x ''index'' (JObj [])) (\<lambda>entry. bind_res (obj_get entry ''error'' JNull) (\<lambda>err.
       if err = JNull then interpret_items ds xs (out\<lparr>bo_indexed := Suc (bo_indexed out)\<rparr>)
       else bind_res (obj_get err ''type'' (JStr ''unknown'')) (\<lambda>ty. bind_res (obj_get err ''reason'' (JStr [])) (\<lambda>reason.
         interpret_items ds xs (out\<lparr>bo_rejected := bo_rejected out @ [(d, str_strip (py_str ty @ '': '' @ py_str reason))]\<rparr>)))))"
| "interpret_items ds xs out = Inr out"

definition interpret_response :: "document list \<Rightarrow> json \<Rightarrow> eval_error + bulk_outcome" where
  "interpret_response ds response =
     bind_res (obj_get response ''items'' (JList [])) (\<lambda>items. bind_res (obj_get response ''errors'' JNull) (\<lambda>errors.
       if \<not> py_truthy errors then bind_res (py_len items) (\<lambda>n. Inr \<lparr>bo_indexed = (if n = 0 then length ds else n), bo_rejected = []\<rparr>)
       else bind_res (py_iter items) (\<lambda>xs. interpret_items ds xs \<lparr>bo_indexed = 0, bo_rejected = []\<rparr>)))"

definition index_batch :: "bulk_client \<Rightarrow> string \<Rightarrow> string \<Rightarrow> document list \<Rightarrow> eval_error + bulk_outcome" where
  "index_batch bulk alias id_field ds =
     (if ds = [] then Inr \<lparr>bo_indexed = 0, bo_rejected = []\<rparr>
      else bind_res (map_res (\<lambda>d. bind_res (item (JObj d) id_field) (\<lambda>i. Inr (i, d))) ds) (\<lambda>ids.
        case bulk (bulk_operations alias ids) of
          Inl exc \<Rightarrow> Inr \<lparr>bo_indexed = 0, bo_rejected = map (\<lambda>d. (d, ''transport failure: '' @ exc)) ds\<rparr>
        | Inr response \<Rightarrow> interpret_response ds response))"

section \<open>The worker\<close>

record index_worker =
  iw_topic :: string
  iw_group :: string
  iw_alias :: string
  iw_id_field :: string
  iw_batch_size :: nat
  iw_interval :: rat
  iw_pending :: "(bus_message \<times> document) list"
  iw_last_flush :: rat

text \<open>\<open>rejected_ids\<close> is a dictionary: a key has to be hashable, equal keys are one, the last
  reason stays.\<close>

definition hashable :: "json \<Rightarrow> bool" where
  "hashable v \<longleftrightarrow> (case v of JList xs \<Rightarrow> False | JObj d \<Rightarrow> False | _ \<Rightarrow> True)"

definition rejected_ids :: "string \<Rightarrow> (document \<times> string) list \<Rightarrow> eval_error + (json \<times> string) list" where
  "rejected_ids id_field rs = map_res (\<lambda>(d, why). if hashable (get d id_field) then Inr (get d id_field, why) else Inl TypeError) rs"

definition reason_for :: "(json \<times> string) list \<Rightarrow> json \<Rightarrow> string option" where
  "reason_for rejected k = map_option snd (find (\<lambda>(k', why). py_eq k' k) (rev rejected))"

fun settle ::
  "index_worker \<Rightarrow> (json \<times> string) list \<Rightarrow> (bus_message \<times> document) list \<Rightarrow> bus \<Rightarrow> eval_error option \<times> bus" where
  "settle w rejected [] b = (None, b)"
| "settle w rejected ((m, d) # batch) b =
     (if \<not> hashable (get d (iw_id_field w)) then (Some TypeError, b)
      else case reason_for rejected (get d (iw_id_field w)) of
        Some why \<Rightarrow> settle w rejected batch (reject_message (iw_topic w) (iw_group w) m (''index rejected: '' @ why) b)
      | None \<Rightarrow> settle w rejected batch (ack_message (iw_topic w) (iw_group w) m b))"

definition flush :: "rat \<Rightarrow> bulk_client \<Rightarrow> index_worker \<Rightarrow> bus \<Rightarrow> eval_error option \<times> index_worker \<times> bus" where
  "flush now bulk w b =
     (let batch = iw_pending w; w' = w\<lparr>iw_pending := [], iw_last_flush := now\<rparr> in
      if batch = [] then (None, w', b)
      else case bind_res (index_batch bulk (iw_alias w) (iw_id_field w) (map snd batch)) (\<lambda>out. rejected_ids (iw_id_field w) (bo_rejected out)) of
        Inl err \<Rightarrow> (Some err, w', b)
      | Inr rejected \<Rightarrow> let (err, b') = settle w rejected batch b in (err, w', b'))"

definition index_accept ::
  "rat \<Rightarrow> bulk_client \<Rightarrow> (document \<Rightarrow> document) \<Rightarrow> bus_message \<Rightarrow> index_worker \<Rightarrow> bus \<Rightarrow> eval_error option \<times> index_worker \<times> bus" where
  "index_accept now bulk enricher m w b = (case bm_payload m of
     Inl why \<Rightarrow> (None, w, reject_message (iw_topic w) (iw_group w) m (''undecodable normalized document: '' @ why) b)
   | Inr (JObj d) \<Rightarrow>
       if dict_get d (iw_id_field w) = None
       then (None, w, reject_message (iw_topic w) (iw_group w) m (''document missing '' @ iw_id_field w) b)
       else let w' = w\<lparr>iw_pending := iw_pending w @ [(m, enricher d)]\<rparr> in
         if length (iw_pending w') \<ge> iw_batch_size w then flush now bulk w' b else (None, w', b)
   | Inr _ \<Rightarrow> (None, w, reject_message (iw_topic w) (iw_group w) m (''document missing '' @ iw_id_field w) b))"

text \<open>One round of \<open>_flush_on_interval\<close>: an exception of the flush is logged and forgotten.\<close>

definition flush_on_interval :: "rat \<Rightarrow> bulk_client \<Rightarrow> index_worker \<Rightarrow> bus \<Rightarrow> index_worker \<times> bus" where
  "flush_on_interval now bulk w b = (if now - iw_last_flush w \<ge> iw_interval w then snd (flush now bulk w b) else (w, b))"

definition event_index_worker :: "rat \<Rightarrow> index_worker" where
  "event_index_worker now = \<lparr>iw_topic = TOPIC_EVENTS_NORMALIZED, iw_group = ''indexer'', iw_alias = ''events-normalized-write'',
     iw_id_field = ''event_id'', iw_batch_size = 500, iw_interval = 2, iw_pending = [], iw_last_flush = now\<rparr>"

definition detection_index_worker :: "rat \<Rightarrow> index_worker" where
  "detection_index_worker now = \<lparr>iw_topic = TOPIC_DETECTIONS_CREATED, iw_group = ''detection-indexer'', iw_alias = ''detections-write'',
     iw_id_field = ''detection_id'', iw_batch_size = 500, iw_interval = 2, iw_pending = [], iw_last_flush = now\<rparr>"

section \<open>Settling a batch\<close>

lemma acked_reject_mono: "x \<in> set (acked b) \<Longrightarrow> x \<in> set (acked (reject_message t g m why b))"
  by (auto simp: reject_message_def ack_message_def ack_def split: option.splits)

lemma acked_ack_mono: "x \<in> set (acked b) \<Longrightarrow> x \<in> set (acked (ack_message t g m b))"
  by (auto simp: ack_message_def ack_def split: option.splits)

lemma settle_acked_mono: "x \<in> set (acked b) \<Longrightarrow> x \<in> set (acked (snd (settle w rejected batch b)))"
  by (induction w rejected batch b rule: settle.induct) (auto simp: acked_reject_mono acked_ack_mono split: option.splits)

text \<open>What the dead-letter topic of a topic holds.\<close>

definition letter :: "string \<Rightarrow> string \<Rightarrow> bus_message \<Rightarrow> bus_message" where
  "letter t why m = \<lparr>bm_tenant = bm_tenant m, bm_key = bm_key m, bm_payload = bm_payload m,
      bm_headers = dict_merge (bm_headers m) [(''dead_letter_reason'', why), (''original_topic'', t)], bm_id = None\<rparr>"

definition letters :: "bus \<Rightarrow> string \<Rightarrow> bus_message set" where
  "letters b t = snd ` set (stream b (t @ ''.deadletter''))"

lemma letters_reject: "letters (reject_message t g m why b) t = insert (letter t why m) (letters b t)"
  by (auto simp: letters_def reject_message_def dead_letter_def stream_publish letter_def)

lemma letters_ack [simp]: "letters (ack_message t g m b) u = letters b u"
  by (simp add: letters_def)

lemma settle_letters_mono: "letters b (iw_topic w) \<subseteq> letters (snd (settle w rejected batch b)) (iw_topic w)"
  by (induction w rejected batch b rule: settle.induct) (auto simp: letters_reject split: option.splits)

lemma settle_accounts:
  assumes "\<forall>(m, d) \<in> set batch. hashable (get d (iw_id_field w))"
  shows "fst (settle w rejected batch b) = None
    \<and> (\<forall>(m, d) \<in> set batch. (\<forall>i. bm_id m = Some i \<longrightarrow> (iw_topic w, iw_group w, i) \<in> set (acked (snd (settle w rejected batch b))))
      \<and> (\<forall>why. reason_for rejected (get d (iw_id_field w)) = Some why
           \<longrightarrow> letter (iw_topic w) (''index rejected: '' @ why) m \<in> letters (snd (settle w rejected batch b)) (iw_topic w)))"
  using assms
proof (induction w rejected batch b rule: settle.induct)
  case (2 w rejected m d batch b)
  show ?case
  proof (cases "reason_for rejected (get d (iw_id_field w))")
    case None
    let ?b = "ack_message (iw_topic w) (iw_group w) m b"
    have "(iw_topic w, iw_group w, i) \<in> set (acked (snd (settle w rejected batch ?b)))" if "bm_id m = Some i" for i
      using settle_acked_mono acked_ack_message [OF that] by blast
    thus ?thesis using 2 None by auto
  next
    case (Some why)
    let ?b = "reject_message (iw_topic w) (iw_group w) m (''index rejected: '' @ why) b"
    have "(iw_topic w, iw_group w, i) \<in> set (acked (snd (settle w rejected batch ?b)))" if "bm_id m = Some i" for i
      using settle_acked_mono acked_reject_message [OF that] by blast
    moreover have "letter (iw_topic w) (''index rejected: '' @ why) m \<in> letters (snd (settle w rejected batch ?b)) (iw_topic w)"
      using settle_letters_mono [of ?b w rejected batch] by (auto simp: letters_reject)
    ultimately show ?thesis using 2 Some by (auto simp del: append_Cons append_Nil)
  qed
qed simp

section \<open>Rejected documents belong to the batch\<close>

lemma interpret_items_rejected:
  "interpret_items ds xs out0 = Inr out \<Longrightarrow> fst ` set (bo_rejected out) \<subseteq> fst ` set (bo_rejected out0) \<union> set ds"
proof (induction ds arbitrary: xs out0)
  case (Cons d ds)
  show ?case
  proof (cases xs)
    case Nil
    thus ?thesis using Cons.prems by auto
  next
    case x: (Cons x xs')
    obtain out1 where i: "interpret_items ds xs' out1 = Inr out"
      and r: "bo_rejected out1 = bo_rejected out0 \<or> (\<exists>why. bo_rejected out1 = bo_rejected out0 @ [(d, why)])"
      using Cons.prems unfolding x by (auto simp: bind_res_Inr split: if_splits)
    have "fst ` set (bo_rejected out1) \<subseteq> insert d (fst ` set (bo_rejected out0))" using r by auto
    thus ?thesis using Cons.IH [OF i] by (simp only: list.set(2)) blast
  qed
qed simp

lemma interpret_response_rejected: "interpret_response ds r = Inr out \<Longrightarrow> fst ` set (bo_rejected out) \<subseteq> set ds"
  using interpret_items_rejected [of ds _ "\<lparr>bo_indexed = 0, bo_rejected = []\<rparr>" out]
  by (fastforce simp: interpret_response_def bind_res_Inr split: if_splits)

lemma index_batch_rejected:
  assumes "index_batch bulk alias id_field ds = Inr out" "(d, why) \<in> set (bo_rejected out)"
  shows "d \<in> set ds"
proof (cases "ds = []")
  case True
  thus ?thesis using assms by (auto simp: index_batch_def)
next
  case False
  then obtain ids where b: "(case bulk (bulk_operations alias ids) of
      Inl exc \<Rightarrow> Inr \<lparr>bo_indexed = 0, bo_rejected = map (\<lambda>d. (d, ''transport failure: '' @ exc)) ds\<rparr>
    | Inr response \<Rightarrow> interpret_response ds response) = Inr out"
    using assms(1) by (auto simp: index_batch_def bind_res_Inr)
  show ?thesis
  proof (cases "bulk (bulk_operations alias ids)")
    case (Inl exc)
    thus ?thesis using b assms(2) by auto
  next
    case (Inr r)
    thus ?thesis using b interpret_response_rejected [of ds r out] assms(2) by force
  qed
qed

definition text_ids :: "string \<Rightarrow> document list \<Rightarrow> bool" where
  "text_ids id_field ds \<longleftrightarrow> list_all (\<lambda>d. case get d id_field of JStr s \<Rightarrow> True | _ \<Rightarrow> False) ds"

lemma text_ids_get: "text_ids id_field ds \<Longrightarrow> d \<in> set ds \<Longrightarrow> \<exists>s. get d id_field = JStr s"
  by (cases "get d id_field") (fastforce simp: text_ids_def list_all_iff)+

lemma rejected_ids_text:
  assumes "text_ids id_field (map fst rs)"
  shows "rejected_ids id_field rs = Inr (map (\<lambda>(d, why). (get d id_field, why)) rs)"
  using assms by (induction rs) (auto simp: rejected_ids_def text_ids_def hashable_def split: json.splits)

lemma reason_for_rejected:
  assumes "(JStr s, why) \<in> set rejected"
  shows "reason_for rejected (JStr s) \<noteq> None"
proof -
  have "find (\<lambda>(k', why). py_eq k' (JStr s)) (rev rejected) \<noteq> None" using assms
    unfolding find_None_all by (auto intro!: bexI [of _ "(JStr s, why)"])
  thus ?thesis by (simp add: reason_for_def)
qed

section \<open>Properties\<close>


definition sample_message :: bus_message where
  "sample_message = \<lparr>bm_tenant = ''t1'', bm_key = ''k'', bm_payload = Inr (JObj [(''event_id'', JStr ''e1'')]), bm_headers = [], bm_id = Some ''1-0''\<rparr>"

definition sample_index_worker :: index_worker where
  "sample_index_worker = (event_index_worker 0)\<lparr>iw_pending := [(sample_message, [(''event_id'', JStr ''e1'')])]\<rparr>"


text \<open>A response the writer cannot interpret loses the batch: it has left the queue, and nothing was
  acknowledged or dead-lettered. On the timer the exception is then forgotten.\<close>

lemma uninterpretable_response_loses_batch:
  assumes "iw_pending w \<noteq> []" "index_batch bulk (iw_alias w) (iw_id_field w) (map snd (iw_pending w)) = Inl err"
    "iw_interval w \<le> now - iw_last_flush w"
  shows "flush_on_interval now bulk w b = (w\<lparr>iw_pending := [], iw_last_flush := now\<rparr>, b)"
  using assms by (simp add: flush_on_interval_def flush_def Let_def)

end
