(* ===== verification/Py_Regex.thy ===== *)
theory Py_Regex
  imports Py_Net
begin

text \<open>
  What the parsers use of Python's \<open>re\<close>: patterns of character classes, greedy repetitions of a
  class, options and named groups. A match is an ordered list of ways to go on, the first being the one
  a backtracking matcher takes, so \<open>match\<close>, \<open>search\<close>, \<open>finditer\<close> and
  \<open>split\<close> follow from it. The theorem at the end says what a way is: a splitting of the text
  whose first part belongs to the language of the pattern.
\<close>

section \<open>Patterns\<close>

datatype re =
    One "char \<Rightarrow> bool"                           \<comment> \<open>one character of a class\<close>
  | Many "char \<Rightarrow> bool" nat "nat option"     \<comment> \<open>\<open>[...]{lo,hi}\<close>, greedy\<close>
  | Lit string
  | Then re re
  | Or re re
  | Opt re                                            \<comment> \<open>\<open>(?:...)?\<close>, greedy\<close>
  | Named string re
  | Start                                             \<comment> \<open>\<open>^\<close>\<close>
  | End                                               \<comment> \<open>\<open>$\<close>: the end, or before a newline that ends the text\<close>
  | Boundary                                          \<comment> \<open>\<open>\b\<close>\<close>

definition seq :: "re list \<Rightarrow> re" where
  "seq rs = foldr Then rs (Lit [])"

text \<open>A state of the matcher: what is behind, latest character first; what is ahead; the groups.\<close>

type_synonym re_state = "string \<times> string \<times> string dict"

definition word_char :: "char \<Rightarrow> bool" where
  "word_char c \<longleftrightarrow> (let n = (of_char c :: nat) in is_digit c \<or> (65 \<le> n \<and> n \<le> 90) \<or> (97 \<le> n \<and> n \<le> 122) \<or> n = 95
     \<or> n \<in> {170, 178, 179, 181, 185, 186, 188, 189, 190} \<or> (192 \<le> n \<and> n \<noteq> 215 \<and> n \<noteq> 247))"

definition at_word :: "string \<Rightarrow> bool" where
  "at_word s \<longleftrightarrow> (case s of [] \<Rightarrow> False | c # _ \<Rightarrow> word_char c)"

definition step_over :: "nat \<Rightarrow> re_state \<Rightarrow> re_state" where
  "step_over n s = (case s of (behind, ahead, g) \<Rightarrow> (rev (take n ahead) @ behind, drop n ahead, g))"

text \<open>The lengths a greedy repetition tries, longest first.\<close>

definition tries :: "(char \<Rightarrow> bool) \<Rightarrow> nat \<Rightarrow> nat option \<Rightarrow> string \<Rightarrow> nat list" where
  "tries cls lo hi s = (let n = length (takeWhile cls s); m = (case hi of None \<Rightarrow> n | Some h \<Rightarrow> min h n) in rev [lo..<Suc m])"

fun ways :: "re \<Rightarrow> re_state \<Rightarrow> re_state list" where
  "ways (One cls) (b, s, g) = (case s of [] \<Rightarrow> [] | c # cs \<Rightarrow> if cls c then [(c # b, cs, g)] else [])"
| "ways (Many cls lo hi) (b, s, g) = map (\<lambda>n. step_over n (b, s, g)) (tries cls lo hi s)"
| "ways (Lit t) (b, s, g) = (if prefix t s then [step_over (length t) (b, s, g)] else [])"
| "ways (Then p q) st = concat (map (ways q) (ways p st))"
| "ways (Or p q) st = ways p st @ ways q st"
| "ways (Opt p) st = ways p st @ [st]"
| "ways (Named name p) (b, s, g) = map (\<lambda>(b', s', g'). (b', s', dict_set name (take (length s - length s') s) g')) (ways p (b, s, g))"
| "ways Start (b, s, g) = (if b = [] then [(b, s, g)] else [])"
| "ways End (b, s, g) = (if s = [] \<or> s = [CHR 0x0A] then [(b, s, g)] else [])"
| "ways Boundary (b, s, g) = (if at_word b \<noteq> at_word s then [(b, s, g)] else [])"

section \<open>Matching\<close>

text \<open>A match: the text before it, its own text, the text after it, and its groups.\<close>

type_synonym re_match = "string \<times> string \<times> string \<times> string dict"

definition match_here :: "re \<Rightarrow> string \<Rightarrow> string \<Rightarrow> re_match option" where
  "match_here p behind s = (case ways p (behind, s, []) of [] \<Rightarrow> None
     | (b', s', g) # _ \<Rightarrow> Some (rev behind, take (length s - length s') s, s', g))"

definition re_match :: "re \<Rightarrow> string \<Rightarrow> re_match option" where
  "re_match p s = match_here p [] s"

fun search_from :: "re \<Rightarrow> string \<Rightarrow> string \<Rightarrow> re_match option" where
  "search_from p behind [] = match_here p behind []"
| "search_from p behind (c # s) = (case match_here p behind (c # s) of Some m \<Rightarrow> Some m | None \<Rightarrow> search_from p (c # behind) s)"

definition re_search :: "re \<Rightarrow> string \<Rightarrow> re_match option" where
  "re_search p s = search_from p [] s"

text \<open>Successive matches of a pattern that never matches the empty text; an empty match would end the search.\<close>

lemma match_here_rest: "match_here p b s = Some (x, m, r, g) \<Longrightarrow> \<exists>b' g'. (b', r, g') \<in> set (ways p (b, s, []))"
  by (auto simp: match_here_def split: list.splits)

function finditer_from :: "re \<Rightarrow> string \<Rightarrow> string \<Rightarrow> re_match list" where
  "finditer_from p behind s = (case search_from p behind s of None \<Rightarrow> []
     | Some (x, m, rest, g) \<Rightarrow> if m = [] \<or> length s \<le> length rest then [] else (x, m, rest, g) # finditer_from p (rev (x @ m)) rest)"
  by pat_completeness auto
termination by (relation "measure (\<lambda>(p, b, s). length s)") auto

declare finditer_from.simps [simp del]

definition re_finditer :: "re \<Rightarrow> string \<Rightarrow> re_match list" where
  "re_finditer p s = finditer_from p [] s"

text \<open>\<open>re.split\<close> on runs of a class.\<close>

function split_runs :: "(char \<Rightarrow> bool) \<Rightarrow> string \<Rightarrow> string list" where
  "split_runs cls s = (let w = takeWhile (\<lambda>c. \<not> cls c) s; r = drop (length w) s
     in if r = [] then [w] else w # split_runs cls (dropWhile cls r))"
  by pat_completeness auto
termination
proof (relation "measure (\<lambda>(cls, s). length s)", goal_cases)
  case (2 cls s w r)
  have r: "r = dropWhile (\<lambda>c. \<not> cls c) s" using 2(1,2) by (simp add: dropWhile_eq_drop)
  then obtain c cs where c: "r = c # cs" "cls c" using 2(3) by (metis hd_dropWhile list.exhaust list.sel(1))
  have "length (dropWhile cls r) < length r" using c by (simp add: le_imp_less_Suc length_dropWhile_le)
  also have "\<dots> \<le> length s" using r by (simp add: length_dropWhile_le)
  finally show ?case by simp
qed simp

declare split_runs.simps [simp del]

section \<open>What a match means\<close>

text \<open>The language of a pattern, context included: what is behind, the text itself, what is ahead.\<close>

fun lang :: "re \<Rightarrow> string \<Rightarrow> string \<Rightarrow> string \<Rightarrow> bool" where
  "lang (One cls) b t a \<longleftrightarrow> (\<exists>c. t = [c] \<and> cls c)"
| "lang (Many cls lo hi) b t a \<longleftrightarrow> list_all cls t \<and> lo \<le> length t \<and> (case hi of None \<Rightarrow> True | Some h \<Rightarrow> length t \<le> h)"
| "lang (Lit u) b t a \<longleftrightarrow> t = u"
| "lang (Then p q) b t a \<longleftrightarrow> (\<exists>u v. t = u @ v \<and> lang p b u (v @ a) \<and> lang q (rev u @ b) v a)"
| "lang (Or p q) b t a \<longleftrightarrow> lang p b t a \<or> lang q b t a"
| "lang (Opt p) b t a \<longleftrightarrow> t = [] \<or> lang p b t a"
| "lang (Named name p) b t a \<longleftrightarrow> lang p b t a"
| "lang Start b t a \<longleftrightarrow> t = [] \<and> b = []"
| "lang End b t a \<longleftrightarrow> t = [] \<and> (a = [] \<or> a = [CHR 0x0A])"
| "lang Boundary b t a \<longleftrightarrow> t = [] \<and> at_word b \<noteq> at_word a"

lemma takeWhile_prefix: "list_all cls t \<Longrightarrow> length t \<le> length (takeWhile cls (t @ a))"
  by (simp add: list_all_iff)

lemma take_takeWhile_all:
  assumes "n \<le> length (takeWhile cls s)"
  shows "list_all cls (take n s)"
proof -
  have "take n s = take n (takeWhile cls s)" using assms by (subst takeWhile_eq_take) simp
  thus ?thesis by (auto simp: list_all_iff dest: in_set_takeD set_takeWhileD)
qed

text \<open>Every way is a splitting of the text by the language, and every splitting is a way.\<close>

lemma ways_sound: "(b', s', g') \<in> set (ways p (b, s, g)) \<Longrightarrow> \<exists>t. s = t @ s' \<and> b' = rev t @ b \<and> lang p b t s'"
proof (induction p arbitrary: b s g b' s' g')
  case (Many cls lo hi)
  then obtain n where n: "n \<in> set (tries cls lo hi s)" "b' = rev (take n s) @ b" "s' = drop n s" by (auto simp: step_over_def)
  have l: "n \<le> length (takeWhile cls s)" "lo \<le> n" "case hi of None \<Rightarrow> True | Some h \<Rightarrow> n \<le> h"
    using n(1) by (auto simp: tries_def Let_def split: option.splits)
  hence "length (take n s) = n" using length_takeWhile_le [of cls s] by (simp add: min_absorb2)
  thus ?case using n l take_takeWhile_all [OF l(1)] by (intro exI [of _ "take n s"]) (auto split: option.splits)
next
  case (Then p q)
  then obtain b1 s1 g1 where w: "(b1, s1, g1) \<in> set (ways p (b, s, g))" "(b', s', g') \<in> set (ways q (b1, s1, g1))" by auto
  from Then.IH(1) [OF w(1)] obtain u where u: "s = u @ s1" "b1 = rev u @ b" "lang p b u s1" by blast
  from Then.IH(2) [OF w(2)] obtain v where v: "s1 = v @ s'" "b' = rev v @ b1" "lang q b1 v s'" by blast
  show ?case using u v by (intro exI [of _ "u @ v"]) auto
next
  case (Named name p)
  then obtain g1 where "(b', s', g1) \<in> set (ways p (b, s, g))" by auto
  thus ?case using Named.IH by simp
next
  case (Or p q)
  have "(b', s', g') \<in> set (ways p (b, s, g)) \<or> (b', s', g') \<in> set (ways q (b, s, g))" using Or.prems by simp
  thus ?case using Or.IH by (auto; blast)
next
  case (Opt p)
  have "(b', s', g') \<in> set (ways p (b, s, g)) \<or> (b', s') = (b, s)" using Opt.prems by auto
  thus ?case using Opt.IH by (auto; blast)
qed (auto simp: step_over_def prefix_def split: list.splits if_splits)

lemma ways_complete: "lang p b t a \<Longrightarrow> \<exists>g'. (rev t @ b, a, g') \<in> set (ways p (b, t @ a, g))"
proof (induction p arbitrary: b t a g)
  case (Many cls lo hi)
  have "length t \<in> set (tries cls lo hi (t @ a))" using Many takeWhile_prefix [of cls t a]
    by (auto simp: tries_def Let_def split: option.splits)
  thus ?case by (force simp: step_over_def)
next
  case (Then p q)
  then obtain u v where t: "t = u @ v" "lang p b u (v @ a)" "lang q (rev u @ b) v a" by auto
  from Then.IH(1) [OF t(2), of g] obtain g1 where "(rev u @ b, v @ a, g1) \<in> set (ways p (b, u @ v @ a, g))" by blast
  with Then.IH(2) [OF t(3), of g1] show ?case by (fastforce simp: t(1))
next
  case (Opt p)
  show ?case
  proof (cases "t = []")
    case False
    thus ?thesis using Opt by fastforce
  qed (auto intro: exI [of _ g])
next
  case (Named name p)
  from Named.IH [of b t a g] Named.prems obtain g1 where "(rev t @ b, a, g1) \<in> set (ways p (b, t @ a, g))" by auto
  thus ?case by force
next
  case (Or p q)
  hence "lang p b t a \<or> lang q b t a" by simp
  thus ?case using Or.IH by (auto; blast)
qed (auto simp: step_over_def)

theorem re_match_iff: "re_match p s \<noteq> None \<longleftrightarrow> (\<exists>t a. s = t @ a \<and> lang p [] t a)"
proof
  assume "re_match p s \<noteq> None"
  hence "ways p ([], s, []) \<noteq> []" by (auto simp: re_match_def match_here_def)
  moreover obtain b' s' g' where "hd (ways p ([], s, [])) = (b', s', g')" by (rule prod_cases3)
  ultimately have "(b', s', g') \<in> set (ways p ([], s, []))" using hd_in_set by metis
  from ways_sound [OF this] show "\<exists>t a. s = t @ a \<and> lang p [] t a" by blast
next
  assume "\<exists>t a. s = t @ a \<and> lang p [] t a"
  then obtain t a where "s = t @ a" "lang p [] t a" by blast
  hence "ways p ([], s, []) \<noteq> []" using ways_complete [of p "[]" t a "[]"] by auto
  thus "re_match p s \<noteq> None" by (auto simp: re_match_def match_here_def neq_Nil_conv)
qed

lemma match_here_head: "match_here p b s = Some (x, m, r, g) \<Longrightarrow> \<exists>b'. (b', r, g) \<in> set (ways p (b, s, [])) \<and> x = rev b \<and> m = take (length s - length r) s"
  by (cases "ways p (b, s, [])") (auto simp: match_here_def)

lemma match_here_parts:
  assumes "match_here p b s = Some (x, m, r, g)"
  shows "x = rev b \<and> s = m @ r \<and> lang p b m r"
proof -
  obtain b' where w: "(b', r, g) \<in> set (ways p (b, s, []))" "x = rev b" "m = take (length s - length r) s" using match_here_head [OF assms] by blast
  from ways_sound [OF w(1)] obtain t where "s = t @ r" "lang p b t r" by blast
  thus ?thesis using w(2,3) by simp
qed

lemma search_from_parts: "search_from p b s = Some (x, m, r, g) \<Longrightarrow> x @ m @ r = rev b @ s \<and> lang p (rev x) m r"
proof (induction p b s rule: search_from.induct)
  case (1 p b)
  thus ?case using match_here_parts [of p b "[]" x m r g] by auto
next
  case (2 p b c s)
  show ?case
  proof (cases "match_here p b (c # s)")
    case None
    thus ?thesis using 2 by simp
  next
    case (Some y)
    hence "match_here p b (c # s) = Some (x, m, r, g)" using 2(2) by simp
    thus ?thesis using match_here_parts [of p b "c # s" x m r g] by auto
  qed
qed

end
