(* ===== verification/Parsers.thy ===== *)
theory Parsers
  imports Py_Regex Py_Value Py_Uuid
begin

text \<open>
  The parsers of raw payloads (\<open>parsers/\<close>): JSON, CEF, LEEF, Windows event XML, access logs, syslog and
  key-value text, each with its cheap check and its extraction, and the registry that tries them in the order of
  their priorities. A payload is a \<^typ>\<open>string\<close> of bytes. UTF-8 decoding, the JSON reader and the XML
  reader are given by a \<open>parse_lib\<close>; an exception of theirs is its type's name and its text.
\<close>

datatype xml = Element (xml_tag: string) (xml_attrs: "string dict") (xml_text: "string option") (xml_children: "xml list")

record parse_lib =
  decode_utf8 :: "string \<Rightarrow> string"  \<comment> \<open>\<open>bytes.decode("utf-8", errors="replace")\<close>\<close>
  json_loads :: "string \<Rightarrow> (string \<times> string) + json"
  xml_fromstring :: "string \<Rightarrow> (string \<times> string) + xml"

datatype parse_failure = ParserError string | Crashed string string

record parsed_event =
  pe_format :: string
  pe_fields :: document

record parser =
  ps_format :: string
  ps_priority :: nat
  can_parse :: "string \<Rightarrow> bool"
  do_parse :: "string \<Rightarrow> parse_failure + parsed_event"

section \<open>Texts and numbers\<close>

text \<open>\<open>bytes.strip\<close> and \<open>\s\<close> of a bytes pattern know the ASCII blanks only.\<close>

definition byte_space :: "char \<Rightarrow> bool" where
  "byte_space c \<longleftrightarrow> (let n = (of_char c :: nat) in (9 \<le> n \<and> n \<le> 13) \<or> n = 32)"

abbreviation not_space :: "char \<Rightarrow> bool" where
  "not_space c \<equiv> \<not> is_space c"

definition ascii_letter :: "char \<Rightarrow> bool" where
  "ascii_letter c \<longleftrightarrow> (let n = (of_char c :: nat) in (65 \<le> n \<and> n \<le> 90) \<or> (97 \<le> n \<and> n \<le> 122))"

definition name_char :: "char \<Rightarrow> bool" where
  "name_char c \<longleftrightarrow> ascii_letter c \<or> is_digit c \<or> c \<in> set ''_.-''"

text \<open>\<open>int(text)\<close>, which refuses more than 4300 digits.\<close>

definition digit_limit :: "string \<Rightarrow> bool" where
  "digit_limit s \<longleftrightarrow> length (filter is_digit s) \<le> 4300"

definition int_text :: "string \<Rightarrow> string + int" where
  "int_text s = (case read_int s of
     None \<Rightarrow> Inl (''invalid literal for int() with base 10: '' @ repr_str s)
   | Some i \<Rightarrow> if digit_limit s then Inr i else Inl (''Exceeds the limit (4300 digits) for integer string conversion: value has ''
       @ show_nat (length (filter is_digit s)) @ '' digits; use sys.set_int_max_str_digits() to increase the limit''))"

fun suffix_from :: "string \<Rightarrow> string \<Rightarrow> string option" where
  "suffix_from sub [] = (if sub = [] then Some [] else None)"
| "suffix_from sub (c # s) = (if prefix sub (c # s) then Some (c # s) else suffix_from sub s)"

definition removeprefix :: "string \<Rightarrow> string \<Rightarrow> string" where
  "removeprefix p s = (if prefix p s then drop (length p) s else s)"

text \<open>\<open>s.replace(old, new)\<close> for two given characters: left to right, without overlap.\<close>

fun replace2 :: "char \<Rightarrow> char \<Rightarrow> char \<Rightarrow> string \<Rightarrow> string" where
  "replace2 a b n (x # y # s) = (if x = a \<and> y = b then n # replace2 a b n s else x # replace2 a b n (y # s))"
| "replace2 a b n s = s"

definition groups :: "re_match option \<Rightarrow> string dict option" where
  "groups m = map_option (\<lambda>(x, t, r, g). g) m"

definition grp :: "string dict \<Rightarrow> string \<Rightarrow> string" where
  "grp g name = (case dict_get g name of None \<Rightarrow> [] | Some t \<Rightarrow> t)"

definition text_field :: "string option \<Rightarrow> json" where
  "text_field t = (case t of None \<Rightarrow> JNull | Some s \<Rightarrow> JStr s)"

definition int_field :: "int option \<Rightarrow> json" where
  "int_field i = (case i of None \<Rightarrow> JNull | Some n \<Rightarrow> JInt n)"

abbreviation blanks :: re where "blanks \<equiv> Many is_space 1 None"
abbreviation word :: "string \<Rightarrow> re" where "word name \<equiv> Named name (Many not_space 1 None)"

section \<open>JSON\<close>

fun flatten :: "string \<Rightarrow> document \<Rightarrow> document \<Rightarrow> document" where
  "flatten p [] flat = flat"
| "flatten p ((k, JObj d') # d) flat = flatten p d (dict_merge flat (flatten (p @ k @ ''.'') d' []))"
| "flatten p ((k, v) # d) flat = flatten p d (dict_set (p @ k) v flat)"

fun type_name :: "json \<Rightarrow> string" where
  "type_name JNull = ''NoneType''"
| "type_name (JBool _) = ''bool''"
| "type_name (JInt _) = ''int''"
| "type_name (JFloat _) = ''float''"
| "type_name (JStr _) = ''str''"
| "type_name (JList _) = ''list''"
| "type_name (JObj _) = ''dict''"

definition json_can_parse :: "string \<Rightarrow> bool" where
  "json_can_parse raw = (case dropWhile byte_space raw of [] \<Rightarrow> False | c # _ \<Rightarrow> c = CHR ''{'' \<or> c = CHR ''['')"

definition json_parse :: "parse_lib \<Rightarrow> string \<Rightarrow> parse_failure + parsed_event" where
  "json_parse l raw = (case json_loads l (decode_utf8 l raw) of
     Inl (ty, why) \<Rightarrow> if ty \<in> {''JSONDecodeError'', ''ValueError''} then Inl (ParserError (''invalid JSON: '' @ why)) else Inl (Crashed ty why)
   | Inr (JList _) \<Rightarrow> Inl (ParserError ''JSON arrays are not single events; send one event per payload'')
   | Inr (JObj d) \<Rightarrow> Inr \<lparr>pe_format = ''json'', pe_fields = flatten [] d []\<rparr>
   | Inr v \<Rightarrow> Inl (ParserError (''expected a JSON object, got '' @ type_name v)))"

section \<open>CEF\<close>

definition CEF_PREFIX :: re where
  "CEF_PREFIX = seq [Lit ''CEF:'', Many byte_space 0 None, Many is_digit 1 None, Lit ''|'']"

definition HEADER_FIELDS :: "string list" where
  "HEADER_FIELDS = [''cef_version'', ''device_vendor'', ''device_product'', ''device_version'', ''signature_id'', ''name'', ''severity'']"

definition EXTENSION_KEY :: re where
  "EXTENSION_KEY = seq [Or Start (One is_space), Named ''key'' (seq [One ascii_letter, Many name_char 0 None]), Lit ''='']"

fun split_unescaped :: "char \<Rightarrow> string \<Rightarrow> bool \<Rightarrow> string \<Rightarrow> string list" where
  "split_unescaped d cur escaped [] = [cur]"
| "split_unescaped d cur escaped (c # s) =
     (if escaped then split_unescaped d (cur @ [c]) False s
      else if c = CHR 0x5C then split_unescaped d (cur @ [c]) True s
      else if c = d then cur # split_unescaped d [] False s
      else split_unescaped d (cur @ [c]) False s)"

definition unescape :: "string \<Rightarrow> string" where
  "unescape v = str_strip (replace2 (CHR 0x5C) (CHR 0x5C) (CHR 0x5C)
     (replace2 (CHR 0x5C) (CHR ''='') (CHR ''='') (replace2 (CHR 0x5C) (CHR ''|'') (CHR ''|'') v)))"

fun extension_fields :: "re_match list \<Rightarrow> document \<Rightarrow> document" where
  "extension_fields [] d = d"
| "extension_fields [(x, t, rest, g)] d = dict_set (grp g ''key'') (JStr (unescape rest)) d"
| "extension_fields ((x, t, rest, g) # (x', t', rest', g') # ms) d =
     extension_fields ((x', t', rest', g') # ms) (dict_set (grp g ''key'') (JStr (unescape (take (length x' - (length x + length t)) rest))) d)"

definition parse_extension :: "string \<Rightarrow> document" where
  "parse_extension ext = extension_fields (re_finditer EXTENSION_KEY ext) []"

definition cef_can_parse :: "string \<Rightarrow> bool" where
  "cef_can_parse raw = (re_search CEF_PREFIX (take 200 raw) \<noteq> None)"

definition cef_parse :: "parse_lib \<Rightarrow> string \<Rightarrow> parse_failure + parsed_event" where
  "cef_parse l raw = (case suffix_from ''CEF:'' (decode_utf8 l raw) of
     None \<Rightarrow> Inl (ParserError ''no CEF header found'')
   | Some t \<Rightarrow> let segs = split_unescaped (CHR ''|'') [] False t in
       if length segs < 8 then Inl (ParserError (''CEF header has '' @ show_nat (length segs) @ '' segments, expected at least 8''))
       else let d0 = fold (\<lambda>(k, v) d. dict_set k v d) (zip (tl HEADER_FIELDS) (map (\<lambda>s. JStr (unescape s)) (take 6 (tl segs))))
              [(''cef_version'', JStr (str_strip (removeprefix ''CEF:'' (hd segs))))]
         in Inr \<lparr>pe_format = ''cef'', pe_fields = dict_merge d0 (parse_extension (str_join ''|'' (drop 7 segs)))\<rparr>)"

section \<open>LEEF\<close>

definition LEEF_PREFIX :: re where
  "LEEF_PREFIX = seq [Lit ''LEEF:'', Many byte_space 0 None, Many is_digit 1 None, Lit ''.'', Many is_digit 1 None, Lit ''|'']"

text \<open>The delimiter a header declares: a character, by its code or literally. Codes beyond Unicode are refused with a
  \<open>ValueError\<close>, which leaves the literal reading, or an \<open>OverflowError\<close>, which nothing catches here.\<close>

definition resolve_delimiter :: "string \<Rightarrow> parse_failure + nat" where
  "resolve_delimiter declared = (let low = str_lower declared; literal = Inr (of_char (hd declared)) in
     if \<not> (prefix ''0x'' low \<or> prefix ''x'' low) then literal
     else case read_hex (drop (if prefix ''0x'' low then 2 else 1) low) of
         None \<Rightarrow> literal
       | Some n \<Rightarrow> if 0 \<le> n \<and> n < 0x110000 then Inr (nat n)
           else if n < - (2 ^ 31) \<or> 2 ^ 31 \<le> n then Inl (Crashed ''OverflowError'' ''Python int too large to convert to C int'')
           else literal)"

definition split_code :: "nat \<Rightarrow> string \<Rightarrow> string list" where
  "split_code n s = (if n < 256 then split_on (char_of n) s else [s])"

definition leef_pair :: "string \<Rightarrow> document \<Rightarrow> document" where
  "leef_pair p d = (let k = takeWhile (\<lambda>c. c \<noteq> CHR ''='') p; rest = drop (length k) p in
     if rest \<noteq> [] \<and> str_strip k \<noteq> [] then dict_set (str_strip k) (JStr (str_strip (tl rest))) d else d)"

definition leef_can_parse :: "string \<Rightarrow> bool" where
  "leef_can_parse raw = (re_search LEEF_PREFIX (take 200 raw) \<noteq> None)"

definition leef_delimiter :: "string \<Rightarrow> string list \<Rightarrow> parse_failure + nat \<times> nat" where
  "leef_delimiter version segs =
     (if prefix ''2'' version \<and> 7 \<le> length segs \<and> str_strip (segs ! 5) \<noteq> []
      then bind_res (resolve_delimiter (str_strip (segs ! 5))) (\<lambda>c. Inr (c, 6)) else Inr (9, 5))"

definition leef_parse :: "parse_lib \<Rightarrow> string \<Rightarrow> parse_failure + parsed_event" where
  "leef_parse l raw = (case suffix_from ''LEEF:'' (decode_utf8 l raw) of
     None \<Rightarrow> Inl (ParserError ''no LEEF header found'')
   | Some t \<Rightarrow> let segs = split_on (CHR ''|'') t in
       if length segs < 6 then Inl (ParserError (''LEEF header has '' @ show_nat (length segs) @ '' segments, expected at least 6''))
       else let version = str_strip (removeprefix ''LEEF:'' (segs ! 0)) in
         bind_res (leef_delimiter version segs) (\<lambda>(c, i).
           Inr \<lparr>pe_format = ''leef'', pe_fields = fold leef_pair (split_code c (str_join ''|'' (drop i segs)))
             [(''leef_version'', JStr version), (''device_vendor'', JStr (str_strip (segs ! 1))), (''device_product'', JStr (str_strip (segs ! 2))),
              (''device_version'', JStr (str_strip (segs ! 3))), (''event_id'', JStr (str_strip (segs ! 4)))]\<rparr>))"

section \<open>Windows event XML\<close>

definition EVENT_NS :: string where
  "EVENT_NS = ''{http://schemas.microsoft.com/win/2004/08/events/event}''"

definition localname :: "string \<Rightarrow> string" where
  "localname tag = last (split_on (CHR ''}'') tag)"

definition find_child :: "xml \<Rightarrow> string \<Rightarrow> xml option" where
  "find_child x name = (case find (\<lambda>c. xml_tag c = EVENT_NS @ name) (xml_children x) of
     Some c \<Rightarrow> Some c | None \<Rightarrow> find (\<lambda>c. xml_tag c = name) (xml_children x))"

text \<open>\<open>_to_int\<close>: a value that is no integer becomes \<open>None\<close>.\<close>

definition to_int :: "string option \<Rightarrow> json" where
  "to_int v = (case v of None \<Rightarrow> JNull | Some s \<Rightarrow> (case int_text s of Inl _ \<Rightarrow> JNull | Inr i \<Rightarrow> JInt i))"

definition attr :: "xml \<Rightarrow> string \<Rightarrow> string option" where
  "attr x name = dict_get (xml_attrs x) name"

definition inner_text :: "xml \<Rightarrow> string" where
  "inner_text x = str_strip (case xml_text x of None \<Rightarrow> [] | Some s \<Rightarrow> s)"

definition is_upper :: "char \<Rightarrow> bool" where
  "is_upper c \<longleftrightarrow> char_lower c \<noteq> c"

fun snake :: "bool \<Rightarrow> string \<Rightarrow> string" where
  "snake after_lower [] = []"
| "snake after_lower (c # s) = (if is_upper c \<and> after_lower then [CHR ''_''] else []) @ [char_lower c] @ snake (\<not> is_upper c) s"

definition system_field :: "xml \<Rightarrow> document \<Rightarrow> document" where
  "system_field x d = (let name = localname (xml_tag x) in
     if name = ''Provider'' then dict_merge d [(''provider_name'', text_field (attr x ''Name'')), (''provider_guid'', text_field (attr x ''Guid''))]
     else if name = ''TimeCreated'' then dict_set ''time_created'' (text_field (attr x ''SystemTime'')) d
     else if name = ''Execution'' then dict_merge d [(''process_id'', to_int (attr x ''ProcessID'')), (''thread_id'', to_int (attr x ''ThreadID''))]
     else if name = ''Security'' then dict_set ''security_user_id'' (text_field (attr x ''UserID'')) d
     else if name = ''EventID'' then dict_set ''event_id'' (to_int (Some (inner_text x))) d
     else if name \<in> {''Level'', ''Task'', ''Opcode'', ''Version''} then dict_set (snake False name) (to_int (Some (inner_text x))) d
     else if inner_text x \<noteq> [] then dict_set (snake False name) (JStr (inner_text x)) d else d)"

definition parse_system :: "xml \<Rightarrow> document" where
  "parse_system x = fold system_field (xml_children x) []"

definition data_children :: "xml \<Rightarrow> xml list" where
  "data_children x = filter (\<lambda>c. localname (xml_tag c) = ''Data'') (xml_children x)"

definition data_name :: "xml \<Rightarrow> string option" where
  "data_name x = (case attr x ''Name'' of Some (c # n) \<Rightarrow> Some (c # n) | _ \<Rightarrow> None)"

definition parse_event_data :: "xml \<Rightarrow> document" where
  "parse_event_data x = (let ds = data_children x;
       named = fold (\<lambda>c d. case data_name c of Some n \<Rightarrow> dict_set (''event_data.'' @ n) (JStr (inner_text c)) d | None \<Rightarrow> d) ds [];
       unnamed = filter (\<lambda>s. s \<noteq> []) (map inner_text (filter (\<lambda>c. data_name c = None) ds))
     in if unnamed = [] then named else dict_set ''event_data.unnamed'' (JList (map JStr unnamed)) named)"

definition windows_can_parse :: "string \<Rightarrow> bool" where
  "windows_can_parse raw = (let head = str_lower (take 512 (dropWhile byte_space raw)) in prefix ''<'' head \<and> str_contains head ''<event'')"

definition windows_parse :: "parse_lib \<Rightarrow> string \<Rightarrow> parse_failure + parsed_event" where
  "windows_parse l raw = (case xml_fromstring l (decode_utf8 l raw) of
     Inl (ty, why) \<Rightarrow> Inl (ParserError (if ty = ''ParseError'' then ''invalid Windows Event XML: '' @ why
       else ''refused unsafe XML construct: '' @ ty @ '': '' @ why))
   | Inr doc \<Rightarrow> if localname (xml_tag doc) \<noteq> ''Event''
       then Inl (ParserError (''root element is <'' @ localname (xml_tag doc) @ ''>, expected <Event>''))
       else let d = dict_merge (case find_child doc ''System'' of None \<Rightarrow> [] | Some x \<Rightarrow> parse_system x)
               (case find_child doc ''EventData'' of None \<Rightarrow> [] | Some x \<Rightarrow> parse_event_data x)
         in if d = [] then Inl (ParserError ''Windows Event XML contained neither System nor EventData'')
            else Inr \<lparr>pe_format = ''windows_event_xml'', pe_fields = d\<rparr>)"

section \<open>Access logs\<close>

abbreviation quoted :: "string \<Rightarrow> re" where
  "quoted name \<equiv> seq [Lit [CHR 0x22], Named name (Many (\<lambda>c. c \<noteq> CHR 0x22) 0 None), Lit [CHR 0x22]]"

definition ACCESS_LOG :: re where
  "ACCESS_LOG = seq [Start, word ''remote_host'', blanks, word ''identity'', blanks, word ''user'', blanks,
     Lit ''['', Named ''timestamp'' (Many (\<lambda>c. c \<noteq> CHR '']'') 1 None), Lit '']'', blanks, quoted ''request'', blanks,
     Named ''status'' (Many is_digit 3 (Some 3)), blanks, Named ''bytes_sent'' (Or (Many is_digit 1 None) (Lit ''-'')),
     Opt (seq [blanks, quoted ''referer'', blanks, quoted ''user_agent'']), Many is_space 0 None, End]"

definition http_version_char :: "char \<Rightarrow> bool" where
  "http_version_char c \<longleftrightarrow> is_digit c \<or> c = CHR ''.''"

definition ascii_upper :: "char \<Rightarrow> bool" where
  "ascii_upper c \<longleftrightarrow> ascii_letter c \<and> is_upper c"

definition REQUEST :: re where
  "REQUEST = seq [Start, Named ''method'' (Many ascii_upper 1 None), blanks, word ''path'',
     Opt (seq [blanks, Named ''protocol'' (seq [Lit ''HTTP/'', Many http_version_char 1 None])]), End]"

definition dash_to_none :: "string option \<Rightarrow> json" where
  "dash_to_none v = (case v of None \<Rightarrow> JNull | Some s \<Rightarrow> if s = ''-'' \<or> s = [] then JNull else JStr s)"

definition request_fields :: "string \<Rightarrow> document \<Rightarrow> document" where
  "request_fields request d = (case groups (re_match REQUEST request) of None \<Rightarrow> d
     | Some g \<Rightarrow> dict_merge d [(''http_method'', JStr (grp g ''method'')), (''url_path'', JStr (grp g ''path'')),
         (''http_protocol'', text_field (dict_get g ''protocol''))])"

definition web_can_parse :: "parse_lib \<Rightarrow> string \<Rightarrow> bool" where
  "web_can_parse l raw = (re_match ACCESS_LOG (str_strip (decode_utf8 l raw)) \<noteq> None)"

definition web_parse :: "parse_lib \<Rightarrow> string \<Rightarrow> parse_failure + parsed_event" where
  "web_parse l raw = (case groups (re_match ACCESS_LOG (str_strip (decode_utf8 l raw))) of
     None \<Rightarrow> Inl (ParserError ''does not match Common or Combined Log Format'')
   | Some g \<Rightarrow> (case (if grp g ''bytes_sent'' = ''-'' then Inr JNull else map_sum id JInt (int_text (grp g ''bytes_sent''))) of
       Inl why \<Rightarrow> Inl (Crashed ''ValueError'' why)
     | Inr sent \<Rightarrow> let d = request_fields (grp g ''request'')
           [(''remote_host'', JStr (grp g ''remote_host'')), (''user'', dash_to_none (dict_get g ''user'')),
            (''timestamp_raw'', JStr (grp g ''timestamp'')), (''request'', JStr (grp g ''request'')),
            (''status'', JInt (int (read_digits (grp g ''status'')))), (''bytes_sent'', sent)]
         in Inr \<lparr>pe_format = ''web_access'', pe_fields = (if dict_get g ''referer'' = None then d
              else dict_merge d [(''referer'', dash_to_none (dict_get g ''referer'')), (''user_agent'', dash_to_none (dict_get g ''user_agent''))])\<rparr>))"

section \<open>Syslog\<close>

definition PRI :: re where
  "PRI = seq [Start, Lit ''<'', Named ''pri'' (Many is_digit 1 (Some 3)), Lit ''>'']"

definition RFC5424 :: re where
  "RFC5424 = seq [PRI, Named ''version'' (Many is_digit 1 (Some 2)), blanks, word ''timestamp'', blanks, word ''hostname'', blanks,
     word ''app_name'', blanks, word ''proc_id'', blanks, word ''msg_id'', blanks, Named ''rest'' (Many (\<lambda>c. True) 0 None), End]"

definition lower_letter :: "char \<Rightarrow> bool" where
  "lower_letter c \<longleftrightarrow> ascii_letter c \<and> \<not> is_upper c"

definition RFC3164 :: re where
  "RFC3164 = seq [PRI, Named ''timestamp'' (seq [One ascii_upper, Many lower_letter 2 (Some 2), blanks, Many is_digit 1 (Some 2), blanks,
       Many is_digit 2 (Some 2), Lit '':'', Many is_digit 2 (Some 2), Lit '':'', Many is_digit 2 (Some 2)]), blanks,
     word ''hostname'', blanks, Named ''rest'' (Many (\<lambda>c. True) 0 None), End]"

definition tag_char :: "char \<Rightarrow> bool" where
  "tag_char c \<longleftrightarrow> \<not> is_space c \<and> c \<noteq> CHR '':'' \<and> c \<noteq> CHR ''[''"

definition TAG :: re where
  "TAG = seq [Start, Named ''app_name'' (Many tag_char 1 None), Opt (seq [Lit ''['', Named ''proc_id'' (Many is_digit 1 None), Lit '']'']),
     Lit '':'', Many is_space 0 None, Named ''message'' (Many (\<lambda>c. True) 0 None), End]"

definition FACILITIES :: "string list" where
  "FACILITIES = [''kern'', ''user'', ''mail'', ''daemon'', ''auth'', ''syslog'', ''lpr'', ''news'',
     ''uucp'', ''cron'', ''authpriv'', ''ftp'', ''ntp'', ''audit'', ''alert'', ''clock'',
     ''local0'', ''local1'', ''local2'', ''local3'', ''local4'', ''local5'', ''local6'', ''local7'']"

definition SEVERITIES :: "string list" where
  "SEVERITIES = [''emerg'', ''alert'', ''crit'', ''err'', ''warning'', ''notice'', ''info'', ''debug'']"

definition label_at :: "string list \<Rightarrow> nat \<Rightarrow> json" where
  "label_at xs i = (if i < length xs then JStr (xs ! i) else JNull)"

definition decode_priority :: "nat \<Rightarrow> document" where
  "decode_priority pri = [(''priority'', JInt (int pri)), (''facility'', JInt (int (pri div 8))), (''facility_label'', label_at FACILITIES (pri div 8)),
     (''severity'', JInt (int (pri mod 8))), (''severity_label'', label_at SEVERITIES (pri mod 8))]"

definition nil_value :: "string \<Rightarrow> json" where
  "nil_value v = (if v = ''-'' then JNull else JStr v)"

text \<open>How many characters the structured data at the front take; none if its brackets do not balance.\<close>

fun balanced_length :: "nat \<Rightarrow> int \<Rightarrow> bool \<Rightarrow> string \<Rightarrow> nat option" where
  "balanced_length i depth escaped [] = None"
| "balanced_length i depth escaped (c # s) =
     (if escaped then balanced_length (Suc i) depth False s
      else if c = CHR 0x5C then balanced_length (Suc i) depth True s
      else if c = CHR ''['' then balanced_length (Suc i) (depth + 1) False s
      else if c = CHR '']'' then (if depth = 1 then Some (Suc i) else balanced_length (Suc i) (depth - 1) False s)
      else balanced_length (Suc i) depth False s)"

definition split_structured_data :: "string \<Rightarrow> string option \<times> string" where
  "split_structured_data text0 = (let rest = str_strip text0 in
     if prefix ''-'' rest then (None, tl rest)
     else if \<not> prefix ''['' rest then (None, rest)
     else case balanced_length 0 0 False rest of None \<Rightarrow> (None, rest) | Some n \<Rightarrow> (Some (take n rest), drop n rest))"

definition parse_5424 :: "string dict \<Rightarrow> document" where
  "parse_5424 g = (let (sd, message) = split_structured_data (grp g ''rest'');
       d = dict_merge (decode_priority (read_digits (grp g ''pri'')))
         [(''syslog_version'', JInt (int (read_digits (grp g ''version'')))), (''timestamp_raw'', JStr (grp g ''timestamp'')),
          (''hostname'', nil_value (grp g ''hostname'')), (''app_name'', nil_value (grp g ''app_name'')),
          (''proc_id'', nil_value (grp g ''proc_id'')), (''msg_id'', nil_value (grp g ''msg_id''))];
       d' = (case sd of None \<Rightarrow> d | Some s \<Rightarrow> dict_set ''structured_data'' (JStr s) d)
     in dict_set ''message'' (JStr (str_strip message)) d')"

definition parse_3164 :: "string dict \<Rightarrow> document" where
  "parse_3164 g = (let d = dict_merge (decode_priority (read_digits (grp g ''pri'')))
         [(''timestamp_raw'', JStr (grp g ''timestamp'')), (''hostname'', JStr (grp g ''hostname''))] in
     case groups (re_match TAG (grp g ''rest'')) of
       None \<Rightarrow> dict_set ''message'' (JStr (str_strip (grp g ''rest''))) d
     | Some t \<Rightarrow> let d1 = dict_set ''app_name'' (JStr (grp t ''app_name'')) d;
           d2 = (if grp t ''proc_id'' = [] then d1 else dict_set ''proc_id'' (JStr (grp t ''proc_id'')) d1)
         in dict_set ''message'' (JStr (str_strip (grp t ''message''))) d2)"

definition syslog_can_parse :: "parse_lib \<Rightarrow> string \<Rightarrow> bool" where
  "syslog_can_parse l raw = (re_match PRI (decode_utf8 l (take 8 raw)) \<noteq> None)"

definition syslog_parse :: "parse_lib \<Rightarrow> string \<Rightarrow> parse_failure + parsed_event" where
  "syslog_parse l raw = (let t = str_strip (decode_utf8 l raw) in
     case groups (re_match RFC5424 t) of Some g \<Rightarrow> Inr \<lparr>pe_format = ''syslog'', pe_fields = parse_5424 g\<rparr>
     | None \<Rightarrow> (case groups (re_match RFC3164 t) of Some g \<Rightarrow> Inr \<lparr>pe_format = ''syslog'', pe_fields = parse_3164 g\<rparr>
       | None \<Rightarrow> Inl (ParserError ''does not match RFC 5424 or RFC 3164 syslog structure'')))"

section \<open>Key-value text\<close>

definition PAIR :: re where
  "PAIR = seq [Named ''key'' (seq [One (\<lambda>c. ascii_letter c \<or> c = CHR ''_''), Many name_char 0 None]), Lit ''='',
     Or (quoted ''quoted'') (Named ''bare'' (Many not_space 0 None))]"

definition MIN_PAIRS :: nat where "MIN_PAIRS = 2"

definition pairs :: "string \<Rightarrow> string dict list" where
  "pairs t = map (\<lambda>(x, m, r, g). g) (re_finditer PAIR t)"

definition keyvalue_can_parse :: "parse_lib \<Rightarrow> string \<Rightarrow> bool" where
  "keyvalue_can_parse l raw \<longleftrightarrow> MIN_PAIRS \<le> length (pairs (decode_utf8 l (take 2048 raw)))"

definition keyvalue_parse :: "parse_lib \<Rightarrow> string \<Rightarrow> parse_failure + parsed_event" where
  "keyvalue_parse l raw = (let ms = pairs (str_strip (decode_utf8 l raw)) in
     if length ms < MIN_PAIRS then Inl (ParserError (''found '' @ show_nat (length ms) @ '' key=value pairs, need at least '' @ show_nat MIN_PAIRS
       @ '' to treat this as a key-value log''))
     else Inr \<lparr>pe_format = ''keyvalue'',
       pe_fields = fold (\<lambda>g d. dict_set (grp g ''key'') (JStr (if grp g ''quoted'' \<noteq> [] then grp g ''quoted'' else grp g ''bare'')) d) ms []\<rparr>)"

section \<open>The registry\<close>

definition DEFAULT_PARSERS :: "parse_lib \<Rightarrow> parser list" where
  "DEFAULT_PARSERS l = [
     \<lparr>ps_format = ''json'', ps_priority = 10, can_parse = json_can_parse, do_parse = json_parse l\<rparr>,
     \<lparr>ps_format = ''cef'', ps_priority = 20, can_parse = cef_can_parse, do_parse = cef_parse l\<rparr>,
     \<lparr>ps_format = ''leef'', ps_priority = 20, can_parse = leef_can_parse, do_parse = leef_parse l\<rparr>,
     \<lparr>ps_format = ''windows_event_xml'', ps_priority = 30, can_parse = windows_can_parse, do_parse = windows_parse l\<rparr>,
     \<lparr>ps_format = ''web_access'', ps_priority = 40, can_parse = web_can_parse l, do_parse = web_parse l\<rparr>,
     \<lparr>ps_format = ''syslog'', ps_priority = 80, can_parse = syslog_can_parse l, do_parse = syslog_parse l\<rparr>,
     \<lparr>ps_format = ''keyvalue'', ps_priority = 90, can_parse = keyvalue_can_parse l, do_parse = keyvalue_parse l\<rparr>]"

definition parser_registry :: "parser list \<Rightarrow> parser list" where
  "parser_registry ps = sort_key ps_priority ps"

definition attempt_text :: "parser \<Rightarrow> parse_failure \<Rightarrow> string" where
  "attempt_text p err = ps_format p @ (case err of ParserError why \<Rightarrow> '' ('' @ why @ '')''
     | Crashed ty why \<Rightarrow> '' (crashed: '' @ ty @ '': '' @ why @ '')'')"

fun try_parsers :: "parser list \<Rightarrow> string list \<Rightarrow> string \<Rightarrow> string + parsed_event" where
  "try_parsers [] attempted raw = Inl (if attempted \<noteq> [] then ''no parser could handle payload; tried: '' @ str_join ''; '' attempted
     else ''no parser recognized this payload format'')"
| "try_parsers (p # ps) attempted raw = (if \<not> can_parse p raw then try_parsers ps attempted raw
     else case do_parse p raw of Inr pe \<Rightarrow> Inr pe | Inl err \<Rightarrow> try_parsers ps (attempted @ [attempt_text p err]) raw)"

text \<open>No detector raises. The result is the reason of the \<open>ParserError\<close>, or the event.\<close>

definition registry_parse :: "parser list \<Rightarrow> string \<Rightarrow> string + parsed_event" where
  "registry_parse ps raw = (if list_all byte_space raw then Inl ''empty payload'' else try_parsers ps [] raw)"

section \<open>A CEF header comes back as it was written\<close>

text \<open>How the format has a header field written: backslashes and pipes escaped.\<close>

definition cef_escape :: "string \<Rightarrow> string" where
  "cef_escape v = concat (map (\<lambda>c. if c = CHR 0x5C \<or> c = CHR ''|'' then [CHR 0x5C, c] else [c]) v)"

definition cef_text :: "string list \<Rightarrow> string \<Rightarrow> string" where
  "cef_text vs ext = ''CEF:0|'' @ concat (map (\<lambda>v. cef_escape v @ ''|'') vs) @ ext"

lemma replace2_other: "x \<noteq> a \<Longrightarrow> replace2 a b n (x # s) = x # replace2 a b n s"
  by (cases s) auto

lemma replace2_skip: "hd (s @ [a]) \<noteq> b \<Longrightarrow> replace2 a b n (x # s) = x # replace2 a b n s"
  by (cases s) auto

lemma escape_pipes:
  "replace2 (CHR 0x5C) (CHR ''|'') (CHR ''|'') (cef_escape v) = concat (map (\<lambda>c. if c = CHR 0x5C then [c, c] else [c]) v)"
proof (induction v)
  case (Cons c v)
  have h: "hd (cef_escape v @ [CHR 0x5C]) \<noteq> CHR ''|''" by (cases v) (auto simp: cef_escape_def)
  show ?case using Cons replace2_skip [OF h, of "CHR ''|''" "CHR 0x5C"] by (auto simp: cef_escape_def replace2_other)
qed (simp add: cef_escape_def)

lemma unescape_doubled:
  "replace2 (CHR 0x5C) (CHR 0x5C) (CHR 0x5C) (replace2 (CHR 0x5C) (CHR ''='') (CHR ''='') (concat (map (\<lambda>c. if c = CHR 0x5C then [c, c] else [c]) v))) = v"
  (is "replace2 _ _ _ (replace2 _ _ _ (?e v)) = v")
proof (induction v)
  case (Cons c v)
  show ?case
  proof (cases "c = CHR 0x5C")
    case True
    show ?thesis
    proof (cases "hd (v @ [CHR 0x5C]) = CHR ''=''")
      case True
      then obtain v' where "v = CHR ''='' # v'" by (cases v) auto
      thus ?thesis using Cons \<open>c = CHR 0x5C\<close> by (simp add: replace2_other)
    next
      case False
      hence "hd (?e v @ [CHR 0x5C]) \<noteq> CHR ''=''" by (cases v) auto
      thus ?thesis using Cons \<open>c = CHR 0x5C\<close> replace2_skip [of "?e v" "CHR 0x5C" "CHR ''=''" "CHR ''=''" "CHR 0x5C"] by simp
    qed
  qed (use Cons in \<open>simp add: replace2_other\<close>)
qed simp

lemma unescape_escape: "unescape (cef_escape v) = str_strip v"
  by (simp add: unescape_def escape_pipes unescape_doubled)

lemma split_escaped:
  "split_unescaped (CHR ''|'') cur False (cef_escape v @ CHR ''|'' # s) = (cur @ cef_escape v) # split_unescaped (CHR ''|'') [] False s"
  by (induction v arbitrary: cur) (auto simp: cef_escape_def)

lemma split_fields:
  "split_unescaped (CHR ''|'') [] False (concat (map (\<lambda>v. cef_escape v @ ''|'') vs) @ ext) = map cef_escape vs @ split_unescaped (CHR ''|'') [] False ext"
  by (induction vs) (simp_all add: split_escaped)

lemma split_unescaped_nonempty [simp]: "split_unescaped d cur b s \<noteq> []"
  by (induction d cur b s rule: split_unescaped.induct) auto

lemma str_join_Cons: "ys \<noteq> [] \<Longrightarrow> str_join sep (x # ys) = x @ sep @ str_join sep ys"
  by (cases ys) auto

lemma join_split_unescaped: "str_join [d] (split_unescaped d cur b s) = cur @ s"
  by (induction d cur b s rule: split_unescaped.induct) (auto simp: str_join_Cons)

lemma extension_fields_distinct: "distinct (map fst d) \<Longrightarrow> distinct (map fst (extension_fields ms d))"
  by (induction ms d rule: extension_fields.induct) (simp_all add: distinct_update)


text \<open>Libraries that read ASCII, one JSON text and no XML.\<close>

definition sample_lib :: parse_lib where
  "sample_lib = \<lparr>decode_utf8 = id, json_loads = (\<lambda>s. if s = ''{4}'' then Inr (JObj [(''severity'', JStr [CHR 0xB2])]) else Inl (''JSONDecodeError'', s)),
     xml_fromstring = (\<lambda>s. Inl (''ParseError'', s))\<rparr>"


end
