(* ===== verification/Normalization.thy ===== *)
theory Normalization
  imports Parsers Py_Ops
begin

text \<open>
  Normalisation to OCSF (\<open>normalization/ocsf.py\<close>): the class, activity, outcome, severity, time and
  typed fields derived from a parsed event, and the document the platform indexes. An instant is a datetime:
  microseconds on its clock and the offset of its zone, none for a naive one. What \<open>fromisoformat\<close>
  reads, how a datetime prints and the local zone are given by a \<open>clock_lib\<close>.
\<close>

section \<open>Datetimes\<close>

record instant =
  wall :: int               \<comment> \<open>microseconds since the epoch, on its own clock\<close>
  zone :: "int option"      \<comment> \<open>microseconds ahead of UTC\<close>

record clock_lib =
  fromisoformat :: "string \<Rightarrow> instant option"
  show_iso :: "instant \<Rightarrow> string"
  local_zone :: "int \<Rightarrow> int"
  clock_now :: int
  fresh_uuid :: string

text \<open>\<open>dt.timestamp()\<close>: one division for an aware datetime; seconds and microseconds apart for a naive one.\<close>

definition timestamp :: "clock_lib \<Rightarrow> instant \<Rightarrow> rat" where
  "timestamp k x = (case zone x of
     Some z \<Rightarrow> fl (of_int (wall x - z) / 1000000)
   | None \<Rightarrow> fl (of_int ((wall x - local_zone k (wall x)) div 1000000) + fl (of_int (wall x mod 1000000) / 1000000)))"

definition epoch_ms :: "clock_lib \<Rightarrow> instant \<Rightarrow> int" where
  "epoch_ms k x = trunc (fl (timestamp k x * 1000))"

text \<open>\<open>value.strip().replace("Z", "+00:00")\<close>; a naive result is taken as UTC.\<close>

definition parse_iso8601 :: "clock_lib \<Rightarrow> string \<Rightarrow> instant option" where
  "parse_iso8601 k v = (case fromisoformat k (concat (map (\<lambda>c. if c = CHR ''Z'' then ''+00:00'' else [c]) (str_strip v))) of
     None \<Rightarrow> None | Some x \<Rightarrow> Some (if zone x = None then x\<lparr>zone := Some 0\<rparr> else x))"

section \<open>Reading fields\<close>

text \<open>An exception: the name of its type and its text.\<close>

type_synonym norm_error = "string \<times> string"

text \<open>\<open>str.isdigit\<close> also holds of superscripts, which \<open>int\<close> does not read.\<close>

definition py_isdigit :: "string \<Rightarrow> bool" where
  "py_isdigit s \<longleftrightarrow> s \<noteq> [] \<and> list_all (\<lambda>c. is_digit c \<or> of_char c \<in> {178::nat, 179, 185}) s"

fun first_str :: "document \<Rightarrow> string list \<Rightarrow> string option" where
  "first_str d [] = None"
| "first_str d (k # ks) = (case get d k of
     JStr s \<Rightarrow> if str_strip s \<noteq> [] then Some (str_strip s) else first_str d ks
   | JInt i \<Rightarrow> Some (show_int i) | JFloat f \<Rightarrow> Some (show_float f) | _ \<Rightarrow> first_str d ks)"

fun first_int :: "document \<Rightarrow> string list \<Rightarrow> norm_error + int option" where
  "first_int d [] = Inr None"
| "first_int d (k # ks) = (case get d k of
     JInt i \<Rightarrow> Inr (Some i)
   | JStr s \<Rightarrow> if py_isdigit (str_strip s) then (case int_text (str_strip s) of Inl why \<Rightarrow> Inl (''ValueError'', why) | Inr i \<Rightarrow> Inr (Some i))
       else first_int d ks
   | _ \<Rightarrow> first_int d ks)"

definition is_ip :: "string \<Rightarrow> bool" where
  "is_ip s \<longleftrightarrow> ip_address s \<noteq> None"

fun first_ip :: "document \<Rightarrow> string list \<Rightarrow> string option" where
  "first_ip d [] = None"
| "first_ip d (k # ks) = (case get d k of JStr s \<Rightarrow> if is_ip (str_strip s) then Some (str_strip s) else first_ip d ks | _ \<Rightarrow> first_ip d ks)"

text \<open>\<open>value not in (None, "", {}, [])\<close>.\<close>

definition empty_value :: "json \<Rightarrow> bool" where
  "empty_value v \<longleftrightarrow> v \<in> {JNull, JStr [], JObj [], JList []}"

definition drop_empty :: "document \<Rightarrow> document" where
  "drop_empty d = filter (\<lambda>(k, v). \<not> empty_value v) d"

text \<open>\<open>str(fields.get(key) or "")\<close>.\<close>

definition text_or_empty :: "document \<Rightarrow> string \<Rightarrow> string" where
  "text_or_empty d k = str_or (get d k) []"

section \<open>Patterns\<close>

text \<open>\<open>re.I\<close> on the literals.\<close>

definition lit_i :: "string \<Rightarrow> re" where
  "lit_i s = seq (map (\<lambda>c. One (\<lambda>x. char_lower x = char_lower c)) s)"

definition SSH_FAILURE :: re where
  "SSH_FAILURE = seq [lit_i ''Failed '', Or (lit_i ''password'') (lit_i ''publickey''), lit_i '' for'', Opt (lit_i '' invalid user''), Lit '' '', word ''user'']"

definition SSH_SUCCESS :: re where
  "SSH_SUCCESS = seq [lit_i ''Accepted '', Or (lit_i ''password'') (lit_i ''publickey''), lit_i '' for '', word ''user'']"

definition hex_char :: "char \<Rightarrow> bool" where
  "hex_char c \<longleftrightarrow> is_digit c \<or> (let n = (of_char c :: nat) in (97 \<le> n \<and> n \<le> 102) \<or> (65 \<le> n \<and> n \<le> 70))"

definition FROM_IP :: re where
  "FROM_IP = seq [Boundary, Lit ''from'', blanks, Named ''ip'' (Many (\<lambda>c. hex_char c \<or> c = CHR '':'' \<or> c = CHR ''.'') 1 None)]"

text \<open>\<open>^[a-fA-F0-9]{n}$\<close> on a stripped text.\<close>

definition hex_run :: "nat \<Rightarrow> re" where
  "hex_run n = seq [Start, Many hex_char n (Some n), End]"

definition found :: "re \<Rightarrow> string \<Rightarrow> bool" where
  "found p s \<longleftrightarrow> re_search p s \<noteq> None"

section \<open>Classes\<close>

definition CLASS_BASE_EVENT :: nat where "CLASS_BASE_EVENT = 0"
definition CLASS_FILE_ACTIVITY :: nat where "CLASS_FILE_ACTIVITY = 1001"
definition CLASS_PROCESS_ACTIVITY :: nat where "CLASS_PROCESS_ACTIVITY = 1007"
definition CLASS_AUTHENTICATION :: nat where "CLASS_AUTHENTICATION = 3002"
definition CLASS_NETWORK_ACTIVITY :: nat where "CLASS_NETWORK_ACTIVITY = 4001"
definition CLASS_HTTP_ACTIVITY :: nat where "CLASS_HTTP_ACTIVITY = 4002"

lemmas class_uids = CLASS_BASE_EVENT_def CLASS_FILE_ACTIVITY_def CLASS_PROCESS_ACTIVITY_def CLASS_AUTHENTICATION_def
  CLASS_NETWORK_ACTIVITY_def CLASS_HTTP_ACTIVITY_def

definition CLASS_NAMES :: "(nat \<times> string) list" where
  "CLASS_NAMES = [(CLASS_BASE_EVENT, ''Base Event''), (CLASS_FILE_ACTIVITY, ''File System Activity''), (CLASS_PROCESS_ACTIVITY, ''Process Activity''),
     (CLASS_AUTHENTICATION, ''Authentication''), (CLASS_NETWORK_ACTIVITY, ''Network Activity''), (CLASS_HTTP_ACTIVITY, ''HTTP Activity'')]"

definition CLASS_CATEGORY :: "(nat \<times> nat \<times> string) list" where
  "CLASS_CATEGORY = [(CLASS_BASE_EVENT, 0, ''Uncategorized''), (CLASS_FILE_ACTIVITY, 1, ''System Activity''),
     (CLASS_PROCESS_ACTIVITY, 1, ''System Activity''), (CLASS_AUTHENTICATION, 3, ''Identity & Access Management''),
     (CLASS_NETWORK_ACTIVITY, 4, ''Network Activity''), (CLASS_HTTP_ACTIVITY, 4, ''Network Activity'')]"

definition SEVERITY_ORDER :: "string list" where
  "SEVERITY_ORDER = [''informational'', ''low'', ''medium'', ''high'', ''critical'']"

definition WINDOWS_AUTH_EVENT_IDS :: "int list" where
  "WINDOWS_AUTH_EVENT_IDS = [4624, 4625, 4634, 4647, 4648, 4768, 4769, 4771, 4776]"

definition WINDOWS_PROCESS_EVENT_IDS :: "int list" where
  "WINDOWS_PROCESS_EVENT_IDS = [1, 4688]"

text \<open>\<open>value in {...}\<close>: a list or dictionary cannot be hashed.\<close>

definition unhashable :: "json \<Rightarrow> norm_error" where
  "unhashable v = (''TypeError'', ''unhashable type: '' @ repr_str (type_name v))"

definition in_int_set :: "json \<Rightarrow> int list \<Rightarrow> norm_error + bool" where
  "in_int_set v is = (case v of JList _ \<Rightarrow> Inl (unhashable v) | JObj _ \<Rightarrow> Inl (unhashable v) | _ \<Rightarrow> Inr (list_ex (\<lambda>i. py_eq v (JInt i)) is))"

definition classify_windows :: "json \<Rightarrow> norm_error + nat" where
  "classify_windows event_id = bind_res (in_int_set event_id WINDOWS_AUTH_EVENT_IDS) (\<lambda>is_auth.
     if is_auth then Inr CLASS_AUTHENTICATION
     else bind_res (in_int_set event_id WINDOWS_PROCESS_EVENT_IDS) (\<lambda>is_process. Inr (if is_process then CLASS_PROCESS_ACTIVITY else CLASS_BASE_EVENT)))"

definition classify_fields :: "document \<Rightarrow> nat" where
  "classify_fields d = (let message = text_or_empty d ''message'' in
     if str_lower (text_or_empty d ''app_name'') \<in> {''sshd'', ''sudo'', ''su'', ''login''} \<or> found SSH_FAILURE message \<or> found SSH_SUCCESS message
     then CLASS_AUTHENTICATION
     else if first_str d [''src'', ''srcip'', ''src_ip'', ''source_ip''] \<noteq> None \<and> first_str d [''dst'', ''dstip'', ''dst_ip'', ''destination_ip''] \<noteq> None
     then CLASS_NETWORK_ACTIVITY
     else if first_str d [''process_name'', ''image'', ''event_data.NewProcessName'', ''exe''] \<noteq> None then CLASS_PROCESS_ACTIVITY
     else if first_str d [''url'', ''request_url'', ''http_url''] \<noteq> None then CLASS_HTTP_ACTIVITY
     else CLASS_BASE_EVENT)"

definition classify :: "parsed_event \<Rightarrow> norm_error + nat" where
  "classify p = (if pe_format p = ''web_access'' then Inr CLASS_HTTP_ACTIVITY
     else if pe_format p = ''windows_event_xml'' then classify_windows (get (pe_fields p) ''event_id'')
     else Inr (classify_fields (pe_fields p)))"

definition explicit_outcome :: "document \<Rightarrow> string option" where
  "explicit_outcome d = (case first_str d [''outcome'', ''result'', ''status'', ''action'', ''act''] of None \<Rightarrow> None
     | Some t \<Rightarrow> if str_lower t \<in> {''success'', ''succeeded'', ''accept'', ''allow'', ''allowed'', ''0''} then Some ''success''
         else if str_lower t \<in> {''failure'', ''failed'', ''deny'', ''denied'', ''blocked''} then Some ''failure'' else None)"

definition auth_outcome :: "document \<Rightarrow> string option" where
  "auth_outcome d = (let event_id = get d ''event_id''; message = text_or_empty d ''message'' in
     if py_eq event_id (JInt 4624) then Some ''success''
     else if list_ex (\<lambda>i. py_eq event_id (JInt i)) [4625, 4771, 4776] then Some ''failure''
     else if found SSH_FAILURE message then Some ''failure''
     else if found SSH_SUCCESS message then Some ''success''
     else explicit_outcome d)"

definition activity_name :: "document \<Rightarrow> nat \<Rightarrow> string option" where
  "activity_name d class_uid =
     (if class_uid = CLASS_AUTHENTICATION then
        Some (case auth_outcome d of Some t \<Rightarrow> if t = ''failure'' then ''Logon Failed'' else if t = ''success'' then ''Logon'' else ''Authentication''
          | None \<Rightarrow> ''Authentication'')
      else if class_uid = CLASS_HTTP_ACTIVITY then
        Some (case first_str d [''http_method'', ''method'', ''requestMethod''] of Some m \<Rightarrow> ''HTTP '' @ m | None \<Rightarrow> ''HTTP Request'')
      else if class_uid = CLASS_PROCESS_ACTIVITY then Some ''Process Activity''
      else if class_uid = CLASS_NETWORK_ACTIVITY then
        Some (case first_str d [''action'', ''act'', ''disposition''] of Some a \<Rightarrow> str_strip (''Network Traffic '' @ a) | None \<Rightarrow> ''Network Traffic'')
      else first_str d [''name'', ''msg_id'', ''event_id_name''])"

section \<open>Typed fields\<close>

definition ssh_user :: "string \<Rightarrow> string option" where
  "ssh_user message = (case groups (re_search SSH_FAILURE message) of Some g \<Rightarrow> dict_get g ''user''
     | None \<Rightarrow> (case groups (re_search SSH_SUCCESS message) of Some g \<Rightarrow> dict_get g ''user'' | None \<Rightarrow> None))"

definition extract_user :: "document \<Rightarrow> document" where
  "extract_user d = (let name = (case first_str d [''event_data.TargetUserName'', ''event_data.SubjectUserName'', ''user'', ''username'', ''user_name'',
         ''suser'', ''duser'', ''usrName'', ''account''] of Some n \<Rightarrow> Some n | None \<Rightarrow> ssh_user (text_or_empty d ''message''))
     in drop_empty [(''name'', text_field name),
        (''domain'', text_field (first_str d [''event_data.TargetDomainName'', ''user_domain'', ''domain_name''])),
        (''uid'', text_field (first_str d [''event_data.TargetUserSid'', ''security_user_id'', ''uid'']))])"

definition extract_device :: "document \<Rightarrow> document" where
  "extract_device d = drop_empty [(''hostname'', text_field (first_str d [''hostname'', ''computer'', ''host'', ''dvchost'', ''devname'', ''dvc''])),
     (''ip'', text_field (first_ip d [''device_ip'', ''dvc'', ''dvcip'', ''host_ip''])), (''os'', text_field (first_str d [''os'', ''platform'']))]"

definition extract_process :: "document \<Rightarrow> norm_error + document" where
  "extract_process d = bind_res (first_int d [''event_data.ProcessId'', ''process_id'', ''pid'', ''proc_id'']) (\<lambda>pid. Inr (drop_empty
     [(''name'', text_field (first_str d [''event_data.NewProcessName'', ''event_data.Image'', ''process_name'', ''image'', ''exe'', ''app_name''])),
      (''cmd_line'', text_field (first_str d [''event_data.CommandLine'', ''command_line'', ''cmd'', ''cmdline'', ''process_command_line''])),
      (''pid'', int_field pid),
      (''parent_name'', text_field (first_str d [''event_data.ParentProcessName'', ''event_data.ParentImage'', ''parent_process_name'']))]))"

definition source_address :: "document \<Rightarrow> string option" where
  "source_address d = (case first_ip d [''src'', ''srcip'', ''src_ip'', ''source_ip'', ''remote_host'', ''event_data.IpAddress''] of
     Some a \<Rightarrow> Some a
   | None \<Rightarrow> (case groups (re_search FROM_IP (text_or_empty d ''message'')) of
       Some g \<Rightarrow> if is_ip (grp g ''ip'') then Some (grp g ''ip'') else None | None \<Rightarrow> None))"

definition extract_network :: "document \<Rightarrow> norm_error + document" where
  "extract_network d = bind_res (first_int d [''spt'', ''srcport'', ''src_port'', ''source_port'']) (\<lambda>sp.
     bind_res (first_int d [''dpt'', ''dstport'', ''dst_port'', ''destination_port'']) (\<lambda>dp. Inr (drop_empty
     [(''src_ip'', text_field (source_address d)), (''dst_ip'', text_field (first_ip d [''dst'', ''dstip'', ''dst_ip'', ''destination_ip''])),
      (''src_port'', int_field sp), (''dst_port'', int_field dp),
      (''protocol'', text_field (first_str d [''proto'', ''protocol'', ''transport'', ''http_protocol'']))])))"

definition extract_http :: "parsed_event \<Rightarrow> norm_error + document" where
  "extract_http p = (let d = pe_fields p;
       url = first_str d [''url'', ''request'', ''request_url'', ''requestUrl'', ''url_path''];
       url' = (if pe_format p = ''web_access'' then (case first_str d [''url_path''] of Some u \<Rightarrow> Some u | None \<Rightarrow> url) else url) in
     bind_res (first_int d [''status'', ''status_code'', ''response_code'']) (\<lambda>code. Inr (drop_empty
     [(''method'', text_field (first_str d [''http_method'', ''method'', ''requestMethod''])), (''url'', text_field url'),
      (''status_code'', int_field code), (''user_agent'', text_field (first_str d [''user_agent'', ''requestClientApplication''])),
      (''referrer'', text_field (first_str d [''referer'', ''referrer''])), (''domain'', text_field (first_str d [''host_header'', ''domain'', ''dhost'']))])))"

definition extract_authentication :: "document \<Rightarrow> nat \<Rightarrow> document" where
  "extract_authentication d class_uid = (if class_uid \<noteq> CLASS_AUTHENTICATION then [] else drop_empty
     [(''outcome'', text_field (auth_outcome d)),
      (''method'', text_field (first_str d [''event_data.LogonType'', ''auth_method'', ''authentication_method''])),
      (''logon_type'', text_field (first_str d [''event_data.LogonType''])), (''mfa_used'', JNull)])"

definition extract_file :: "document \<Rightarrow> norm_error + document" where
  "extract_file d = bind_res (first_int d [''fsize'', ''file_size'', ''bytes_sent'']) (\<lambda>sz. Inr (drop_empty
     [(''name'', text_field (first_str d [''filename'', ''fname'', ''file_name'', ''event_data.TargetFilename''])),
      (''path'', text_field (first_str d [''filepath'', ''file_path'', ''filePath'', ''event_data.TargetFilename''])), (''size'', int_field sz)]))"

definition HASH_KEYS :: "string list" where
  "HASH_KEYS = [''hash'', ''file_hash'', ''fileHash'', ''event_data.Hashes'', ''md5'', ''sha1'', ''sha256'']"

definition setdefault :: "string \<Rightarrow> json \<Rightarrow> document \<Rightarrow> document" where
  "setdefault k v d = (if dict_get d k = None then dict_set k v d else d)"

definition note_hash :: "string \<Rightarrow> document \<Rightarrow> document" where
  "note_hash candidate hs = (let h = str_strip (last (split_on (CHR ''='') candidate)) in
     if re_match (hex_run 64) h \<noteq> None then setdefault ''sha256'' (JStr (str_lower h)) hs
     else if re_match (hex_run 40) h \<noteq> None then setdefault ''sha1'' (JStr (str_lower h)) hs
     else if re_match (hex_run 32) h \<noteq> None then setdefault ''md5'' (JStr (str_lower h)) hs else hs)"

definition extract_hashes :: "document \<Rightarrow> document" where
  "extract_hashes d = fold (\<lambda>k hs. case get d k of
     JStr v \<Rightarrow> fold note_hash (split_runs (\<lambda>c. c = CHR '','' \<or> is_space c) v) hs | _ \<Rightarrow> hs) HASH_KEYS []"

definition extract_cloud :: "document \<Rightarrow> document" where
  "extract_cloud d = drop_empty [(''provider'', text_field (first_str d [''cloud_provider'', ''cloud.provider'', ''provider''])),
     (''account_id'', text_field (first_str d [''account_id'', ''cloud.account_id'', ''recipientAccountId''])),
     (''region'', text_field (first_str d [''region'', ''cloud.region'', ''awsRegion'']))]"

section \<open>Severity and time\<close>

definition map_syslog_severity :: "string \<Rightarrow> string" where
  "map_syslog_severity label = (case map_of [(''emerg'', ''critical''), (''alert'', ''critical''), (''crit'', ''critical''), (''err'', ''high''),
       (''error'', ''high''), (''warning'', ''medium''), (''warn'', ''medium''), (''notice'', ''low''), (''info'', ''informational''),
       (''debug'', ''informational'')] (str_lower label) of None \<Rightarrow> ''informational'' | Some s \<Rightarrow> s)"

definition map_numeric_severity :: "int \<Rightarrow> string \<Rightarrow> string" where
  "map_numeric_severity v format_name = (if format_name = ''cef'' then
       (if v \<ge> 9 then ''critical'' else if v \<ge> 7 then ''high'' else if v \<ge> 4 then ''medium'' else if v \<ge> 1 then ''low'' else ''informational'')
     else map_syslog_severity (if 0 \<le> v \<and> v \<le> 7 then SEVERITIES ! nat v else ''info''))"

definition status_severity :: "json \<Rightarrow> string" where
  "status_severity st = (case st of JInt i \<Rightarrow> if i \<ge> 500 then ''medium'' else if i \<ge> 400 then ''low'' else ''informational'' | _ \<Rightarrow> ''informational'')"

definition extract_severity :: "parsed_event \<Rightarrow> norm_error + string" where
  "extract_severity p = (let d = pe_fields p;
       otherwise = Inr (if pe_format p = ''web_access'' then status_severity (get d ''status'') else ''informational'') in
     case get d ''severity_label'' of JStr label \<Rightarrow> Inr (map_syslog_severity label)
   | _ \<Rightarrow> (case get d ''severity'' of
       JInt i \<Rightarrow> Inr (map_numeric_severity i (pe_format p))
     | JBool b \<Rightarrow> Inr (map_numeric_severity (bool_int b) (pe_format p))
     | JStr s \<Rightarrow> if str_strip s = [] then otherwise
         else if py_isdigit (str_strip s) then (case int_text (str_strip s) of Inl why \<Rightarrow> Inl (''ValueError'', why)
           | Inr i \<Rightarrow> Inr (map_numeric_severity i (pe_format p)))
         else if str_lower (str_strip s) \<in> set SEVERITY_ORDER then Inr (str_lower (str_strip s))
         else Inr (map_syslog_severity (str_lower (str_strip s)))
     | _ \<Rightarrow> otherwise))"

fun first_time :: "clock_lib \<Rightarrow> document \<Rightarrow> string list \<Rightarrow> instant option" where
  "first_time k d [] = None"
| "first_time k d (f # fs) = (case get d f of
     JStr v \<Rightarrow> if str_strip v = [] then first_time k d fs else (case parse_iso8601 k v of Some x \<Rightarrow> Some x | None \<Rightarrow> first_time k d fs)
   | _ \<Rightarrow> first_time k d fs)"

definition extract_timestamp :: "clock_lib \<Rightarrow> document \<Rightarrow> instant \<Rightarrow> instant" where
  "extract_timestamp k d fallback = (case first_time k d [''time_created'', ''timestamp'', ''event_time'', ''@timestamp''] of
     Some x \<Rightarrow> x
   | None \<Rightarrow> (case get d ''timestamp_raw'' of JStr raw \<Rightarrow> (case parse_iso8601 k raw of Some x \<Rightarrow> x | None \<Rightarrow> fallback) | _ \<Rightarrow> fallback))"

fun event_code_of :: "document \<Rightarrow> string list \<Rightarrow> string option" where
  "event_code_of d [] = None"
| "event_code_of d (k # ks) = (if get d k \<in> {JNull, JStr []} then event_code_of d ks else Some (py_str (get d k)))"

definition event_code :: "document \<Rightarrow> string option" where
  "event_code d = event_code_of d [''event_id'', ''signature_id'', ''event_code'']"

definition unmapped :: "document \<Rightarrow> document" where
  "unmapped d = filter (\<lambda>(k, v). v \<notin> {JNull, JStr [], JList []}) d"

section \<open>The document\<close>

definition OCSF_VERSION :: string where "OCSF_VERSION = ''1.1.0''"
definition SCHEMA_VERSION :: string where "SCHEMA_VERSION = ''lunatic-1''"

text \<open>\<open>a or b\<close> on optional texts.\<close>

definition or_else :: "json \<Rightarrow> string option \<Rightarrow> json" where
  "or_else v t = (if py_truthy v then v else text_field t)"

definition normalize ::
  "parse_lib \<Rightarrow> clock_lib \<Rightarrow> parsed_event \<Rightarrow> string \<Rightarrow> string \<Rightarrow> string \<Rightarrow> string \<Rightarrow> instant \<Rightarrow> string option \<Rightarrow> norm_error + document" where
  "normalize l k p tenant_id raw source_type collector_id received_at source_ip = (let d = pe_fields p in
     bind_res (classify p) (\<lambda>class_uid. bind_res (extract_process d) (\<lambda>process. bind_res (extract_network d) (\<lambda>network.
     bind_res (extract_http p) (\<lambda>http. bind_res (extract_file d) (\<lambda>file. bind_res (extract_severity p) (\<lambda>sev.
     let (category_uid, category_name) = the (map_of CLASS_CATEGORY class_uid); class_name = the (map_of CLASS_NAMES class_uid);
         user = extract_user d; device = extract_device d; auth = extract_authentication d class_uid;
         ts = extract_timestamp k d received_at; activity = text_field (activity_name d class_uid);
         normalized_event = [
           (''metadata'', JObj [(''version'', JStr OCSF_VERSION),
              (''product'', JObj [(''name'', JStr ''LUNATIC-IT SIEM''), (''vendor_name'', JStr ''Lunatic-IT'')]),
              (''original_time'', get d ''timestamp_raw''), (''log_provider'', py_or (get d ''provider_name'') (JStr source_type))]),
           (''class_uid'', JInt (int class_uid)), (''class_name'', JStr class_name), (''category_uid'', JInt (int category_uid)),
           (''category_name'', JStr category_name), (''activity_name'', activity), (''severity'', JStr sev), (''time'', JInt (epoch_ms k ts)),
           (''actor'', JObj (if user = [] then [] else [(''user'', JObj user)])), (''device'', JObj device), (''process'', JObj process),
           (''network'', JObj network), (''http_request'', JObj http), (''authentication'', JObj auth), (''file'', JObj file),
           (''unmapped'', JObj (unmapped d))]
     in Inr (drop_empty [
       (''event_id'', JStr (fresh_uuid k)), (''timestamp'', JStr (show_iso k ts)),
       (''ingestion_timestamp'', JStr (show_iso k \<lparr>wall = clock_now k, zone = Some 0\<rparr>)), (''tenant_id'', JStr tenant_id),
       (''source'', JStr collector_id), (''source_type'', JStr source_type), (''category'', JStr category_name), (''class'', JStr class_name),
       (''event_code'', text_field (event_code d)), (''severity'', JStr sev), (''activity'', activity),
       (''actor'', JObj (if user = [] then [] else [(''user'', get user ''name'')])), (''user'', JObj user), (''device'', JObj device),
       (''source_ip'', or_else (get network ''src_ip'') source_ip), (''destination_ip'', get network ''dst_ip''),
       (''source_port'', get network ''src_port''), (''destination_port'', get network ''dst_port''), (''protocol'', get network ''protocol''),
       (''hostname'', get device ''hostname''), (''process'', JObj process), (''command_line'', get process ''cmd_line''), (''file'', JObj file),
       (''hash'', JObj (extract_hashes d)), (''domain'', or_else (get http ''domain'') (first_str d [''domain'', ''dns_query'', ''query''])),
       (''url'', get http ''url''), (''cloud'', JObj (extract_cloud d)), (''authentication'', JObj auth), (''mitre_techniques'', JList []),
       (''ioc_matches'', JList []), (''enrichment_partial'', JBool False), (''schema_version'', JStr SCHEMA_VERSION),
       (''raw_event'', JStr (decode_utf8 l raw)), (''normalized_event'', JObj normalized_event)]))))))))"

section \<open>What the document says\<close>

declare first_str.simps [simp del] first_int.simps [simp del] first_ip.simps [simp del] first_time.simps [simp del] event_code_of.simps [simp del]

lemma drop_empty_get [simp]:
  "dict_get (drop_empty []) key = None"
  "dict_get (drop_empty ((key', v) # d)) key = (if key' = key \<and> \<not> empty_value v then Some v else dict_get (drop_empty d) key)"
  by (auto simp: drop_empty_def)

lemma empty_value_simps [simp]:
  "empty_value JNull" "\<not> empty_value (JInt i)" "\<not> empty_value (JBool b)" "empty_value (JStr s) \<longleftrightarrow> s = []"
  "empty_value (JObj o1) \<longleftrightarrow> o1 = []" "empty_value (JList xs) \<longleftrightarrow> xs = []"
  by (auto simp: empty_value_def)

lemma first_ip_ip: "first_ip d ks = Some a \<Longrightarrow> is_ip a"
  by (induction ks) (auto simp: first_ip.simps split: json.splits if_splits)

lemma source_address_ip: "source_address d = Some a \<Longrightarrow> is_ip a"
  by (auto simp: source_address_def dest: first_ip_ip split: option.splits if_splits)

lemma syslog_severity_range: "map_syslog_severity s \<in> set SEVERITY_ORDER"
  unfolding map_syslog_severity_def SEVERITY_ORDER_def by (auto split: option.splits dest!: map_of_SomeD)

lemma numeric_severity_range: "map_numeric_severity v fmt \<in> set SEVERITY_ORDER"
proof (cases "fmt = ''cef''")
  case True
  thus ?thesis by (simp add: map_numeric_severity_def SEVERITY_ORDER_def)
qed (simp add: map_numeric_severity_def syslog_severity_range)

lemma status_severity_range: "status_severity v \<in> set SEVERITY_ORDER" "''informational'' \<in> set SEVERITY_ORDER"
  by (simp_all add: status_severity_def SEVERITY_ORDER_def split: json.split)

lemma extract_severity_range:
  assumes "extract_severity p = Inr s"
  shows "s \<in> set SEVERITY_ORDER"
proof (cases "get (pe_fields p) ''severity_label''")
  case (JStr label)
  thus ?thesis using assms syslog_severity_range by (auto simp: extract_severity_def)
qed (use assms syslog_severity_range numeric_severity_range status_severity_range in
    \<open>cases "get (pe_fields p) ''severity''"; auto simp: extract_severity_def Let_def split: if_splits sum.splits\<close>)+

lemma classify_known:
  assumes "classify p = Inr u"
  shows "\<exists>name cat cname. map_of CLASS_NAMES u = Some name \<and> map_of CLASS_CATEGORY u = Some (cat, cname)
    \<and> name \<noteq> [] \<and> cname \<noteq> []"
proof -
  have "u \<in> {CLASS_BASE_EVENT, CLASS_PROCESS_ACTIVITY, CLASS_AUTHENTICATION, CLASS_NETWORK_ACTIVITY, CLASS_HTTP_ACTIVITY}"
    using assms by (auto simp: classify_def classify_windows_def classify_fields_def Let_def bind_res_Inr split: if_splits)
  thus ?thesis by (auto simp: CLASS_NAMES_def CLASS_CATEGORY_def class_uids)
qed

lemma is_ip_nonempty: "is_ip a \<Longrightarrow> a \<noteq> []"
proof -
  have "(case ip_address [] of None \<Rightarrow> True | Some _ \<Rightarrow> False)" by code_simp
  thus "is_ip a \<Longrightarrow> a \<noteq> []" by (auto simp: is_ip_def split: option.splits)
qed

lemma text_field_empty: "(\<And>a. t = Some a \<Longrightarrow> is_ip a) \<Longrightarrow> (if empty_value (text_field t) then JNull else text_field t) = text_field t"
  by (cases t) (auto simp: text_field_def dest: is_ip_nonempty)

lemma network_addresses:
  assumes "extract_network d = Inr n"
  shows "get n ''src_ip'' = text_field (source_address d)" "get n ''dst_ip'' = text_field (first_ip d [''dst'', ''dstip'', ''dst_ip'', ''destination_ip''])"
proof -
  obtain sp dp where n: "n = drop_empty [(''src_ip'', text_field (source_address d)), (''dst_ip'', text_field (first_ip d [''dst'', ''dstip'', ''dst_ip'', ''destination_ip''])),
      (''src_port'', int_field sp), (''dst_port'', int_field dp), (''protocol'', text_field (first_str d [''proto'', ''protocol'', ''transport'', ''http_protocol'']))]"
    using assms by (auto simp: extract_network_def bind_res_Inr)
  have "get n ''src_ip'' = (if empty_value (text_field (source_address d)) then JNull else text_field (source_address d))" by (simp add: n get_def)
  thus "get n ''src_ip'' = text_field (source_address d)" using text_field_empty [OF source_address_ip] by simp
  have "get n ''dst_ip'' = (if empty_value (text_field (first_ip d [''dst'', ''dstip'', ''dst_ip'', ''destination_ip''])) then JNull
     else text_field (first_ip d [''dst'', ''dstip'', ''dst_ip'', ''destination_ip'']))" by (simp add: n get_def)
  thus "get n ''dst_ip'' = text_field (first_ip d [''dst'', ''dstip'', ''dst_ip'', ''destination_ip''])" using text_field_empty [OF first_ip_ip] by simp
qed

lemma normalize_Inr:
  assumes "normalize l k p tenant raw stype coll recv ip = Inr d"
  obtains u cat cname name network sev body where
    "classify p = Inr u" "map_of CLASS_NAMES u = Some name" "map_of CLASS_CATEGORY u = Some (cat, cname)" "name \<noteq> []" "cname \<noteq> []"
    "extract_network (pe_fields p) = Inr network" "sev \<in> set SEVERITY_ORDER"
    "tenant \<noteq> [] \<Longrightarrow> dict_get d ''tenant_id'' = Some (JStr tenant)"
    "decode_utf8 l raw \<noteq> [] \<Longrightarrow> dict_get d ''raw_event'' = Some (JStr (decode_utf8 l raw))"
    "dict_get d ''severity'' = Some (JStr sev)" "dict_get d ''class'' = Some (JStr name)" "dict_get d ''category'' = Some (JStr cname)"
    "dict_get d ''source_ip'' = (let v = or_else (get network ''src_ip'') ip in if empty_value v then None else Some v)"
    "dict_get d ''destination_ip'' = (let v = get network ''dst_ip'' in if empty_value v then None else Some v)"
    "dict_get d ''normalized_event'' = Some (JObj body)" "dict_get body ''class_uid'' = Some (JInt (int u))"
    "dict_get body ''class_name'' = Some (JStr name)" "dict_get body ''severity'' = Some (JStr sev)"
    "dict_get body ''unmapped'' = Some (JObj (unmapped (pe_fields p)))"
proof -
  obtain u process network http files sev where w: "classify p = Inr u" "extract_network (pe_fields p) = Inr network" "extract_severity p = Inr sev"
      "extract_process (pe_fields p) = Inr process" "extract_http p = Inr http" "extract_file (pe_fields p) = Inr files"
    using assms unfolding normalize_def Let_def bind_res_Inr by (elim exE conjE) (rule that)
  obtain name cat cname where n: "map_of CLASS_NAMES u = Some name" "map_of CLASS_CATEGORY u = Some (cat, cname)" "name \<noteq> []" "cname \<noteq> []"
    using classify_known [OF w(1)] by blast
  have s: "sev \<in> set SEVERITY_ORDER" "sev \<noteq> []" using extract_severity_range [OF w(3)] by (auto simp: SEVERITY_ORDER_def)
  note d = assms [unfolded normalize_def Let_def w bind_res_simps n option.sel prod.case sum.inject]
  show thesis by (rule that [OF w(1) n w(2) s(1)], simp_all add: d [symmetric] Let_def s n) simp_all
qed


text \<open>A clock that prints times as plain numbers.\<close>

definition sample_clock :: clock_lib where
  "sample_clock = \<lparr>fromisoformat = (\<lambda>s. None), show_iso = (\<lambda>x. show_int (wall x)), local_zone = (\<lambda>t. 0), clock_now = 7, fresh_uuid = ''u1''\<rparr>"

definition ssh_line :: string where
  "ssh_line = ''<34>Oct 11 22:14:15 h1 sshd[12]: Failed password for bob from 10.0.0.1''"

definition ssh_event :: parsed_event where
  "ssh_event = \<lparr>pe_format = ''syslog'', pe_fields = [(''priority'', JInt 34), (''facility'', JInt 4), (''facility_label'', JStr ''auth''),
     (''severity'', JInt 2), (''severity_label'', JStr ''crit''), (''timestamp_raw'', JStr ''Oct 11 22:14:15''), (''hostname'', JStr ''h1''),
     (''app_name'', JStr ''sshd''), (''proc_id'', JStr ''12''), (''message'', JStr ''Failed password for bob from 10.0.0.1'')]\<rparr>"

lemma ssh_parsed: "registry_parse (DEFAULT_PARSERS sample_lib) ssh_line = Inr ssh_event"
proof -
  have "(case registry_parse (DEFAULT_PARSERS sample_lib) ssh_line of Inl _ \<Rightarrow> False
    | Inr p \<Rightarrow> pe_format p = pe_format ssh_event \<and> pe_fields p = pe_fields ssh_event)" by code_simp
  thus ?thesis by (auto split: sum.splits)
qed

definition succeeds :: "'e + 'a \<Rightarrow> bool" where
  "succeeds r = (case r of Inl _ \<Rightarrow> False | Inr _ \<Rightarrow> True)"

lemma succeeds_Inr: "succeeds r \<longleftrightarrow> (\<exists>x. r = Inr x)"
  by (auto simp: succeeds_def split: sum.splits)

lemma normalize_succeeds:
  assumes "succeeds (classify p)" "succeeds (extract_process (pe_fields p))" "succeeds (extract_network (pe_fields p))"
    "succeeds (extract_http p)" "succeeds (extract_file (pe_fields p))" "succeeds (extract_severity p)"
  shows "\<exists>d. normalize l k p tenant raw stype coll recv ip = Inr d"
proof -
  obtain u where w1: "classify p = Inr u" using assms(1) unfolding succeeds_Inr by (rule exE)
  obtain pr where w2: "extract_process (pe_fields p) = Inr pr" using assms(2) unfolding succeeds_Inr by (rule exE)
  obtain nw where w3: "extract_network (pe_fields p) = Inr nw" using assms(3) unfolding succeeds_Inr by (rule exE)
  obtain h where w4: "extract_http p = Inr h" using assms(4) unfolding succeeds_Inr by (rule exE)
  obtain fi where w5: "extract_file (pe_fields p) = Inr fi" using assms(5) unfolding succeeds_Inr by (rule exE)
  obtain sv where w6: "extract_severity p = Inr sv" using assms(6) unfolding succeeds_Inr by (rule exE)
  obtain cat cname where c: "the (map_of CLASS_CATEGORY u) = (cat, cname)" by (rule prod.exhaust)
  show ?thesis unfolding normalize_def Let_def w1 w2 w3 w4 w5 w6 bind_res_simps c prod.case by (rule exI, rule refl)
qed

lemma ssh_normalized: "\<exists>d. normalize sample_lib sample_clock ssh_event tenant ssh_line stype coll recv ip = Inr d"
proof (rule normalize_succeeds)
  show "succeeds (classify ssh_event)" by (simp add: classify_def succeeds_def ssh_event_def)
qed (simp_all add: extract_process_def extract_network_def extract_http_def extract_file_def extract_severity_def first_int.simps
    ssh_event_def succeeds_def Let_def, code_simp)


section \<open>Digits that are none\<close>

lemma strip_no_space: "list_all (\<lambda>c. \<not> is_space c) s \<Longrightarrow> str_strip s = s"
proof -
  have d: "list_all (\<lambda>c. \<not> is_space c) t \<Longrightarrow> dropWhile is_space t = t" for t by (cases t) auto
  assume "list_all (\<lambda>c. \<not> is_space c) s"
  thus ?thesis using d [of s] d [of "rev s"] by (simp add: str_strip_def)
qed

lemma isdigit_plain:
  assumes "is_digit c \<or> of_char c \<in> {178::nat, 179, 185}"
  shows "\<not> is_space c" "c \<noteq> CHR ''_''" "c \<noteq> CHR ''-''" "c \<noteq> CHR ''+''"
  using assms by (auto simp: is_digit_def is_space_def Let_def)

lemma int_text_superscript:
  assumes "py_isdigit t" "c \<in> set t" "\<not> is_digit c"
  shows "\<exists>why. int_text t = Inl why"
proof -
  have p: "list_all (\<lambda>c. is_digit c \<or> of_char c \<in> {178::nat, 179, 185}) t" "t \<noteq> []" using assms(1) by (auto simp: py_isdigit_def)
  have "str_strip t = t" using p(1) isdigit_plain(1) by (intro strip_no_space) (auto simp: list_all_iff)
  moreover have "CHR ''_'' \<notin> set t" using p(1) isdigit_plain(2) by (auto simp: list_all_iff)
  hence "split_on (CHR ''_'') t = [t]" by (rule split_on_append(2))
  moreover obtain x xs where "t = x # xs" "x \<noteq> CHR ''-''" "x \<noteq> CHR ''+''" using p isdigit_plain(3,4) by (cases t) auto
  ultimately have "read_int t = None" using assms(2,3) by (auto simp: read_int_def list_all_iff)
  thus ?thesis by (simp add: int_text_def)
qed

lemma unreadable_severity:
  assumes "get (pe_fields p) ''severity_label'' = JNull" "get (pe_fields p) ''severity'' = JStr s"
    and "py_isdigit (str_strip s)" "c \<in> set (str_strip s)" "\<not> is_digit c"
  shows "\<exists>why. extract_severity p = Inl (''ValueError'', why)"
  using int_text_superscript [OF assms(3-5)] assms(3) by (auto simp: extract_severity_def assms(1,2) Let_def py_isdigit_def)

end
