(* ===== verification/Identity.thy ===== *)
theory Identity
  imports Rule_Service Py_Uuid
begin

text \<open>
  Who may do what: the permission catalogue and the role matrix (\<open>auth/permissions.py\<close>), the tables
  of \<open>models/identity.py\<close> with the seed of the first migration, the authentication of a request and
  the permission gate (\<open>auth/dependencies.py\<close>), and the management of users
  (\<open>services/users.py\<close>, \<open>api/users.py\<close>).

  What the cryptographic libraries compute is given by the record \<open>crypto\<close>: the hash of a password
  with the n-th salt and its check, SHA-256, the n-th random token, JWT encoding and decoding (with its one
  permitted algorithm, at a given time), TOTP and Fernet.

  A session scoped to a tenant sees, of the tables with row-level security, the rows of that tenant only.
\<close>

section \<open>The catalogue and the matrix\<close>

definition ROLE_NAMES :: "string list" where
  "ROLE_NAMES = [''SUPER_ADMIN'', ''ORG_ADMIN'', ''SOC_MANAGER'', ''SOC_ANALYST_L1'', ''SOC_ANALYST_L2'', ''SOC_ANALYST_L3'',
     ''THREAT_HUNTER'', ''DFIR_ANALYST'', ''AUDITOR'', ''READ_ONLY'']"

definition RESOURCE_ACTIONS :: "(string \<times> string list) list" where
  "RESOURCE_ACTIONS = [
     (''user'', [''read'', ''write'', ''delete'']),
     (''organization'', [''read'', ''write'']),
     (''asset'', [''read'', ''write'', ''delete'']),
     (''event'', [''read'']),
     (''alert'', [''read'', ''write'', ''close'']),
     (''incident'', [''read'', ''write'', ''delete'']),
     (''ioc'', [''read'', ''write'', ''delete'']),
     (''rule'', [''read'', ''write'', ''delete'', ''execute'']),
     (''hunt'', [''read'', ''write'', ''execute'']),
     (''mitre'', [''read'', ''write'']),
     (''playbook'', [''read'', ''write'', ''execute'', ''approve'']),
     (''audit'', [''read'']),
     (''api_key'', [''read'', ''write'', ''delete''])]"

definition PERMISSION_CATALOG :: "(string \<times> string) list" where
  "PERMISSION_CATALOG = List.concat (map (\<lambda>(r, acts). map (Pair r) acts) RESOURCE_ACTIONS)"

definition only_pairs :: "(string \<times> string list) list \<Rightarrow> (string \<times> string) list" where
  "only_pairs ras = List.concat (map (\<lambda>(r, acts). map (Pair r) acts) ras)"

definition ROLE_PERMISSIONS :: "(string \<times> (string \<times> string) list) list" where
  "ROLE_PERMISSIONS = [
     (''SUPER_ADMIN'', PERMISSION_CATALOG),
     (''ORG_ADMIN'', PERMISSION_CATALOG),
     (''SOC_MANAGER'', only_pairs [(''user'', [''read'', ''write'']), (''asset'', [''read'', ''write'', ''delete'']), (''alert'',
       [''read'', ''write'', ''close'']), (''incident'', [''read'', ''write'', ''delete'']), (''ioc'', [''read'', ''write'',
       ''delete'']), (''rule'', [''read'', ''write'', ''delete'', ''execute'']), (''hunt'', [''read'', ''write'', ''execute'']),
       (''mitre'', [''read'', ''write'']), (''playbook'', [''read'', ''write'', ''execute'', ''approve'']), (''audit'', [''read'']),
       (''organization'', [''read'']), (''api_key'', [''read'', ''write'', ''delete''])]),
     (''SOC_ANALYST_L1'', only_pairs [(''asset'', [''read'']), (''alert'', [''read'', ''write'']), (''incident'', [''read'',
       ''write'']), (''ioc'', [''read'']), (''event'', [''read'']), (''mitre'', [''read'']), (''hunt'', [''read'', ''execute''])]),
     (''SOC_ANALYST_L2'', only_pairs [(''asset'', [''read'']), (''alert'', [''read'', ''write'', ''close'']), (''incident'',
       [''read'', ''write'']), (''ioc'', [''read'', ''write'']), (''event'', [''read'']), (''mitre'', [''read'']), (''rule'', [''read'',
       ''execute'']), (''hunt'', [''read'', ''write'', ''execute'']), (''playbook'', [''read'', ''execute''])]),
     (''SOC_ANALYST_L3'', only_pairs [(''asset'', [''read'', ''write'']), (''alert'', [''read'', ''write'', ''close'']),
       (''incident'', [''read'', ''write'', ''delete'']), (''ioc'', [''read'', ''write'', ''delete'']), (''event'', [''read'']),
       (''mitre'', [''read'']), (''rule'', [''read'', ''write'', ''execute'']), (''hunt'', [''read'', ''write'', ''execute'']),
       (''playbook'', [''read'', ''write'', ''execute''])]),
     (''THREAT_HUNTER'', only_pairs [(''asset'', [''read'']), (''alert'', [''read'']), (''incident'', [''read'']), (''ioc'',
       [''read'', ''write'']), (''event'', [''read'']), (''mitre'', [''read'']), (''hunt'', [''read'', ''write'', ''execute''])]),
     (''DFIR_ANALYST'', only_pairs [(''asset'', [''read'', ''write'']), (''alert'', [''read'']), (''incident'', [''read'',
       ''write'']), (''ioc'', [''read'', ''write'']), (''event'', [''read'']), (''mitre'', [''read'']), (''hunt'', [''read'',
       ''execute'']), (''playbook'', [''read'', ''execute'']), (''audit'', [''read''])]),
     (''AUDITOR'', only_pairs [(''user'', [''read'']), (''organization'', [''read'']), (''asset'', [''read'']), (''alert'',
       [''read'']), (''incident'', [''read'']), (''ioc'', [''read'']), (''rule'', [''read'']), (''playbook'', [''read'']), (''audit'',
       [''read'']), (''mitre'', [''read'']), (''api_key'', [''read''])]),
     (''READ_ONLY'', only_pairs [(''asset'', [''read'']), (''alert'', [''read'']), (''incident'', [''read'']), (''ioc'',
       [''read'']), (''event'', [''read'']), (''rule'', [''read'']), (''mitre'', [''read'']), (''hunt'', [''read'']), (''playbook'',
       [''read''])])]"

section \<open>Tables\<close>

record role_row =
  ro_id :: string
  ro_name :: string

record permission_row =
  pm_id :: string
  pm_resource :: string
  pm_action :: string

record user_role =
  ur_user :: string
  ur_role :: string
  ur_tenant :: string

record session_row =
  ses_id :: string
  ses_user :: string
  ses_tenant :: string
  ses_hash :: string
  ses_agent :: "string option"
  ses_ip :: "string option"
  ses_expires :: int
  ses_revoked :: "int option"

record api_key =
  key_id :: string
  key_tenant :: string
  key_name :: string
  key_hash :: string
  key_collector :: bool
  key_used :: "int option"
  key_expires :: "int option"
  key_revoked :: "int option"
  key_by :: "string option"

record identity_db = rule_db +
  roles :: "role_row list"
  permissions :: "permission_row list"
  role_permissions :: "(string \<times> string) list"
  user_roles :: "user_role list"
  sessions :: "session_row list"
  api_keys :: "api_key list"

text \<open>The seed of the first migration: one row per role and per permission, and one per pair of the matrix.
  Identifiers are drawn with \<open>uuid4\<close>, roles first.\<close>

definition role_rows :: "'b dbenv_scheme \<Rightarrow> nat \<Rightarrow> string list \<Rightarrow> role_row list" where
  "role_rows e n names = map (\<lambda>(i, r). \<lparr>ro_id = uuid4 e (n + i), ro_name = r\<rparr>) (List.enumerate 0 names)"

definition permission_rows :: "'b dbenv_scheme \<Rightarrow> nat \<Rightarrow> (string \<times> string) list \<Rightarrow> permission_row list" where
  "permission_rows e n catalog = map (\<lambda>(i, (r, a)). \<lparr>pm_id = uuid4 e (n + i), pm_resource = r, pm_action = a\<rparr>) (List.enumerate 0 catalog)"

definition seed_rbac ::
  "'b dbenv_scheme \<Rightarrow> string list \<Rightarrow> (string \<times> string) list \<Rightarrow> (string \<times> (string \<times> string) list) list \<Rightarrow> 'a identity_db_scheme \<Rightarrow> 'a identity_db_scheme" where
  "seed_rbac e names catalog matrix db = (let rs = role_rows e (drawn db) names; ps = permission_rows e (drawn db + length names) catalog
     in db\<lparr>drawn := drawn db + length names + length catalog, roles := roles db @ rs, permissions := permissions db @ ps,
       role_permissions := role_permissions db @ List.concat (map (\<lambda>(name, pairs). List.concat (map (\<lambda>(r, a).
         List.concat (map (\<lambda>x. if ro_name x = name then map (\<lambda>p. (ro_id x, pm_id p)) (filter (\<lambda>p. pm_resource p = r \<and> pm_action p = a) ps) else []) rs)) pairs)) matrix)\<rparr>)"

section \<open>Libraries and settings\<close>

record crypto =
  pw_hash :: "nat \<Rightarrow> string \<Rightarrow> string"
  pw_verify :: "string \<Rightarrow> string \<Rightarrow> service_error + bool"
  sha256_hex :: "string \<Rightarrow> string"
  token_urlsafe :: "nat \<Rightarrow> string"
  jwt_encode :: "document \<Rightarrow> string"
  jwt_decode :: "int \<Rightarrow> string \<Rightarrow> document option"
  totp_secret :: "nat \<Rightarrow> string"
  totp_uri :: "string \<Rightarrow> string \<Rightarrow> string"
  totp_ok :: "int \<Rightarrow> string \<Rightarrow> string \<Rightarrow> bool"
  fernet_encrypt :: "nat \<Rightarrow> string \<Rightarrow> service_error + string"
  fernet_decrypt :: "string \<Rightarrow> service_error + string"

record auth_settings =
  max_failed_logins :: nat
  lockout_minutes :: int
  access_ttl :: int
  refresh_ttl :: int

section \<open>Tokens\<close>

text \<open>Claims are written as JSON; times as seconds since the epoch.\<close>

definition create_access_token :: "'b dbenv_scheme \<Rightarrow> crypto \<Rightarrow> auth_settings \<Rightarrow> string \<Rightarrow> string \<Rightarrow> nat \<Rightarrow> string" where
  "create_access_token e c st user tenant n = jwt_encode c [(''sub'', JStr user), (''tenant_id'', JStr tenant), (''typ'', JStr ''access''),
     (''iat'', JInt (utcnow e div 1000000)), (''exp'', JInt (utcnow e div 1000000 + access_ttl st)), (''jti'', JStr (uuid4 e n))]"

definition decode_access_token :: "crypto \<Rightarrow> int \<Rightarrow> string \<Rightarrow> document option" where
  "decode_access_token c now token = (case jwt_decode c now token of None \<Rightarrow> None
     | Some payload \<Rightarrow> if get payload ''typ'' = JStr ''access'' then Some payload else None)"

definition generate_refresh_token :: "crypto \<Rightarrow> nat \<Rightarrow> string \<Rightarrow> string" where
  "generate_refresh_token c n tenant = tenant @ ''.'' @ token_urlsafe c n"

definition parse_refresh_token_tenant_id :: "string \<Rightarrow> string option" where
  "parse_refresh_token_tenant_id token = parse_uuid (takeWhile (\<lambda>ch. ch \<noteq> CHR ''.'') token)"

section \<open>The authenticated request\<close>

record auth_user =
  au_id :: string
  au_tenant :: string
  au_email :: string
  au_full_name :: string
  au_permissions :: "(string \<times> string) list"

definition has_permission :: "auth_user \<Rightarrow> string \<Rightarrow> string \<Rightarrow> bool" where
  "has_permission u resource action \<longleftrightarrow> (resource, action) \<in> set (au_permissions u)"

definition load_permissions :: "string \<Rightarrow> string \<Rightarrow> 'a identity_db_scheme \<Rightarrow> (string \<times> string) list" where
  "load_permissions tenant user db = remdups (List.concat (map (\<lambda>ur. List.concat (map (\<lambda>(r, p).
     if r = ur_role ur then map (\<lambda>x. (pm_resource x, pm_action x)) (filter (\<lambda>x. pm_id x = p) (permissions db)) else []) (role_permissions db)))
       (filter (\<lambda>ur. ur_user ur = user \<and> ur_tenant ur = tenant) (user_roles db))))"

definition visible_user :: "string \<Rightarrow> string \<Rightarrow> 'a core_db_scheme \<Rightarrow> user_row option" where
  "visible_user tenant user db = find (\<lambda>u. usr_id u = user \<and> usr_tenant u = tenant) (users db)"

text \<open>A claim that is missing raises \<open>KeyError\<close>, a text that is no identifier \<open>ValueError\<close>: both are
  answered with 401. A claim of another type raises \<open>AttributeError\<close>, which nothing catches.\<close>

definition claim_uuid :: "document \<Rightarrow> string \<Rightarrow> service_error + string" where
  "claim_uuid payload key = (case dict_get payload key of
     None \<Rightarrow> Inl (HttpError 401 ''invalid or expired token'')
   | Some (JStr s) \<Rightarrow> (case parse_uuid s of None \<Rightarrow> Inl (HttpError 401 ''invalid or expired token'') | Some u \<Rightarrow> Inr u)
   | Some _ \<Rightarrow> Inl (Raised AttributeError))"

definition get_auth_context :: "'b dbenv_scheme \<Rightarrow> crypto \<Rightarrow> string option \<Rightarrow> 'a identity_db_scheme \<Rightarrow> service_error + auth_user" where
  "get_auth_context e c credentials db = (case credentials of
     None \<Rightarrow> Inl (HttpError 401 ''missing bearer token'')
   | Some token \<Rightarrow> (case decode_access_token c (utcnow e) token of
       None \<Rightarrow> Inl (HttpError 401 ''invalid or expired token'')
     | Some payload \<Rightarrow> bind_res (claim_uuid payload ''tenant_id'') (\<lambda>tenant. bind_res (claim_uuid payload ''sub'') (\<lambda>uid.
         case visible_user tenant uid db of
           None \<Rightarrow> Inl (HttpError 401 ''user not found or inactive'')
         | Some u \<Rightarrow> if \<not> usr_active u then Inl (HttpError 401 ''user not found or inactive'')
             else Inr \<lparr>au_id = usr_id u, au_tenant = usr_tenant u, au_email = usr_email u, au_full_name = usr_full_name u,
               au_permissions = load_permissions tenant (usr_id u) db\<rparr>))))"

definition require_permission ::
  "'b dbenv_scheme \<Rightarrow> crypto \<Rightarrow> string \<Rightarrow> string \<Rightarrow> string option \<Rightarrow> 'a identity_db_scheme \<Rightarrow> service_error + auth_user" where
  "require_permission e c resource action credentials db = bind_res (get_auth_context e c credentials db) (\<lambda>u.
     if has_permission u resource action then Inr u else Inl (HttpError 403 ''insufficient permissions''))"

section \<open>User management\<close>

text \<open>Roles that can grant any role.\<close>

definition ELEVATED_ROLES :: "string list" where "ELEVATED_ROLES = [''SUPER_ADMIN'', ''ORG_ADMIN'']"

definition roles_for :: "string \<Rightarrow> string \<Rightarrow> 'a identity_db_scheme \<Rightarrow> string list" where
  "roles_for tenant user db = List.concat (map (\<lambda>ur. map ro_name (filter (\<lambda>r. ro_id r = ur_role ur) (roles db)))
     (filter (\<lambda>ur. ur_user ur = user \<and> ur_tenant ur = tenant) (user_roles db)))"

definition role_named :: "string \<Rightarrow> 'a identity_db_scheme \<Rightarrow> role_row option" where
  "role_named name db = find (\<lambda>r. ro_name r = name) (roles db)"

definition assert_can_grant_role :: "string \<Rightarrow> string option \<Rightarrow> string \<Rightarrow> 'a identity_db_scheme \<Rightarrow> service_error + unit" where
  "assert_can_grant_role tenant actor role db =
     (if role \<notin> set ELEVATED_ROLES then Inr ()
      else let held = (case actor of None \<Rightarrow> [] | Some a \<Rightarrow> roles_for tenant a db) in
        if set held \<inter> set ELEVATED_ROLES = {} then Inl (InsufficientPrivilege (''granting '' @ role @ '' requires an existing org admin''))
        else Inr ())"

text \<open>\<open>CITEXT\<close> compares without case.\<close>

definition same_email :: "string \<Rightarrow> string \<Rightarrow> bool" where
  "same_email a b \<longleftrightarrow> str_lower a = str_lower b"

definition insert_user :: "user_row \<Rightarrow> 'a identity_db_scheme \<Rightarrow> service_error + 'a identity_db_scheme" where
  "insert_user u db = bind_res (require [(list_all text_ok [usr_email u, usr_password_hash u, usr_full_name u], DataError ''text''),
       fk_org db (usr_tenant u), (\<not> is_user db (usr_id u), IntegrityError ''users_pkey''),
       (\<not> list_ex (\<lambda>x. usr_tenant x = usr_tenant u \<and> same_email (usr_email x) (usr_email u)) (users db), IntegrityError ''uq_users_tenant_email'')])
     (\<lambda>_. Inr (db\<lparr>drawn := Suc (drawn db), users := users db @ [u]\<rparr>))"

definition add_user_role :: "user_role \<Rightarrow> 'a identity_db_scheme \<Rightarrow> service_error + 'a identity_db_scheme" where
  "add_user_role ur db = bind_res (require [fk_org db (ur_tenant ur), fk_user db (Some (ur_user ur)),
       (ur_role ur \<in> ro_id ` set (roles db), IntegrityError ''foreign key: roles''),
       ((ur_user ur, ur_role ur) \<notin> (\<lambda>x. (ur_user x, ur_role x)) ` set (user_roles db), IntegrityError ''user_roles_pkey'')])
     (\<lambda>_. Inr (db\<lparr>user_roles := user_roles db @ [ur]\<rparr>))"

definition new_user :: "string \<Rightarrow> string \<Rightarrow> string \<Rightarrow> string \<Rightarrow> string \<Rightarrow> user_row" where
  "new_user i tenant email digest full_name = \<lparr>usr_id = i, usr_tenant = tenant, usr_email = email, usr_password_hash = digest,
     usr_full_name = full_name, usr_active = True, usr_mfa_enabled = False, usr_mfa_secret = None, usr_failed_logins = 0,
     usr_locked_until = None, usr_last_login = None\<rparr>"

definition create_user ::
  "'b dbenv_scheme \<Rightarrow> crypto \<Rightarrow> string \<Rightarrow> string \<Rightarrow> string \<Rightarrow> string \<Rightarrow> string \<Rightarrow> string option \<Rightarrow> string option \<Rightarrow> 'a identity_db_scheme \<Rightarrow>
   service_error + (user_row \<times> string list) \<times> 'a identity_db_scheme" where
  "create_user e c tenant email full_name password role actor ip db = (case role_named role db of
     None \<Rightarrow> Inl AssertionError
   | Some row \<Rightarrow> bind_res (assert_can_grant_role tenant actor role db) (\<lambda>_.
       let u = new_user (fresh_id e db) tenant email (pw_hash c (drawn db) password) full_name in
       case insert_user u db of
         Inl (IntegrityError _) \<Rightarrow> Inl (DuplicateError email)
       | Inl err \<Rightarrow> Inl err
       | Inr db1 \<Rightarrow>
           bind_res (add_user_role \<lparr>ur_user = usr_id u, ur_role = ro_id row, ur_tenant = tenant\<rparr> db1) (\<lambda>db2.
           bind_res (record_audit_event e tenant ''CREATE_USER'' ''user'' ''success'' actor ip None (Some (usr_id u)) None
               (Some [(''email'', JStr email), (''role'', JStr role)]) db2) (\<lambda>db3.
           Inr ((u, [role]), db3)))))"

definition set_role :: "string \<Rightarrow> string \<Rightarrow> string \<Rightarrow> string option \<Rightarrow> 'a identity_db_scheme \<Rightarrow> service_error + 'a identity_db_scheme" where
  "set_role tenant user role actor db = (case role_named role db of
     None \<Rightarrow> Inl AssertionError
   | Some row \<Rightarrow> bind_res (assert_can_grant_role tenant actor role db) (\<lambda>_.
       add_user_role \<lparr>ur_user = user, ur_role = ro_id row, ur_tenant = tenant\<rparr>
         (db\<lparr>user_roles := filter (\<lambda>x. \<not> (ur_user x = user \<and> ur_tenant x = tenant)) (user_roles db)\<rparr>)))"

definition save_user :: "user_row \<Rightarrow> 'a identity_db_scheme \<Rightarrow> 'a identity_db_scheme" where
  "save_user u db = db\<lparr>users := update_rows (\<lambda>x. usr_id x = usr_id u) (\<lambda>_. u) (users db)\<rparr>"

definition user_state :: "bool \<Rightarrow> string list \<Rightarrow> document" where
  "user_state active names = [(''is_active'', JBool active), (''roles'', JList (map JStr names))]"

definition update_user ::
  "'b dbenv_scheme \<Rightarrow> string \<Rightarrow> string \<Rightarrow> bool option \<Rightarrow> string option \<Rightarrow> string option \<Rightarrow> string option \<Rightarrow> 'a identity_db_scheme \<Rightarrow>
   service_error + (user_row \<times> string list) \<times> 'a identity_db_scheme" where
  "update_user e tenant user active role actor ip db = (case visible_user tenant user db of
     None \<Rightarrow> Inl (service_error.NotFoundError user)
   | Some u \<Rightarrow>
       let u' = (case active of None \<Rightarrow> u | Some a \<Rightarrow> u\<lparr>usr_active := a\<rparr>) in
       bind_res (case role of None \<Rightarrow> Inr (save_user u' db) | Some r \<Rightarrow> set_role tenant user r actor (save_user u' db)) (\<lambda>db1.
       let names = roles_for tenant user db1 in
       bind_res (record_audit_event e tenant ''UPDATE_USER'' ''user'' ''success'' actor ip None (Some user)
           (Some (user_state (usr_active u) (roles_for tenant user db))) (Some (user_state (usr_active u') names)) db1) (\<lambda>db2.
       Inr ((u', names), db2))))"

section \<open>The users endpoints\<close>

record user_public =
  up_id :: string
  up_email :: string
  up_full_name :: string
  up_active :: bool
  up_mfa :: bool
  up_roles :: "string list"

definition public_user :: "user_row \<Rightarrow> string list \<Rightarrow> user_public" where
  "public_user u names = \<lparr>up_id = usr_id u, up_email = usr_email u, up_full_name = usr_full_name u, up_active = usr_active u,
     up_mfa = usr_mfa_enabled u, up_roles = names\<rparr>"

text \<open>\<open>UserCreate\<close> and \<open>UserUpdate\<close>; whether a text is an e-mail address is decided by a library.\<close>

definition user_create_valid :: "(string \<Rightarrow> bool) \<Rightarrow> string \<Rightarrow> string \<Rightarrow> string \<Rightarrow> string \<Rightarrow> bool" where
  "user_create_valid is_email email full_name password role \<longleftrightarrow> is_email email \<and> 1 \<le> length full_name \<and> length full_name \<le> 200
     \<and> 12 \<le> length password \<and> length password \<le> 256 \<and> role \<in> set ROLE_NAMES"

definition user_update_valid :: "string option \<Rightarrow> bool" where
  "user_update_valid role \<longleftrightarrow> pred_option (\<lambda>r. r \<in> set ROLE_NAMES) role"

text \<open>What an exception of the service becomes; others reach the client as a server error.\<close>

fun user_http :: "service_error \<Rightarrow> service_error" where
  "user_http (DuplicateError _) = HttpError 409 ''a user with this email already exists''"
| "user_http (InsufficientPrivilege m) = HttpError 403 m"
| "user_http (service_error.NotFoundError _) = HttpError 404 ''user not found''"
| "user_http err = err"

definition answered :: "(service_error \<Rightarrow> service_error) \<Rightarrow> service_error + 'r \<Rightarrow> service_error + 'r" where
  "answered f r = (case r of Inl err \<Rightarrow> Inl (f err) | Inr x \<Rightarrow> Inr x)"

definition api_list_users :: "'b dbenv_scheme \<Rightarrow> crypto \<Rightarrow> string option \<Rightarrow> 'a identity_db_scheme \<Rightarrow> service_error + user_public list" where
  "api_list_users e c credentials db = bind_res (require_permission e c ''user'' ''read'' credentials db) (\<lambda>ctx.
     Inr (map (\<lambda>u. public_user u (roles_for (au_tenant ctx) (usr_id u) db)) (filter (\<lambda>u. usr_tenant u = au_tenant ctx) (users db))))"

definition api_create_user ::
  "'b dbenv_scheme \<Rightarrow> crypto \<Rightarrow> (string \<Rightarrow> bool) \<Rightarrow> string option \<Rightarrow> string \<Rightarrow> string \<Rightarrow> string \<Rightarrow> string \<Rightarrow> string option \<Rightarrow> 'a identity_db_scheme \<Rightarrow>
   service_error + user_public \<times> 'a identity_db_scheme" where
  "api_create_user e c is_email credentials email full_name password role ip db =
     bind_res (require_permission e c ''user'' ''write'' credentials db) (\<lambda>ctx.
     if \<not> user_create_valid is_email email full_name password role then Inl (ValidationError ''UserCreate'')
     else bind_res (answered user_http (create_user e c (au_tenant ctx) email full_name password role (Some (au_id ctx)) ip db)) (\<lambda>((u, names), db1).
       Inr (public_user u names, db1)))"

definition api_update_user ::
  "'b dbenv_scheme \<Rightarrow> crypto \<Rightarrow> string option \<Rightarrow> string \<Rightarrow> bool option \<Rightarrow> string option \<Rightarrow> string option \<Rightarrow> 'a identity_db_scheme \<Rightarrow>
   service_error + user_public \<times> 'a identity_db_scheme" where
  "api_update_user e c credentials user active role ip db =
     bind_res (require_permission e c ''user'' ''write'' credentials db) (\<lambda>ctx.
     if \<not> user_update_valid role then Inl (ValidationError ''UserUpdate'')
     else if active = None \<and> role = None then Inl (HttpError 422 ''nothing to update'')
     else (case parse_uuid user of
       None \<Rightarrow> Inl (HttpError 404 ''user not found'')
     | Some i \<Rightarrow> bind_res (answered user_http (update_user e (au_tenant ctx) i active role (Some (au_id ctx)) ip db)) (\<lambda>((u, names), db1).
         Inr (public_user u names, db1))))"

section \<open>What the gate enforces\<close>

lemma load_permissions_mem:
  "(res, act) \<in> set (load_permissions t u db) \<longleftrightarrow> (\<exists>ur \<in> set (user_roles db). ur_user ur = u \<and> ur_tenant ur = t \<and>
     (\<exists>p. (ur_role ur, p) \<in> set (role_permissions db) \<and> (\<exists>x \<in> set (permissions db). pm_id x = p \<and> pm_resource x = res \<and> pm_action x = act)))"
  unfolding load_permissions_def by (fastforce split: if_splits)

lemma roles_for_mem:
  "r \<in> set (roles_for t u db) \<longleftrightarrow> (\<exists>ur \<in> set (user_roles db). ur_user ur = u \<and> ur_tenant ur = t \<and>
     (\<exists>x \<in> set (roles db). ro_id x = ur_role ur \<and> ro_name x = r))"
  unfolding roles_for_def by fastforce

lemma seed_pairs_mem:
  "(i, p) \<in> set (List.concat (map (\<lambda>(name, pairs). List.concat (map (\<lambda>(r, a). List.concat (map (\<lambda>x. if ro_name x = name
      then map (\<lambda>p. (ro_id x, pm_id p)) (filter (\<lambda>p. pm_resource p = r \<and> pm_action p = a) ps) else []) rs)) pairs)) matrix))
   \<longleftrightarrow> (\<exists>x \<in> set rs. \<exists>y \<in> set ps. ro_id x = i \<and> pm_id y = p \<and> (\<exists>pairs. (ro_name x, pairs) \<in> set matrix \<and> (pm_resource y, pm_action y) \<in> set pairs))"
  (is "?l \<longleftrightarrow> ?r")
proof
  show "?l \<Longrightarrow> ?r" by (fastforce split: if_splits)
  assume ?r
  then obtain x y pairs where "x \<in> set rs" "y \<in> set ps" "ro_id x = i" "pm_id y = p" "(ro_name x, pairs) \<in> set matrix"
    "(pm_resource y, pm_action y) \<in> set pairs" by blast
  thus ?l by (auto intro!: bexI [of _ "(ro_name x, pairs)"] bexI [of _ "(pm_resource y, pm_action y)"] bexI [of _ x])
qed

lemma rows_distinct:
  assumes "inj (uuid4 e)"
  shows "inj_on ro_id (set (role_rows e n names))" "inj_on pm_id (set (permission_rows e n catalog))"
  by (auto simp: role_rows_def permission_rows_def in_set_enumerate_eq intro!: inj_onI dest!: injD [OF assms])

lemma permission_rows_mem: "(r, a) \<in> set catalog \<Longrightarrow> \<exists>y \<in> set (permission_rows e n catalog). pm_resource y = r \<and> pm_action y = a"
proof -
  assume "(r, a) \<in> set catalog"
  hence "(r, a) \<in> snd ` set (List.enumerate 0 catalog)" by (metis list.set_map map_snd_enumerate)
  then obtain i where "(i, (r, a)) \<in> set (List.enumerate 0 catalog)" by auto
  thus ?thesis unfolding permission_rows_def set_map by (intro bexI [OF _ imageI]) auto
qed

text \<open>The tables hold exactly what the seed writes for the matrix.\<close>

definition rbac_seeded :: "'a identity_db_scheme \<Rightarrow> bool" where
  "rbac_seeded db \<longleftrightarrow> (\<exists>(e :: dbenv) (db0 :: identity_db). inj (uuid4 e) \<and> roles db0 = [] \<and> permissions db0 = [] \<and> role_permissions db0 = []
     \<and> roles db = roles (seed_rbac e ROLE_NAMES PERMISSION_CATALOG ROLE_PERMISSIONS db0)
     \<and> permissions db = permissions (seed_rbac e ROLE_NAMES PERMISSION_CATALOG ROLE_PERMISSIONS db0)
     \<and> role_permissions db = role_permissions (seed_rbac e ROLE_NAMES PERMISSION_CATALOG ROLE_PERMISSIONS db0))"

lemma matrix_in_catalog:
  "(name, pairs) \<in> set ROLE_PERMISSIONS \<Longrightarrow> p \<in> set pairs \<Longrightarrow> p \<in> set PERMISSION_CATALOG"
proof -
  have "list_all (\<lambda>(n, ps). list_all (\<lambda>p. p \<in> set PERMISSION_CATALOG) ps) ROLE_PERMISSIONS" by code_simp
  thus "(name, pairs) \<in> set ROLE_PERMISSIONS \<Longrightarrow> p \<in> set pairs \<Longrightarrow> p \<in> set PERMISSION_CATALOG"
    by (auto simp: list_all_iff)
qed

lemma rbac_seeded_rows:
  assumes "rbac_seeded db"
  obtains e :: dbenv and n where "inj (uuid4 e)" "roles db = role_rows e n ROLE_NAMES"
    "permissions db = permission_rows e (n + length ROLE_NAMES) PERMISSION_CATALOG"
    "\<And>i p. (i, p) \<in> set (role_permissions db) \<longleftrightarrow> (\<exists>x \<in> set (roles db). \<exists>y \<in> set (permissions db). ro_id x = i \<and> pm_id y = p
       \<and> (\<exists>pairs. (ro_name x, pairs) \<in> set ROLE_PERMISSIONS \<and> (pm_resource y, pm_action y) \<in> set pairs))"
proof -
  from assms obtain e :: dbenv and db0 :: identity_db where s: "inj (uuid4 e)" "roles db0 = []" "permissions db0 = []" "role_permissions db0 = []"
    "roles db = roles (seed_rbac e ROLE_NAMES PERMISSION_CATALOG ROLE_PERMISSIONS db0)"
    "permissions db = permissions (seed_rbac e ROLE_NAMES PERMISSION_CATALOG ROLE_PERMISSIONS db0)"
    "role_permissions db = role_permissions (seed_rbac e ROLE_NAMES PERMISSION_CATALOG ROLE_PERMISSIONS db0)"
    unfolding rbac_seeded_def by (elim exE conjE)
  have t: "roles db = role_rows e (core_db.drawn db0) ROLE_NAMES"
    "permissions db = permission_rows e (core_db.drawn db0 + length ROLE_NAMES) PERMISSION_CATALOG"
    using s(2,3,5,6) by (simp_all add: seed_rbac_def Let_def)
  have rp: "role_permissions db = List.concat (map (\<lambda>(name, pairs). List.concat (map (\<lambda>(r, a). List.concat (map (\<lambda>x. if ro_name x = name
      then map (\<lambda>p. (ro_id x, pm_id p)) (filter (\<lambda>p. pm_resource p = r \<and> pm_action p = a) (permissions db)) else []) (roles db))) pairs)) ROLE_PERMISSIONS)"
    using s(4,7) unfolding t by (simp add: seed_rbac_def Let_def)
  show thesis by (rule that [OF s(1) t]) (simp only: rp seed_pairs_mem)
qed

lemma gate_iff:
  assumes "rbac_seeded db" and "get_auth_context e c credentials db = Inr u"
  shows "has_permission u resource action \<longleftrightarrow> (\<exists>role \<in> set (roles_for (au_tenant u) (au_id u) db). \<exists>pairs.
    (role, pairs) \<in> set ROLE_PERMISSIONS \<and> (resource, action) \<in> set pairs)"
proof -
  obtain e' :: dbenv and n where s: "inj (uuid4 e')" "roles db = role_rows e' n ROLE_NAMES"
    "permissions db = permission_rows e' (n + length ROLE_NAMES) PERMISSION_CATALOG"
    "\<And>i p. (i, p) \<in> set (role_permissions db) \<longleftrightarrow> (\<exists>x \<in> set (roles db). \<exists>y \<in> set (permissions db). ro_id x = i \<and> pm_id y = p
       \<and> (\<exists>pairs. (ro_name x, pairs) \<in> set ROLE_PERMISSIONS \<and> (pm_resource y, pm_action y) \<in> set pairs))"
    using rbac_seeded_rows [OF assms(1)] by blast
  have inj: "inj_on ro_id (set (roles db))" "inj_on pm_id (set (permissions db))" unfolding s(2,3) by (rule rows_distinct [OF s(1)])+
  have pm: "\<exists>y \<in> set (permissions db). pm_resource y = r \<and> pm_action y = a" if "(name, pairs) \<in> set ROLE_PERMISSIONS" "(r, a) \<in> set pairs" for name pairs r a
    unfolding s(3) by (rule permission_rows_mem [OF matrix_in_catalog [OF that]])
  have p: "au_permissions u = load_permissions (au_tenant u) (au_id u) db"
    using assms(2) by (auto simp: get_auth_context_def bind_res_Inr visible_user_def dest!: find_Some_mem split: option.splits if_splits)
  have "(resource, action) \<in> set (au_permissions u) \<longleftrightarrow> (\<exists>role \<in> set (roles_for (au_tenant u) (au_id u) db). \<exists>pairs.
      (role, pairs) \<in> set ROLE_PERMISSIONS \<and> (resource, action) \<in> set pairs)" (is "?l \<longleftrightarrow> ?r")
  proof
    assume ?l
    then obtain ur q x where ur: "ur \<in> set (user_roles db)" "ur_user ur = au_id u" "ur_tenant ur = au_tenant u"
      and q: "(ur_role ur, q) \<in> set (role_permissions db)" "x \<in> set (permissions db)" "pm_id x = q" "pm_resource x = resource" "pm_action x = action"
      unfolding p load_permissions_mem by blast
    then obtain z y pairs where z: "z \<in> set (roles db)" "y \<in> set (permissions db)" "ro_id z = ur_role ur" "pm_id y = q"
      "(ro_name z, pairs) \<in> set ROLE_PERMISSIONS" "(pm_resource y, pm_action y) \<in> set pairs" using s(4) by blast
    have "y = x" using inj(2) z(2,4) q(2,3) by (auto dest: inj_onD)
    hence "(resource, action) \<in> set pairs" using z(6) q(4,5) by simp
    moreover have "ro_name z \<in> set (roles_for (au_tenant u) (au_id u) db)" unfolding roles_for_mem using ur z(1,3) by blast
    ultimately show ?r using z(5) by blast
  next
    assume ?r
    then obtain role pairs where "role \<in> set (roles_for (au_tenant u) (au_id u) db)" "(role, pairs) \<in> set ROLE_PERMISSIONS"
      "(resource, action) \<in> set pairs" by blast
    then obtain ur z where k: "ur \<in> set (user_roles db)" "ur_user ur = au_id u" "ur_tenant ur = au_tenant u" "z \<in> set (roles db)" "ro_id z = ur_role ur"
      "(ro_name z, pairs) \<in> set ROLE_PERMISSIONS" "(resource, action) \<in> set pairs" unfolding roles_for_mem by auto
    then obtain y where y: "y \<in> set (permissions db)" "pm_resource y = resource" "pm_action y = action" using pm by blast
    have "(ur_role ur, pm_id y) \<in> set (role_permissions db)" using s(4) k y by blast
    thus ?l unfolding p load_permissions_mem using k(1-3) y by blast
  qed
  thus ?thesis by (simp add: has_permission_def)
qed


section \<open>Who hands out elevated roles\<close>

definition elevated :: "string \<Rightarrow> string \<Rightarrow> 'a identity_db_scheme \<Rightarrow> bool" where
  "elevated t u db \<longleftrightarrow> set (roles_for t u db) \<inter> set ELEVATED_ROLES \<noteq> {}"

lemma elevated_iff: "elevated t u db \<longleftrightarrow> (\<exists>ur \<in> set (user_roles db). ur_user ur = u \<and> ur_tenant ur = t
    \<and> (\<exists>x \<in> set (roles db). ro_id x = ur_role ur \<and> ro_name x \<in> set ELEVATED_ROLES))"
  by (auto simp: elevated_def roles_for_mem disjoint_iff)

lemma rbac_seeded_inj: "rbac_seeded db \<Longrightarrow> inj_on ro_id (set (roles db))"
  by (erule rbac_seeded_rows) (simp add: rows_distinct)

inductive user_step :: "'a identity_db_scheme \<Rightarrow> 'a identity_db_scheme \<Rightarrow> bool" where
  user_created: "api_create_user (e :: dbenv) c is_email credentials email full_name password role ip db = Inr (u, db') \<Longrightarrow> user_step db db'"
| user_updated: "api_update_user (e :: dbenv) c credentials user active role ip db = Inr (u, db') \<Longrightarrow> user_step db db'"

lemma answered_Inr [simp]: "answered f r = Inr x \<longleftrightarrow> r = Inr x"
  by (simp add: answered_def split: sum.splits)

lemma answered_ok [simp]: "answered f (Inr x) = Inr x"
  by (simp add: answered_def)

lemma insert_user_Inr:
  "insert_user u db = Inr db' \<Longrightarrow> db' = db\<lparr>drawn := Suc (drawn db), users := users db @ [u]\<rparr>"
  by (auto simp: insert_user_def bind_res_Inr)

lemma add_user_role_Inr:
  "add_user_role ur db = Inr db' \<Longrightarrow> db' = db\<lparr>user_roles := user_roles db @ [ur]\<rparr>"
  by (auto simp: add_user_role_def bind_res_Inr)

lemma role_named_Some: "role_named n db = Some r \<Longrightarrow> r \<in> set (roles db) \<and> ro_name r = n"
  by (auto simp: role_named_def dest!: find_Some_mem)

text \<open>What either endpoint does to the role tables.\<close>

definition grants :: "string \<Rightarrow> role_row \<Rightarrow> 'a identity_db_scheme \<Rightarrow> 'a identity_db_scheme \<Rightarrow> bool" where
  "grants t row db db' \<longleftrightarrow> set (user_roles db') \<subseteq> insert (\<lparr>ur_user = ur_user (last (user_roles db')), ur_role = ro_id row, ur_tenant = t\<rparr>) (set (user_roles db))"

lemma create_user_grants:
  assumes "create_user e c t email fn pw role actor ip db = Inr ((u, names), db')"
  shows "\<exists>row. role_named role db = Some row \<and> assert_can_grant_role t actor role db = Inr () \<and> grants t row db db' \<and> roles db' = roles db
    \<and> permissions db' = permissions db \<and> role_permissions db' = role_permissions db"
proof -
  obtain row db1 db2 where r: "role_named role db = Some row" "assert_can_grant_role t actor role db = Inr ()"
    and i: "insert_user u db = Inr db1" and a: "add_user_role \<lparr>ur_user = usr_id u, ur_role = ro_id row, ur_tenant = t\<rparr> db1 = Inr db2"
    and l: "record_audit_event e t ''CREATE_USER'' ''user'' ''success'' actor ip None (Some (usr_id u)) None
               (Some [(''email'', JStr email), (''role'', JStr role)]) db2 = Inr db'"
    using assms by (auto simp: create_user_def bind_res_Inr Let_def split: option.splits sum.splits service_error.splits)
  show ?thesis using r insert_user_Inr [OF i] add_user_role_Inr [OF a] record_audit_event_Inr [OF l] by (auto simp: grants_def)
qed

lemma update_user_grants:
  assumes "update_user e t user active role actor ip db = Inr ((u, names), db')"
  shows "roles db' = roles db \<and> permissions db' = permissions db \<and> role_permissions db' = role_permissions db
    \<and> (user_roles db' = user_roles db \<or> (\<exists>row r. role = Some r \<and> role_named r db = Some row
      \<and> assert_can_grant_role t actor r db = Inr () \<and> grants t row db db'))"
proof -
  obtain old u' db1 where v: "visible_user t user db = Some old" "u' = (case active of None \<Rightarrow> old | Some a \<Rightarrow> old\<lparr>usr_active := a\<rparr>)"
    and s: "(case role of None \<Rightarrow> Inr (save_user u' db) | Some r \<Rightarrow> set_role t user r actor (save_user u' db)) = Inr db1"
    and l: "record_audit_event e t ''UPDATE_USER'' ''user'' ''success'' actor ip None (Some user)
           (Some (user_state (usr_active old) (roles_for t user db))) (Some (user_state (usr_active u') (roles_for t user db1))) db1 = Inr db'"
    using assms by (auto simp: update_user_def bind_res_Inr Let_def split: option.splits)
  have same: "role_named r (save_user u' db) = role_named r db" "assert_can_grant_role t actor r (save_user u' db) = assert_can_grant_role t actor r db" for r
    by (simp_all add: role_named_def save_user_def assert_can_grant_role_def roles_for_def)
  show ?thesis
  proof (cases role)
    case None
    thus ?thesis using s record_audit_event_Inr [OF l] by (auto simp: save_user_def)
  next
    case (Some r)
    with s obtain row where "role_named r db = Some row" "assert_can_grant_role t actor r db = Inr ()"
      "add_user_role \<lparr>ur_user = user, ur_role = ro_id row, ur_tenant = t\<rparr>
         ((save_user u' db)\<lparr>user_roles := filter (\<lambda>x. \<not> (ur_user x = user \<and> ur_tenant x = t)) (user_roles (save_user u' db))\<rparr>) = Inr db1"
      by (auto simp: set_role_def same bind_res_Inr split: option.splits)
    thus ?thesis using Some add_user_role_Inr record_audit_event_Inr [OF l] by (fastforce simp: grants_def save_user_def)
  qed
qed

text \<open>A grant of a role that is not elevated elevates nobody, and an elevated one needs an elevated actor.\<close>

lemma grants_elevates:
  assumes g: "grants t' row db db'" and r: "row \<in> set (roles db)" "ro_name row = role" "roles db' = roles db" "inj_on ro_id (set (roles db))"
    and c: "assert_can_grant_role t' (Some actor) role db = Inr ()" and n: "\<And>u. \<not> elevated t u db"
  shows "\<not> elevated t u db'"
proof
  assume "elevated t u db'"
  then obtain ur x where ur: "ur \<in> set (user_roles db')" "ur_user ur = u" "ur_tenant ur = t" "x \<in> set (roles db)" "ro_id x = ur_role ur"
    "ro_name x \<in> set ELEVATED_ROLES" unfolding elevated_iff r(3) by blast
  have "ur \<notin> set (user_roles db)" using n [of u] ur unfolding elevated_iff by blast
  hence "ur_role ur = ro_id row" "ur_tenant ur = t'" using g ur(1) unfolding grants_def by auto
  hence "x = row" "t' = t" using r(1,4) ur(3-5) by (auto dest: inj_onD)
  hence "elevated t actor db" using c r(2) ur(6) by (auto simp: assert_can_grant_role_def elevated_def Let_def split: if_splits)
  thus False using n by blast
qed

lemma user_step_elevated:
  assumes "user_step db db'" "inj_on ro_id (set (roles db))" "\<And>u. \<not> elevated t u db"
  shows "roles db' = roles db \<and> \<not> elevated t u db'"
  using assms
proof (induction rule: user_step.induct)
  case (user_created e c is_email credentials email full_name password role ip db v db')
  obtain ctx :: auth_user and w names where k: "create_user e c (au_tenant ctx) email full_name password role (Some (au_id ctx)) ip db = Inr ((w, names), db')"
    using user_created.hyps by (auto simp: api_create_user_def bind_res_Inr split: if_splits)
  from create_user_grants [OF k] obtain row where row: "role_named role db = Some row" "assert_can_grant_role (au_tenant ctx) (Some (au_id ctx)) role db = Inr ()"
    "grants (au_tenant ctx) row db db'" "roles db' = roles db" by blast
  have "\<not> elevated t u db'"
    using grants_elevates [OF row(3) _ _ row(4) user_created.prems(1) row(2) user_created.prems(2)] role_named_Some [OF row(1)] by blast
  with row(4) show ?case by simp
next
  case (user_updated e c credentials user active role ip db v db')
  obtain ctx :: auth_user and i w names where k: "update_user e (au_tenant ctx) i active role (Some (au_id ctx)) ip db = Inr ((w, names), db')"
    using user_updated.hyps by (auto simp: api_update_user_def bind_res_Inr split: if_splits option.splits)
  from update_user_grants [OF k] have r: "roles db' = roles db" by blast
  from update_user_grants [OF k] consider "user_roles db' = user_roles db"
    | row r where "role_named r db = Some row" "assert_can_grant_role (au_tenant ctx) (Some (au_id ctx)) r db = Inr ()" "grants (au_tenant ctx) row db db'" by blast
  hence "\<not> elevated t u db'"
  proof cases
    case 1
    thus ?thesis using user_updated.prems(2) r by (simp add: elevated_def roles_for_def)
  next
    case 2
    thus ?thesis using grants_elevates [OF 2(3) _ _ r user_updated.prems(1) 2(2) user_updated.prems(2)] role_named_Some [OF 2(1)] by blast
  qed
  with r show ?case by simp
qed

text \<open>C30: elevation needs elevation. However often the user endpoints are called, by whatever tokens, a tenant in
  which nobody holds \<open>ORG_ADMIN\<close> or \<open>SUPER_ADMIN\<close> never gets such a user: the permission to
  write users is not enough to mint an administrator.\<close>

theorem elevation_needs_elevation:
  assumes "user_step\<^sup>*\<^sup>* db db'" and "rbac_seeded db" and "\<And>u. \<not> elevated t u db"
  shows "\<not> elevated t u db'"
proof -
  have inj: "inj_on ro_id (set (roles db))" by (rule rbac_seeded_inj [OF assms(2)])
  have "roles db' = roles db \<and> (\<forall>u. \<not> elevated t u db')"
    using assms(1)
  proof (induction rule: rtranclp_induct)
    case base
    show ?case using assms(3) by simp
  next
    case (step db1 db2)
    thus ?case using user_step_elevated [OF step.hyps(2), of t] inj by simp
  qed
  thus ?thesis by blast
qed

section \<open>A concrete tenant\<close>

definition acme :: string where "acme = ''00000000-0000-0000-0000-000000000001''"
definition manager :: string where "manager = ''00000000-0000-0000-0000-000000000002''"

text \<open>A token is the identifier of its user, a password its own digest.\<close>

definition sample_crypto :: crypto where
  "sample_crypto = \<lparr>pw_hash = (\<lambda>n p. p), pw_verify = (\<lambda>h p. Inr (h = p)), sha256_hex = (\<lambda>s. s), token_urlsafe = show_nat,
     jwt_encode = (\<lambda>d. py_str (get d ''sub'')),
     jwt_decode = (\<lambda>now t. Some [(''sub'', JStr t), (''tenant_id'', JStr acme), (''typ'', JStr ''access'')]),
     totp_secret = show_nat, totp_uri = (\<lambda>s a. s), totp_ok = (\<lambda>now s code. s = code),
     fernet_encrypt = (\<lambda>n s. Inr s), fernet_decrypt = Inr\<rparr>"

definition blank_identity :: identity_db where
  "blank_identity = rule_db.extend (sample_rules0\<lparr>drawn := 0\<rparr>) \<lparr>roles = [], permissions = [], role_permissions = [], user_roles = [], sessions = [], api_keys = []\<rparr>"

definition sample_identity :: identity_db where
  "sample_identity = (seed_rbac (sample_dbenv 0) ROLE_NAMES PERMISSION_CATALOG ROLE_PERMISSIONS blank_identity)
     \<lparr>organizations := [\<lparr>org_id = acme, org_name = ''Acme'', org_slug = ''acme'', org_active = True\<rparr>],
      users := [new_user manager acme ''m@acme.io'' ''hunter2'' ''Manager''],
      user_roles := [\<lparr>ur_user = manager, ur_role = ''2'', ur_tenant = acme\<rparr>]\<rparr>"

lemma sample_seeded: "rbac_seeded sample_identity"
  unfolding rbac_seeded_def
proof (intro exI [of _ "sample_dbenv 0"] exI [of _ blank_identity] conjI)
  show "inj (uuid4 (sample_dbenv 0))" by (auto simp: sample_dbenv_def inj_def dest: show_nat_inj)
qed (simp_all add: blank_identity_def sample_identity_def rule_db.defs)

lemma sample_roles: "roles sample_identity = [\<lparr>ro_id = ''0'', ro_name = ''SUPER_ADMIN''\<rparr>, \<lparr>ro_id = ''1'', ro_name = ''ORG_ADMIN''\<rparr>,
    \<lparr>ro_id = ''2'', ro_name = ''SOC_MANAGER''\<rparr>, \<lparr>ro_id = ''3'', ro_name = ''SOC_ANALYST_L1''\<rparr>, \<lparr>ro_id = ''4'', ro_name = ''SOC_ANALYST_L2''\<rparr>,
    \<lparr>ro_id = ''5'', ro_name = ''SOC_ANALYST_L3''\<rparr>, \<lparr>ro_id = ''6'', ro_name = ''THREAT_HUNTER''\<rparr>, \<lparr>ro_id = ''7'', ro_name = ''DFIR_ANALYST''\<rparr>,
    \<lparr>ro_id = ''8'', ro_name = ''AUDITOR''\<rparr>, \<lparr>ro_id = ''9'', ro_name = ''READ_ONLY''\<rparr>]"
proof -
  have "roles sample_identity = role_rows (sample_dbenv 0) 0 ROLE_NAMES"
    by (simp add: sample_identity_def seed_rbac_def blank_identity_def rule_db.defs Let_def)
  moreover have "role_rows (sample_dbenv 0) 0 ROLE_NAMES = [\<lparr>ro_id = ''0'', ro_name = ''SUPER_ADMIN''\<rparr>, \<lparr>ro_id = ''1'', ro_name = ''ORG_ADMIN''\<rparr>,
    \<lparr>ro_id = ''2'', ro_name = ''SOC_MANAGER''\<rparr>, \<lparr>ro_id = ''3'', ro_name = ''SOC_ANALYST_L1''\<rparr>, \<lparr>ro_id = ''4'', ro_name = ''SOC_ANALYST_L2''\<rparr>,
    \<lparr>ro_id = ''5'', ro_name = ''SOC_ANALYST_L3''\<rparr>, \<lparr>ro_id = ''6'', ro_name = ''THREAT_HUNTER''\<rparr>, \<lparr>ro_id = ''7'', ro_name = ''DFIR_ANALYST''\<rparr>,
    \<lparr>ro_id = ''8'', ro_name = ''AUDITOR''\<rparr>, \<lparr>ro_id = ''9'', ro_name = ''READ_ONLY''\<rparr>]" by code_simp
  ultimately show ?thesis by simp
qed

lemma sample_tables:
  "organizations sample_identity = [\<lparr>org_id = acme, org_name = ''Acme'', org_slug = ''acme'', org_active = True\<rparr>]"
  "users sample_identity = [new_user manager acme ''m@acme.io'' ''hunter2'' ''Manager'']"
  "user_roles sample_identity = [\<lparr>ur_user = manager, ur_role = ''2'', ur_tenant = acme\<rparr>]"
  by (simp_all add: sample_identity_def)

definition manager_context :: auth_user where
  "manager_context = \<lparr>au_id = manager, au_tenant = acme, au_email = ''m@acme.io'', au_full_name = ''Manager'',
     au_permissions = load_permissions acme manager sample_identity\<rparr>"

lemma manager_parsed: "parse_uuid manager = Some manager" "parse_uuid acme = Some acme"
  by code_simp+

lemma manager_authenticated: "get_auth_context (sample_dbenv t) sample_crypto (Some manager) sample_identity = Inr manager_context"
  by (simp add: get_auth_context_def decode_access_token_def sample_crypto_def get_def claim_uuid_def manager_parsed visible_user_def
      sample_tables new_user_def manager_context_def)

lemma manager_roles: "roles_for (au_tenant manager_context) (au_id manager_context) sample_identity = [''SOC_MANAGER'']"
  by (simp add: roles_for_def manager_context_def sample_tables sample_roles)


lemma manager_writes_users: "require_permission (sample_dbenv t) sample_crypto ''user'' ''write'' (Some manager) sample_identity = Inr manager_context"
  using gate_iff [OF sample_seeded manager_authenticated, of "''user''" "''write''"]
  by (simp add: manager_roles require_permission_def manager_authenticated ROLE_PERMISSIONS_def only_pairs_def)

lemma sample_hired: "\<exists>u db'. api_create_user (sample_dbenv 5) sample_crypto (\<lambda>s. True) (Some manager) ''a@acme.io'' ''Ana'' ''correct horse'' ''SOC_ANALYST_L1'' None sample_identity = Inr (u, db')
    \<and> length (users db') = 2"
proof -
  have x: "user_create_valid (\<lambda>s. True) ''a@acme.io'' ''Ana'' ''correct horse'' ''SOC_ANALYST_L1''" by (simp add: user_create_valid_def ROLE_NAMES_def)
  have n: "length ROLE_NAMES + length PERMISSION_CATALOG = 45" by code_simp
  have d: "fresh_id (sample_dbenv 5) sample_identity = ''45''"
    unfolding fresh_id_def by (simp add: sample_identity_def seed_rbac_def blank_identity_def rule_db.defs Let_def n sample_dbenv_def) code_simp
  have h: "pw_hash sample_crypto k p = p" for k p by (simp add: sample_crypto_def)
  have i: "''45'' \<noteq> manager" "manager \<noteq> ''45''" by (simp_all add: manager_def)
  have m: "same_email ''m@acme.io'' ''a@acme.io'' = False" by code_simp
  show ?thesis
    by (simp add: d m h i Let_def new_user_def text_ok_def add_user_role_def record_audit_event_def manager_context_def drew_def
      api_create_user_def manager_writes_users x create_user_def role_named_def sample_roles assert_can_grant_role_def ELEVATED_ROLES_def
      insert_user_def require.simps sample_tables fk_org_def fk_user_def is_org_def is_user_def)
qed

theorem elevation_needs_elevation_witness:
  "\<exists>u db'. api_create_user (sample_dbenv 5) sample_crypto (\<lambda>s. True) (Some manager) ''a@acme.io'' ''Ana'' ''correct horse'' ''SOC_ANALYST_L1'' None sample_identity = Inr (u, db')
    \<and> user_step\<^sup>*\<^sup>* sample_identity db' \<and> length (users db') = 2 \<and> \<not> elevated acme ''45'' db'
    \<and> api_create_user (sample_dbenv 6) sample_crypto (\<lambda>s. True) (Some manager) ''b@acme.io'' ''Bo'' ''correct horse'' ''ORG_ADMIN'' None sample_identity
      = Inl (HttpError 403 ''granting ORG_ADMIN requires an existing org admin'')"
proof -
  obtain u db' where h: "api_create_user (sample_dbenv 5) sample_crypto (\<lambda>s. True) (Some manager) ''a@acme.io'' ''Ana'' ''correct horse'' ''SOC_ANALYST_L1'' None sample_identity = Inr (u, db')"
    "length (users db') = 2" using sample_hired by blast
  have s: "user_step\<^sup>*\<^sup>* sample_identity db'" by (rule r_into_rtranclp [where r = user_step, OF user_step.user_created [OF h(1)]])
  have n: "\<not> elevated acme v sample_identity" for v by (simp add: elevated_iff sample_tables sample_roles ELEVATED_ROLES_def)
  have v: "user_create_valid (\<lambda>s. True) ''b@acme.io'' ''Bo'' ''correct horse'' ''ORG_ADMIN''" by (simp add: user_create_valid_def ROLE_NAMES_def)
  have "api_create_user (sample_dbenv 6) sample_crypto (\<lambda>s. True) (Some manager) ''b@acme.io'' ''Bo'' ''correct horse'' ''ORG_ADMIN'' None sample_identity
      = Inl (HttpError 403 ''granting ORG_ADMIN requires an existing org admin'')"
    by (simp add: api_create_user_def manager_writes_users v create_user_def role_named_def sample_roles assert_can_grant_role_def ELEVATED_ROLES_def
      manager_roles answered_def Let_def)
  thus ?thesis using h s elevation_needs_elevation [OF s sample_seeded n] by blast
qed

end
