(* ===== verification/Auth.thy ===== *)
theory Auth
  imports Identity
begin

text \<open>
  Sessions and credentials: registration, login with lockout and TOTP, refresh tokens, logout and MFA
  enrolment (\<open>services/auth.py\<close>), the endpoints with their rate limit (\<open>api/auth.py\<close>), and the
  keys of collectors (\<open>services/api_keys.py\<close>). These functions commit themselves, also before they
  raise, so a result is the exception or the value, paired with the committed state.
\<close>

section \<open>Registration\<close>

definition insert_org :: "organization \<Rightarrow> 'a identity_db_scheme \<Rightarrow> service_error + 'a identity_db_scheme" where
  "insert_org o1 db = bind_res (require [(text_ok (org_name o1) \<and> text_ok (org_slug o1), DataError ''text''),
       (\<not> is_org db (org_id o1), IntegrityError ''organizations_pkey''),
       (org_slug o1 \<notin> org_slug ` set (organizations db), IntegrityError ''organizations_slug_key'')])
     (\<lambda>_. Inr (db\<lparr>drawn := Suc (drawn db), organizations := organizations db @ [o1]\<rparr>))"

text \<open>What \<open>try ... except Exception\<close> around an installation leaves: an error of the database has aborted the
  transaction, and the commit that follows raises; any other is raised before the first row is written.\<close>

definition database_error :: "service_error \<Rightarrow> bool" where
  "database_error err \<longleftrightarrow> (case err of IntegrityError _ \<Rightarrow> True | DataError _ \<Rightarrow> True | _ \<Rightarrow> False)"

definition best_effort :: "('d \<Rightarrow> service_error + 'x \<times> 'd) \<Rightarrow> 'd \<Rightarrow> service_error + 'd" where
  "best_effort install db = (case install db of Inr (_, db') \<Rightarrow> Inr db' | Inl err \<Rightarrow> if database_error err then Inl err else Inr db)"

definition register_admin ::
  "yaml_lib \<Rightarrow> 'b dbenv_scheme \<Rightarrow> crypto \<Rightarrow> rule_load \<Rightarrow> load_result \<Rightarrow> organization \<Rightarrow> string \<Rightarrow> string \<Rightarrow> string \<Rightarrow> 'a identity_db_scheme \<Rightarrow>
   service_error + user_row \<times> 'a identity_db_scheme" where
  "register_admin y e c rs ps o1 email password full_name db = (case role_named ''ORG_ADMIN'' db of
     None \<Rightarrow> Inl (RuntimeError ''ORG_ADMIN role missing'')
   | Some row \<Rightarrow> let u = new_user (fresh_id e db) (org_id o1) email (pw_hash c (drawn db) password) full_name in
       bind_res (insert_user u db) (\<lambda>db1.
       bind_res (add_user_role \<lparr>ur_user = usr_id u, ur_role = ro_id row, ur_tenant = org_id o1\<rparr> db1) (\<lambda>db2.
       bind_res (record_audit_event e (org_id o1) ''CREATE_USER'' ''user'' ''success'' (Some (usr_id u)) None None (Some (usr_id u)) None
           (Some [(''email'', JStr email), (''role'', JStr ''ORG_ADMIN'')]) db2) (\<lambda>db3.
       bind_res (best_effort (install_default_rules y e (org_id o1) (Some (usr_id u)) rs) db3) (\<lambda>db4.
       bind_res (best_effort (install_default_playbooks e (org_id o1) (Some (usr_id u)) ps) db4) (\<lambda>db5.
       Inr (u, db5)))))))"

definition register_organization ::
  "yaml_lib \<Rightarrow> 'b dbenv_scheme \<Rightarrow> crypto \<Rightarrow> rule_load \<Rightarrow> load_result \<Rightarrow> string \<Rightarrow> string \<Rightarrow> string \<Rightarrow> string \<Rightarrow> string \<Rightarrow> 'a identity_db_scheme \<Rightarrow>
   (service_error + organization \<times> user_row) \<times> 'a identity_db_scheme" where
  "register_organization y e c rs ps name slug email password full_name db =
     (if \<not> text_ok slug then (Inl (DataError ''slug''), db)
      else if slug \<in> org_slug ` set (organizations db) then (Inl (OrganizationSlugTakenError slug), db)
      else let o1 = \<lparr>org_id = fresh_id e db, org_name = name, org_slug = slug, org_active = True\<rparr> in
        case insert_org o1 db of
          Inl err \<Rightarrow> (Inl err, db)
        | Inr db1 \<Rightarrow> (case register_admin y e c rs ps o1 email password full_name db1 of
            Inl err \<Rightarrow> (Inl err, db1)
          | Inr (u, db2) \<Rightarrow> (Inr (o1, u), db2)))"

section \<open>Login\<close>

definition org_by_slug :: "string \<Rightarrow> 'a core_db_scheme \<Rightarrow> organization option" where
  "org_by_slug slug db = find (\<lambda>x. org_slug x = slug) (organizations db)"

definition user_by_email :: "string \<Rightarrow> string \<Rightarrow> 'a core_db_scheme \<Rightarrow> user_row option" where
  "user_by_email tenant email db = find (\<lambda>u. usr_tenant u = tenant \<and> same_email (usr_email u) email) (users db)"

definition add_session :: "'b dbenv_scheme \<Rightarrow> session_row \<Rightarrow> 'a identity_db_scheme \<Rightarrow> service_error + 'a identity_db_scheme" where
  "add_session e s db = bind_res (require [fk_user db (Some (ses_user s)), fk_org db (ses_tenant s), (text_ok (ses_hash s), DataError ''refresh_token_hash''),
       (pred_option text_ok (ses_agent s), DataError ''user_agent''), (pred_option (\<lambda>a. inet_ok e (JStr a)) (ses_ip s), DataError ''ip_address''),
       (ses_id s \<notin> ses_id ` set (sessions db), IntegrityError ''sessions_pkey'')])
     (\<lambda>_. Inr (db\<lparr>drawn := Suc (drawn db), sessions := sessions db @ [s]\<rparr>))"

text \<open>A session of a user: its two tokens and the row that keeps the refresh token's hash. The random token and the
  identifiers are the next ones drawn (a rotation draws the refresh token first, which only renames the draws).\<close>

definition issue_tokens ::
  "'b dbenv_scheme \<Rightarrow> crypto \<Rightarrow> auth_settings \<Rightarrow> string \<Rightarrow> string \<Rightarrow> string option \<Rightarrow> string option \<Rightarrow> 'a identity_db_scheme \<Rightarrow>
   service_error + (string \<times> string) \<times> 'a identity_db_scheme" where
  "issue_tokens e c st user tenant ip agent db = (let access = create_access_token e c st user tenant (drawn db); db1 = drew db;
       refresh = generate_refresh_token c (drawn db1) tenant; db2 = drew db1 in
     bind_res (add_session e \<lparr>ses_id = fresh_id e db2, ses_user = user, ses_tenant = tenant, ses_hash = sha256_hex c refresh, ses_agent = agent,
         ses_ip = ip, ses_expires = utcnow e + refresh_ttl st * 1000000, ses_revoked = None\<rparr> db2) (\<lambda>db3.
     Inr ((access, refresh), db3)))"

definition count_failure :: "auth_settings \<Rightarrow> int \<Rightarrow> user_row \<Rightarrow> user_row" where
  "count_failure st now u = (if max_failed_logins st \<le> Suc (usr_failed_logins u)
     then u\<lparr>usr_locked_until := Some (now + lockout_minutes st * 60000000), usr_failed_logins := 0\<rparr>
     else u\<lparr>usr_failed_logins := Suc (usr_failed_logins u)\<rparr>)"

definition audit_login :: "'b dbenv_scheme \<Rightarrow> string \<Rightarrow> string \<Rightarrow> user_row \<Rightarrow> string option \<Rightarrow> string option \<Rightarrow> 'a identity_db_scheme \<Rightarrow> service_error + 'a identity_db_scheme" where
  "audit_login e action verdict u ip agent db =
     record_audit_event e (usr_tenant u) action ''user'' verdict (Some (usr_id u)) ip agent (Some (usr_id u)) None None db"

text \<open>A failure that is recorded and committed before the exception is raised.\<close>

definition commit_failure :: "service_error + 'd \<Rightarrow> service_error \<Rightarrow> 'd \<Rightarrow> (service_error + 'r) \<times> 'd" where
  "commit_failure recorded err db = (case recorded of Inl err' \<Rightarrow> (Inl err', db) | Inr db' \<Rightarrow> (Inl err, db'))"

definition check_mfa :: "'b dbenv_scheme \<Rightarrow> crypto \<Rightarrow> user_row \<Rightarrow> string option \<Rightarrow> service_error + bool" where
  "check_mfa e c u code = (if \<not> usr_mfa_enabled u then Inr True
     else case code of None \<Rightarrow> Inl MfaRequiredError
     | Some k \<Rightarrow> (case usr_mfa_secret u of
         None \<Rightarrow> Inr False
       | Some enc \<Rightarrow> if enc = [] then Inr False else bind_res (fernet_decrypt c enc) (\<lambda>secret. Inr (totp_ok c (utcnow e) secret k))))"

text \<open>\<open>int(...total_seconds())\<close> of what is left of the lock.\<close>

definition lockout :: "int \<Rightarrow> user_row \<Rightarrow> service_error option" where
  "lockout now u = (case usr_locked_until u of None \<Rightarrow> None
     | Some t \<Rightarrow> if now < t then Some (AccountLockedError ((t - now) div 1000000)) else None)"

definition login_user ::
  "'b dbenv_scheme \<Rightarrow> crypto \<Rightarrow> auth_settings \<Rightarrow> user_row \<Rightarrow> string \<Rightarrow> string option \<Rightarrow> string option \<Rightarrow> string option \<Rightarrow> 'a identity_db_scheme \<Rightarrow>
   (service_error + string \<times> string) \<times> 'a identity_db_scheme" where
  "login_user e c st u password code ip agent db =
     (case lockout (utcnow e) u of Some err \<Rightarrow> (Inl err, db)
      | None \<Rightarrow> (case pw_verify c (usr_password_hash u) password of
          Inl err \<Rightarrow> (Inl err, db)
        | Inr False \<Rightarrow> commit_failure (audit_login e ''FAILED_LOGIN'' ''failure'' u ip agent (save_user (count_failure st (utcnow e) u) db))
            InvalidCredentialsError db
        | Inr True \<Rightarrow> (case check_mfa e c u code of
            Inl err \<Rightarrow> (Inl err, db)
          | Inr False \<Rightarrow> commit_failure (audit_login e ''FAILED_LOGIN'' ''failure'' u ip agent db) MfaInvalidError db
          | Inr True \<Rightarrow> let db1 = save_user (u\<lparr>usr_failed_logins := 0, usr_locked_until := None, usr_last_login := Some (utcnow e)\<rparr>) db in
              (case bind_res (issue_tokens e c st (usr_id u) (usr_tenant u) ip agent db1) (\<lambda>(ts, db2).
                  bind_res (audit_login e ''LOGIN'' ''success'' u ip agent db2) (\<lambda>db3. Inr (ts, db3))) of
                 Inl err \<Rightarrow> (Inl err, db) | Inr (ts, db3) \<Rightarrow> (Inr ts, db3)))))"

definition authenticate ::
  "'b dbenv_scheme \<Rightarrow> crypto \<Rightarrow> auth_settings \<Rightarrow> string \<Rightarrow> string \<Rightarrow> string \<Rightarrow> string option \<Rightarrow> string option \<Rightarrow> string option \<Rightarrow> 'a identity_db_scheme \<Rightarrow>
   (service_error + string \<times> string) \<times> 'a identity_db_scheme" where
  "authenticate e c st slug email password code ip agent db =
     (if \<not> (text_ok slug \<and> text_ok email) then (Inl (DataError ''login''), db)
      else case org_by_slug slug db of
        None \<Rightarrow> (Inl InvalidCredentialsError, db)
      | Some o1 \<Rightarrow> (case user_by_email (org_id o1) email db of
          None \<Rightarrow> (Inl InvalidCredentialsError, db)
        | Some u \<Rightarrow> login_user e c st u password code ip agent db))"

section \<open>Refresh tokens\<close>

definition save_session :: "session_row \<Rightarrow> 'a identity_db_scheme \<Rightarrow> 'a identity_db_scheme" where
  "save_session s db = db\<lparr>sessions := update_rows (\<lambda>x. ses_id x = ses_id s) (\<lambda>_. s) (sessions db)\<rparr>"

definition live_session :: "int \<Rightarrow> string \<Rightarrow> string \<Rightarrow> 'a identity_db_scheme \<Rightarrow> session_row option" where
  "live_session now tenant digest db =
     find (\<lambda>s. ses_tenant s = tenant \<and> ses_hash s = digest \<and> ses_revoked s = None \<and> now < ses_expires s) (sessions db)"

definition rotate_refresh_token ::
  "'b dbenv_scheme \<Rightarrow> crypto \<Rightarrow> auth_settings \<Rightarrow> string \<Rightarrow> string option \<Rightarrow> string option \<Rightarrow> 'a identity_db_scheme \<Rightarrow>
   (service_error + string \<times> string) \<times> 'a identity_db_scheme" where
  "rotate_refresh_token e c st token ip agent db = (case parse_refresh_token_tenant_id token of
     None \<Rightarrow> (Inl InvalidCredentialsError, db)
   | Some tenant \<Rightarrow> (case live_session (utcnow e) tenant (sha256_hex c token) db of
       None \<Rightarrow> (Inl InvalidCredentialsError, db)
     | Some s \<Rightarrow> (case visible_user tenant (ses_user s) db of
         None \<Rightarrow> (Inl InvalidCredentialsError, db)
       | Some u \<Rightarrow> if \<not> usr_active u then (Inl InvalidCredentialsError, db)
           else (case issue_tokens e c st (usr_id u) tenant ip agent (save_session (s\<lparr>ses_revoked := Some (utcnow e)\<rparr>) db) of
               Inl err \<Rightarrow> (Inl err, db) | Inr (ts, db1) \<Rightarrow> (Inr ts, db1)))))"

definition revoke_session :: "'b dbenv_scheme \<Rightarrow> crypto \<Rightarrow> string \<Rightarrow> 'a identity_db_scheme \<Rightarrow> service_error + 'a identity_db_scheme" where
  "revoke_session e c token db = (case parse_refresh_token_tenant_id token of
     None \<Rightarrow> Inr db
   | Some tenant \<Rightarrow> (case find (\<lambda>s. ses_tenant s = tenant \<and> ses_hash s = sha256_hex c token) (sessions db) of
       None \<Rightarrow> Inr db
     | Some s \<Rightarrow> if ses_revoked s \<noteq> None then Inr db
         else record_audit_event e tenant ''LOGOUT'' ''session'' ''success'' (Some (ses_user s)) None None (Some (ses_id s)) None None
           (save_session (s\<lparr>ses_revoked := Some (utcnow e)\<rparr>) db)))"

section \<open>Enrolment of a second factor\<close>

definition enroll_mfa :: "crypto \<Rightarrow> user_row \<Rightarrow> 'a identity_db_scheme \<Rightarrow> service_error + (string \<times> string) \<times> 'a identity_db_scheme" where
  "enroll_mfa c u db = (let secret = totp_secret c (drawn db) in
     bind_res (fernet_encrypt c (drawn db) secret) (\<lambda>enc.
       Inr ((secret, totp_uri c secret (usr_email u)), save_user (u\<lparr>usr_mfa_secret := Some enc, usr_mfa_enabled := False\<rparr>) (drew db))))"

definition confirm_mfa :: "'b dbenv_scheme \<Rightarrow> crypto \<Rightarrow> user_row \<Rightarrow> string \<Rightarrow> 'a identity_db_scheme \<Rightarrow> service_error + 'a identity_db_scheme" where
  "confirm_mfa e c u code db = (case usr_mfa_secret u of
     None \<Rightarrow> Inl MfaInvalidError
   | Some enc \<Rightarrow> bind_res (fernet_decrypt c enc) (\<lambda>secret.
       if totp_ok c (utcnow e) secret code then Inr (save_user (u\<lparr>usr_mfa_enabled := True\<rparr>) db) else Inl MfaInvalidError))"

section \<open>Keys of collectors\<close>

definition generate_api_key :: "crypto \<Rightarrow> nat \<Rightarrow> string \<Rightarrow> string \<times> string" where
  "generate_api_key c n tenant = (let plaintext = ''lsk_'' @ tenant @ ''_'' @ token_urlsafe c n in (plaintext, sha256_hex c plaintext))"

text \<open>\<open>plaintext.split("_", 2)\<close>.\<close>

definition parse_tenant_id :: "string \<Rightarrow> string option" where
  "parse_tenant_id plaintext = (case split_on (CHR ''_'') plaintext of
     a # b # _ # _ \<Rightarrow> if a = ''lsk'' then parse_uuid b else None | _ \<Rightarrow> None)"

definition resolve_collector_key :: "'b dbenv_scheme \<Rightarrow> crypto \<Rightarrow> string \<Rightarrow> 'a identity_db_scheme \<Rightarrow> api_key option \<times> 'a identity_db_scheme" where
  "resolve_collector_key e c plaintext db = (case parse_tenant_id plaintext of
     None \<Rightarrow> (None, db)
   | Some tenant \<Rightarrow> (case find (\<lambda>k. key_hash k = sha256_hex c plaintext \<and> key_tenant k = tenant \<and> key_collector k \<and> key_revoked k = None) (api_keys db) of
       None \<Rightarrow> (None, db)
     | Some k \<Rightarrow> if (case key_expires k of None \<Rightarrow> False | Some t \<Rightarrow> t \<le> utcnow e) then (None, db)
         else let k' = k\<lparr>key_used := Some (utcnow e)\<rparr> in
           (Some k', db\<lparr>api_keys := update_rows (\<lambda>x. key_id x = key_id k) (\<lambda>_. k') (api_keys db)\<rparr>)))"

definition create_collector_key ::
  "'b dbenv_scheme \<Rightarrow> crypto \<Rightarrow> string \<Rightarrow> string \<Rightarrow> string option \<Rightarrow> 'a identity_db_scheme \<Rightarrow> service_error + (string \<times> api_key) \<times> 'a identity_db_scheme" where
  "create_collector_key e c tenant name created_by db = (let (plaintext, digest) = generate_api_key c (drawn db) tenant; db1 = drew db;
       k = \<lparr>key_id = fresh_id e db1, key_tenant = tenant, key_name = name, key_hash = digest, key_collector = True, key_used = None,
         key_expires = None, key_revoked = None, key_by = created_by\<rparr> in
     bind_res (require [fk_org db1 tenant, fk_user db1 created_by, (text_ok name \<and> text_ok digest, DataError ''text''),
         (key_id k \<notin> key_id ` set (api_keys db1), IntegrityError ''api_keys_pkey'')])
       (\<lambda>_. Inr ((plaintext, k), db1\<lparr>drawn := Suc (drawn db1), api_keys := api_keys db1 @ [k]\<rparr>)))"

section \<open>The endpoints\<close>

text \<open>Counters in Redis, one per action, address and window; expiry removes counters of windows that are over.\<close>

type_synonym counters = "nat dict"

definition rate_key :: "'b dbenv_scheme \<Rightarrow> string \<Rightarrow> string \<Rightarrow> int \<Rightarrow> string" where
  "rate_key e action host secs = ''auth:ratelimit:'' @ action @ '':'' @ host @ '':'' @ show_int (utcnow e div (secs * 1000000))"

definition count_hit :: "string \<Rightarrow> counters \<Rightarrow> nat \<times> counters" where
  "count_hit key cs = (let n = Suc (case dict_get cs key of None \<Rightarrow> 0 | Some k \<Rightarrow> k) in (n, dict_set key n cs))"

definition enforce_ip_rate_limit ::
  "'b dbenv_scheme \<Rightarrow> string option \<Rightarrow> string \<Rightarrow> nat \<Rightarrow> int \<Rightarrow> counters \<Rightarrow> (service_error + unit) \<times> counters" where
  "enforce_ip_rate_limit e client action limit secs cs = (case client of
     None \<Rightarrow> (Inr (), cs)
   | Some host \<Rightarrow> (case count_hit (rate_key e action host secs) cs of (n, cs') \<Rightarrow>
       (if limit < n then Inl (HttpError 429 ''too many requests'') else Inr (), cs')))"

record auth_limits =
  register_limit :: nat
  login_limit :: nat
  refresh_limit :: nat

definition limited :: "(service_error + unit) \<times> counters \<Rightarrow> ('d \<Rightarrow> (service_error + 'r) \<times> 'd) \<Rightarrow> 'd \<Rightarrow> (service_error + 'r) \<times> (counters \<times> 'd)" where
  "limited gate act db = (case gate of (Inl err, cs) \<Rightarrow> (Inl err, (cs, db)) | (Inr _, cs) \<Rightarrow> (case act db of (r, db') \<Rightarrow> (r, (cs, db'))))"

fun login_http :: "service_error \<Rightarrow> service_error" where
  "login_http (AccountLockedError s) = HttpError 423 ''account temporarily locked due to repeated failed logins''"
| "login_http MfaRequiredError = HttpError 401 ''mfa code required''"
| "login_http InvalidCredentialsError = HttpError 401 ''invalid credentials''"
| "login_http MfaInvalidError = HttpError 401 ''invalid credentials''"
| "login_http err = err"

fun refresh_http :: "service_error \<Rightarrow> service_error" where
  "refresh_http InvalidCredentialsError = HttpError 401 ''invalid or expired refresh token''"
| "refresh_http err = err"

fun register_http :: "service_error \<Rightarrow> service_error" where
  "register_http (OrganizationSlugTakenError _) = HttpError 409 ''organization slug already taken''"
| "register_http err = err"

definition answering :: "(service_error \<Rightarrow> service_error) \<Rightarrow> (service_error + 'r) \<times> 'd \<Rightarrow> (service_error + 'r) \<times> 'd" where
  "answering f r = (answered f (fst r), snd r)"

text \<open>The access token goes into the body and the refresh token into the cookie of the response.\<close>

definition api_login ::
  "'b dbenv_scheme \<Rightarrow> crypto \<Rightarrow> auth_settings \<Rightarrow> auth_limits \<Rightarrow> string option \<Rightarrow> string option \<Rightarrow> string \<Rightarrow> string \<Rightarrow> string \<Rightarrow> string option \<Rightarrow>
   counters \<times> 'a identity_db_scheme \<Rightarrow> (service_error + string \<times> string) \<times> (counters \<times> 'a identity_db_scheme)" where
  "api_login e c st bound client agent slug email password code s =
     limited (enforce_ip_rate_limit e client ''login'' (login_limit bound) 60 (fst s))
       (\<lambda>db. answering login_http (authenticate e c st slug email password code client agent db)) (snd s)"

definition api_refresh ::
  "'b dbenv_scheme \<Rightarrow> crypto \<Rightarrow> auth_settings \<Rightarrow> auth_limits \<Rightarrow> string option \<Rightarrow> string option \<Rightarrow> string option \<Rightarrow>
   counters \<times> 'a identity_db_scheme \<Rightarrow> (service_error + string \<times> string) \<times> (counters \<times> 'a identity_db_scheme)" where
  "api_refresh e c st bound client agent cookie s =
     limited (enforce_ip_rate_limit e client ''refresh'' (refresh_limit bound) 60 (fst s))
       (\<lambda>db. case cookie of None \<Rightarrow> (Inl (HttpError 401 ''missing refresh token''), db)
         | Some token \<Rightarrow> answering refresh_http (rotate_refresh_token e c st token client agent db)) (snd s)"

definition api_register ::
  "yaml_lib \<Rightarrow> 'b dbenv_scheme \<Rightarrow> crypto \<Rightarrow> rule_load \<Rightarrow> load_result \<Rightarrow> auth_limits \<Rightarrow> string option \<Rightarrow> string \<Rightarrow> string \<Rightarrow> string \<Rightarrow> string \<Rightarrow> string \<Rightarrow>
   counters \<times> 'a identity_db_scheme \<Rightarrow> (service_error + organization \<times> user_row) \<times> (counters \<times> 'a identity_db_scheme)" where
  "api_register y e c rs ps bound client name slug email password full_name s =
     limited (enforce_ip_rate_limit e client ''register'' (register_limit bound) 3600 (fst s))
       (\<lambda>db. answering register_http (register_organization y e c rs ps name slug email password full_name db)) (snd s)"

definition api_logout :: "'b dbenv_scheme \<Rightarrow> crypto \<Rightarrow> string option \<Rightarrow> 'a identity_db_scheme \<Rightarrow> service_error + 'a identity_db_scheme" where
  "api_logout e c cookie db = (case cookie of None \<Rightarrow> Inr db | Some token \<Rightarrow> revoke_session e c token db)"

definition api_mfa_enroll :: "'b dbenv_scheme \<Rightarrow> crypto \<Rightarrow> string option \<Rightarrow> 'a identity_db_scheme \<Rightarrow> service_error + (string \<times> string) \<times> 'a identity_db_scheme" where
  "api_mfa_enroll e c credentials db = bind_res (get_auth_context e c credentials db) (\<lambda>ctx.
     case visible_user (au_tenant ctx) (au_id ctx) db of None \<Rightarrow> Inl (HttpError 404 ''user not found'') | Some u \<Rightarrow> enroll_mfa c u db)"

fun mfa_http :: "service_error \<Rightarrow> service_error" where
  "mfa_http MfaInvalidError = HttpError 401 ''invalid mfa code''"
| "mfa_http err = err"

definition api_mfa_verify :: "'b dbenv_scheme \<Rightarrow> crypto \<Rightarrow> string option \<Rightarrow> string \<Rightarrow> 'a identity_db_scheme \<Rightarrow> service_error + 'a identity_db_scheme" where
  "api_mfa_verify e c credentials code db = bind_res (get_auth_context e c credentials db) (\<lambda>ctx.
     if length code \<noteq> 6 then Inl (ValidationError ''MfaVerifyRequest'')
     else (case visible_user (au_tenant ctx) (au_id ctx) db of
       None \<Rightarrow> Inl (HttpError 404 ''user not found'') | Some u \<Rightarrow> answered mfa_http (confirm_mfa e c u code db)))"

section \<open>A refresh token works once\<close>

text \<open>What the code relies on in SHA-256 and the random tokens: no collisions, no repeats, and the alphabet of the
  tokens, which has no dot.\<close>

definition tokens_ok :: "crypto \<Rightarrow> bool" where
  "tokens_ok c \<longleftrightarrow> inj (sha256_hex c) \<and> inj (token_urlsafe c) \<and> (\<forall>k. CHR ''.'' \<notin> set (token_urlsafe c k))"

definition sessions_wf :: "crypto \<Rightarrow> 'a identity_db_scheme \<Rightarrow> bool" where
  "sessions_wf c db \<longleftrightarrow> distinct (map ses_id (sessions db)) \<and> distinct (map ses_hash (sessions db))
     \<and> (\<forall>s \<in> set (sessions db). \<exists>k < drawn db. ses_hash s = sha256_hex c (generate_refresh_token c k (ses_tenant s)))"

lemma refresh_token_inj:
  assumes "tokens_ok c" "sha256_hex c (generate_refresh_token c k t) = sha256_hex c (generate_refresh_token c k' t')"
  shows "k = k'"
proof -
  have i: "inj (sha256_hex c)" "inj (token_urlsafe c)" and n: "CHR ''.'' \<notin> set (rev (token_urlsafe c j))" for j
    using assms(1) by (auto simp: tokens_ok_def)
  have "t @ ''.'' @ token_urlsafe c k = t' @ ''.'' @ token_urlsafe c k'"
    using injD [OF i(1) assms(2)] by (simp add: generate_refresh_token_def)
  from arg_cong [OF this, of rev] have "rev (token_urlsafe c k) @ CHR ''.'' # rev t = rev (token_urlsafe c k') @ CHR ''.'' # rev t'" by simp
  hence "rev (token_urlsafe c k) = rev (token_urlsafe c k')" using n by (simp add: sep_inject)
  thus ?thesis using i(2) by (simp add: inj_eq)
qed

lemma issue_tokens_Inr:
  assumes "issue_tokens e c st user tenant ip agent db = Inr (ts, db')"
  shows "\<exists>s. sessions db' = sessions db @ [s] \<and> ses_tenant s = tenant \<and> ses_revoked s = None \<and> ses_id s \<notin> ses_id ` set (sessions db)
    \<and> ses_hash s = sha256_hex c (generate_refresh_token c (Suc (drawn db)) tenant) \<and> Suc (Suc (drawn db)) \<le> drawn db'
    \<and> snd ts = generate_refresh_token c (Suc (drawn db)) tenant"
  using assms by (auto simp: issue_tokens_def Let_def bind_res_Inr add_session_def drew_def)

text \<open>Logins, rotations and logouts, interleaved with anything else that leaves the sessions alone and draws
  identifiers forward.\<close>

inductive session_step :: "crypto \<Rightarrow> 'a identity_db_scheme \<Rightarrow> 'a identity_db_scheme \<Rightarrow> bool" for c where
  session_login: "authenticate (e :: dbenv) c st slug email password code ip agent db = (r, db') \<Longrightarrow> session_step c db db'"
| session_rotated: "rotate_refresh_token (e :: dbenv) c st token ip agent db = (r, db') \<Longrightarrow> session_step c db db'"
| session_logout: "revoke_session (e :: dbenv) c token db = Inr db' \<Longrightarrow> session_step c db db'"
| session_other: "sessions db' = sessions db \<Longrightarrow> drawn db \<le> drawn db' \<Longrightarrow> session_step c db db'"

text \<open>What a step may do to the sessions: revoke some, add one with a fresh hash.\<close>

definition sessions_move :: "crypto \<Rightarrow> 'a identity_db_scheme \<Rightarrow> 'a identity_db_scheme \<Rightarrow> bool" where
  "sessions_move c db db' \<longleftrightarrow> drawn db \<le> drawn db' \<and> (\<exists>old new. sessions db' = old @ new
     \<and> list_all2 (\<lambda>s s'. s' = s \<or> (\<exists>t. s' = s\<lparr>ses_revoked := Some t\<rparr>)) (sessions db) old
     \<and> (new = [] \<or> (\<exists>s k. new = [s] \<and> ses_id s \<notin> ses_id ` set (sessions db) \<and> drawn db \<le> k \<and> k < drawn db'
          \<and> ses_hash s = sha256_hex c (generate_refresh_token c k (ses_tenant s)))))"

lemma list_all2_refl_on: "(\<And>x. P x x) \<Longrightarrow> list_all2 P xs xs"
  by (induction xs) auto

lemma move_same: "sessions db' = sessions db \<Longrightarrow> drawn db \<le> drawn db' \<Longrightarrow> sessions_move c db db'"
  unfolding sessions_move_def by (intro conjI exI [of _ "sessions db"] exI [of _ "[]"]) (auto intro: list_all2_refl_on)

lemma save_session_revokes:
  "list_all2 (\<lambda>s s'. s' = s \<or> (\<exists>t. s' = s\<lparr>ses_revoked := Some t\<rparr>)) xs (update_rows (\<lambda>x. ses_id x = ses_id s) (\<lambda>_. s\<lparr>ses_revoked := Some t\<rparr>) xs)"
  if "\<And>x. x \<in> set xs \<Longrightarrow> ses_id x = ses_id s \<Longrightarrow> x = s"
  using that by (induction xs) (auto simp: update_rows_def)

lemma session_id_eq: "sessions_wf c db \<Longrightarrow> s \<in> set (sessions db) \<Longrightarrow> x \<in> set (sessions db) \<Longrightarrow> ses_id x = ses_id s \<Longrightarrow> x = s"
  by (auto simp: sessions_wf_def distinct_map dest: inj_onD)

lemma live_session_Some:
  "live_session now t h db = Some s \<Longrightarrow> s \<in> set (sessions db) \<and> ses_hash s = h \<and> ses_revoked s = None \<and> ses_tenant s = t"
  unfolding live_session_def by (auto dest: find_Some_mem)

lemma rotate_cases:
  assumes "rotate_refresh_token e c st token ip agent db = (r, db')"
  obtains "db' = db" "\<nexists>ts. r = Inr ts"
  | ts s tenant user where "r = Inr ts" "s \<in> set (sessions db)" "ses_hash s = sha256_hex c token" "ses_revoked s = None"
      "issue_tokens e c st user tenant ip agent (save_session (s\<lparr>ses_revoked := Some (utcnow e)\<rparr>) db) = Inr (ts, db')"
proof (cases "\<exists>ts. r = Inr ts")
  case True
  then obtain ts tenant s user where r: "r = Inr ts" and l: "live_session (utcnow e) tenant (sha256_hex c token) db = Some s"
      and i: "issue_tokens e c st user tenant ip agent (save_session (s\<lparr>ses_revoked := Some (utcnow e)\<rparr>) db) = Inr (ts, db')"
    using assms by (auto simp: rotate_refresh_token_def split: option.splits if_splits sum.splits)
  show ?thesis using live_session_Some [OF l] by (intro that(2) [OF r _ _ _ i]) auto
next
  case False
  thus ?thesis using assms by (intro that(1)) (auto simp: rotate_refresh_token_def split: option.splits if_splits sum.splits)
qed

lemma sessions_moveI:
  assumes "drawn db \<le> k" "k < drawn db'" "sessions db' = old @ [s]" "ses_id s \<notin> ses_id ` set (sessions db)"
    "ses_hash s = sha256_hex c (generate_refresh_token c k (ses_tenant s))"
    "list_all2 (\<lambda>s s'. s' = s \<or> (\<exists>t. s' = s\<lparr>ses_revoked := Some t\<rparr>)) (sessions db) old"
  shows "sessions_move c db db'"
  unfolding sessions_move_def using assms by (intro conjI exI [of _ old] exI [of _ "[s]"]) auto

lemma save_session_ids: "ses_id ` set (update_rows (\<lambda>x. ses_id x = ses_id s) (\<lambda>_. s\<lparr>ses_revoked := t\<rparr>) xs) = ses_id ` set xs"
  by (induction xs) (auto simp: update_rows_def)

lemma move_issue:
  assumes w: "sessions_wf c db" and s: "s \<in> set (sessions db)"
    and i: "issue_tokens e c st user tenant ip agent (save_session (s\<lparr>ses_revoked := Some t\<rparr>) db) = Inr (ts, db')"
  shows "sessions_move c db db'"
proof -
  obtain s' where s': "sessions db' = sessions (save_session (s\<lparr>ses_revoked := Some t\<rparr>) db) @ [s']" "ses_tenant s' = tenant"
      "ses_id s' \<notin> ses_id ` set (sessions (save_session (s\<lparr>ses_revoked := Some t\<rparr>) db))"
      "ses_hash s' = sha256_hex c (generate_refresh_token c (Suc (drawn (save_session (s\<lparr>ses_revoked := Some t\<rparr>) db))) tenant)"
      "Suc (Suc (drawn (save_session (s\<lparr>ses_revoked := Some t\<rparr>) db))) \<le> drawn db'"
    using issue_tokens_Inr [OF i] by blast
  show ?thesis using s' save_session_ids [of s "Some t" "sessions db"] save_session_revokes [of "sessions db" s t] session_id_eq [OF w s]
    by (intro sessions_moveI [where k = "Suc (drawn db)" and s = s', OF _ _ s'(1)]) (auto simp: save_session_def)
qed

lemma login_user_moves:
  assumes "login_user e c st u password code ip agent db = (r, db')"
  shows "sessions_move c db db'"
proof -
  have f: "commit_failure (audit_login e a v u ip agent (save_user w db)) err db = (r, db') \<Longrightarrow> sessions_move c db db'"
    "commit_failure (audit_login e a v u ip agent db) err db = (r, db') \<Longrightarrow> sessions_move c db db'" for a v w err
    by (auto simp: commit_failure_def audit_login_def save_user_def split: sum.splits intro!: move_same dest!: record_audit_event_Inr)
  let ?db1 = "save_user (u\<lparr>usr_failed_logins := 0, usr_locked_until := None, usr_last_login := Some (utcnow e)\<rparr>) db"
  have d: "sessions ?db1 = sessions db" "drawn ?db1 = drawn db" by (simp_all add: save_user_def)
  have s: "sessions_move c db db3" if i: "issue_tokens e c st (usr_id u) (usr_tenant u) ip agent ?db1 = Inr (ts, db2)"
    "audit_login e ''LOGIN'' ''success'' u ip agent db2 = Inr db3" for ts db2 db3
  proof -
    obtain x where db3: "db3 = db2\<lparr>drawn := Suc (drawn db2), audit_logs := audit_logs db2 @ [x]\<rparr>"
      using record_audit_event_Inr [OF i(2) [unfolded audit_login_def]] by blast
    obtain s where "sessions db2 = sessions db @ [s]" "ses_tenant s = usr_tenant u" "ses_id s \<notin> ses_id ` set (sessions db)"
        "ses_hash s = sha256_hex c (generate_refresh_token c (Suc (drawn db)) (usr_tenant u))" "Suc (Suc (drawn db)) \<le> drawn db2"
      using issue_tokens_Inr [OF i(1)] unfolding d by blast
    thus ?thesis by (intro sessions_moveI [where k = "Suc (drawn db)" and s = s and old = "sessions db"]) (auto simp: db3 intro: list_all2_refl_on)
  qed
  show ?thesis
  proof (cases "lockout (utcnow e) u")
    case None
    show ?thesis using assms f s None
      by (auto simp: login_user_def Let_def bind_res_def move_same split: sum.splits bool.splits)
  qed (use assms in \<open>auto simp: login_user_def move_same\<close>)
qed

lemma session_step_moves: "session_step c db db' \<Longrightarrow> sessions_wf c db \<Longrightarrow> sessions_move c db db'"
proof (induction rule: session_step.induct)
  case (session_login e st slug email password code ip agent db r db')
  thus ?case by (auto simp: authenticate_def move_same split: if_splits option.splits intro: login_user_moves)
next
  case (session_rotated e st token ip agent db r db')
  from session_rotated.hyps show ?case
  proof (cases rule: rotate_cases)
    case (2 ts s tenant user)
    show ?thesis by (rule move_issue [OF session_rotated.prems 2(2) 2(5)])
  qed (simp add: move_same)
next
  case (session_logout e token db db')
  show ?case
  proof (cases "db' = db")
    case False
    then obtain tenant s where s: "find (\<lambda>s. ses_tenant s = tenant \<and> ses_hash s = sha256_hex c token) (sessions db) = Some s"
      and l: "record_audit_event e tenant ''LOGOUT'' ''session'' ''success'' (Some (ses_user s)) None None (Some (ses_id s)) None None
           (save_session (s\<lparr>ses_revoked := Some (utcnow e)\<rparr>) db) = Inr db'"
      using session_logout.hyps by (auto simp: revoke_session_def split: option.splits if_splits)
    have m: "s \<in> set (sessions db)" using find_Some_mem [OF s] by simp
    from record_audit_event_Inr [OF l] have "sessions db' = update_rows (\<lambda>x. ses_id x = ses_id s) (\<lambda>_. s\<lparr>ses_revoked := Some (utcnow e)\<rparr>) (sessions db)"
      "drawn db \<le> drawn db'" by (auto simp: save_session_def)
    thus ?thesis using save_session_revokes [of "sessions db" s "utcnow e"] session_id_eq [OF session_logout.prems m]
      unfolding sessions_move_def by (intro conjI exI [of _ "sessions db'"] exI [of _ "[]"]) auto
  qed (simp add: move_same)
next
  case (session_other db' db)
  show ?case by (rule move_same [OF session_other.hyps])
qed

lemma revoked_keep:
  assumes "list_all2 (\<lambda>s s'. s' = s \<or> (\<exists>t. s' = s\<lparr>ses_revoked := Some t\<rparr>)) xs ys"
  shows "map ses_id ys = map ses_id xs" "map ses_hash ys = map ses_hash xs"
    "(\<forall>s \<in> set xs. P (ses_hash s) (ses_tenant s)) \<longleftrightarrow> (\<forall>s \<in> set ys. P (ses_hash s) (ses_tenant s))"
    "s \<in> set xs \<Longrightarrow> ses_revoked s \<noteq> None \<Longrightarrow> \<exists>s' \<in> set ys. ses_hash s' = ses_hash s \<and> ses_revoked s' \<noteq> None"
  using assms by (induction rule: list_all2_induct) auto

lemma sessions_wf_move:
  assumes "tokens_ok c" "sessions_wf c db" "sessions_move c db db'"
  shows "sessions_wf c db'"
proof -
  from assms(3) obtain old new where d: "drawn db \<le> drawn db'" "sessions db' = old @ new"
    and o: "list_all2 (\<lambda>s s'. s' = s \<or> (\<exists>t. s' = s\<lparr>ses_revoked := Some t\<rparr>)) (sessions db) old"
    and n: "new = [] \<or> (\<exists>s k. new = [s] \<and> ses_id s \<notin> ses_id ` set (sessions db) \<and> drawn db \<le> k \<and> k < drawn db'
          \<and> ses_hash s = sha256_hex c (generate_refresh_token c k (ses_tenant s)))"
    unfolding sessions_move_def by blast
  note keep = revoked_keep(1,2) [OF o] revoked_keep(3) [OF o, of "\<lambda>h t. \<exists>k < drawn db. h = sha256_hex c (generate_refresh_token c k t)"]
  have wf: "distinct (map ses_id old)" "distinct (map ses_hash old)"
    "\<And>s. s \<in> set old \<Longrightarrow> \<exists>k < drawn db. ses_hash s = sha256_hex c (generate_refresh_token c k (ses_tenant s))"
    using assms(2) keep by (auto simp: sessions_wf_def)
  have ids: "ses_id ` set old = ses_id ` set (sessions db)" using arg_cong [OF keep(1), of set] by simp
  from n show ?thesis
  proof
    assume "new = []"
    thus ?thesis using wf d by (auto simp: sessions_wf_def) (meson order_less_le_trans)
  next
    assume "\<exists>s k. new = [s] \<and> ses_id s \<notin> ses_id ` set (sessions db) \<and> drawn db \<le> k \<and> k < drawn db'
          \<and> ses_hash s = sha256_hex c (generate_refresh_token c k (ses_tenant s))"
    then obtain s k where s: "new = [s]" "ses_id s \<notin> ses_id ` set (sessions db)" "drawn db \<le> k" "k < drawn db'"
      "ses_hash s = sha256_hex c (generate_refresh_token c k (ses_tenant s))" by blast
    have "ses_hash s \<notin> ses_hash ` set old" using wf(3) s(3,5) refresh_token_inj [OF assms(1)] by fastforce
    moreover have "\<exists>k < drawn db'. ses_hash x = sha256_hex c (generate_refresh_token c k (ses_tenant x))" if "x \<in> set old" for x
      using wf(3) [OF that] d(1) order_less_le_trans by blast
    ultimately show ?thesis using wf(1,2) d(2) s ids by (auto simp: sessions_wf_def)
  qed
qed

text \<open>A token is spent when its session is there and revoked; it stays so.\<close>

definition spent :: "crypto \<Rightarrow> string \<Rightarrow> 'a identity_db_scheme \<Rightarrow> bool" where
  "spent c token db \<longleftrightarrow> (\<exists>s \<in> set (sessions db). ses_hash s = sha256_hex c token \<and> ses_revoked s \<noteq> None)"

lemma spent_move: "spent c token db \<Longrightarrow> sessions_move c db db' \<Longrightarrow> spent c token db'"
  unfolding spent_def sessions_move_def by (auto dest!: revoked_keep(4))

lemma sessions_reachable:
  assumes "tokens_ok c" "(session_step c)\<^sup>*\<^sup>* db db'" "sessions_wf c db"
  shows "sessions_wf c db' \<and> (spent c token db \<longrightarrow> spent c token db')"
  using assms(2,3)
proof (induction rule: rtranclp_induct)
  case (step y z)
  thus ?case using session_step_moves [of c y z] sessions_wf_move [OF assms(1), of y z] spent_move [of c token y z] by blast
qed simp

lemma rotated_is_spent:
  assumes "rotate_refresh_token e c st token ip agent db = (Inr ts, db')"
  shows "spent c token db'"
  using assms
proof (cases rule: rotate_cases)
  case (2 ts' s tenant user)
  have "s\<lparr>ses_revoked := Some (utcnow e)\<rparr> \<in> set (sessions (save_session (s\<lparr>ses_revoked := Some (utcnow e)\<rparr>) db))"
    using 2(2) by (auto simp: save_session_def update_rows_def image_iff)
  thus ?thesis using issue_tokens_Inr [OF 2(5)] 2(3) by (force simp: spent_def)
qed simp

lemma spent_is_refused:
  assumes "sessions_wf c db" "spent c token db"
  shows "rotate_refresh_token e c st token ip agent db = (Inl InvalidCredentialsError, db)"
proof -
  have "live_session now tenant (sha256_hex c token) db = None" for now tenant
  proof (rule ccontr)
    assume "live_session now tenant (sha256_hex c token) db \<noteq> None"
    then obtain s where "s \<in> set (sessions db)" "ses_hash s = sha256_hex c token" "ses_revoked s = None"
      using live_session_Some by blast
    moreover from assms(2) obtain s' where "s' \<in> set (sessions db)" "ses_hash s' = sha256_hex c token" "ses_revoked s' \<noteq> None"
      by (auto simp: spent_def)
    moreover have "inj_on ses_hash (set (sessions db))" using assms(1) by (simp add: sessions_wf_def distinct_map)
    ultimately have "s = s'" by (simp add: inj_onD)
    thus False using \<open>ses_revoked s = None\<close> \<open>ses_revoked s' \<noteq> None\<close> by simp
  qed
  thus ?thesis by (simp add: rotate_refresh_token_def split: option.split)
qed

text \<open>C31: A refresh token buys at most one new pair. Once a rotation has accepted a token, every later
  presentation of it is refused as invalid and changes nothing, whatever logins, rotations, logouts and other
  requests of the tenants ran in between, in any order, by any client and at any time; so a stolen copy and
  the owner's cannot both be used. (The steps are whole requests: see the findings on two rotations that overlap.)\<close>
theorem refresh_token_single_use:
  fixes e e' :: dbenv
  assumes "tokens_ok c" "sessions db0 = []" "(session_step c)\<^sup>*\<^sup>* db0 db"
    and "rotate_refresh_token e c st token ip agent db = (Inr ts, db1)" "(session_step c)\<^sup>*\<^sup>* db1 db2"
  shows "rotate_refresh_token e' c st' token ip' agent' db2 = (Inl InvalidCredentialsError, db2)"
proof -
  have "sessions_wf c db0" using assms(2) by (simp add: sessions_wf_def)
  hence "sessions_wf c db" using sessions_reachable [OF assms(1,3)] by blast
  moreover have "session_step c db db1" using assms(4) by (rule session_rotated)
  ultimately have "sessions_wf c db1" using session_step_moves sessions_wf_move [OF assms(1)] by blast
  hence "sessions_wf c db2 \<and> spent c token db2" using sessions_reachable [OF assms(1,5)] rotated_is_spent [OF assms(4)] by blast
  thus ?thesis using spent_is_refused by blast
qed

definition sample_settings :: auth_settings where
  "sample_settings = \<lparr>max_failed_logins = 2, lockout_minutes = 15, access_ttl = 900, refresh_ttl = 1209600\<rparr>"

definition login_db :: identity_db where
  "login_db = blank_identity\<lparr>organizations := [\<lparr>org_id = acme, org_name = ''Acme'', org_slug = ''acme'', org_active = True\<rparr>],
      users := [new_user manager acme ''m@acme.io'' ''hunter2'' ''Manager'']\<rparr>"

lemma sample_tokens_ok: "tokens_ok sample_crypto"
  by (auto simp: tokens_ok_def sample_crypto_def inj_def dest: show_nat_inj)

lemma sample_login: "\<exists>db db1 ts ts'. authenticate (sample_dbenv 5) sample_crypto sample_settings ''acme'' ''m@acme.io'' ''hunter2'' None None None login_db = (Inr ts, db)
    \<and> snd ts = acme @ ''.1'' \<and> rotate_refresh_token (sample_dbenv 9) sample_crypto sample_settings (acme @ ''.1'') None None db = (Inr ts', db1)"
proof -
  let ?r = "authenticate (sample_dbenv 5) sample_crypto sample_settings ''acme'' ''m@acme.io'' ''hunter2'' None None None login_db"
  let ?r' = "rotate_refresh_token (sample_dbenv 9) sample_crypto sample_settings (acme @ ''.1'') None None (snd ?r)"
  have "(case fst ?r of Inl _ \<Rightarrow> False | Inr ts \<Rightarrow> snd ts = acme @ ''.1'') \<and> (case fst ?r' of Inl _ \<Rightarrow> False | Inr _ \<Rightarrow> True)" by code_simp
  thus ?thesis by (cases ?r, cases ?r') (auto split: sum.splits)
qed

theorem refresh_token_single_use_witness:
  "\<exists>db db1 ts. authenticate (sample_dbenv 5) sample_crypto sample_settings ''acme'' ''m@acme.io'' ''hunter2'' None None None login_db = (Inr ts, db)
    \<and> fst (rotate_refresh_token (sample_dbenv 9) sample_crypto sample_settings (snd ts) None None db) \<noteq> Inl InvalidCredentialsError
    \<and> snd (rotate_refresh_token (sample_dbenv 9) sample_crypto sample_settings (snd ts) None None db) = db1
    \<and> rotate_refresh_token (sample_dbenv 10) sample_crypto sample_settings (snd ts) None None db1 = (Inl InvalidCredentialsError, db1)"
proof -
  obtain db db1 ts ts' where h: "authenticate (sample_dbenv 5) sample_crypto sample_settings ''acme'' ''m@acme.io'' ''hunter2'' None None None login_db = (Inr ts, db)"
    "snd ts = acme @ ''.1''" "rotate_refresh_token (sample_dbenv 9) sample_crypto sample_settings (acme @ ''.1'') None None db = (Inr ts', db1)"
    using sample_login by blast
  have s: "sessions login_db = []" by (simp add: login_db_def blank_identity_def rule_db.defs)
  have "rotate_refresh_token (sample_dbenv 10) sample_crypto sample_settings (snd ts) None None db1 = (Inl InvalidCredentialsError, db1)"
    unfolding h(2) by (rule refresh_token_single_use [OF sample_tokens_ok s r_into_rtranclp [where r = "session_step sample_crypto", OF session_login [OF h(1)]] h(3) rtranclp.rtrancl_refl])
  thus ?thesis using h by (intro exI conjI) (rule h(1), auto)
qed

section \<open>Guessing passwords\<close>

text \<open>A run of logins to one account: the environment of each, its password, code, address and agent; the answers.\<close>

type_synonym login_try = "dbenv \<times> string \<times> string option \<times> string option \<times> string option"

fun try_logins :: "crypto \<Rightarrow> auth_settings \<Rightarrow> string \<Rightarrow> string \<Rightarrow> login_try list \<Rightarrow> 'a identity_db_scheme \<Rightarrow>
    (service_error + string \<times> string) list \<times> 'a identity_db_scheme" where
  "try_logins c st slug email [] db = ([], db)"
| "try_logins c st slug email ((e, password, code, ip, agent) # ts) db =
     (case authenticate e c st slug email password code ip agent db of (r, db1) \<Rightarrow>
        case try_logins c st slug email ts db1 of (rs, db2) \<Rightarrow> (r # rs, db2))"

definition account :: "string \<Rightarrow> string \<Rightarrow> 'a core_db_scheme \<Rightarrow> user_row option" where
  "account slug email db = (case org_by_slug slug db of None \<Rightarrow> None | Some o1 \<Rightarrow> user_by_email (org_id o1) email db)"

lemma authenticate_account:
  "text_ok slug \<and> text_ok email \<Longrightarrow> account slug email db = Some u \<Longrightarrow>
     authenticate e c st slug email password code ip agent db = login_user e c st u password code ip agent db"
  by (auto simp: authenticate_def account_def split: option.splits)

lemma find_saved: "find P xs = Some u \<Longrightarrow> P u' \<Longrightarrow> k u' = k u \<Longrightarrow> find P (update_rows (\<lambda>x. k x = k u) (\<lambda>_. u') xs) = Some u'"
  by (induction xs) (auto simp: update_rows_def split: if_splits)

lemma account_saved:
  assumes "account slug email db = Some u" "usr_id u' = usr_id u" "usr_tenant u' = usr_tenant u" "usr_email u' = usr_email u"
    "users db' = users (save_user u' db)" "organizations db' = organizations db"
  shows "account slug email db' = Some u'"
proof -
  obtain o1 where o1: "org_by_slug slug db = Some o1" "user_by_email (org_id o1) email db = Some u"
    using assms(1) by (auto simp: account_def split: option.splits)
  have "usr_tenant u = org_id o1" "same_email (usr_email u) email" using find_Some_mem [OF o1(2) [unfolded user_by_email_def]] by auto
  hence "find (\<lambda>v. usr_tenant v = org_id o1 \<and> same_email (usr_email v) email) (update_rows (\<lambda>x. usr_id x = usr_id u) (\<lambda>_. u') (users db)) = Some u'"
    using o1(2) assms(3,4) by (intro find_saved [where k = usr_id, OF _ _ assms(2)]) (auto simp: user_by_email_def)
  thus ?thesis using o1(1) assms(2,5,6) by (simp add: account_def org_by_slug_def user_by_email_def save_user_def)
qed

lemma record_audit_event_error: "record_audit_event e t a ot oc u ip ag oid b s db \<noteq> Inl InvalidCredentialsError"
  by (auto simp: record_audit_event_def bind_res_def require.simps fk_org_def fk_user_def split: sum.splits if_splits)

text \<open>What one wrong password does: a refusal of a locked account leaves everything; an answer of invalid credentials
  has counted the failure; an error of the database has not.\<close>

lemma wrong_password_cases:
  assumes "text_ok slug \<and> text_ok email" "account slug email db = Some u" "pw_verify c (usr_password_hash u) password = Inr False"
    and "authenticate e c st slug email password code ip agent db = (r, db')"
  obtains (locked) s where "lockout (utcnow e) u \<noteq> None" "r = Inl (AccountLockedError s)" "db' = db"
  | (counted) "lockout (utcnow e) u = None" "r = Inl InvalidCredentialsError" "account slug email db' = Some (count_failure st (utcnow e) u)"
  | (failed) err where "r = Inl err" "err \<noteq> InvalidCredentialsError" "db' = db"
proof (cases "lockout (utcnow e) u")
  case None
  let ?w = "audit_login e ''FAILED_LOGIN'' ''failure'' u ip agent (save_user (count_failure st (utcnow e) u) db)"
  have l: "commit_failure ?w InvalidCredentialsError db = (r, db')"
    using assms(3,4) None by (simp add: authenticate_account [OF assms(1,2)] login_user_def)
  show ?thesis
  proof (cases ?w)
    case (Inl err)
    moreover have "err \<noteq> InvalidCredentialsError" using Inl record_audit_event_error by (metis audit_login_def)
    ultimately show ?thesis using l by (intro failed) (auto simp: commit_failure_def)
  next
    case (Inr db1)
    hence d: "r = Inl InvalidCredentialsError" "db' = db1" using l by (auto simp: commit_failure_def)
    have "users db1 = users (save_user (count_failure st (utcnow e) u) db)" "organizations db1 = organizations db"
      using record_audit_event_Inr [OF Inr [unfolded audit_login_def]] by (auto simp: save_user_def)
    thus ?thesis using d None by (intro counted account_saved [OF assms(2)]) (auto simp: count_failure_def)
  qed
next
  case (Some err)
  then obtain s where "err = AccountLockedError s" by (auto simp: lockout_def split: option.splits if_splits)
  thus ?thesis using Some assms(4) by (intro locked) (auto simp: authenticate_account [OF assms(1,2)] login_user_def)
qed

text \<open>How many more guesses an account answers before a given time.\<close>

definition answers_left :: "auth_settings \<Rightarrow> int \<Rightarrow> user_row \<Rightarrow> nat" where
  "answers_left st till u = (if \<exists>t. usr_locked_until u = Some t \<and> till \<le> t then 0 else max 1 (max_failed_logins st - usr_failed_logins u))"

lemma answers_left_0: "answers_left st till u = 0 \<Longrightarrow> now < till \<Longrightarrow> \<exists>s. lockout now u = Some (AccountLockedError s)"
  by (auto simp: answers_left_def lockout_def split: if_splits)

lemma answers_left_counted:
  assumes "lockout now u = None" "start \<le> now" "now < till" "till = start + lockout_minutes st * 60000000"
  shows "Suc (answers_left st till (count_failure st now u)) = answers_left st till u"
proof -
  have "\<not> (\<exists>t. usr_locked_until u = Some t \<and> till \<le> t)" using assms(1,3) by (auto simp: lockout_def split: option.splits if_splits)
  thus ?thesis using assms(2,4) by (auto simp: answers_left_def count_failure_def split: if_splits)
qed

lemma guesses_bounded:
  assumes "text_ok slug \<and> text_ok email" "account slug email db = Some u"
    and "\<forall>(e, p, x) \<in> set ts. start \<le> utcnow e \<and> utcnow e < till \<and> pw_verify c (usr_password_hash u) p = Inr False"
    and "till = start + lockout_minutes st * 60000000" "try_logins c st slug email ts db = (rs, db')"
  shows "\<exists>u'. account slug email db' = Some u' \<and> usr_password_hash u' = usr_password_hash u
    \<and> count_list rs (Inl InvalidCredentialsError) + answers_left st till u' = answers_left st till u"
  using assms(2,3,5)
proof (induction ts arbitrary: db u rs)
  case (Cons a ts)
  obtain e p code ip agent where a: "a = (e, p, code, ip, agent)" by (cases a) auto
  obtain r db1 rs' where r: "authenticate e c st slug email p code ip agent db = (r, db1)" "try_logins c st slug email ts db1 = (rs', db')" "rs = r # rs'"
    using Cons.prems(3) by (auto simp: a split: prod.splits)
  have p: "pw_verify c (usr_password_hash u) p = Inr False" "start \<le> utcnow e" "utcnow e < till" using Cons.prems(2) by (auto simp: a)
  have rest: "\<forall>(e, p, x) \<in> set ts. start \<le> utcnow e \<and> utcnow e < till \<and> pw_verify c (usr_password_hash u) p = Inr False" using Cons.prems(2) by auto
  from assms(1) Cons.prems(1) p(1) r(1) show ?case
  proof (cases rule: wrong_password_cases)
    case counted
    have "usr_password_hash (count_failure st (utcnow e) u) = usr_password_hash u" by (simp add: count_failure_def)
    thus ?thesis using Cons.IH [OF counted(3)] rest r counted(2) answers_left_counted [OF counted(1) p(2,3) assms(4)] by auto
  next
    case (locked s)
    thus ?thesis using Cons.IH [OF Cons.prems(1) rest] r by auto
  next
    case (failed err)
    thus ?thesis using Cons.IH [OF Cons.prems(1) rest] r by auto
  qed
qed auto


definition sample_guesses :: "login_try list" where
  "sample_guesses = [(sample_dbenv 5, ''hunter1'', None, None, None), (sample_dbenv 9, ''hunter3'', None, None, None), (sample_dbenv 7, ''hunter4'', None, None, None)]"

lemma guesses_answered: "\<exists>db'. try_logins sample_crypto sample_settings ''acme'' ''m@acme.io'' sample_guesses login_db
    = ([Inl InvalidCredentialsError, Inl InvalidCredentialsError, Inl (AccountLockedError 900)], db')"
proof -
  have "(case try_logins sample_crypto sample_settings ''acme'' ''m@acme.io'' sample_guesses login_db of (rs, _) \<Rightarrow>
     rs = [Inl InvalidCredentialsError, Inl InvalidCredentialsError, Inl (AccountLockedError 900)])" by code_simp
  thus ?thesis by (auto split: prod.splits)
qed


text \<open>A right password with a wrong code leaves the account as it was.\<close>

lemma wrong_code:
  assumes "text_ok slug \<and> text_ok email" "account slug email db = Some u" "lockout (utcnow e) u = None"
    "pw_verify c (usr_password_hash u) password = Inr True" "check_mfa e c u code = Inr False"
    "authenticate e c st slug email password code ip agent db = (r, db')"
  shows "account slug email db' = Some u \<and> users db' = users db"
proof -
  have "commit_failure (audit_login e ''FAILED_LOGIN'' ''failure'' u ip agent db) MfaInvalidError db = (r, db')"
    using assms(3-6) by (simp add: authenticate_account [OF assms(1,2)] login_user_def)
  hence "users db' = users db \<and> organizations db' = organizations db"
    by (auto simp: commit_failure_def audit_login_def split: sum.splits dest!: record_audit_event_Inr)
  thus ?thesis using assms(2) by (auto simp: account_def org_by_slug_def user_by_email_def split: option.splits)
qed

text \<open>C33: Codes may be guessed without bound. Whoever knows the password of an account with a second factor may try any
  number of wrong codes: no attempt counts as a failed login, the account is as it was before the first, and so it is
  never locked, whatever the configured limit.\<close>
theorem wrong_codes_never_lock:
  assumes "text_ok slug \<and> text_ok email" "account slug email db = Some u"
    and "\<forall>(e, p, code, x) \<in> set ts. lockout (utcnow e) u = None \<and> pw_verify c (usr_password_hash u) p = Inr True \<and> check_mfa e c u code = Inr False"
    and "try_logins c st slug email ts db = (rs, db')"
  shows "account slug email db' = Some u \<and> users db' = users db"
  using assms(2-4)
proof (induction ts arbitrary: db rs)
  case (Cons a ts)
  obtain e p code ip agent where a: "a = (e, p, code, ip, agent)" by (cases a) auto
  obtain r db1 rs' where r: "authenticate e c st slug email p code ip agent db = (r, db1)" "try_logins c st slug email ts db1 = (rs', db')"
    using Cons.prems(3) by (auto simp: a split: prod.splits)
  have "account slug email db1 = Some u \<and> users db1 = users db"
    using Cons.prems(2) by (intro wrong_code [OF assms(1) Cons.prems(1) _ _ _ r(1)]) (auto simp: a)
  thus ?case using Cons.IH [of db1 rs'] Cons.prems(2) r(2) by auto
qed simp

definition mfa_db :: identity_db where
  "mfa_db = login_db\<lparr>users := [(new_user manager acme ''m@acme.io'' ''hunter2'' ''Manager'')\<lparr>usr_mfa_enabled := True, usr_mfa_secret := Some ''123456''\<rparr>]\<rparr>"

theorem wrong_codes_never_lock_witness:
  "\<exists>db'. snd (try_logins sample_crypto sample_settings ''acme'' ''m@acme.io'' (replicate 5 (sample_dbenv 5, ''hunter2'', Some ''000000'', None, None)) mfa_db) = db'
    \<and> users db' = users mfa_db"
proof -
  have a: "account ''acme'' ''m@acme.io'' mfa_db = Some (hd (users mfa_db))" by code_simp
  have h: "\<forall>(e, p, code, x) \<in> set (replicate 5 (sample_dbenv 5, ''hunter2'', Some ''000000'', None :: string option, None :: string option)).
      lockout (utcnow e) (hd (users mfa_db)) = None \<and> pw_verify sample_crypto (usr_password_hash (hd (users mfa_db))) p = Inr True
      \<and> check_mfa e sample_crypto (hd (users mfa_db)) code = Inr False"
    by (simp add: mfa_db_def new_user_def lockout_def sample_crypto_def check_mfa_def bind_res_def)
  have o: "text_ok ''acme'' \<and> text_ok ''m@acme.io''" by (simp add: text_ok_def)
  from wrong_codes_never_lock [OF o a h surjective_pairing] show ?thesis by blast
qed

section \<open>Keys of collectors come back\<close>

lemma set_show_hex: "c \<in> set (show_hex w n) \<Longrightarrow> \<exists>d < 16. c = hex_digit d"
proof (induction w n rule: show_hex.induct)
  case (2 w n)
  have "n mod 16 < 16" by simp
  hence "c = hex_digit (n mod 16) \<Longrightarrow> ?case" by blast
  thus ?case using 2 by fastforce
qed simp

lemma no_underscore_uuid: "CHR ''_'' \<notin> set (uuid_text n)"
proof
  assume "CHR ''_'' \<in> set (uuid_text n)"
  hence "CHR ''_'' \<in> set (show_hex 32 n)" by (auto simp: uuid_text_def Let_def dest: in_set_takeD in_set_dropD)
  then obtain d where "d < 16" "hex_digit d = CHR ''_''" using set_show_hex by force
  thus False using hex_val_digit [of d] by (simp add: hex_val_def is_digit_def)
qed

lemma parse_uuid_no_underscore: "parse_uuid s = Some t \<Longrightarrow> CHR ''_'' \<notin> set t"
  using no_underscore_uuid by (auto simp: parse_uuid_def Let_def split: if_splits option.splits)

lemma parse_generated_key:
  assumes "parse_uuid tenant = Some tenant"
  shows "parse_tenant_id (fst (generate_api_key c n tenant)) = Some tenant"
proof -
  have "split_on (CHR ''_'') (''lsk'' @ CHR ''_'' # tenant @ CHR ''_'' # token_urlsafe c n) = ''lsk'' # tenant # split_on (CHR ''_'') (token_urlsafe c n)"
    by (subst split_on_append(1), simp, subst split_on_append(1)) (auto simp: parse_uuid_no_underscore [OF assms])
  moreover obtain p ps where "split_on (CHR ''_'') (token_urlsafe c n) = p # ps" using split_on_nonempty by (meson neq_Nil_conv)
  ultimately show ?thesis using assms by (simp add: generate_api_key_def parse_tenant_id_def Let_def)
qed

lemma find_new: "find P xs = None \<Longrightarrow> find P (xs @ [x]) = (if P x then Some x else None)"
  by (induction xs) (auto split: if_splits)

text \<open>C34: A collector's key opens its own tenant and nothing else does. The key that creation hands out, presented at
  any later time, resolves to the row just stored, in the tenant it was created for, and marks only that row as used;
  the row keeps the hash, not the key; and no other text, forged or mistyped, resolves to that row.\<close>
theorem collector_key_roundtrip:
  assumes "inj (sha256_hex c)" "parse_uuid tenant = Some tenant"
    and "create_collector_key e c tenant name creator db = Inr ((plaintext, k), db1)"
    and "key_hash k \<notin> key_hash ` set (api_keys db)"
  shows "key_tenant k = tenant \<and> key_hash k = sha256_hex c plaintext
    \<and> resolve_collector_key e' c plaintext db1
        = (Some (k\<lparr>key_used := Some (utcnow e')\<rparr>), db1\<lparr>api_keys := api_keys db @ [k\<lparr>key_used := Some (utcnow e')\<rparr>]\<rparr>)
    \<and> (\<forall>other k'. other \<noteq> plaintext \<longrightarrow> fst (resolve_collector_key e' c other db1) = Some k' \<longrightarrow> key_id k' \<noteq> key_id k)"
proof -
  have k: "plaintext = fst (generate_api_key c (drawn db) tenant)" "key_hash k = sha256_hex c plaintext" "key_tenant k = tenant"
    "key_collector k" "key_expires k = None" "key_revoked k = None" "api_keys db1 = api_keys db @ [k]" "key_id k \<notin> key_id ` set (api_keys db)"
    using assms(3) by (auto simp: create_collector_key_def Let_def bind_res_Inr generate_api_key_def drew_def)
  have p: "parse_tenant_id plaintext = Some tenant" unfolding k(1) by (rule parse_generated_key [OF assms(2)])
  have "find (\<lambda>x. key_hash x = sha256_hex c plaintext \<and> key_tenant x = tenant \<and> key_collector x \<and> key_revoked x = None) (api_keys db1) = Some k"
    unfolding k(7) using assms(4) k(2,3,4,6) by (subst find_new) (auto simp: find_None_iff image_iff)
  moreover have "update_rows (\<lambda>x. key_id x = key_id k) (\<lambda>_. k') (api_keys db1) = api_keys db @ [k']" for k'
    using k(7,8) by (simp add: update_rows_def) (intro map_idI, auto simp: image_iff)
  ultimately have "resolve_collector_key e' c plaintext db1
        = (Some (k\<lparr>key_used := Some (utcnow e')\<rparr>), db1\<lparr>api_keys := api_keys db @ [k\<lparr>key_used := Some (utcnow e')\<rparr>]\<rparr>)"
    using k p by (simp add: resolve_collector_key_def Let_def)
  moreover have "key_id k' \<noteq> key_id k" if o: "other \<noteq> plaintext" "fst (resolve_collector_key e' c other db1) = Some k'" for other k'
  proof -
    from o(2) obtain t x where "find (\<lambda>x. key_hash x = sha256_hex c other \<and> key_tenant x = t \<and> key_collector x \<and> key_revoked x = None) (api_keys db1) = Some x"
      "key_id k' = key_id x" by (auto simp: resolve_collector_key_def Let_def split: option.splits if_splits)
    hence "x \<in> set (api_keys db1)" "key_hash x = sha256_hex c other" "key_id k' = key_id x" using find_Some_mem by fastforce+
    moreover have "sha256_hex c other \<noteq> key_hash k" using assms(1) o(1) k(2) by (simp add: inj_eq)
    ultimately show ?thesis using k(7,8) by (auto simp: image_iff)
  qed
  ultimately show ?thesis using k(2,3) by blast
qed

theorem collector_key_roundtrip_witness:
  "\<exists>plaintext k db1. create_collector_key (sample_dbenv 5) sample_crypto acme ''edge'' (Some manager) login_db = Inr ((plaintext, k), db1)
    \<and> fst (resolve_collector_key (sample_dbenv 9) sample_crypto plaintext db1) = Some (k\<lparr>key_used := Some 9\<rparr>)"
proof -
  have "(case create_collector_key (sample_dbenv 5) sample_crypto acme ''edge'' (Some manager) login_db of Inl _ \<Rightarrow> False | Inr _ \<Rightarrow> True)" by code_simp
  then obtain plaintext k db1 where h: "create_collector_key (sample_dbenv 5) sample_crypto acme ''edge'' (Some manager) login_db = Inr ((plaintext, k), db1)"
    by (auto split: sum.splits)
  have i: "inj (sha256_hex sample_crypto)" using sample_tokens_ok by (simp add: tokens_ok_def)
  have n: "key_hash k \<notin> key_hash ` set (api_keys login_db)" by (simp add: login_db_def blank_identity_def rule_db.defs)
  show ?thesis using h collector_key_roundtrip [OF i manager_parsed(2) h n, of "sample_dbenv 9"] by (auto simp: sample_dbenv_def)
qed

end
