(* ===== verification/Ingestion.thy ===== *)
theory Ingestion
  imports Normalization Auth Eventbus
begin

text \<open>
  The way of an event into the pipeline: the collector's event with its idempotency key
  (\<open>collectors/base.py\<close>), the ingestion service (\<open>services/ingestion.py\<close>) with its endpoints
  (\<open>api/ingestion.py\<close>), the processor (\<open>services/processing.py\<close>) and the parser worker
  (\<open>workers/parser_worker.py\<close>). On \<open>events.raw\<close> a payload is bytes: \<open>Inl\<close> those
  bytes. Each call to Redis or to the bus may raise; an \<open>ingest_env\<close> says which do.
\<close>

section \<open>The collected event\<close>

record raw_event =
  ri_tenant :: string
  ri_source_type :: string
  ri_collector :: string
  ri_payload :: string
  ri_received :: instant
  ri_source_ip :: "string option"

definition content_hash :: "crypto \<Rightarrow> raw_event \<Rightarrow> string" where
  "content_hash c ev = sha256_hex c (ri_payload ev)"

definition idempotency_key :: "crypto \<Rightarrow> raw_event \<Rightarrow> string" where
  "idempotency_key c ev = sha256_hex c (ri_tenant ev @ '':'' @ ri_source_type ev @ '':'' @ content_hash c ev)"

definition build_event :: "string \<Rightarrow> string \<Rightarrow> string \<Rightarrow> string \<Rightarrow> int \<Rightarrow> string option \<Rightarrow> raw_event" where
  "build_event source_type collector_id tenant raw now ip = \<lparr>ri_tenant = tenant, ri_source_type = source_type, ri_collector = collector_id,
     ri_payload = raw, ri_received = \<lparr>wall = now, zone = Some 0\<rparr>, ri_source_ip = ip\<rparr>"

section \<open>The ingestion service\<close>

datatype ingest_outcome = Accepted | Duplicate | RateLimited | DeadLettered | Dropped

record ingest_result =
  ig_outcome :: ingest_outcome
  ig_message :: "string option"
  ig_reason :: "string option"

record ingest_settings =
  max_payload_bytes :: nat
  rate_limit_per_minute :: nat
  dedup_ttl_seconds :: int

text \<open>The text of the exception each call raises, if it does; the clock, in microseconds.\<close>

record ingest_env =
  ing_now :: int
  incr_raises :: "string option"
  expire_raises :: "string option"
  claim_raises :: "string option"
  publish_raises :: "string option"
  release_raises :: "string option"
  letter_raises :: "string option"

text \<open>Redis: the counters of the windows, and the claimed keys with the time they expire.\<close>

record ingest_state =
  hits :: "nat dict"
  claims :: "int dict"
  ing_bus :: bus

definition raising :: "string option \<Rightarrow> 'r \<Rightarrow> string + 'r" where
  "raising x r = (case x of None \<Rightarrow> Inr r | Some why \<Rightarrow> Inl why)"

definition window_key :: "ingest_env \<Rightarrow> raw_event \<Rightarrow> string" where
  "window_key v ev = ''ingest:ratelimit:'' @ ri_tenant ev @ '':'' @ show_int (ing_now v div 60000000)"

definition window_hits :: "ingest_env \<Rightarrow> raw_event \<Rightarrow> ingest_state \<Rightarrow> nat" where
  "window_hits v ev s = (case dict_get (hits s) (window_key v ev) of None \<Rightarrow> 0 | Some n \<Rightarrow> n)"

definition within_rate_limit :: "ingest_settings \<Rightarrow> ingest_env \<Rightarrow> raw_event \<Rightarrow> ingest_state \<Rightarrow> (string + bool) \<times> ingest_state" where
  "within_rate_limit st v ev s = (case incr_raises v of Some why \<Rightarrow> (Inl why, s)
     | None \<Rightarrow> let n = Suc (window_hits v ev s) in
         (raising (if n = 1 then expire_raises v else None) (n \<le> rate_limit_per_minute st), s\<lparr>hits := dict_set (window_key v ev) n (hits s)\<rparr>))"

definition validate :: "ingest_settings \<Rightarrow> raw_event \<Rightarrow> string option" where
  "validate st ev = (if ri_payload ev = [] then Some ''empty_payload''
     else if length (ri_payload ev) > max_payload_bytes st then Some ''payload_too_large'' else None)"

definition claim_key :: "crypto \<Rightarrow> raw_event \<Rightarrow> string" where
  "claim_key c ev = ''ingest:idem:'' @ idempotency_key c ev"

definition claimed :: "crypto \<Rightarrow> ingest_env \<Rightarrow> raw_event \<Rightarrow> ingest_state \<Rightarrow> bool" where
  "claimed c v ev s \<longleftrightarrow> (case dict_get (claims s) (claim_key c ev) of None \<Rightarrow> False | Some t \<Rightarrow> ing_now v < t)"

definition claim_idempotency_key ::
  "crypto \<Rightarrow> ingest_settings \<Rightarrow> ingest_env \<Rightarrow> raw_event \<Rightarrow> ingest_state \<Rightarrow> (string + bool) \<times> ingest_state" where
  "claim_idempotency_key c st v ev s = (case claim_raises v of Some why \<Rightarrow> (Inl why, s)
     | None \<Rightarrow> if claimed c v ev s then (Inr False, s)
         else (Inr True, s\<lparr>claims := dict_set (claim_key c ev) (ing_now v + dedup_ttl_seconds st * 1000000) (claims s)\<rparr>))"

definition release_idempotency_key :: "crypto \<Rightarrow> ingest_env \<Rightarrow> raw_event \<Rightarrow> ingest_state \<Rightarrow> (string + unit) \<times> ingest_state" where
  "release_idempotency_key c v ev s = (case release_raises v of Some why \<Rightarrow> (Inl why, s)
     | None \<Rightarrow> (Inr (), s\<lparr>claims := filter (\<lambda>(k, t). k \<noteq> claim_key c ev) (claims s)\<rparr>))"

definition raw_headers :: "clock_lib \<Rightarrow> crypto \<Rightarrow> raw_event \<Rightarrow> string dict" where
  "raw_headers k c ev = [(''source_type'', ri_source_type ev), (''collector_id'', ri_collector ev),
     (''received_at'', show_iso k (ri_received ev)), (''content_hash'', content_hash c ev)]"

definition raw_message :: "clock_lib \<Rightarrow> crypto \<Rightarrow> raw_event \<Rightarrow> bus_message" where
  "raw_message k c ev = \<lparr>bm_tenant = ri_tenant ev, bm_key = idempotency_key c ev, bm_payload = Inl (ri_payload ev),
     bm_headers = raw_headers k c ev @ [(''source_ip'', case ri_source_ip ev of None \<Rightarrow> [] | Some a \<Rightarrow> a)], bm_id = None\<rparr>"

definition letter_message :: "clock_lib \<Rightarrow> crypto \<Rightarrow> raw_event \<Rightarrow> bus_message" where
  "letter_message k c ev = \<lparr>bm_tenant = ri_tenant ev, bm_key = idempotency_key c ev, bm_payload = Inl (ri_payload ev),
     bm_headers = raw_headers k c ev @ [(''payload_bytes'', show_nat (length (ri_payload ev)))], bm_id = None\<rparr>"

definition result_of :: "ingest_outcome \<Rightarrow> string option \<Rightarrow> string option \<Rightarrow> ingest_result" where
  "result_of oc m why = \<lparr>ig_outcome = oc, ig_message = m, ig_reason = why\<rparr>"

definition dead_letter_event ::
  "clock_lib \<Rightarrow> crypto \<Rightarrow> ingest_env \<Rightarrow> raw_event \<Rightarrow> string \<Rightarrow> string option \<Rightarrow> ingest_state \<Rightarrow> ingest_result \<times> ingest_state" where
  "dead_letter_event k c v ev why cause s = (let detail = (case cause of None \<Rightarrow> why | Some [] \<Rightarrow> why | Some t \<Rightarrow> why @ '': '' @ t) in
     if letter_raises v \<noteq> None then (result_of Dropped None (Some detail), s)
     else (result_of DeadLettered None (Some detail), s\<lparr>ing_bus := dead_letter TOPIC_EVENTS_RAW (letter_message k c ev) detail (ing_bus s)\<rparr>))"

definition publish_event ::
  "clock_lib \<Rightarrow> crypto \<Rightarrow> ingest_env \<Rightarrow> raw_event \<Rightarrow> ingest_state \<Rightarrow> (string + ingest_result) \<times> ingest_state" where
  "publish_event k c v ev s = (case publish_raises v of
     None \<Rightarrow> (case publish TOPIC_EVENTS_RAW (raw_message k c ev) (ing_bus s) of (i, b) \<Rightarrow> (Inr (result_of Accepted (Some i) None), s\<lparr>ing_bus := b\<rparr>))
   | Some exc \<Rightarrow> (case release_idempotency_key c v ev s of (Inl why, s1) \<Rightarrow> (Inl why, s1)
       | (Inr _, s1) \<Rightarrow> (case dead_letter_event k c v ev ''publish_failed'' (Some exc) s1 of (r, s2) \<Rightarrow> (Inr r, s2))))"

definition ingest_once ::
  "clock_lib \<Rightarrow> crypto \<Rightarrow> ingest_settings \<Rightarrow> ingest_env \<Rightarrow> raw_event \<Rightarrow> ingest_state \<Rightarrow> (string + ingest_result) \<times> ingest_state" where
  "ingest_once k c st v ev s = (case claim_idempotency_key c st v ev s of
     (Inl why, s1) \<Rightarrow> (Inl why, s1)
   | (Inr False, s1) \<Rightarrow> (Inr (result_of Duplicate None (Some ''already ingested'')), s1)
   | (Inr True, s1) \<Rightarrow> publish_event k c v ev s1)"

definition ingest ::
  "clock_lib \<Rightarrow> crypto \<Rightarrow> ingest_settings \<Rightarrow> ingest_env \<Rightarrow> raw_event \<Rightarrow> ingest_state \<Rightarrow> (string + ingest_result) \<times> ingest_state" where
  "ingest k c st v ev s = (case within_rate_limit st v ev s of
     (Inl why, s1) \<Rightarrow> (Inl why, s1)
   | (Inr False, s1) \<Rightarrow> (Inr (result_of RateLimited None (Some ''tenant ingestion quota exceeded'')), s1)
   | (Inr True, s1) \<Rightarrow> (case validate st ev of
       Some why \<Rightarrow> (case dead_letter_event k c v ev why None s1 of (r, s2) \<Rightarrow> (Inr r, s2))
     | None \<Rightarrow> ingest_once k c st v ev s1))"

section \<open>The processor\<close>

datatype processing_outcome = ProcessingSuccess document | ProcessingFailure string string

definition header_or :: "string dict \<Rightarrow> string \<Rightarrow> string \<Rightarrow> string" where
  "header_or hs key dflt = (case dict_get hs key of None \<Rightarrow> dflt | Some t \<Rightarrow> t)"

definition received_at :: "clock_lib \<Rightarrow> string dict \<Rightarrow> instant" where
  "received_at k hs = (let now = \<lparr>wall = clock_now k, zone = Some 0\<rparr>; raw = header_or hs ''received_at'' [] in
     if raw = [] then now else (case fromisoformat k raw of None \<Rightarrow> now | Some x \<Rightarrow> x))"

definition process :: "parser list \<Rightarrow> parse_lib \<Rightarrow> clock_lib \<Rightarrow> string \<Rightarrow> string \<Rightarrow> string dict \<Rightarrow> processing_outcome" where
  "process ps l k raw tenant hs = (case registry_parse ps raw of
     Inl why \<Rightarrow> ProcessingFailure ''parse'' why
   | Inr p \<Rightarrow> (case normalize l k p tenant raw (header_or hs ''source_type'' ''unknown'') (header_or hs ''collector_id'' ''unknown'') (received_at k hs)
         (if header_or hs ''source_ip'' [] = [] then None else Some (header_or hs ''source_ip'' [])) of
       Inl (ty, why) \<Rightarrow> ProcessingFailure ''normalize'' (''unexpected normalization failure: '' @ ty @ '': '' @ why)
     | Inr d \<Rightarrow> ProcessingSuccess d))"

section \<open>The parser worker\<close>

definition PARSER_GROUP :: string where "PARSER_GROUP = ''parser''"

text \<open>\<open>dumps\<close>: the text of a payload that was published as JSON.\<close>

definition payload_bytes :: "(json \<Rightarrow> string) \<Rightarrow> bus_message \<Rightarrow> string" where
  "payload_bytes dumps m = (case bm_payload m of Inl raw \<Rightarrow> raw | Inr v \<Rightarrow> dumps v)"

definition normalized_message :: "bus_message \<Rightarrow> document \<Rightarrow> bus_message" where
  "normalized_message m d = \<lparr>bm_tenant = bm_tenant m, bm_key = py_str (get d ''event_id''), bm_payload = Inr (JObj d),
     bm_headers = [(''source_type'', py_str (get_default d ''source_type'' (JStr ''unknown''))), (''class'', py_str (get_default d ''class'' (JStr []))),
       (''schema_version'', py_str (get d ''schema_version''))], bm_id = None\<rparr>"

definition parser_handle :: "parser list \<Rightarrow> parse_lib \<Rightarrow> clock_lib \<Rightarrow> (json \<Rightarrow> string) \<Rightarrow> bus_message \<Rightarrow> bus \<Rightarrow> bus" where
  "parser_handle ps l k dumps m b = (case process ps l k (payload_bytes dumps m) (bm_tenant m) (bm_headers m) of
     ProcessingFailure stg why \<Rightarrow> ack_message TOPIC_EVENTS_RAW PARSER_GROUP m (dead_letter TOPIC_EVENTS_RAW m (stg @ '': '' @ why) b)
   | ProcessingSuccess d \<Rightarrow> ack_message TOPIC_EVENTS_RAW PARSER_GROUP m (snd (publish TOPIC_EVENTS_NORMALIZED (normalized_message m d) b)))"

definition run_once_over :: "parser list \<Rightarrow> parse_lib \<Rightarrow> (nat \<Rightarrow> clock_lib) \<Rightarrow> (json \<Rightarrow> string) \<Rightarrow> bus_message list \<Rightarrow> bus \<Rightarrow> bus" where
  "run_once_over ps l ks dumps ms b = fold (\<lambda>(n, m). parser_handle ps l (ks n) dumps m) (List.enumerate 0 ms) b"

section \<open>The endpoints\<close>

definition get_collector_key ::
  "'b dbenv_scheme \<Rightarrow> crypto \<Rightarrow> string option \<Rightarrow> 'a identity_db_scheme \<Rightarrow> (service_error + api_key) \<times> 'a identity_db_scheme" where
  "get_collector_key e c x_api_key db = (case x_api_key of None \<Rightarrow> (Inl (HttpError 401 ''missing X-API-Key header''), db)
     | Some t \<Rightarrow> (case resolve_collector_key e c t db of
         (None, db') \<Rightarrow> (Inl (HttpError 401 ''invalid or revoked API key''), db') | (Some key, db') \<Rightarrow> (Inr key, db')))"

text \<open>The key is committed before its creation is recorded.\<close>

definition api_create_key ::
  "'b dbenv_scheme \<Rightarrow> crypto \<Rightarrow> string option \<Rightarrow> string \<Rightarrow> 'a identity_db_scheme \<Rightarrow> (service_error + string \<times> api_key) \<times> 'a identity_db_scheme" where
  "api_create_key e c credentials name db = (case require_permission e c ''api_key'' ''write'' credentials db of
     Inl err \<Rightarrow> (Inl err, db)
   | Inr ctx \<Rightarrow> if \<not> (1 \<le> length name \<and> length name \<le> 200) then (Inl (ValidationError ''CreateApiKeyRequest''), db)
       else (case create_collector_key e c (au_tenant ctx) name (Some (au_id ctx)) db of
         Inl err \<Rightarrow> (Inl err, db)
       | Inr ((plaintext, key), db1) \<Rightarrow> (case record_audit_event e (au_tenant ctx) ''CREATE_API_KEY'' ''api_key'' ''success'' (Some (au_id ctx)) None None
             (Some (key_id key)) None (Some [(''name'', JStr name), (''is_collector_key'', JBool True)]) db1 of
           Inl err \<Rightarrow> (Inl err, db1) | Inr db2 \<Rightarrow> (Inr (plaintext, key), db2))))"

definition outcome_status :: "ingest_outcome \<Rightarrow> nat" where
  "outcome_status oc = (case oc of RateLimited \<Rightarrow> 429 | DeadLettered \<Rightarrow> 202 | Dropped \<Rightarrow> 500 | _ \<Rightarrow> 200)"

definition api_ingest ::
  "'b dbenv_scheme \<Rightarrow> crypto \<Rightarrow> clock_lib \<Rightarrow> ingest_settings \<Rightarrow> ingest_env \<Rightarrow> string option \<Rightarrow> string option \<Rightarrow> string \<Rightarrow>
   ingest_state \<Rightarrow> 'a identity_db_scheme \<Rightarrow> (service_error + nat \<times> ingest_result) \<times> ingest_state \<times> 'a identity_db_scheme" where
  "api_ingest e c k st v x_api_key client raw s db = (case get_collector_key e c x_api_key db of
     (Inl err, db') \<Rightarrow> (Inl err, s, db')
   | (Inr key, db') \<Rightarrow> (case ingest k c st v (build_event ''rest'' ''rest-gateway'' (key_tenant key) raw (ing_now v) client) s of
       (Inl why, s') \<Rightarrow> (Inl (HttpError 500 ''Internal Server Error''), s', db')
     | (Inr r, s') \<Rightarrow> (Inr (outcome_status (ig_outcome r), r), s', db')))"

section \<open>Every event is accounted for\<close>

abbreviation raw_stream :: "ingest_state \<Rightarrow> (string \<times> bus_message) list" where
  "raw_stream s \<equiv> stream (ing_bus s) TOPIC_EVENTS_RAW"

abbreviation letter_stream :: "ingest_state \<Rightarrow> (string \<times> bus_message) list" where
  "letter_stream s \<equiv> stream (ing_bus s) (TOPIC_EVENTS_RAW @ ''.deadletter'')"

definition letter_with :: "bus_message \<Rightarrow> string \<Rightarrow> bus_message" where
  "letter_with m why = m\<lparr>bm_headers := dict_merge (bm_headers m) [(''dead_letter_reason'', why), (''original_topic'', TOPIC_EVENTS_RAW)]\<rparr>"

lemma letter_topic: "TOPIC_EVENTS_RAW @ ''.deadletter'' \<noteq> TOPIC_EVENTS_RAW" "TOPIC_EVENTS_RAW @ ''.deadletter'' \<noteq> TOPIC_EVENTS_NORMALIZED"
  "TOPIC_EVENTS_RAW \<noteq> TOPIC_EVENTS_NORMALIZED"
  by (simp_all add: TOPIC_EVENTS_RAW_def TOPIC_EVENTS_NORMALIZED_def)

text \<open>What an answer says of the two streams.\<close>

definition accounted :: "clock_lib \<Rightarrow> crypto \<Rightarrow> raw_event \<Rightarrow> ingest_result \<Rightarrow> ingest_state \<Rightarrow> ingest_state \<Rightarrow> bool" where
  "accounted k c ev r s s' \<longleftrightarrow> (case ig_outcome r of
     Accepted \<Rightarrow> (\<exists>i. ig_message r = Some i \<and> raw_stream s' = raw_stream s @ [(i, raw_message k c ev)] \<and> letter_stream s' = letter_stream s)
   | DeadLettered \<Rightarrow> raw_stream s' = raw_stream s
       \<and> (\<exists>i why. ig_reason r = Some why \<and> letter_stream s' = letter_stream s @ [(i, letter_with (letter_message k c ev) why)])
   | _ \<Rightarrow> ing_bus s' = ing_bus s)"

lemma dead_letter_event_accounted:
  assumes "dead_letter_event k c v ev why cause s = (r, s')"
  shows "accounted k c ev r s s'" "ig_outcome r = DeadLettered \<and> letter_raises v = None \<or> ig_outcome r = Dropped \<and> letter_raises v \<noteq> None"
    "claims s' = claims s"
  using assms letter_topic
  by (auto simp: dead_letter_event_def accounted_def result_of_def Let_def dead_letter_def stream_publish letter_with_def letter_message_def split: if_splits)

lemma accounted_bus: "ing_bus s = ing_bus s0 \<Longrightarrow> accounted k c ev r s s' \<Longrightarrow> accounted k c ev r s0 s'"
  by (auto simp: accounted_def split: ingest_outcome.splits)

lemma publish_event_accounted:
  assumes "publish_event k c v ev s = (x, s')"
  shows "(case x of Inr r \<Rightarrow> accounted k c ev r s s' \<and> (ig_outcome r = Accepted \<longleftrightarrow> publish_raises v = None)
       \<and> (ig_outcome r = Dropped \<longrightarrow> publish_raises v \<noteq> None \<and> letter_raises v \<noteq> None) \<and> ig_outcome r \<notin> {Duplicate, RateLimited}
     | Inl why \<Rightarrow> ing_bus s' = ing_bus s \<and> publish_raises v \<noteq> None \<and> release_raises v = Some why)"
proof (cases "publish_raises v")
  case None
  obtain i b where p: "publish TOPIC_EVENTS_RAW (raw_message k c ev) (ing_bus s) = (i, b)" by (rule prod.exhaust)
  hence "stream b t = (if t = TOPIC_EVENTS_RAW then stream (ing_bus s) t @ [(i, raw_message k c ev)] else stream (ing_bus s) t)" for t
    using stream_publish [of TOPIC_EVENTS_RAW "raw_message k c ev" "ing_bus s" t] by simp
  thus ?thesis using assms None p letter_topic(1) by (auto simp: publish_event_def accounted_def result_of_def)
next
  case (Some exc)
  show ?thesis
  proof (cases "release_raises v")
    case None
    obtain r s2 where r: "dead_letter_event k c v ev ''publish_failed'' (Some exc) (s\<lparr>claims := filter (\<lambda>(k, t). k \<noteq> claim_key c ev) (claims s)\<rparr>) = (r, s2)"
      by (rule prod.exhaust)
    hence "x = Inr r" "s' = s2" using assms None Some by (auto simp: publish_event_def release_idempotency_key_def)
    moreover have "accounted k c ev r s s2" by (rule accounted_bus [OF _ dead_letter_event_accounted(1) [OF r]]) simp
    ultimately show ?thesis using dead_letter_event_accounted(2) [OF r] Some by auto
  qed (use assms Some in \<open>auto simp: publish_event_def release_idempotency_key_def\<close>)
qed

lemma ingest_cases:
  assumes "ingest k c st v ev s = (x, s')"
  shows "(case x of
      Inr r \<Rightarrow> accounted k c ev r s s' \<and> (ig_outcome r = Dropped \<longrightarrow> letter_raises v \<noteq> None)
        \<and> (ig_outcome r = RateLimited \<longleftrightarrow> rate_limit_per_minute st \<le> window_hits v ev s)
        \<and> (ig_outcome r = Duplicate \<longrightarrow> claimed c v ev s)
        \<and> (ig_outcome r = Accepted \<longrightarrow> publish_raises v = None \<and> \<not> claimed c v ev s \<and> ri_payload ev \<noteq> [] \<and> length (ri_payload ev) \<le> max_payload_bytes st)
    | Inl why \<Rightarrow> ing_bus s' = ing_bus s \<and> Some why \<in> {incr_raises v, expire_raises v, claim_raises v, release_raises v})"
proof -
  obtain g s1 where g: "within_rate_limit st v ev s = (g, s1)" by (rule prod.exhaust)
  have s1: "ing_bus s1 = ing_bus s" "claims s1 = claims s" using g by (auto simp: within_rate_limit_def Let_def split: option.splits)
  have n: "g = Inr (window_hits v ev s < rate_limit_per_minute st) \<or> (\<exists>why. g = Inl why \<and> Some why \<in> {incr_raises v, expire_raises v})"
    using g by (auto simp: within_rate_limit_def Let_def raising_def Suc_le_eq split: option.splits if_splits)
  have cl: "claimed c v ev s1 = claimed c v ev s" by (simp add: claimed_def s1)
  consider why where "g = Inl why" "Some why \<in> {incr_raises v, expire_raises v}" | "g = Inr False" "\<not> window_hits v ev s < rate_limit_per_minute st"
    | "g = Inr True" "window_hits v ev s < rate_limit_per_minute st" using n by force
  thus ?thesis
  proof cases
    case 1
    thus ?thesis using assms g s1 by (auto simp: ingest_def)
  next
    case 2
    thus ?thesis using assms g s1 by (auto simp: ingest_def accounted_def result_of_def)
  next
    case ok: 3
    show ?thesis
    proof (cases "validate st ev")
      case (Some why)
      obtain r s2 where r: "dead_letter_event k c v ev why None s1 = (r, s2)" by (rule prod.exhaust)
      hence "x = Inr r" "s' = s2" using assms g ok Some by (auto simp: ingest_def)
      thus ?thesis using dead_letter_event_accounted [OF r] accounted_bus [OF s1(1)] ok(2) by auto
    next
      case None
      hence o: "ingest_once k c st v ev s1 = (x, s')" using assms g ok by (simp add: ingest_def)
      have valid: "ri_payload ev \<noteq> []" "length (ri_payload ev) \<le> max_payload_bytes st" using None by (auto simp: validate_def split: if_splits)
      show ?thesis
      proof (cases "claim_raises v = None \<and> \<not> claimed c v ev s")
        case True
        define s2 where "s2 = s1\<lparr>claims := dict_set (claim_key c ev) (ing_now v + dedup_ttl_seconds st * 1000000) (claims s1)\<rparr>"
        have "publish_event k c v ev s2 = (x, s')" using o True by (simp add: ingest_once_def claim_idempotency_key_def cl s2_def)
        from publish_event_accounted [OF this] show ?thesis using accounted_bus [of s2 s k c ev _ s'] s1(1) True ok(2) valid
          by (auto simp: s2_def split: sum.splits)
      qed (use o ok(2) s1 cl in \<open>auto simp: ingest_once_def claim_idempotency_key_def accounted_def result_of_def split: option.splits if_splits\<close>)
    qed
  qed
qed

text \<open>C37: No event is lost in silence. An ingestion that answers tells the truth about the streams: accepted, and the
  event is the one new message of \<open>events.raw\<close>; dead-lettered, and it is the one new letter, with the bytes as
  they came and the reason; a duplicate, over the limit or dropped, and neither stream has moved. An event is answered
  as dropped only if the dead-letter topic refused it, and without an answer the call ends only by an exception of Redis.\<close>
theorem ingest_accounts_for_event:
  assumes "ingest k c st v ev s = (x, s')"
  shows "(case x of
      Inr r \<Rightarrow> accounted k c ev r s s' \<and> (ig_outcome r = Dropped \<longrightarrow> letter_raises v \<noteq> None)
        \<and> (ig_outcome r = RateLimited \<longleftrightarrow> rate_limit_per_minute st \<le> window_hits v ev s)
        \<and> (ig_outcome r = Duplicate \<longrightarrow> claimed c v ev s)
        \<and> (ig_outcome r = Accepted \<longrightarrow> \<not> claimed c v ev s \<and> ri_payload ev \<noteq> [] \<and> length (ri_payload ev) \<le> max_payload_bytes st)
    | Inl why \<Rightarrow> ing_bus s' = ing_bus s \<and> Some why \<in> {incr_raises v, expire_raises v, claim_raises v, release_raises v})"
  using ingest_cases [OF assms] by (auto split: sum.splits)

definition calm :: "int \<Rightarrow> ingest_env" where
  "calm t = \<lparr>ing_now = t, incr_raises = None, expire_raises = None, claim_raises = None, publish_raises = None, release_raises = None, letter_raises = None\<rparr>"

definition sample_ingest :: ingest_settings where
  "sample_ingest = \<lparr>max_payload_bytes = 1000, rate_limit_per_minute = 10, dedup_ttl_seconds = 600\<rparr>"

definition empty_ingest :: ingest_state where
  "empty_ingest = \<lparr>hits = [], claims = [], ing_bus = new_bus\<rparr>"

definition ssh_raw :: "string \<Rightarrow> int \<Rightarrow> raw_event" where
  "ssh_raw collector t = build_event ''syslog'' collector ''t1'' ssh_line t None"

theorem ingest_accounts_for_event_witness:
  "\<exists>r s'. ingest sample_clock sample_crypto sample_ingest (calm 5) (ssh_raw ''c1'' 5) empty_ingest = (Inr r, s') \<and> ig_outcome r = Accepted
    \<and> length (raw_stream s') = 1 \<and> letter_stream s' = []"
proof -
  obtain x s' where i: "ingest sample_clock sample_crypto sample_ingest (calm 5) (ssh_raw ''c1'' 5) empty_ingest = (x, s')" by (rule prod.exhaust)
  have "(case ingest sample_clock sample_crypto sample_ingest (calm 5) (ssh_raw ''c1'' 5) empty_ingest of (Inr r, _) \<Rightarrow> ig_outcome r = Accepted | _ \<Rightarrow> False)"
    by code_simp
  then obtain r where r: "x = Inr r" "ig_outcome r = Accepted" using i by (auto split: sum.splits)
  thus ?thesis using ingest_accounts_for_event [OF i] i by (auto simp: accounted_def empty_ingest_def new_bus_def stream_def)
qed

section \<open>What the idempotency key hides\<close>

lemma same_claim_key:
  "ri_tenant ev' = ri_tenant ev \<Longrightarrow> ri_source_type ev' = ri_source_type ev \<Longrightarrow> ri_payload ev' = ri_payload ev \<Longrightarrow> claim_key c ev' = claim_key c ev"
  by (simp add: claim_key_def idempotency_key_def content_hash_def)

lemma held_claim_is_duplicate:
  assumes "dict_get (claims s) (claim_key c ev) = Some t" "ing_now v < t" "incr_raises v = None" "expire_raises v = None" "claim_raises v = None"
    "window_hits v ev s < rate_limit_per_minute st" "validate st ev = None" "ingest k c st v ev s = (x, s')"
  shows "x = Inr (result_of Duplicate None (Some ''already ingested'')) \<and> ing_bus s' = ing_bus s"
  using assms
  by (auto simp: ingest_def within_rate_limit_def Let_def raising_def ingest_once_def claim_idempotency_key_def claimed_def Suc_le_eq split: if_splits)

lemma ingest_claims:
  assumes "ingest k c st v ev s = (x, s')" "claim_raises v = None" "\<not> claimed c v ev s" "validate st ev = None"
    "window_hits v ev s < rate_limit_per_minute st" "incr_raises v = None" "expire_raises v = None" "publish_raises v = None \<or> release_raises v \<noteq> None"
  shows "dict_get (claims s') (claim_key c ev) = Some (ing_now v + dedup_ttl_seconds st * 1000000)"
  using assms
  by (auto simp: ingest_def within_rate_limit_def Let_def raising_def ingest_once_def claim_idempotency_key_def claimed_def Suc_le_eq publish_event_def
      release_idempotency_key_def update_conv' split: if_splits prod.splits option.splits)



text \<open>A failed release hides an event. When publishing fails and releasing the key fails as well (the bus and the keys
  live in the same Redis), the call ends with an exception and the key stays claimed: every retry before it expires is
  answered as already ingested, although the event is on neither stream.\<close>
theorem failed_release_hides_event:
  assumes "ingest k c st v ev s = (x, s1)" "publish_raises v = Some exc" "release_raises v = Some why"
    and "incr_raises v = None" "expire_raises v = None" "claim_raises v = None"
    and "\<not> claimed c v ev s" "validate st ev = None" "window_hits v ev s < rate_limit_per_minute st"
    and "ing_now v' < ing_now v + dedup_ttl_seconds st * 1000000" "incr_raises v' = None" "expire_raises v' = None" "claim_raises v' = None"
    and "window_hits v' ev s1 < rate_limit_per_minute st" "ingest k c st v' ev s1 = (y, s2)"
  shows "x = Inl why \<and> y = Inr (result_of Duplicate None (Some ''already ingested'')) \<and> ing_bus s2 = ing_bus s"
proof -
  have c: "dict_get (claims s1) (claim_key c ev) = Some (ing_now v + dedup_ttl_seconds st * 1000000)"
    using assms(3) by (intro ingest_claims [OF assms(1,6,7,8,9,4,5)]) simp
  have "x = Inl why \<and> ing_bus s1 = ing_bus s" using assms(1-9)
    by (auto simp: ingest_def within_rate_limit_def Let_def raising_def ingest_once_def claim_idempotency_key_def claimed_def Suc_le_eq publish_event_def
      release_idempotency_key_def split: if_splits prod.splits option.splits)
  thus ?thesis using held_claim_is_duplicate [OF c assms(10-14) assms(8,15)] by simp
qed

section \<open>The parser worker settles every message\<close>

lemma process_success:
  "process ps l k raw tenant hs = ProcessingSuccess d \<Longrightarrow> \<exists>p stype coll recv ip. registry_parse ps raw = Inr p \<and> normalize l k p tenant raw stype coll recv ip = Inr d"
  by (auto simp: process_def split: sum.splits)

lemma parser_handle_cases:
  assumes "parser_handle ps l k dumps m b = b'" "bm_id m = Some i"
  obtains (published) d n where "process ps l k (payload_bytes dumps m) (bm_tenant m) (bm_headers m) = ProcessingSuccess d"
      "stream b' TOPIC_EVENTS_NORMALIZED = stream b TOPIC_EVENTS_NORMALIZED @ [(n, normalized_message m d)]"
      "\<And>t. t \<noteq> TOPIC_EVENTS_NORMALIZED \<Longrightarrow> stream b' t = stream b t" "acked b' = acked b @ [(TOPIC_EVENTS_RAW, PARSER_GROUP, i)]"
  | (buried) stg why n where "process ps l k (payload_bytes dumps m) (bm_tenant m) (bm_headers m) = ProcessingFailure stg why"
      "stream b' (TOPIC_EVENTS_RAW @ ''.deadletter'') = stream b (TOPIC_EVENTS_RAW @ ''.deadletter'') @ [(n, (letter_with m (stg @ '': '' @ why))\<lparr>bm_id := None\<rparr>)]"
      "\<And>t. t \<noteq> TOPIC_EVENTS_RAW @ ''.deadletter'' \<Longrightarrow> stream b' t = stream b t" "acked b' = acked b @ [(TOPIC_EVENTS_RAW, PARSER_GROUP, i)]"
proof (cases "process ps l k (payload_bytes dumps m) (bm_tenant m) (bm_headers m)")
  case (ProcessingSuccess d)
  hence b': "b' = ack TOPIC_EVENTS_RAW PARSER_GROUP i (snd (publish TOPIC_EVENTS_NORMALIZED (normalized_message m d) b))"
    using assms by (simp add: parser_handle_def ack_message_def)
  show ?thesis by (rule published [OF ProcessingSuccess]) (simp_all add: b' stream_publish ack_def stream_def publish_def Let_def update_conv')
next
  case (ProcessingFailure stg why)
  hence b': "b' = ack TOPIC_EVENTS_RAW PARSER_GROUP i (dead_letter TOPIC_EVENTS_RAW m (stg @ '': '' @ why) b)"
    using assms by (simp add: parser_handle_def ack_message_def)
  show ?thesis by (rule buried [OF ProcessingFailure]) (simp_all add: b' stream_publish dead_letter_def letter_with_def, simp add: ack_def)
qed

lemma parser_settles:
  assumes "parser_handle ps l k dumps m b = b'" "bm_id m = Some i" "bm_payload m = Inl raw"
  shows "acked b' = acked b @ [(TOPIC_EVENTS_RAW, PARSER_GROUP, i)]
    \<and> ((\<exists>d n. stream b' TOPIC_EVENTS_NORMALIZED = stream b TOPIC_EVENTS_NORMALIZED @ [(n, normalized_message m d)]
          \<and> (bm_tenant m \<noteq> [] \<longrightarrow> dict_get d ''tenant_id'' = Some (JStr (bm_tenant m)))
          \<and> (decode_utf8 l raw \<noteq> [] \<longrightarrow> dict_get d ''raw_event'' = Some (JStr (decode_utf8 l raw)))
          \<and> (\<forall>t. t \<noteq> TOPIC_EVENTS_NORMALIZED \<longrightarrow> stream b' t = stream b t))
     \<or> (\<exists>why n. stream b' (TOPIC_EVENTS_RAW @ ''.deadletter'') = stream b (TOPIC_EVENTS_RAW @ ''.deadletter'') @ [(n, (letter_with m why)\<lparr>bm_id := None\<rparr>)]
          \<and> (\<forall>t. t \<noteq> TOPIC_EVENTS_RAW @ ''.deadletter'' \<longrightarrow> stream b' t = stream b t)))"
  using assms(1,2)
proof (cases rule: parser_handle_cases)
  case (published d n)
  obtain p stype coll recv ip where n: "normalize l k p (bm_tenant m) raw stype coll recv ip = Inr d"
    using process_success [OF published(1)] assms(3) by (auto simp: payload_bytes_def)
  have "(bm_tenant m \<noteq> [] \<longrightarrow> dict_get d ''tenant_id'' = Some (JStr (bm_tenant m))) \<and> (decode_utf8 l raw \<noteq> [] \<longrightarrow> dict_get d ''raw_event'' = Some (JStr (decode_utf8 l raw)))"
    using n by (cases rule: normalize_Inr) blast
  thus ?thesis using published(2-4) by blast
next
  case (buried stg why n)
  thus ?thesis by blast
qed


definition ssh_message :: bus_message where
  "ssh_message = (raw_message sample_clock sample_crypto (ssh_raw ''c1'' 5))\<lparr>bm_id := Some ''1-0''\<rparr>"


text \<open>A digit that is none loses the event. \<open>str.isdigit\<close> holds of superscript digits, which \<open>int\<close>
  refuses: an event whose severity is such a text, in a payload that parses perfectly well, never reaches the normalised
  topic; it is dead-lettered, although a field that cannot be mapped is meant to be no error.\<close>
theorem superscript_severity_loses_event:
  assumes "bm_payload m = Inl raw" "bm_id m = Some i" "registry_parse ps raw = Inr p"
    and "get (pe_fields p) ''severity_label'' = JNull" "get (pe_fields p) ''severity'' = JStr s"
    and "py_isdigit (str_strip s)" "c \<in> set (str_strip s)" "\<not> is_digit c"
  shows "stream (parser_handle ps l k dumps m b) TOPIC_EVENTS_NORMALIZED = stream b TOPIC_EVENTS_NORMALIZED
    \<and> (\<exists>n why. stream (parser_handle ps l k dumps m b) (TOPIC_EVENTS_RAW @ ''.deadletter'')
        = stream b (TOPIC_EVENTS_RAW @ ''.deadletter'') @ [(n, (letter_with m why)\<lparr>bm_id := None\<rparr>)])"
proof -
  obtain why where "extract_severity p = Inl (''ValueError'', why)" using unreadable_severity [OF assms(4-8)] by blast
  hence n: "\<nexists>d. normalize l k p t r st co re ip = Inr d" for t r st co re ip
    by (auto simp: normalize_def Let_def bind_res_Inr)
  show ?thesis
    using refl [of "parser_handle ps l k dumps m b"] assms(2)
  proof (cases rule: parser_handle_cases)
    case (published d nn)
    thus ?thesis using process_success [OF published(1)] n assms(1,3) by (auto simp: payload_bytes_def)
  next
    case (buried stg why nn)
    thus ?thesis using letter_topic by (metis)
  qed
qed

section \<open>Whose event it is\<close>

lemma resolved_key:
  "resolve_collector_key e c t db = (Some k', db') \<Longrightarrow> \<exists>k \<in> set (api_keys db). k' = k\<lparr>key_used := Some (utcnow e)\<rparr> \<and> key_hash k = sha256_hex c t
    \<and> key_collector k \<and> key_revoked k = None \<and> (\<forall>x. key_expires k = Some x \<longrightarrow> utcnow e < x)"
  by (auto simp: resolve_collector_key_def Let_def split: option.splits if_splits dest!: find_Some_mem)


definition keyed_db :: identity_db where
  "keyed_db = login_db\<lparr>api_keys := [\<lparr>key_id = ''k1'', key_tenant = acme, key_name = ''edge'', key_hash = ''lsk_'' @ acme @ ''_0'',
     key_collector = True, key_used = None, key_expires = None, key_revoked = None, key_by = None\<rparr>]\<rparr>"


end
