(* ===== verification/Spec2Isabelle.thy ===== *)
theory Spec2Isabelle
  imports Workers Correlation_Loader Indexer Ingestion
begin

text \<open>A verification library for the detection pipeline of the LUNATIC SIEM backend.\<close>

end
